(* ===== verification/Prelude.thy ===== *)
theory Prelude
  imports Main
begin

text \<open>
  Shared ground of the development: the errors a Python script can stop with, the result type
  every fallible operation returns, its sequencing and its two loop combinators, and the
  interface of a dictionary with the facts every client of a dictionary needs.
\<close>

section \<open>Errors as values\<close>

named_theorems res_simps \<open>equations that evaluate sequenced results\<close>

text \<open>
  One constructor per exception class that the modelled code can raise. \<open>Unsupported\<close> marks
  operands outside the modelled part of the language (comparing a dictionary with a number, for
  instance); no theorem about a successful run goes through it.
\<close>

datatype pyerr =
    KeyError | IndexError | TypeError | AttributeError | ValueError | NameError
  | ZeroDivisionError | AssertionError | OSError | XLRDError | CompDocError
  | StructError | OverflowError | RuntimeError | AnyException | Unsupported

type_synonym 'a res = "pyerr + 'a"

definition rbind :: "'a res \<Rightarrow> ('a \<Rightarrow> 'b res) \<Rightarrow> 'b res" where
  "rbind m f = (case m of Inl e \<Rightarrow> Inl e | Inr x \<Rightarrow> f x)"

lemma rbind_Inl [simp, res_simps]: "rbind (Inl e) f = Inl e"
  by (simp add: rbind_def)

lemma rbind_Inr [simp, res_simps]: "rbind (Inr x) f = f x"
  by (simp add: rbind_def)

lemma rbind_cong [fundef_cong]:
  "m = m' \<Longrightarrow> (\<And>x. m' = Inr x \<Longrightarrow> f x = g x) \<Longrightarrow> rbind m f = rbind m' g"
  by (cases m') simp_all

lemma rbind_eq_Inr [simp]: "rbind m f = Inr y \<longleftrightarrow> (\<exists>x. m = Inr x \<and> f x = Inr y)"
  by (cases m) simp_all

lemma rbind_InrE:
  "rbind x f = Inr y \<Longrightarrow> (\<And>a. x = Inr a \<Longrightarrow> f a = Inr y \<Longrightarrow> P) \<Longrightarrow> P"
  by (cases x) simp_all

lemma rbind_assoc: "rbind (rbind m f) g = rbind m (\<lambda>x. rbind (f x) g)"
  by (cases m) simp_all

lemma rbind_if: "rbind (if b then m else m') f = (if b then rbind m f else rbind m' f)"
  by simp

lemma rbind_right [simp]: "rbind m Inr = m"
  by (cases m) simp_all

text \<open>A result read as an option: \<open>Some\<close> when the code returns.\<close>

definition of_option :: "pyerr \<Rightarrow> 'a option \<Rightarrow> 'a res" where
  "of_option e x = (case x of None \<Rightarrow> Inl e | Some y \<Rightarrow> Inr y)"

lemma of_option_simps [simp, res_simps]:
  "of_option e None = Inl e" "of_option e (Some y) = Inr y"
  by (simp_all add: of_option_def)

lemma of_option_eq_Inr [simp]: "of_option e x = Inr y \<longleftrightarrow> x = Some y"
  by (cases x) auto

text \<open>\<open>for x in xs: ys.append(f(x))\<close>: stops at the first exception.\<close>

fun rmap :: "('a \<Rightarrow> 'b res) \<Rightarrow> 'a list \<Rightarrow> 'b list res" where
  "rmap f [] = Inr []"
| "rmap f (x # xs) = rbind (f x) (\<lambda>y. rbind (rmap f xs) (\<lambda>ys. Inr (y # ys)))"

text \<open>\<open>for x in xs: s = f(x, s)\<close>: stops at the first exception.\<close>

fun rfold :: "('a \<Rightarrow> 's \<Rightarrow> 's res) \<Rightarrow> 'a list \<Rightarrow> 's \<Rightarrow> 's res" where
  "rfold f [] s = Inr s"
| "rfold f (x # xs) s = rbind (f x s) (rfold f xs)"

lemma rmap_cong [fundef_cong]:
  "xs = ys \<Longrightarrow> (\<And>x. x \<in> set ys \<Longrightarrow> f x = g x) \<Longrightarrow> rmap f xs = rmap g ys"
  by (induction ys arbitrary: xs) auto

lemma rfold_cong [fundef_cong]:
  "xs = ys \<Longrightarrow> s = t \<Longrightarrow> (\<And>x s. x \<in> set ys \<Longrightarrow> f x s = g x s) \<Longrightarrow> rfold f xs s = rfold g ys t"
proof (induction ys arbitrary: xs s t)
  case (Cons y ys)
  then have "f y t = g y t" "\<And>u. rfold f ys u = rfold g ys u" by auto
  with Cons.prems show ?case by (cases "g y t") simp_all
qed simp

lemma rmap_Inr: "rmap f xs = Inr ys \<longleftrightarrow> list_all2 (\<lambda>x y. f x = Inr y) xs ys"
  by (induction xs arbitrary: ys) (auto simp: list_all2_Cons1)

lemma rmap_total: "(\<And>x. x \<in> set xs \<Longrightarrow> f x = Inr (g x)) \<Longrightarrow> rmap f xs = Inr (map g xs)"
  by (induction xs) auto

lemma rfold_append: "rfold f (xs @ ys) s = rbind (rfold f xs s) (rfold f ys)"
proof (induction xs arbitrary: s)
  case (Cons x xs)
  show ?case by (cases "f x s") (simp_all add: Cons.IH)
qed simp

lemma rfold_total: "(\<And>x s. x \<in> set xs \<Longrightarrow> f x s = Inr (g x s)) \<Longrightarrow> rfold f xs s = Inr (fold g xs s)"
  by (induction xs arbitrary: s) auto

text \<open>The loop rule: an invariant of every iteration holds at the end.\<close>

lemma rfold_invariant:
  assumes "rfold f xs s = Inr t" and "P s"
    and "\<And>x s t. x \<in> set xs \<Longrightarrow> P s \<Longrightarrow> f x s = Inr t \<Longrightarrow> P t"
  shows "P t"
  using assms by (induction xs arbitrary: s) auto

lemma fold_invariant_set:
  assumes "P s" and "\<And>x s. x \<in> set xs \<Longrightarrow> P s \<Longrightarrow> P (f x s)"
  shows "P (fold f xs s)"
  using assms by (induction xs arbitrary: s) auto

lemma map_of_rev_distinct: "distinct (map fst xs) \<Longrightarrow> map_of (rev xs) = map_of xs"
proof
  fix k assume d: "distinct (map fst xs)"
  then have "distinct (map fst (rev xs))" by (simp flip: rev_map)
  with d have "map_of (rev xs) k = Some v \<longleftrightarrow> map_of xs k = Some v" for v by simp
  then show "map_of (rev xs) k = map_of xs k" by (metis option.exhaust)
qed

section \<open>The dictionary interface\<close>

text \<open>
  What the scripts rely on when they use a dictionary (or the file system as a map from paths):
  a lookup, an assignment \<open>d[k] = v\<close> and a deletion \<open>del d[k]\<close>, up to an equality of keys
  \<open>nk\<close> (Python compares \<open>u"a"\<close> with \<open>"a"\<close> and \<open>1\<close> with \<open>1.0\<close> as
  equal keys). The consequences below are proved once from these laws.
\<close>

locale dict_ops =
  fixes get :: "'d \<Rightarrow> 'k \<Rightarrow> 'v option"
    and put :: "'d \<Rightarrow> 'k \<Rightarrow> 'v \<Rightarrow> 'd"
    and del :: "'d \<Rightarrow> 'k \<Rightarrow> 'd"
    and nk :: "'k \<Rightarrow> 'n"
    and wf :: "'d \<Rightarrow> bool"
  assumes get_put: "wf d \<Longrightarrow> get (put d k v) k' = (if nk k' = nk k then Some v else get d k')"
    and get_del: "wf d \<Longrightarrow> get (del d k) k' = (if nk k' = nk k then None else get d k')"
    and get_nk: "wf d \<Longrightarrow> nk k = nk k' \<Longrightarrow> get d k = get d k'"
    and wf_put: "wf d \<Longrightarrow> wf (put d k v)"
    and wf_del: "wf d \<Longrightarrow> wf (del d k)"
begin

lemma get_put_same: "wf d \<Longrightarrow> get (put d k v) k = Some v"
  by (simp add: get_put)

lemma get_put_other: "wf d \<Longrightarrow> nk k' \<noteq> nk k \<Longrightarrow> get (put d k v) k' = get d k'"
  by (simp add: get_put)

lemma put_put: "wf d \<Longrightarrow> get (put (put d k v) k w) k' = get (put d k w) k'"
  by (simp add: get_put wf_put)

text \<open>\<open>for k, v in kvs: d[k] = v\<close>: the last pair of a key wins, the other keys are unchanged.\<close>

lemma wf_put_all: "wf d \<Longrightarrow> wf (fold (\<lambda>(k, v) d. put d k v) kvs d)"
  by (induction kvs arbitrary: d) (auto simp: wf_put split: prod.splits)

lemma get_put_all:
  "wf d \<Longrightarrow> get (fold (\<lambda>(k, v) d. put d k v) kvs d) k' =
     (case map_of (rev (map (\<lambda>(k, v). (nk k, v)) kvs)) (nk k') of Some v \<Rightarrow> Some v | None \<Rightarrow> get d k')"
proof (induction kvs arbitrary: d)
  case (Cons kv kvs)
  then show ?case
    by (cases kv) (auto simp: wf_put get_put map_add_def split: option.splits)
qed simp

lemma get_put_all_distinct:
  assumes "wf d" and "distinct (map (nk \<circ> fst) kvs)"
  shows "get (fold (\<lambda>(k, v) d. put d k v) kvs d) k' =
     (case map_of (map (\<lambda>(k, v). (nk k, v)) kvs) (nk k') of Some v \<Rightarrow> Some v | None \<Rightarrow> get d k')"
proof -
  have "distinct (map fst (map (\<lambda>(k, v). (nk k, v)) kvs))"
    using assms(2) by (simp add: o_def case_prod_beta')
  then have "map_of (rev (map (\<lambda>(k, v). (nk k, v)) kvs)) = map_of (map (\<lambda>(k, v). (nk k, v)) kvs)"
    by (rule map_of_rev_distinct)
  then show ?thesis using assms(1) by (simp add: get_put_all)
qed

end

section \<open>Association lists keyed by plain values\<close>

text \<open>The map the models use where keys are compared by plain equality (a path, a name).\<close>

fun aput :: "('k \<times> 'v) list \<Rightarrow> 'k \<Rightarrow> 'v \<Rightarrow> ('k \<times> 'v) list" where
  "aput [] k v = [(k, v)]"
| "aput ((k', v') # d) k v = (if k' = k then (k', v) # d else (k', v') # aput d k v)"

definition aget :: "('k \<times> 'v) list \<Rightarrow> 'k \<Rightarrow> 'v option" where
  "aget d k = map_of d k"

definition adel :: "('k \<times> 'v) list \<Rightarrow> 'k \<Rightarrow> ('k \<times> 'v) list" where
  "adel d k = filter (\<lambda>(k', _). k' \<noteq> k) d"

lemma aget_simps [simp]:
  "aget [] k = None" "aget ((k', v) # d) k = (if k' = k then Some v else aget d k)"
  by (auto simp: aget_def)

lemma aget_aput [simp]: "aget (aput d k v) k' = (if k' = k then Some v else aget d k')"
  by (induction d k v rule: aput.induct) auto

lemma aget_adel [simp]: "aget (adel d k) k' = (if k' = k then None else aget d k')"
  by (induction d) (auto simp: adel_def)

lemma fst_aput: "fst ` set (aput d k v) = insert k (fst ` set d)"
  by (induction d k v rule: aput.induct) auto

lemma distinct_aput: "distinct (map fst d) \<Longrightarrow> distinct (map fst (aput d k v))"
proof (induction d k v rule: aput.induct)
  case (2 k' v' d k v)
  then show ?case using fst_aput [of d k v] by (auto simp flip: set_map)
qed simp

lemma distinct_adel: "distinct (map fst d) \<Longrightarrow> distinct (map fst (adel d k))"
  by (simp add: adel_def distinct_map_filter)

lemma aget_None_iff: "aget d k = None \<longleftrightarrow> k \<notin> fst ` set d"
  by (simp add: aget_def map_of_eq_None_iff)

lemma aget_SomeD: "aget d k = Some v \<Longrightarrow> (k, v) \<in> set d"
  by (simp add: aget_def map_of_SomeD)

lemma aget_eq_Some: "distinct (map fst d) \<Longrightarrow> aget d k = Some v \<longleftrightarrow> (k, v) \<in> set d"
  by (simp add: aget_def)

interpretation amap: dict_ops aget aput adel "\<lambda>k. k" "\<lambda>_. True"
  by unfold_locales auto

end
