(* ===== verification/PyStr.thy ===== *)
theory PyStr
  imports Prelude "HOL-Library.Sublist"
begin

text \<open>
  The string operations of Python that the scripts use, on \<open>string\<close> (a list of bytes; a
  \<open>unicode\<close> value is represented by its UTF-8 bytes). Decimal printing and reading of
  integers, character classes, \<open>strip\<close>, \<open>split\<close> on a separator, \<open>replace\<close>,
  \<open>index\<close> and \<open>join\<close>, each with the law its clients rely on.
\<close>

section \<open>Character classes\<close>

definition is_digit :: "char \<Rightarrow> bool" where
  "is_digit c \<longleftrightarrow> 48 \<le> (of_char c :: nat) \<and> (of_char c :: nat) \<le> 57"

text \<open>\<open>\s\<close> of \<open>re\<close> and what \<open>str.strip()\<close> removes: blank, \<open>\t \n \v \f \r\<close>.\<close>

definition is_space :: "char \<Rightarrow> bool" where
  "is_space c \<longleftrightarrow> (of_char c :: nat) = 32 \<or> 9 \<le> (of_char c :: nat) \<and> (of_char c :: nat) \<le> 13"

definition is_alpha :: "char \<Rightarrow> bool" where
  "is_alpha c \<longleftrightarrow> 65 \<le> (of_char c :: nat) \<and> (of_char c :: nat) \<le> 90
     \<or> 97 \<le> (of_char c :: nat) \<and> (of_char c :: nat) \<le> 122"

definition newline :: char where
  "newline = char_of (10 :: nat)"

lemma newline_char: "newline = CHR 0x0A"
proof -
  have "(of_char newline :: nat) = of_char (CHR 0x0A)" by (simp add: newline_def)
  then show ?thesis by (simp only: of_char_eq_iff)
qed

text \<open>\<open>str.isdigit()\<close>: false for the empty string.\<close>

definition isdigit :: "string \<Rightarrow> bool" where
  "isdigit s \<longleftrightarrow> s \<noteq> [] \<and> list_all is_digit s"

lemma is_digit_not_space: "is_digit c \<Longrightarrow> \<not> is_space c"
  by (auto simp: is_digit_def is_space_def)

section \<open>Decimal notation\<close>

definition digit_char :: "nat \<Rightarrow> char" where
  "digit_char d = ''0123456789'' ! d"

definition digit_val :: "char \<Rightarrow> nat" where
  "digit_val c = of_char c - 48"

lemma less_10_cases: "d < 10 \<Longrightarrow> d \<in> {0, 1, 2, 3, 4, 5, 6, 7, 8, 9}" for d :: nat
  by auto

lemma of_char_digit_char: "d < 10 \<Longrightarrow> of_char (digit_char d) = 48 + d"
  by (drule less_10_cases) (auto simp: digit_char_def)

lemma digit_val_char [simp]: "d < 10 \<Longrightarrow> digit_val (digit_char d) = d"
  by (simp add: digit_val_def of_char_digit_char)

lemma is_digit_char [simp]: "d < 10 \<Longrightarrow> is_digit (digit_char d)"
  by (simp add: is_digit_def of_char_digit_char)

lemma digit_val_less [simp]: "is_digit c \<Longrightarrow> digit_val c < 10"
  by (auto simp: is_digit_def digit_val_def)

lemma digit_char_val [simp]: "is_digit c \<Longrightarrow> digit_char (digit_val c) = c"
proof -
  assume c: "is_digit c"
  then have "(of_char (digit_char (digit_val c)) :: nat) = of_char c"
    by (simp only: of_char_digit_char digit_val_less) (auto simp: is_digit_def digit_val_def)
  then show ?thesis by (simp only: of_char_eq_iff)
qed

lemma digit_char_inj: "d < 10 \<Longrightarrow> e < 10 \<Longrightarrow> digit_char d = digit_char e \<longleftrightarrow> d = e"
  by (metis digit_val_char)

lemma digit_char_0: "digit_char 0 = CHR ''0''"
  by (simp add: digit_char_def)

lemma digit_val_pos: "is_digit c \<Longrightarrow> c \<noteq> CHR ''0'' \<Longrightarrow> 0 < digit_val c"
  by (metis digit_char_0 digit_char_val gr0I)

text \<open>\<open>str(n)\<close> of a natural number, and the value \<open>int(s)\<close> of a string of digits.\<close>

fun str_of_nat :: "nat \<Rightarrow> string" where
  "str_of_nat n = (if n < 10 then [digit_char n] else str_of_nat (n div 10) @ [digit_char (n mod 10)])"

declare str_of_nat.simps [simp del]

text \<open>The two cases as conditional equations, which evaluate a numeral without looping.\<close>

lemma str_of_nat_eval:
  "n < 10 \<Longrightarrow> str_of_nat n = [digit_char n]"
  "10 \<le> n \<Longrightarrow> str_of_nat n = str_of_nat (n div 10) @ [digit_char (n mod 10)]"
  by (subst str_of_nat.simps, simp)+

definition nat_of_digits :: "string \<Rightarrow> nat" where
  "nat_of_digits s = foldl (\<lambda>a c. 10 * a + digit_val c) 0 s"

definition str_of_int :: "int \<Rightarrow> string" where
  "str_of_int i = (if i < 0 then CHR ''-'' # str_of_nat (nat (- i)) else str_of_nat (nat i))"

lemma nat_of_digits_simps [simp]:
  "nat_of_digits [] = 0" "nat_of_digits (s @ [c]) = 10 * nat_of_digits s + digit_val c"
  by (simp_all add: nat_of_digits_def)

lemma nat_of_digits_single [simp]: "nat_of_digits [c] = digit_val c"
  using nat_of_digits_simps(2) [of "[]" c] by simp

lemma str_of_nat_not_Nil [simp]: "str_of_nat n \<noteq> []"
  by (subst str_of_nat.simps) simp

lemma str_of_nat_digits: "list_all is_digit (str_of_nat n)"
proof (induction n rule: str_of_nat.induct)
  case (1 n)
  then show ?case by (subst str_of_nat.simps) simp
qed

lemma isdigit_str_of_nat [simp]: "isdigit (str_of_nat n)"
  by (simp add: isdigit_def str_of_nat_digits)

text \<open>Reading back what was printed.\<close>

lemma nat_of_digits_str_of_nat [simp]: "nat_of_digits (str_of_nat n) = n"
proof (induction n rule: str_of_nat.induct)
  case (1 n)
  then show ?case by (subst str_of_nat.simps) simp
qed

lemma str_of_nat_inj [simp]: "str_of_nat m = str_of_nat n \<longleftrightarrow> m = n"
  by (metis nat_of_digits_str_of_nat)

lemma nat_of_digits_pos:
  "list_all is_digit s \<Longrightarrow> s \<noteq> [] \<Longrightarrow> hd s \<noteq> CHR ''0'' \<Longrightarrow> 0 < nat_of_digits s"
proof (induction s rule: rev_induct)
  case (snoc c s)
  show ?case
  proof (cases "s = []")
    case True
    with snoc.prems show ?thesis by (simp add: digit_val_pos)
  next
    case False
    with snoc have "0 < nat_of_digits s" by simp
    then show ?thesis by simp
  qed
qed simp

text \<open>A string of digits with no leading zero is the decimal notation of its value.\<close>

lemma str_of_nat_of_digits:
  "isdigit s \<Longrightarrow> hd s \<noteq> CHR ''0'' \<Longrightarrow> str_of_nat (nat_of_digits s) = s"
proof (induction s rule: rev_induct)
  case (snoc c s)
  then have c: "is_digit c" by (simp add: isdigit_def)
  show ?case
  proof (cases "s = []")
    case True
    with c show ?thesis by (subst str_of_nat.simps) simp
  next
    case False
    with snoc have s: "isdigit s" "hd s \<noteq> CHR ''0''" by (simp_all add: isdigit_def)
    then have "0 < nat_of_digits s" by (simp add: isdigit_def nat_of_digits_pos)
    moreover have "str_of_nat (nat_of_digits s) = s" using snoc.IH s .
    ultimately show ?thesis using c by (subst str_of_nat.simps) simp
  qed
qed (simp add: isdigit_def)

lemma str_of_nat_hd: "0 < n \<Longrightarrow> hd (str_of_nat n) \<noteq> CHR ''0''"
proof (induction n rule: str_of_nat.induct)
  case (1 n)
  have "digit_char n \<noteq> CHR ''0''" if "0 < n" "n < 10"
    using that digit_char_inj [of n 0] by (simp add: digit_char_0)
  with 1 show ?case by (subst str_of_nat.simps) (simp add: div_greater_zero_iff)
qed

lemma str_of_int_not_Nil [simp]: "str_of_int i \<noteq> []"
  by (simp add: str_of_int_def)

lemma str_of_int_inj [simp]: "str_of_int i = str_of_int j \<longleftrightarrow> i = j"
proof -
  have "CHR ''-'' # s \<noteq> str_of_nat n" for s n
    using str_of_nat_digits [of n] by (auto simp: is_digit_def dest: sym)
  from this this [symmetric] show ?thesis
    by (auto simp: str_of_int_def)
qed

section \<open>Strip, split, replace, index, join\<close>

definition lstrip :: "string \<Rightarrow> string" where
  "lstrip s = dropWhile is_space s"

definition rstrip :: "string \<Rightarrow> string" where
  "rstrip s = rev (dropWhile is_space (rev s))"

definition strip :: "string \<Rightarrow> string" where
  "strip s = rstrip (lstrip s)"

text \<open>\<open>s.split(c)\<close> for a one-character separator: always at least one piece.\<close>

fun split_on :: "char \<Rightarrow> string \<Rightarrow> string list" where
  "split_on c [] = [[]]"
| "split_on c (x # s) =
     (if x = c then [] # split_on c s
      else case split_on c s of [] \<Rightarrow> [[x]] | p # ps \<Rightarrow> (x # p) # ps)"

fun join :: "string \<Rightarrow> string list \<Rightarrow> string" where
  "join sep [] = []"
| "join sep [s] = s"
| "join sep (s # t # ss) = s @ sep @ join sep (t # ss)"

text \<open>\<open>s.replace(old, new)\<close> for a non-empty \<open>old\<close>: left to right, no overlaps.\<close>

function str_replace :: "string \<Rightarrow> string \<Rightarrow> string \<Rightarrow> string" where
  "str_replace old new [] = []"
| "str_replace old new (c # s) =
     (if old \<noteq> [] \<and> prefix old (c # s) then new @ str_replace old new (drop (length old) (c # s))
      else c # str_replace old new s)"
  by pat_completeness auto
termination
proof (relation "measure (\<lambda>(old, new, s). length s)", goal_cases)
  case (2 old new c s)
  then show ?case by (cases old) auto
qed auto

text \<open>\<open>s.index(t)\<close> and \<open>s.find(t)\<close>: the position of the first occurrence.\<close>

fun find_sub :: "string \<Rightarrow> string \<Rightarrow> nat option" where
  "find_sub t [] = (if t = [] then Some 0 else None)"
| "find_sub t (c # s) = (if prefix t (c # s) then Some 0 else map_option Suc (find_sub t s))"

definition str_index :: "string \<Rightarrow> string \<Rightarrow> nat res" where
  "str_index t s = of_option ValueError (find_sub t s)"

text \<open>\<open>fp.readlines()\<close>: every line with its newline.\<close>

fun readlines :: "string \<Rightarrow> string list" where
  "readlines [] = []"
| "readlines (c # s) =
     (if c = newline then [c] # readlines s
      else case readlines s of [] \<Rightarrow> [[c]] | l # ls \<Rightarrow> (c # l) # ls)"

lemma split_on_not_Nil [simp]: "split_on c s \<noteq> []"
  by (induction s) (auto split: list.splits)

lemma split_on_simple: "c \<notin> set s \<Longrightarrow> split_on c s = [s]"
  by (induction s) auto

lemma split_on_append: "c \<notin> set s \<Longrightarrow> split_on c (s @ c # t) = s # split_on c t"
  by (induction s) auto

text \<open>Splitting what was joined gives the pieces back.\<close>

lemma split_join:
  "ss \<noteq> [] \<Longrightarrow> \<forall>s \<in> set ss. c \<notin> set s \<Longrightarrow> split_on c (join [c] ss) = ss"
  by (induction "[c]" ss rule: join.induct) (auto simp: split_on_simple split_on_append)

lemma find_sub_Some:
  "find_sub t s = Some i \<Longrightarrow> take (length t) (drop i s) = t \<and> i + length t \<le> length s"
proof (induction s arbitrary: i)
  case (Cons c s)
  show ?case
  proof (cases "prefix t (c # s)")
    case True
    with Cons.prems prefix_length_le [OF True] show ?thesis
      by (auto simp: prefix_def)
  next
    case False
    with Cons show ?thesis by auto
  qed
qed (simp split: if_splits)

lemma find_sub_first:
  assumes "find_sub t s = Some i" and "j < i"
  shows "\<not> prefix t (drop j s)"
  using assms
proof (induction s arbitrary: i j)
  case (Cons c s)
  then show ?case by (cases j) (auto split: if_splits)
qed (simp split: if_splits)

lemma find_sub_None: "find_sub t s = None \<longleftrightarrow> \<not> sublist t s"
  by (induction s) (auto simp: sublist_Cons_right)

lemma str_replace_absent:
  "hd old \<notin> set s \<Longrightarrow> old \<noteq> [] \<Longrightarrow> str_replace old new s = s"
  by (induction old new s rule: str_replace.induct) (auto simp: prefix_def Cons_eq_append_conv)

lemma str_replace_append:
  "hd old \<notin> set a \<Longrightarrow> old \<noteq> [] \<Longrightarrow> str_replace old new (a @ b) = a @ str_replace old new b"
  by (induction a) (auto simp: prefix_def Cons_eq_append_conv)

text \<open>The use the generators make of \<open>replace\<close>: one marker in a text that does not hold its
  first character otherwise.\<close>

lemma str_replace_once:
  assumes "old \<noteq> []" and "hd old \<notin> set a" and "hd old \<notin> set b"
  shows "str_replace old new (a @ old @ b) = a @ new @ b"
proof -
  obtain c o' where old: "old = c # o'" using assms(1) by (cases old) auto
  have "str_replace old new (old @ b) = new @ str_replace old new b"
    by (simp add: old)
  then show ?thesis using assms by (simp add: str_replace_append str_replace_absent)
qed

end
