(* ===== verification/PyValue.thy ===== *)
theory PyValue
  imports PyStr Complex_Main
begin

text \<open>
  The Python values the scripts handle: what \<open>bson.decode_all\<close>, \<open>json.loads\<close> and a
  MongoDB cursor produce, and what the scripts build from it. A dictionary is an association
  list whose order is the order in which the interpreter iterates over it; CPython 2.7 does not
  specify where a new key goes in that order, the model appends it, and the properties about
  dictionaries speak of lookups, which do not depend on it. A \<open>str\<close> and a \<open>unicode\<close>
  value are both byte strings (the latter in UTF-8); they are equal as keys exactly when they hold
  the same ASCII text. A float is the rational number it denotes (no infinities, no NaN).
\<close>

section \<open>Keys\<close>

datatype pykey =
    KNone | KBool bool | KInt int | KFloat rat | KStr string | KUni string | KOther nat

datatype nkey = NNone | NNum rat | NStr string | NBytes string | NOther nat

definition is_ascii :: "string \<Rightarrow> bool" where
  "is_ascii s \<longleftrightarrow> list_all (\<lambda>c. (of_char c :: nat) < 128) s"

text \<open>Two keys are the same key of a dictionary when they have the same normal form.\<close>

fun knorm :: "pykey \<Rightarrow> nkey" where
  "knorm KNone = NNone"
| "knorm (KBool b) = NNum (if b then 1 else 0)"
| "knorm (KInt i) = NNum (of_int i)"
| "knorm (KFloat r) = NNum r"
| "knorm (KStr s) = (if is_ascii s then NStr s else NBytes s)"
| "knorm (KUni s) = NStr s"
| "knorm (KOther n) = NOther n"

section \<open>Dictionaries\<close>

fun dget :: "(pykey \<times> 'v) list \<Rightarrow> pykey \<Rightarrow> 'v option" where
  "dget [] k = None"
| "dget ((k', v) # d) k = (if knorm k' = knorm k then Some v else dget d k)"

text \<open>\<open>d[k] = v\<close>: an equal key already in the dictionary stays, with the new value.\<close>

fun dput :: "(pykey \<times> 'v) list \<Rightarrow> pykey \<Rightarrow> 'v \<Rightarrow> (pykey \<times> 'v) list" where
  "dput [] k v = [(k, v)]"
| "dput ((k', v') # d) k v = (if knorm k' = knorm k then (k', v) # d else (k', v') # dput d k v)"

definition ddel :: "(pykey \<times> 'v) list \<Rightarrow> pykey \<Rightarrow> (pykey \<times> 'v) list" where
  "ddel d k = filter (\<lambda>(k', _). knorm k' \<noteq> knorm k) d"

definition dhas :: "(pykey \<times> 'v) list \<Rightarrow> pykey \<Rightarrow> bool" where
  "dhas d k \<longleftrightarrow> dget d k \<noteq> None"

definition dkeys :: "(pykey \<times> 'v) list \<Rightarrow> nkey list" where
  "dkeys d = map (knorm \<circ> fst) d"

lemma dkeys_simps [simp]: "dkeys [] = []" "dkeys ((k, v) # d) = knorm k # dkeys d"
  "dkeys (d @ e) = dkeys d @ dkeys e"
  by (simp_all add: dkeys_def)

lemma dkeys_mem: "(k, v) \<in> set d \<Longrightarrow> knorm k \<in> set (dkeys d)"
  by (force simp: dkeys_def)

lemma dget_dput [simp]: "dget (dput d k v) k' = (if knorm k' = knorm k then Some v else dget d k')"
  by (induction d k v rule: dput.induct) auto

lemma dget_ddel [simp]: "dget (ddel d k) k' = (if knorm k' = knorm k then None else dget d k')"
  by (induction d) (auto simp: ddel_def)

lemma dget_knorm: "knorm k = knorm k' \<Longrightarrow> dget d k = dget d k'"
  by (induction d) auto

interpretation pydict: dict_ops dget dput ddel knorm "\<lambda>_. True"
  by unfold_locales (auto intro: dget_knorm)

lemma dget_map_of: "dget d k = map_of (map (\<lambda>(k, v). (knorm k, v)) d) (knorm k)"
  by (induction d) auto

lemma dget_None_iff: "dget d k = None \<longleftrightarrow> knorm k \<notin> set (dkeys d)"
  by (induction d) (auto split: if_splits)

lemma dget_SomeD: "dget d k = Some v \<Longrightarrow> \<exists>k'. (k', v) \<in> set d \<and> knorm k' = knorm k"
  by (induction d) (auto split: if_splits)

lemma dget_mem: "distinct (dkeys d) \<Longrightarrow> (k, v) \<in> set d \<Longrightarrow> dget d k = Some v"
proof (induction d)
  case (Cons kv d)
  then show ?case
    by (cases kv; cases "(k, v) \<in> set d") (auto dest: dkeys_mem)
qed simp

lemma dget_append: "dget (d @ e) k = (case dget d k of None \<Rightarrow> dget e k | Some v \<Rightarrow> Some v)"
  by (induction d) auto

lemma dkeys_dput: "dkeys (dput d k v) = (if dhas d k then dkeys d else dkeys d @ [knorm k])"
  by (induction d k v rule: dput.induct) (auto simp: dhas_def)

lemma distinct_dput: "distinct (dkeys d) \<Longrightarrow> distinct (dkeys (dput d k v))"
  by (simp add: dkeys_dput) (auto simp: dhas_def dget_None_iff)

lemma dput_absent: "dget d k = None \<Longrightarrow> dput d k v = d @ [(k, v)]"
  by (induction d) (auto split: if_splits)

lemma dput_values: "(k', v') \<in> set (dput d k v) \<Longrightarrow> v' = v \<or> (\<exists>k''. (k'', v') \<in> set d)"
  by (induction d k v rule: dput.induct) (auto split: if_splits)

section \<open>Values\<close>

datatype pyval =
    PNone | PBool bool | PInt int | PFloat rat | PStr string | PUni string | POther nat
  | PList "pyval list" | PDict "(pykey \<times> pyval) list"

text \<open>\<open>bool(v)\<close>, the test of \<open>if v\<close> and \<open>not v\<close>.\<close>

fun truthy :: "pyval \<Rightarrow> bool" where
  "truthy PNone \<longleftrightarrow> False"
| "truthy (PBool b) \<longleftrightarrow> b"
| "truthy (PInt i) \<longleftrightarrow> i \<noteq> 0"
| "truthy (PFloat r) \<longleftrightarrow> r \<noteq> 0"
| "truthy (PStr s) \<longleftrightarrow> s \<noteq> []"
| "truthy (PUni s) \<longleftrightarrow> s \<noteq> []"
| "truthy (POther n) \<longleftrightarrow> True"
| "truthy (PList vs) \<longleftrightarrow> vs \<noteq> []"
| "truthy (PDict d) \<longleftrightarrow> d \<noteq> []"

text \<open>\<open>x or y\<close>.\<close>

definition py_or :: "pyval \<Rightarrow> pyval \<Rightarrow> pyval" where
  "py_or v w = (if truthy v then v else w)"

fun num_of :: "pyval \<Rightarrow> rat option" where
  "num_of (PBool b) = Some (if b then 1 else 0)"
| "num_of (PInt i) = Some (of_int i)"
| "num_of (PFloat r) = Some r"
| "num_of _ = None"

text \<open>Order and addition of numbers; other operands are not modelled.\<close>

definition py_lt :: "pyval \<Rightarrow> pyval \<Rightarrow> bool res" where
  "py_lt v w = (case (num_of v, num_of w) of (Some a, Some b) \<Rightarrow> Inr (a < b) | _ \<Rightarrow> Inl Unsupported)"

fun int_of :: "pyval \<Rightarrow> int option" where
  "int_of (PBool b) = Some (of_bool b)"
| "int_of (PInt i) = Some i"
| "int_of _ = None"

definition py_add :: "pyval \<Rightarrow> pyval \<Rightarrow> pyval res" where
  "py_add v w =
     (case (int_of v, int_of w) of
        (Some i, Some j) \<Rightarrow> Inr (PInt (i + j))
      | _ \<Rightarrow> if v = PNone \<or> w = PNone then Inl TypeError else Inl Unsupported)"

text \<open>A value as a key (\<open>TypeError\<close> when it is not hashable), and a key as a value.\<close>

fun key_of :: "pyval \<Rightarrow> pykey res" where
  "key_of PNone = Inr KNone"
| "key_of (PBool b) = Inr (KBool b)"
| "key_of (PInt i) = Inr (KInt i)"
| "key_of (PFloat r) = Inr (KFloat r)"
| "key_of (PStr s) = Inr (KStr s)"
| "key_of (PUni s) = Inr (KUni s)"
| "key_of (POther n) = Inr (KOther n)"
| "key_of (PList _) = Inl TypeError"
| "key_of (PDict _) = Inl TypeError"

fun val_of_key :: "pykey \<Rightarrow> pyval" where
  "val_of_key KNone = PNone"
| "val_of_key (KBool b) = PBool b"
| "val_of_key (KInt i) = PInt i"
| "val_of_key (KFloat r) = PFloat r"
| "val_of_key (KStr s) = PStr s"
| "val_of_key (KUni s) = PUni s"
| "val_of_key (KOther n) = POther n"

lemma key_of_val_of_key [simp]: "key_of (val_of_key k) = Inr k"
  by (cases k) simp_all

text \<open>\<open>v[k]\<close>, \<open>v.has_key(k)\<close>, \<open>v[k] = w\<close> and \<open>v.items()\<close> with a key that is no integer
  index: only dictionaries support them.\<close>

fun getitem :: "pyval \<Rightarrow> pykey \<Rightarrow> pyval res" where
  "getitem (PDict d) k = of_option KeyError (dget d k)"
| "getitem _ k = Inl TypeError"

fun has_key :: "pyval \<Rightarrow> pykey \<Rightarrow> bool res" where
  "has_key (PDict d) k = Inr (dhas d k)"
| "has_key _ k = Inl AttributeError"

fun setitem :: "pyval \<Rightarrow> pykey \<Rightarrow> pyval \<Rightarrow> pyval res" where
  "setitem (PDict d) k w = Inr (PDict (dput d k w))"
| "setitem _ k w = Inl TypeError"

fun items_of :: "pyval \<Rightarrow> (pykey \<times> pyval) list res" where
  "items_of (PDict d) = Inr d"
| "items_of _ = Inl AttributeError"

text \<open>\<open>for x in v\<close> over a list (a dictionary yields its keys), and \<open>v.append(w)\<close>.\<close>

fun iter_of :: "pyval \<Rightarrow> pyval list res" where
  "iter_of (PList vs) = Inr vs"
| "iter_of (PDict d) = Inr (map (val_of_key \<circ> fst) d)"
| "iter_of (PStr s) = Inr (map (\<lambda>c. PStr [c]) s)"
| "iter_of (PUni s) = Inl Unsupported"
| "iter_of _ = Inl TypeError"

text \<open>The value as a list with the methods of a list.\<close>

fun list_of :: "pyval \<Rightarrow> pyval list res" where
  "list_of (PList vs) = Inr vs"
| "list_of _ = Inl AttributeError"

lemma getitem_Inr: "getitem v k = Inr w \<longleftrightarrow> (\<exists>d. v = PDict d \<and> dget d k = Some w)"
  by (cases v) auto

lemma setitem_Inr: "setitem v k w = Inr v' \<longleftrightarrow> (\<exists>d. v = PDict d \<and> v' = PDict (dput d k w))"
  by (cases v) auto

lemma items_of_Inr: "items_of v = Inr d \<longleftrightarrow> v = PDict d"
  by (cases v) auto

lemma has_key_Inr: "has_key v k = Inr b \<longleftrightarrow> (\<exists>d. v = PDict d \<and> b = dhas d k)"
  by (cases v) auto

lemma list_of_Inr: "list_of v = Inr xs \<longleftrightarrow> v = PList xs"
  by (cases v) auto

lemma dict_value_size: "(k, v) \<in> set d \<Longrightarrow> size v < Suc (size_list (size_prod (\<lambda>_. 0) size) d)"
  by (induction d) auto

section \<open>Equality of values\<close>

text \<open>
  \<open>v == w\<close> as Python decides it: dictionaries are equal when they have as many entries and
  every entry of one has an equal entry in the other, whatever their order.
\<close>

fun py_eq :: "pyval \<Rightarrow> pyval \<Rightarrow> bool" where
  "py_eq (PList vs) w \<longleftrightarrow> (case w of PList ws \<Rightarrow> list_all2 py_eq vs ws | _ \<Rightarrow> False)"
| "py_eq (PDict d) w \<longleftrightarrow>
     (case w of PDict e \<Rightarrow>
        length d = length e
        \<and> list_all (\<lambda>(k, v). case dget e k of None \<Rightarrow> False | Some x \<Rightarrow> py_eq v x) d
      | _ \<Rightarrow> False)"
| "py_eq v w \<longleftrightarrow>
     (case (key_of v, key_of w) of (Inr a, Inr b) \<Rightarrow> knorm a = knorm b | _ \<Rightarrow> False)"

section \<open>Numbers as text\<close>

text \<open>
  \<open>str(x)\<close> and \<open>unicode(x)\<close> of a float: twelve significant digits, correctly rounded, the
  shortest of fixed and exponent notation as C's \<open>%.12g\<close> chooses it, with \<open>.0\<close> added to a
  number that would read as an integer.
\<close>

definition pow10 :: "int \<Rightarrow> rat" where
  "pow10 e = (if 0 \<le> e then 10 ^ nat e else 1 / 10 ^ nat (- e))"

definition round_half_even :: "rat \<Rightarrow> int" where
  "round_half_even x =
     (let f = \<lfloor>x\<rfloor>; d = x - of_int f
      in if d < 1/2 then f else if 1/2 < d then f + 1 else if even f then f else f + 1)"

text \<open>The decimal exponent of a positive number: \<open>10 ^ e \<le> r < 10 ^ (e + 1)\<close>.\<close>

definition exp10 :: "rat \<Rightarrow> int" where
  "exp10 r =
     (if 1 \<le> r then int (length (str_of_nat (nat \<lfloor>r\<rfloor>))) - 1
      else - int (length (str_of_nat (nat (\<lceil>1 / r\<rceil> - 1)))))"

definition strip_zeros :: "string \<Rightarrow> string" where
  "strip_zeros s = rev (dropWhile (\<lambda>c. c = CHR ''0'') (rev s))"

definition fmt_fixed :: "string \<Rightarrow> int \<Rightarrow> string" where
  "fmt_fixed ds e =
     (if 0 \<le> e then
        let n = Suc (nat e); ip = take n ds @ replicate (n - length ds) CHR ''0''; fp = drop n ds
        in ip @ ''.'' @ (if fp = [] then ''0'' else fp)
      else ''0.'' @ replicate (nat (- e) - 1) CHR ''0'' @ ds)"

definition fmt_exp :: "string \<Rightarrow> int \<Rightarrow> string" where
  "fmt_exp ds e =
     take 1 ds @ (if length ds \<le> 1 then [] else ''.'' @ drop 1 ds)
     @ ''e'' @ (if e < 0 then ''-'' else ''+'')
     @ (if \<bar>e\<bar> < 10 then ''0'' else []) @ str_of_nat (nat \<bar>e\<bar>)"

definition str_of_pos_float :: "rat \<Rightarrow> string" where
  "str_of_pos_float r =
     (let e = exp10 r; n = round_half_even (r / pow10 (e - 11));
          (n', e') = (if n = 10 ^ 12 then (10 ^ 11, e + 1) else (n, e));
          ds = strip_zeros (str_of_nat (nat n'))
      in if - 4 \<le> e' \<and> e' < 12 then fmt_fixed ds e' else fmt_exp ds e')"

definition str_of_float :: "rat \<Rightarrow> string" where
  "str_of_float r =
     (if r = 0 then ''0.0''
      else if r < 0 then CHR ''-'' # str_of_pos_float (- r) else str_of_pos_float r)"

text \<open>\<open>unicode(v)\<close> of a scalar; the text of a container is not modelled.\<close>

fun unicode_of :: "pyval \<Rightarrow> string res" where
  "unicode_of PNone = Inr ''None''"
| "unicode_of (PBool b) = Inr (if b then ''True'' else ''False'')"
| "unicode_of (PInt i) = Inr (str_of_int i)"
| "unicode_of (PFloat r) = Inr (str_of_float r)"
| "unicode_of (PStr s) = (if is_ascii s then Inr s else Inl ValueError)"
| "unicode_of (PUni s) = Inr s"
| "unicode_of _ = Inl Unsupported"

end
