(* ===== verification/PyOps.thy ===== *)
theory PyOps
  imports PyValue
begin

text \<open>
  The statements on values that the database scripts are written in: creating a missing entry,
  copying the items of one dictionary into another, appending to a list, and the loops made of
  them. Each has the lemma its users need: when it succeeds, and what a lookup returns after it.
\<close>

section \<open>Statements\<close>

text \<open>\<open>if not m.has_key(k): m[k] = dflt\<close>.\<close>

definition ensure :: "pyval \<Rightarrow> pykey \<Rightarrow> pyval \<Rightarrow> pyval res" where
  "ensure m k dflt = rbind (has_key m k) (\<lambda>b. if b then Inr m else setitem m k dflt)"

text \<open>\<open>for k, v in src.items(): dst[k] = v\<close>.\<close>

definition copy_items :: "pyval \<Rightarrow> pyval \<Rightarrow> pyval res" where
  "copy_items src dst = rbind (items_of src) (\<lambda>kvs. rfold (\<lambda>(k, v) d. setitem d k v) kvs dst)"

text \<open>\<open>len(v)\<close> and \<open>v.append(x)\<close>.\<close>

fun py_len :: "pyval \<Rightarrow> nat res" where
  "py_len (PList vs) = Inr (length vs)"
| "py_len (PDict d) = Inr (length d)"
| "py_len (PStr s) = Inr (length s)"
| "py_len (PUni s) = Inl Unsupported"
| "py_len _ = Inl TypeError"

definition py_append :: "pyval \<Rightarrow> pyval \<Rightarrow> pyval res" where
  "py_append v x = rbind (list_of v) (\<lambda>vs. Inr (PList (vs @ [x])))"

text \<open>\<open>for x in xs: if len(dst) >= cap: break; dst.append(x)\<close>.\<close>

fun append_capped :: "nat \<Rightarrow> pyval list \<Rightarrow> pyval \<Rightarrow> pyval res" where
  "append_capped cap [] dst = Inr dst"
| "append_capped cap (x # xs) dst =
     rbind (py_len dst) (\<lambda>n. if cap \<le> n then Inr dst
       else rbind (py_append dst x) (append_capped cap xs))"

text \<open>\<open>for x in xs: dst.append(x)\<close>.\<close>

definition append_all :: "pyval list \<Rightarrow> pyval \<Rightarrow> pyval res" where
  "append_all xs dst = rfold (\<lambda>x d. py_append d x) xs dst"

section \<open>Their effect\<close>

definition ensured :: "(pykey \<times> 'v) list \<Rightarrow> pykey \<Rightarrow> 'v \<Rightarrow> (pykey \<times> 'v) list" where
  "ensured d k v = (if dhas d k then d else dput d k v)"

lemma ensure_dict [simp]: "ensure (PDict d) k v = Inr (PDict (ensured d k v))"
  by (simp add: ensure_def ensured_def)

lemma ensure_Inr: "ensure m k v = Inr m' \<longleftrightarrow> (\<exists>d. m = PDict d \<and> m' = PDict (ensured d k v))"
  by (cases m) (auto simp: ensure_def ensured_def)

lemma dget_ensured [simp]:
  "dget (ensured d k v) k' =
     (if knorm k' = knorm k then Some (case dget d k of None \<Rightarrow> v | Some w \<Rightarrow> w) else dget d k')"
  using dget_knorm [of k' k d] by (auto simp: ensured_def dhas_def split: option.splits)

definition dput_all :: "(pykey \<times> 'v) list \<Rightarrow> (pykey \<times> 'v) list \<Rightarrow> (pykey \<times> 'v) list" where
  "dput_all kvs d = fold (\<lambda>(k, v) d. dput d k v) kvs d"

lemma rfold_setitem [simp]: "rfold (\<lambda>(k, v) d. setitem d k v) kvs (PDict d) = Inr (PDict (dput_all kvs d))"
  by (induction kvs arbitrary: d) (auto simp: dput_all_def)

lemma copy_items_dict [simp]: "copy_items (PDict s) (PDict d) = Inr (PDict (dput_all s d))"
  by (simp add: copy_items_def)

text \<open>After the copy a key of the source has the source's value, another key is unchanged.\<close>

lemma dget_dput_all:
  "distinct (dkeys s) \<Longrightarrow> dget (dput_all s d) k = (case dget s k of Some v \<Rightarrow> Some v | None \<Rightarrow> dget d k)"
  unfolding dput_all_def
  by (subst pydict.get_put_all_distinct) (simp_all add: dkeys_def dget_map_of)

lemma append_all_list [simp]: "append_all xs (PList ys) = Inr (PList (ys @ xs))"
  unfolding append_all_def by (induction xs arbitrary: ys) (auto simp: py_append_def)

lemma append_capped_list [simp]:
  "append_capped cap xs (PList ys) = Inr (PList (ys @ take (cap - length ys) xs))"
proof (induction xs arbitrary: ys)
  case (Cons x xs)
  show ?case
  proof (cases "cap \<le> length ys")
    case False
    then have "cap - length ys = Suc (cap - Suc (length ys))" by simp
    with False Cons show ?thesis by (simp add: py_append_def)
  qed simp
qed simp

text \<open>
  Reading a value at a path of keys: \<open>v[k1][k2]...\<close> when every step is an entry of a
  dictionary. The properties of the merge are stated with it.
\<close>

fun vpath :: "pykey list \<Rightarrow> pyval \<Rightarrow> pyval option" where
  "vpath [] v = Some v"
| "vpath (k # ks) (PDict d) = (case dget d k of None \<Rightarrow> None | Some w \<Rightarrow> vpath ks w)"
| "vpath (k # ks) _ = None"

lemma vpath_append: "vpath (ks @ ls) v = (case vpath ks v of None \<Rightarrow> None | Some w \<Rightarrow> vpath ls w)"
  by (induction ks v rule: vpath.induct) (auto split: option.splits)

end
