(* ===== verification/Tables.thy ===== *)
theory Tables
  imports PyOps
begin

text \<open>
  Loops over the items of a table that update the entries of another one, and the readings of
  an entry as a number, a list or a table that the conditions of the merge are stated with.
\<close>

section \<open>Updating the entries of a table\<close>

lemma dhas_simps: "dget d k = None \<Longrightarrow> \<not> dhas d k" "dget d k = Some v \<Longrightarrow> dhas d k"
  by (simp_all add: dhas_def)

text \<open>
  The contract the loops share: one turn changes the entry of its own key, to a value related to
  the source's value and the entry it finds, and no other entry. A loop over the items of a table
  then changes exactly the entries of the keys of that table.
\<close>

locale keyed_relation =
  fixes step :: "pykey \<times> pyval \<Rightarrow> pyval \<Rightarrow> pyval res"
    and rel :: "pykey \<Rightarrow> pyval \<Rightarrow> pyval option \<Rightarrow> pyval \<Rightarrow> bool"
    and ok :: "pyval \<Rightarrow> pyval option \<Rightarrow> bool"
  assumes turn: "ok v (dget d k) \<Longrightarrow> \<exists>d' w. step (k, v) (PDict d) = Inr (PDict d') \<and> rel k v (dget d k) w
    \<and> (\<forall>k'. dget d' k' = (if knorm k' = knorm k then Some w else dget d k'))"
begin

lemma run_keyed:
  assumes "distinct (dkeys kvs)" and "\<And>k v. (k, v) \<in> set kvs \<Longrightarrow> ok v (dget d k)"
  shows "\<exists>d'. rfold step kvs (PDict d) = Inr (PDict d')
    \<and> (\<forall>(k, v) \<in> set kvs. \<exists>w. dget d' k = Some w \<and> rel k v (dget d k) w)
    \<and> (\<forall>k. dget kvs k = None \<longrightarrow> dget d' k = dget d k)"
  using assms
proof (induction kvs arbitrary: d)
  case (Cons kv kvs)
  obtain k v where kv: "kv = (k, v)" by (cases kv)
  have fresh: "dget kvs k = None" using Cons.prems(1) by (simp add: kv dget_None_iff)
  from turn [of v d k] Cons.prems(2) [of k v] obtain d1 w1 where d1:
    "step (k, v) (PDict d) = Inr (PDict d1)" "rel k v (dget d k) w1"
    "\<And>k'. dget d1 k' = (if knorm k' = knorm k then Some w1 else dget d k')"
    by (auto simp: kv)
  have other: "dget d1 k' = dget d k'" if "(k', v') \<in> set kvs" for k' v'
    using that Cons.prems(1) dkeys_mem [OF that] by (auto simp: kv d1(3))
  then have "ok v' (dget d1 k')" if "(k', v') \<in> set kvs" for k' v'
    using that Cons.prems(2) [of k' v'] by (simp add: kv)
  with Cons.IH [of d1] Cons.prems(1) obtain d2 where d2:
    "rfold step kvs (PDict d1) = Inr (PDict d2)"
    "\<forall>(k, v) \<in> set kvs. \<exists>w. dget d2 k = Some w \<and> rel k v (dget d1 k) w"
    "\<And>k. dget kvs k = None \<Longrightarrow> dget d2 k = dget d1 k"
    by (auto simp: kv)
  have "\<forall>(k, v) \<in> set kvs. \<exists>w. dget d2 k = Some w \<and> rel k v (dget d k) w"
    using d2(2) other by fastforce
  moreover have "\<exists>w. dget d2 k = Some w \<and> rel k v (dget d k) w"
    using d1(2,3) d2(3) [OF fresh] by simp
  moreover have "dget d2 k' = dget d k'" if "dget (kv # kvs) k' = None" for k'
    using that d2(3) by (simp add: kv d1(3) split: if_splits)
  ultimately show ?case using d1(1) d2(1) by (simp add: kv)
qed simp

end

text \<open>The case where the new value is a function of the two.\<close>

locale entry_update =
  fixes step :: "pykey \<times> pyval \<Rightarrow> pyval \<Rightarrow> pyval res"
    and new :: "pyval \<Rightarrow> pyval option \<Rightarrow> pyval"
    and ok :: "pyval \<Rightarrow> pyval option \<Rightarrow> bool"
  assumes step: "ok v (dget d k) \<Longrightarrow> \<exists>d'. step (k, v) (PDict d) = Inr (PDict d')
    \<and> (\<forall>k'. dget d' k' = (if knorm k' = knorm k then Some (new v (dget d k)) else dget d k'))"

sublocale entry_update \<subseteq> keyed_relation step "\<lambda>_ v w w'. w' = new v w" ok
  by unfold_locales (auto dest: step)

context entry_update
begin

lemma run:
  assumes "distinct (dkeys kvs)" and "\<And>k v. (k, v) \<in> set kvs \<Longrightarrow> ok v (dget d k)"
  shows "\<exists>d'. rfold step kvs (PDict d) = Inr (PDict d')
    \<and> (\<forall>k. dget d' k = (case dget kvs k of Some v \<Rightarrow> Some (new v (dget d k)) | None \<Rightarrow> dget d k))"
proof -
  from run_keyed [OF assms] obtain d' where d': "rfold step kvs (PDict d) = Inr (PDict d')"
    "\<forall>(k, v) \<in> set kvs. dget d' k = Some (new v (dget d k))"
    "\<And>k. dget kvs k = None \<Longrightarrow> dget d' k = dget d k" by auto
  have "dget d' k = Some (new v (dget d k))" if "dget kvs k = Some v" for k v
  proof -
    from dget_SomeD [OF that] obtain l where l: "(l, v) \<in> set kvs" "knorm k = knorm l" by metis
    with d'(2) have "dget d' l = Some (new v (dget d l))" by auto
    then show ?thesis using dget_knorm [OF l(2)] by metis
  qed
  with d' show ?thesis by (auto split: option.splits)
qed

end

text \<open>The list or the number an entry holds, with the value the code creates where there is none.\<close>

definition as_int :: "pyval option \<Rightarrow> int" where
  "as_int v = (case v of Some (PInt i) \<Rightarrow> i | _ \<Rightarrow> 0)"

definition as_list :: "pyval option \<Rightarrow> pyval list" where
  "as_list v = (case v of Some (PList xs) \<Rightarrow> xs | _ \<Rightarrow> [])"

definition as_table :: "pyval option \<Rightarrow> (pykey \<times> pyval) list" where
  "as_table v = (case v of Some (PDict d) \<Rightarrow> d | _ \<Rightarrow> [])"

definition int_or_none :: "pyval option \<Rightarrow> bool" where
  "int_or_none v \<longleftrightarrow> v = None \<or> v = Some (PInt (as_int v))"

definition list_or_none :: "pyval option \<Rightarrow> bool" where
  "list_or_none v \<longleftrightarrow> v = None \<or> v = Some (PList (as_list v))"

definition table_or_none :: "pyval option \<Rightarrow> bool" where
  "table_or_none v \<longleftrightarrow> v = None \<or> v = Some (PDict (as_table v))"

lemma as_simps [simp]:
  "as_int (Some (PInt i)) = i" "as_int None = 0"
  "as_list (Some (PList xs)) = xs" "as_list None = []"
  "as_table (Some (PDict d)) = d" "as_table None = []"
  by (simp_all add: as_int_def as_list_def as_table_def)

lemma or_none_simps [simp]:
  "int_or_none None" "list_or_none None" "table_or_none None"
  "int_or_none (Some v) \<longleftrightarrow> v = PInt (as_int (Some v))"
  "list_or_none (Some v) \<longleftrightarrow> v = PList (as_list (Some v))"
  "table_or_none (Some v) \<longleftrightarrow> v = PDict (as_table (Some v))"
  by (auto simp: int_or_none_def list_or_none_def table_or_none_def)

lemma int_or_noneE: "int_or_none v \<Longrightarrow> v = None \<or> (\<exists>i. v = Some (PInt i))"
  by (auto simp: int_or_none_def)

lemma list_or_noneE: "list_or_none v \<Longrightarrow> v = None \<or> (\<exists>xs. v = Some (PList xs))"
  by (auto simp: list_or_none_def)

lemma table_or_noneE: "table_or_none v \<Longrightarrow> v = None \<or> (\<exists>d. v = Some (PDict d))"
  by (auto simp: table_or_none_def)

lemmas or_noneE = int_or_noneE list_or_noneE table_or_noneE

text \<open>Every entry of a table satisfies a condition together with the entry it meets.\<close>

definition entries_ok ::
  "(pyval \<Rightarrow> pyval option \<Rightarrow> bool) \<Rightarrow> (pykey \<times> pyval) list \<Rightarrow> (pykey \<times> pyval) list \<Rightarrow> bool" where
  "entries_ok ok kvs d \<longleftrightarrow> distinct (dkeys kvs) \<and> list_all (\<lambda>(k, v). ok v (dget d k)) kvs"

lemma entries_okD:
  "entries_ok ok kvs d \<Longrightarrow> distinct (dkeys kvs)"
  "entries_ok ok kvs d \<Longrightarrow> (k, v) \<in> set kvs \<Longrightarrow> ok v (dget d k)"
  by (auto simp: entries_ok_def list_all_iff)

lemma knorm_KStr_eq: "knorm (KStr s) = knorm (KStr t) \<longleftrightarrow> s = t"
  by auto

lemma dget_as_table:
  "table_or_none (dget d k) \<Longrightarrow> dget (ensured d k (PDict [])) k = Some (PDict (as_table (dget d k)))"
  by (auto dest!: or_noneE)

lemma vpath_1: "vpath [k] v = Some w \<longleftrightarrow> (\<exists>d. v = PDict d \<and> dget d k = Some w)"
  by (cases v) (auto split: option.splits)

lemma vpath_2: "vpath [k, l] v = Some w \<longleftrightarrow>
    (\<exists>d e. v = PDict d \<and> dget d k = Some (PDict e) \<and> dget e l = Some w)"
  by (cases v) (auto simp: vpath_1 split: option.splits)

lemma dhas_fst: "n \<in> set (map fst m) \<Longrightarrow> knorm k = knorm n \<Longrightarrow> dhas m k"
  by (simp add: dhas_def dget_None_iff dkeys_def) blast

end
