(* ===== verification/DbData.thy ===== *)
theory DbData
  imports PyValue
begin

text \<open>
  \<open>shell/pyutils/dbdata.py\<close>: the conversion between the values the Lua servers keep
  (tables with integer keys, lists) and what BSON stores (documents whose keys are strings).
  \<open>BeforeSave\<close> writes every numeric key as text and lists the numeric keys under
  \<open>_meta_intkey\<close>; \<open>AfterLoad\<close> undoes it, and reads a table with the keys
  \<open>1 .. n\<close> as a list. The theorems: stored values have text keys only, a saved value is read
  back equal, and a table whose keys are \<open>1 .. n\<close> is read back as a list.
\<close>

section \<open>The conversion\<close>

definition meta_key :: pykey where
  "meta_key = KUni ''_meta_intkey''"

text \<open>\<open>lIntKeys.sort()\<close>: a stable sort of numbers; other elements are not modelled.\<close>

definition sort_nums :: "pyval list \<Rightarrow> pyval list res" where
  "sort_nums vs =
     (if list_all (\<lambda>v. num_of v \<noteq> None) vs then Inr (sort_key (\<lambda>v. the (num_of v)) vs)
      else Inl Unsupported)"

text \<open>\<open>int(k) in lIntKeys\<close>.\<close>

definition int_mem :: "nat \<Rightarrow> pyval list \<Rightarrow> bool" where
  "int_mem n vs \<longleftrightarrow> list_ex (\<lambda>v. num_of v = Some (of_nat n)) vs"

text \<open>
  One turn of the loop over \<open>rData.iterkeys()\<close>: whether the key lets the document be a list.
  Only strings have \<open>isdigit\<close>.
\<close>

fun list_key :: "pyval list \<Rightarrow> pykey \<Rightarrow> bool res" where
  "list_key nums (KUni s) = Inr (isdigit s \<and> int_mem (nat_of_digits s) nums)"
| "list_key nums (KStr s) = Inr False"
| "list_key nums _ = Inl AttributeError"

text \<open>\<open>for n, k in enumerate(lIntKeys): if n + 1 != k: ...\<close>\<close>

fun from_one :: "nat \<Rightarrow> pyval list \<Rightarrow> bool" where
  "from_one n [] = True"
| "from_one n (v # vs) = (num_of v = Some (of_nat n) \<and> from_one (Suc n) vs)"

definition is_list_keys :: "(pykey \<times> pyval) list \<Rightarrow> pyval list \<Rightarrow> bool res" where
  "is_list_keys d nums =
     rbind (rmap (list_key nums) (map fst d)) (\<lambda>bs. Inr (list_all id bs \<and> from_one 1 nums))"

text \<open>\<open>rData[k] = rData[unicode(k)]; del rData[unicode(k)]\<close>.\<close>

definition rekey_back ::
  "pyval \<Rightarrow> (pykey \<times> pyval) list \<Rightarrow> (pykey \<times> pyval) list res" where
  "rekey_back k d =
     rbind (unicode_of k) (\<lambda>s. rbind (of_option KeyError (dget d (KUni s))) (\<lambda>v.
       rbind (key_of k) (\<lambda>kk. Inr (ddel (dput d kk v) (KUni s)))))"

text \<open>\<open>lData.append(AfterLoad(rData[unicode(k)]))\<close>: the element it reads.\<close>

definition list_elem :: "(pykey \<times> pyval) list \<Rightarrow> pyval \<Rightarrow> pyval res" where
  "list_elem d k = rbind (unicode_of k) (\<lambda>s. of_option KeyError (dget d (KUni s)))"

lemma rekey_back_values:
  "rekey_back k d = Inr d' \<Longrightarrow> (k', v) \<in> set d' \<Longrightarrow> \<exists>k''. (k'', v) \<in> set d"
  by (auto simp: rekey_back_def ddel_def dest!: dput_values dget_SomeD)

lemma rfold_rekey_values:
  "rfold rekey_back ks d = Inr d' \<Longrightarrow> (k', v) \<in> set d' \<Longrightarrow> \<exists>k''. (k'', v) \<in> set d"
  by (induction ks arbitrary: d) (auto, blast dest: rekey_back_values)

lemma list_elem_value: "list_elem d k = Inr v \<Longrightarrow> \<exists>k'. (k', v) \<in> set d"
  by (auto simp: list_elem_def dest: dget_SomeD)

function AfterLoad :: "pyval \<Rightarrow> pyval res" where
  "AfterLoad rData =
     (case rData of
        PDict d \<Rightarrow>
          (case dget d meta_key of
             None \<Rightarrow>
               rbind (rmap (\<lambda>(k, v). rbind (AfterLoad v) (\<lambda>w. Inr (k, w))) d) (\<lambda>d'. Inr (PDict d'))
           | Some m \<Rightarrow>
               rbind (rbind (list_of m) sort_nums) (\<lambda>lIntKeys.
               rbind (is_list_keys (ddel d meta_key) lIntKeys) (\<lambda>bIsList.
                 if bIsList then
                   rbind (rmap (\<lambda>k. rbind (list_elem (ddel d meta_key) k) AfterLoad) lIntKeys)
                     (\<lambda>lData. Inr (PList lData))
                 else
                   rbind (rfold rekey_back lIntKeys (ddel d meta_key)) (\<lambda>d1.
                   rbind (rmap (\<lambda>(k, v). rbind (AfterLoad v) (\<lambda>w. Inr (k, w))) d1)
                     (\<lambda>d'. Inr (PDict d'))))))
      | _ \<Rightarrow> Inr rData)"
  by pat_completeness auto
termination
proof (relation "measure size", goal_cases)
  case 1 show ?case by simp
next
  case (2 rData d kv k v)
  then show ?case by (auto dest: dict_value_size)
next
  case (3 rData d m nums b k v)
  then have "\<exists>k. (k, v) \<in> set d" by (auto simp: ddel_def dest!: list_elem_value)
  with 3(1) show ?case by (auto dest!: dict_value_size)
next
  case (4 rData d m nums b d1 kv k v)
  then have "\<exists>k. (k, v) \<in> set (ddel d meta_key)" by (auto dest: rfold_rekey_values)
  with 4(1) show ?case by (auto simp: ddel_def dest!: dict_value_size)
qed

declare AfterLoad.simps [simp del]

text \<open>
  Saving. \<open>isinstance(k, int)\<close> holds of booleans and of integers of the machine's width; a
  larger integer is a \<open>long\<close>, which the code leaves as it is.
\<close>

definition is_py_int :: "int \<Rightarrow> bool" where
  "is_py_int i \<longleftrightarrow> - (2 ^ 63) \<le> i \<and> i < 2 ^ 63"

fun is_num_key :: "pykey \<Rightarrow> bool" where
  "is_num_key (KBool b) = True"
| "is_num_key (KInt i) = is_py_int i"
| "is_num_key (KFloat r) = True"
| "is_num_key _ = False"

text \<open>\<open>unicode(k)\<close> of a key, total on the keys it is applied to.\<close>

definition key_text :: "pykey \<Rightarrow> string" where
  "key_text k = (case unicode_of (val_of_key k) of Inr s \<Rightarrow> s | Inl _ \<Rightarrow> [])"

text \<open>\<open>rData[unicode(k)] = rData[k]; del rData[k]\<close>, for a key \<open>k\<close> of the dictionary.\<close>

definition rekey_out :: "pykey \<Rightarrow> (pykey \<times> pyval) list \<Rightarrow> (pykey \<times> pyval) list" where
  "rekey_out k d =
     (case dget d k of None \<Rightarrow> d | Some v \<Rightarrow> ddel (dput d (KUni (key_text k)) v) k)"

definition int_keys :: "(pykey \<times> pyval) list \<Rightarrow> pykey list" where
  "int_keys d = filter is_num_key (map fst d)"

lemma rekey_out_values: "(k', v) \<in> set (rekey_out k d) \<Longrightarrow> \<exists>k''. (k'', v) \<in> set d"
  by (auto simp: rekey_out_def ddel_def dest!: dput_values dget_SomeD split: option.splits)

lemma fold_rekey_out_values:
  "(k', v) \<in> set (fold rekey_out ks d) \<Longrightarrow> \<exists>k''. (k'', v) \<in> set d"
  by (induction ks arbitrary: d) (auto, blast dest: rekey_out_values)

function BeforeSave :: "pyval \<Rightarrow> pyval" where
  "BeforeSave rData =
     (if \<not> truthy rData then rData else
      case rData of
        PList vs \<Rightarrow>
          PDict (dput
            (fold (\<lambda>(n, v) m. dput m (KUni (str_of_nat (n + 1))) v)
               (zip [0..<length vs] (map BeforeSave vs)) [])
            meta_key (PList (map (\<lambda>n. PInt (int n + 1)) [0..<length vs])))
      | PDict d \<Rightarrow>
          (let lIntKeys = int_keys d;
               d1 = fold rekey_out lIntKeys d;
               d2 = map (\<lambda>(k, v). (k, BeforeSave v)) d1
           in PDict (if lIntKeys \<noteq> [] then dput d2 meta_key (PList (map val_of_key lIntKeys)) else d2))
      | _ \<Rightarrow> rData)"
  by pat_completeness auto
termination
proof (relation "measure size", goal_cases)
  case 1 show ?case by simp
next
  case (2 rData vs v)
  then show ?case by (auto simp: size_list_estimation' less_Suc_eq_le)
next
  case (3 rData d ks d1 kv k v)
  then have "\<exists>k. (k, v) \<in> set d" by (auto dest: fold_rekey_out_values)
  with 3(2) show ?case by (auto dest!: dict_value_size)
qed

declare BeforeSave.simps [simp del]

section \<open>Lists\<close>

lemma fold_dput_fresh:
  "distinct (dkeys (d @ kvs)) \<Longrightarrow> fold (\<lambda>(k, v) d. dput d k v) kvs d = d @ kvs"
proof (induction kvs arbitrary: d)
  case (Cons kv kvs)
  obtain k v where kv: "kv = (k, v)" by (cases kv)
  with Cons.prems have "dget d k = None" by (simp add: dget_None_iff)
  then have "dput d k v = d @ [(k, v)]" by (rule dput_absent)
  with Cons.IH [of "d @ [(k, v)]"] Cons.prems show ?case by (simp add: kv)
qed simp

text \<open>The stored form of a list, without its entry \<open>_meta_intkey\<close>.\<close>

definition list_doc :: "pyval list \<Rightarrow> (pykey \<times> pyval) list" where
  "list_doc vs = map (\<lambda>n. (KUni (str_of_nat (n + 1)), vs ! n)) [0..<length vs]"

lemma zip_upt: "zip [0..<length vs] vs = map (\<lambda>n. (n, vs ! n)) [0..<length vs]"
  by (rule nth_equalityI) auto

lemma rmap_map: "rmap f (map g xs) = rmap (f \<circ> g) xs"
  by (induction xs) auto

definition list_nums :: "nat \<Rightarrow> pyval list" where
  "list_nums n = map (\<lambda>i. PInt (int i + 1)) [0..<n]"

lemma meta_not_digits: "str_of_nat n \<noteq> ''_meta_intkey''"
  using isdigit_str_of_nat [of n] by (auto simp: isdigit_def is_digit_def)

lemma fst_list_doc: "map fst (list_doc vs) = map (\<lambda>n. KUni (str_of_nat (n + 1))) [0..<length vs]"
  by (simp add: list_doc_def)

lemma dkeys_list_doc: "dkeys (list_doc vs) = map (\<lambda>n. NStr (str_of_nat (n + 1))) [0..<length vs]"
  by (simp add: dkeys_def list_doc_def)

lemma distinct_list_doc: "distinct (dkeys (list_doc vs))"
  by (simp add: dkeys_list_doc distinct_map inj_on_def)

lemma dget_list_doc: "n < length vs \<Longrightarrow> dget (list_doc vs) (KUni (str_of_nat (Suc n))) = Some (vs ! n)"
  by (rule dget_mem [OF distinct_list_doc]) (auto simp: list_doc_def)

lemma meta_notin_list_doc: "knorm meta_key \<notin> set (dkeys (list_doc vs))"
  by (auto simp: dkeys_list_doc meta_key_def meta_not_digits dest: sym)

lemma BeforeSave_list:
  assumes "vs \<noteq> []"
  shows "BeforeSave (PList vs) =
    PDict (list_doc (map BeforeSave vs) @ [(meta_key, PList (list_nums (length vs)))])"
proof -
  let ?ws = "map BeforeSave vs"
  have "fold (\<lambda>(n, v) m. dput m (KUni (str_of_nat (n + 1))) v) (zip [0..<length vs] ?ws) []
      = fold (\<lambda>(k, v) d. dput d k v) (list_doc ?ws) []"
    using zip_upt [of ?ws] by (simp add: list_doc_def fold_map o_def)
  also have "\<dots> = list_doc ?ws"
    using fold_dput_fresh [of "[]" "list_doc ?ws"] by (simp add: distinct_list_doc)
  finally show ?thesis
    using assms meta_notin_list_doc [of ?ws]
    by (subst BeforeSave.simps) (simp add: dput_absent dget_None_iff list_nums_def)
qed

lemma ddel_append: "ddel (d @ e) k = ddel d k @ ddel e k"
  by (simp add: ddel_def)

lemma ddel_absent: "knorm k \<notin> set (dkeys d) \<Longrightarrow> ddel d k = d"
  by (induction d) (auto simp: ddel_def)

lemma ddel_single [simp]: "ddel [(k, v)] k' = (if knorm k = knorm k' then [] else [(k, v)])"
  by (simp add: ddel_def)

lemma from_one_list_nums: "from_one (Suc m) (map (\<lambda>i. PInt (int i + 1)) [m..<m + n])"
proof (induction n arbitrary: m)
  case (Suc n)
  have "[m..<m + Suc n] = m # [Suc m..<Suc m + n]" by (simp add: upt_conv_Cons)
  with Suc [of "Suc m"] show ?case by simp
qed simp

lemma sort_list_nums: "sort_nums (list_nums n) = Inr (list_nums n)"
proof -
  have "sorted (map (\<lambda>v. the (num_of v)) (list_nums n))"
    by (simp add: list_nums_def o_def sorted_map sorted_wrt_upt)
  then have "sort_key (\<lambda>v. the (num_of v)) (list_nums n) = list_nums n"
    by (rule sort_key_id_if_sorted)
  then show ?thesis by (simp add: sort_nums_def list_nums_def list_all_iff)
qed

lemma int_mem_list_nums: "int_mem m (list_nums n) \<longleftrightarrow> 1 \<le> m \<and> m \<le> n"
proof -
  have "(of_int (int i + 1) :: rat) = of_nat m \<longleftrightarrow> m = Suc i" for i
    by (metis add.commute of_int_of_nat_eq of_nat_Suc of_nat_eq_iff)
  then show ?thesis
    by (auto simp: int_mem_def list_nums_def list_ex_iff intro: bexI [where x = "m - 1"])
qed

lemma is_list_keys_list_doc: "is_list_keys (list_doc vs) (list_nums (length vs)) = Inr True"
proof -
  have "rmap (list_key (list_nums (length vs))) (map fst (list_doc vs))
      = Inr (map (\<lambda>_. True) (map fst (list_doc vs)))"
    by (rule rmap_total) (auto simp: fst_list_doc int_mem_list_nums simp del: map_map)
  then show ?thesis
    using from_one_list_nums [of 0 "length vs"]
    by (simp add: is_list_keys_def list_all_iff list_nums_def)
qed

lemma list_elem_list_doc: "n < length vs \<Longrightarrow> list_elem (list_doc vs) (PInt (int n + 1)) = Inr (vs ! n)"
  by (simp add: list_elem_def str_of_int_def nat_add_distrib dget_list_doc)

lemma AfterLoad_list_doc:
  "AfterLoad (PDict (list_doc vs @ [(meta_key, PList (list_nums (length vs)))])) =
     rbind (rmap AfterLoad vs) (\<lambda>ws. Inr (PList ws))"
proof -
  let ?d = "list_doc vs @ [(meta_key, PList (list_nums (length vs)))]"
  have meta: "dget ?d meta_key = Some (PList (list_nums (length vs)))"
    using meta_notin_list_doc [of vs] by (simp add: dget_append dget_None_iff [THEN iffD2])
  have del: "ddel ?d meta_key = list_doc vs"
    by (simp add: ddel_append ddel_absent meta_notin_list_doc)
  have "rmap (\<lambda>k. rbind (list_elem (list_doc vs) k) AfterLoad) (list_nums (length vs))
      = rmap (\<lambda>i. AfterLoad (vs ! i)) [0..<length vs]"
    unfolding list_nums_def
    by (subst rmap_map) (rule rmap_cong; simp add: list_elem_list_doc)
  also have "\<dots> = rmap AfterLoad vs"
    using rmap_map [of AfterLoad "(!) vs" "[0..<length vs]"] by (simp add: map_nth o_def)
  finally show ?thesis
    by (subst AfterLoad.simps) (simp add: meta del sort_list_nums is_list_keys_list_doc)
qed

section \<open>Dictionaries\<close>

lemma unicode_of_num_key: "is_num_key k \<Longrightarrow> unicode_of (val_of_key k) = Inr (key_text k)"
  by (cases k) (auto simp: key_text_def)

lemma knorm_num_key: "is_num_key k \<Longrightarrow> \<exists>r. knorm k = NNum r"
  by (cases k) auto

lemma num_key_not_text: "is_num_key k \<Longrightarrow> knorm k \<noteq> NStr s"
  by (cases k) auto

lemma distinct_map_Cons: "distinct (map f (k # ks)) \<Longrightarrow> k' \<in> set ks \<Longrightarrow> f k' \<noteq> f k"
  by (fastforce simp: image_iff)

lemma num_of_num_key: "is_num_key k \<Longrightarrow> num_of (val_of_key k) \<noteq> None"
  by (cases k) auto

fun text_key :: "pykey \<Rightarrow> bool" where
  "text_key (KUni s) = True"
| "text_key (KStr s) = is_ascii s"
| "text_key _ = False"

lemma knorm_text_key: "text_key k \<Longrightarrow> knorm k = NStr (key_text k) \<and> \<not> is_num_key k"
  by (cases k) (auto simp: key_text_def)

definition num_part :: "(pykey \<times> 'v) list \<Rightarrow> (pykey \<times> 'v) list" where
  "num_part d = filter (\<lambda>(k, _). is_num_key k) d"

definition text_part :: "(pykey \<times> 'v) list \<Rightarrow> (pykey \<times> 'v) list" where
  "text_part d = filter (\<lambda>(k, _). \<not> is_num_key k) d"

definition stored_entry :: "pykey \<times> 'v \<Rightarrow> pykey \<times> 'v" where
  "stored_entry kv = (KUni (key_text (fst kv)), snd kv)"

lemma part_simps [simp]:
  "num_part [] = []" "text_part [] = []"
  "num_part ((k, v) # d) = (if is_num_key k then (k, v) # num_part d else num_part d)"
  "text_part ((k, v) # d) = (if is_num_key k then text_part d else (k, v) # text_part d)"
  by (simp_all add: num_part_def text_part_def)

lemma int_keys_num_part: "int_keys d = map fst (num_part d)"
  by (simp add: int_keys_def num_part_def filter_map o_def case_prod_beta')

lemma set_parts: "set (num_part d) \<union> set (text_part d) = set d"
  by (auto simp: num_part_def text_part_def)

lemma length_parts: "length (text_part d) + length (num_part d) = length d"
  by (induction d) auto

lemma dget_middle:
  "knorm k \<notin> set (dkeys xs) \<Longrightarrow> dget (xs @ (k, v) # ys) k = Some v"
  by (simp add: dget_append dget_None_iff [THEN iffD2])

lemma ddel_middle:
  "knorm k \<notin> set (dkeys xs) \<Longrightarrow> knorm k \<notin> set (dkeys ys) \<Longrightarrow> ddel (xs @ (k, v) # ys) k = xs @ ys"
  by (simp add: ddel_append [of xs] ddel_append [of "[(k, v)]", simplified] ddel_absent)

text \<open>Moving the numeric keys out: the text entries stay in place, the others follow.\<close>

lemma fold_rekey_out:
  assumes "distinct (dkeys (xs @ ys @ zs))"
    and "\<And>k v. (k, v) \<in> set ys \<Longrightarrow> is_num_key k \<Longrightarrow> NStr (key_text k) \<notin> set (dkeys (xs @ ys @ zs))"
    and "distinct (map (\<lambda>(k, v). key_text k) (num_part ys))"
  shows "fold rekey_out (int_keys ys) (xs @ ys @ zs)
    = xs @ text_part ys @ zs @ map stored_entry (num_part ys)"
  using assms
proof (induction ys arbitrary: xs zs)
  case (Cons y ys)
  obtain k v where y: "y = (k, v)" by (cases y)
  show ?case
  proof (cases "is_num_key k")
    case False
    then have "int_keys (y # ys) = int_keys ys" by (simp add: y int_keys_def)
    moreover have "fold rekey_out (int_keys ys) ((xs @ [(k, v)]) @ ys @ zs)
        = (xs @ [(k, v)]) @ text_part ys @ zs @ map stored_entry (num_part ys)"
      by (rule Cons.IH) (use Cons.prems False in \<open>auto simp: y\<close>)
    ultimately show ?thesis using False by (simp add: y)
  next
    case True
    let ?t = "KUni (key_text k)"
    have fresh: "NStr (key_text k) \<notin> set (dkeys (xs @ y # ys @ zs))"
      using Cons.prems(2) [of k v] True by (simp add: y)
    have k: "knorm k \<notin> set (dkeys xs)" "knorm k \<notin> set (dkeys (ys @ zs @ [(?t, v)]))"
      using Cons.prems(1) num_key_not_text [OF True] by (auto simp: y)
    have "dput (xs @ y # ys @ zs) ?t v = xs @ y # ys @ zs @ [(?t, v)]"
      using fresh by (simp add: dput_absent dget_None_iff)
    then have step: "rekey_out k (xs @ y # ys @ zs) = xs @ ys @ zs @ [(?t, v)]"
      using k by (simp add: rekey_out_def y dget_middle ddel_middle)
    have "fold rekey_out (int_keys ys) (xs @ ys @ zs @ [(?t, v)])
        = xs @ text_part ys @ (zs @ [(?t, v)]) @ map stored_entry (num_part ys)"
    proof (rule Cons.IH)
      show "distinct (dkeys (xs @ ys @ zs @ [(?t, v)]))"
        using Cons.prems(1) fresh by (auto simp: y)
      show "distinct (map (\<lambda>(k, v). key_text k) (num_part ys))"
        using Cons.prems(3) True by (simp add: y)
      fix k' v' assume k': "(k', v') \<in> set ys" "is_num_key k'"
      then have "key_text k' \<noteq> key_text k"
        using Cons.prems(3) True by (force simp: y num_part_def)
      with Cons.prems(2) [of k' v'] k' show "NStr (key_text k') \<notin> set (dkeys (xs @ ys @ zs @ [(?t, v)]))"
        by (auto simp: y)
    qed
    with True step show ?thesis by (simp add: y int_keys_def stored_entry_def)
  qed
qed (simp add: int_keys_def)

text \<open>Moving them back, in any order of the keys.\<close>

lemma rfold_rekey_back:
  assumes "\<And>k. k \<in> set ks \<Longrightarrow> is_num_key k \<and> dhas S (KUni (key_text k)) \<and> knorm k \<notin> set (dkeys S)"
    and "distinct (map key_text ks)" and "distinct (map knorm ks)"
  shows "rfold rekey_back (map val_of_key ks) S =
    Inr (filter (\<lambda>(k, _). knorm k \<notin> (NStr \<circ> key_text) ` set ks) S
         @ map (\<lambda>k. (k, the (dget S (KUni (key_text k))))) ks)"
  using assms
proof (induction ks arbitrary: S)
  case (Cons k ks)
  let ?t = "KUni (key_text k)"
  from Cons.prems(1) [of k] obtain v where
    num: "is_num_key k" and v: "dget S ?t = Some v" and fresh: "knorm k \<notin> set (dkeys S)"
    by (auto simp: dhas_def)
  let ?S = "ddel S ?t @ [(k, v)]"
  have "dput S k v = S @ [(k, v)]" using fresh by (simp add: dput_absent dget_None_iff)
  then have step: "rekey_back (val_of_key k) S = Inr ?S"
    using num_key_not_text [OF num]
    by (simp add: rekey_back_def unicode_of_num_key [OF num] v ddel_append)
  have same: "dget ?S (KUni (key_text k')) = dget S (KUni (key_text k'))" if "k' \<in> set ks" for k'
  proof -
    have "key_text k' \<noteq> key_text k" using Cons.prems(2) that by (rule distinct_map_Cons)
    then show ?thesis using num_key_not_text [OF num] by (simp add: dget_append split: option.splits)
  qed
  have sub: "set (dkeys (ddel S ?t)) \<subseteq> set (dkeys S)"
    by (auto simp: ddel_def dkeys_def)
  have "rfold rekey_back (map val_of_key ks) ?S =
    Inr (filter (\<lambda>(k, _). knorm k \<notin> (NStr \<circ> key_text) ` set ks) ?S
         @ map (\<lambda>k. (k, the (dget ?S (KUni (key_text k))))) ks)"
  proof (rule Cons.IH)
    fix k' assume k': "k' \<in> set ks"
    with Cons.prems(1) [of k'] distinct_map_Cons [OF Cons.prems(3) k'] sub same [OF k']
    show "is_num_key k' \<and> dhas ?S (KUni (key_text k')) \<and> knorm k' \<notin> set (dkeys ?S)"
      by (auto simp: dhas_def)
  qed (use Cons.prems in simp_all)
  moreover have "filter (\<lambda>(k, _). knorm k \<notin> (NStr \<circ> key_text) ` set ks) ?S =
      filter (\<lambda>(k', _). knorm k' \<notin> (NStr \<circ> key_text) ` set (k # ks)) S @ [(k, v)]"
    using num_key_not_text [OF num] by (auto simp: ddel_def intro!: filter_cong)
  moreover have "map (\<lambda>k. (k, the (dget ?S (KUni (key_text k))))) ks
      = map (\<lambda>k. (k, the (dget S (KUni (key_text k))))) ks"
    using same by simp
  ultimately show ?case by (simp add: step v)
qed simp

section \<open>What is saved can be read back\<close>

text \<open>
  The tables whose keys make \<open>AfterLoad\<close> read a list: every stored key is the decimal
  text of one of the numeric keys, and those are \<open>1 .. n\<close>.
\<close>

definition sorted_nums :: "(pykey \<times> pyval) list \<Rightarrow> pykey list" where
  "sorted_nums d = sort_key (\<lambda>k. the (num_of (val_of_key k))) (int_keys d)"

definition listable :: "pyval list \<Rightarrow> pykey \<Rightarrow> bool" where
  "listable nums k =
     (case k of KStr s \<Rightarrow> False | _ \<Rightarrow> isdigit (key_text k) \<and> int_mem (nat_of_digits (key_text k)) nums)"

definition list_like :: "(pykey \<times> pyval) list \<Rightarrow> bool" where
  "list_like d \<longleftrightarrow>
     int_keys d \<noteq> []
     \<and> list_all (listable (map val_of_key (int_keys d))) (map fst d)
     \<and> from_one 1 (map val_of_key (sorted_nums d))"

text \<open>The tables the stored form can represent: text or numeric keys whose texts differ.\<close>

definition storable_keys :: "(pykey \<times> pyval) list \<Rightarrow> bool" where
  "storable_keys d \<longleftrightarrow>
     list_all (\<lambda>(k, v). (is_num_key k \<or> text_key k) \<and> key_text k \<noteq> ''_meta_intkey'') d
     \<and> distinct (map (\<lambda>(k, v). key_text k) d) \<and> distinct (dkeys d)"

fun savable :: "pyval \<Rightarrow> bool" where
  "savable (PList vs) \<longleftrightarrow> list_all savable vs"
| "savable (PDict d) \<longleftrightarrow> storable_keys d \<and> \<not> list_like d \<and> list_all (\<lambda>(k, v). savable v) d"
| "savable _ \<longleftrightarrow> True"

lemma insort_key_map: "insort_key f (g x) (map g xs) = map g (insort_key (\<lambda>x. f (g x)) x xs)"
  by (induction xs) auto

lemma sort_key_map: "sort_key f (map g xs) = map g (sort_key (\<lambda>x. f (g x)) xs)"
  by (induction xs) (simp_all add: insort_key_map)

lemma sort_nums_int_keys:
  "sort_nums (map val_of_key (int_keys d)) = Inr (map val_of_key (sorted_nums d))"
  using num_of_num_key
  by (auto simp: sort_nums_def sorted_nums_def sort_key_map o_def list_all_iff int_keys_def)

lemma set_sorted_nums [simp]: "set (sorted_nums d) = set (int_keys d)"
  by (simp add: sorted_nums_def)

lemma storable_parts:
  assumes "storable_keys d"
  shows "distinct (map (\<lambda>(k, v). key_text k) (num_part d))"
    and "distinct (map (\<lambda>(k, v). key_text k) (text_part d))"
    and "\<And>k v k' v'. (k, v) \<in> set (num_part d) \<Longrightarrow> (k', v') \<in> set (text_part d) \<Longrightarrow> key_text k \<noteq> key_text k'"
    and "\<And>k v. (k, v) \<in> set (text_part d) \<Longrightarrow> text_key k"
    and "\<And>k v. (k, v) \<in> set (num_part d) \<Longrightarrow> is_num_key k"
  using assms
  by (auto simp: storable_keys_def num_part_def text_part_def distinct_map_filter list_all_iff
      distinct_map inj_on_def)

text \<open>The stored entries of a table, before their values are converted.\<close>

definition stored :: "(pykey \<times> 'v) list \<Rightarrow> (pykey \<times> 'v) list" where
  "stored d = text_part d @ map stored_entry (num_part d)"

lemma stored_texts: "map (\<lambda>(k, v). key_text k) (map stored_entry d) = map (\<lambda>(k, v). key_text k) d"
  by (auto simp: stored_entry_def key_text_def)

lemma dkeys_text: "(\<And>k v. (k, v) \<in> set d \<Longrightarrow> text_key k) \<Longrightarrow> dkeys d = map (\<lambda>(k, v). NStr (key_text k)) d"
  by (induction d) (force dest: knorm_text_key)+

lemma fst_stored_text:
  assumes "storable_keys d" and "(k, v) \<in> set (stored d)"
  shows "text_key k" and "key_text k \<noteq> ''_meta_intkey''"
  using assms storable_parts(4) [OF assms(1)]
  by (auto simp: stored_def stored_entry_def key_text_def storable_keys_def text_part_def num_part_def list_all_iff)

lemma dkeys_stored:
  "storable_keys d \<Longrightarrow> dkeys (stored d) = map (\<lambda>(k, v). NStr (key_text k)) (text_part d @ num_part d)"
  by (subst dkeys_text) (auto simp: fst_stored_text stored_def stored_entry_def key_text_def)

lemma distinct_stored:
  assumes "storable_keys d"
  shows "distinct (dkeys (stored d))"
proof -
  have "distinct (map (\<lambda>(k, v). key_text k) (text_part d @ num_part d))"
    using storable_parts(1,2) [OF assms] storable_parts(3) [OF assms, symmetric] by fastforce
  then have "distinct (map NStr (map (\<lambda>(k, v). key_text k) (text_part d @ num_part d)))"
    by (simp only: distinct_map inj_on_def) auto
  then show ?thesis by (simp add: dkeys_stored [OF assms] o_def case_prod_beta')
qed

lemma rekey_out_stored:
  assumes "storable_keys d"
  shows "fold rekey_out (int_keys d) d = stored d"
proof -
  have fresh: "NStr (key_text k) \<notin> set (dkeys d)" if "(k, v) \<in> set d" "is_num_key k" for k v
  proof
    assume "NStr (key_text k) \<in> set (dkeys d)"
    then obtain k' v' where k': "(k', v') \<in> set d" "knorm k' = NStr (key_text k)"
      by (auto simp: dkeys_def)
    then have "\<not> is_num_key k'" using num_key_not_text by auto
    with k' that storable_parts(3,4) [OF assms] knorm_text_key [of k'] show False
      by (fastforce simp: num_part_def text_part_def)
  qed
  then show ?thesis
    using fold_rekey_out [of "[]" d "[]"] storable_parts(1) [OF assms] assms
    by (simp add: stored_def storable_keys_def)
qed

lemma dget_stored:
  assumes "storable_keys d" and "(k, v) \<in> set d"
  shows "dget (stored d) (KUni (key_text k)) = Some v"
proof -
  have "(if is_num_key k then KUni (key_text k) else k, v) \<in> set (stored d)"
    using assms(2) by (force simp: stored_def stored_entry_def num_part_def text_part_def)
  from dget_mem [OF distinct_stored [OF assms(1)] this]
  have "dget (stored d) (if is_num_key k then KUni (key_text k) else k) = Some v" .
  moreover have "knorm k = knorm (KUni (key_text k))" if "\<not> is_num_key k"
    using that assms by (auto simp: storable_keys_def list_all_iff knorm_text_key)
  ultimately show ?thesis
    using dget_knorm [of k "KUni (key_text k)" "stored d"] by (simp split: if_splits)
qed

definition map_vals :: "('v \<Rightarrow> 'w) \<Rightarrow> (pykey \<times> 'v) list \<Rightarrow> (pykey \<times> 'w) list" where
  "map_vals f d = map (\<lambda>(k, v). (k, f v)) d"

lemma map_vals_simps [simp]:
  "dkeys (map_vals f d) = dkeys d" "int_keys (map_vals f d) = int_keys d" "map fst (map_vals f d) = map fst d"
  "stored (map_vals f d) = map_vals f (stored d)"
  by (auto simp: map_vals_def dkeys_def int_keys_def stored_def text_part_def num_part_def filter_map
      stored_entry_def o_def case_prod_beta')

lemma dget_map_vals: "dget (map_vals f d) k = map_option f (dget d k)"
  by (induction d) (auto simp: map_vals_def)

lemma meta_notin_stored:
  assumes "storable_keys d"
  shows "knorm meta_key \<notin> set (dkeys (stored d))"
proof
  assume "knorm meta_key \<in> set (dkeys (stored d))"
  then obtain k v where k: "(k, v) \<in> set (stored d)" "knorm k = NStr ''_meta_intkey''"
    by (auto simp: dkeys_def meta_key_def)
  with fst_stored_text [OF assms k(1)] knorm_text_key [of k] show False by simp
qed

lemma BeforeSave_dict:
  assumes "storable_keys d"
  shows "BeforeSave (PDict d) =
    PDict (map_vals BeforeSave (stored d)
      @ (if int_keys d = [] then [] else [(meta_key, PList (map val_of_key (int_keys d)))]))"
proof -
  have "dget (map_vals BeforeSave (stored d)) meta_key = None"
    using meta_notin_stored [OF assms] by (simp add: dget_None_iff)
  then show ?thesis
  proof (cases "d = []")
    case True
    then show ?thesis by (subst BeforeSave.simps) (simp add: stored_def int_keys_def map_vals_def)
  next
    case False
    with \<open>dget (map_vals BeforeSave (stored d)) meta_key = None\<close> show ?thesis
      by (subst BeforeSave.simps) (simp add: rekey_out_stored [OF assms] dput_absent flip: map_vals_def)
  qed
qed

lemma int_mem_set: "set vs = set ws \<Longrightarrow> int_mem n vs = int_mem n ws"
  by (simp add: int_mem_def list_ex_iff)

lemma listable_set: "set vs = set ws \<Longrightarrow> listable vs = listable ws"
  by (auto simp: listable_def fun_eq_iff int_mem_set [of vs ws] split: pykey.splits)

lemma rmap_list_key:
  assumes "\<And>k. k \<in> set ks \<Longrightarrow> text_key k"
  shows "rmap (list_key nums) ks = Inr (map (listable nums) ks)"
proof (rule rmap_total)
  fix k assume "k \<in> set ks"
  with assms have "text_key k" by auto
  then show "list_key nums k = Inr (listable nums k)"
    by (cases k) (auto simp: key_text_def listable_def)
qed

lemma is_list_keys_stored:
  assumes "storable_keys d" and "int_keys d \<noteq> []"
  shows "is_list_keys (stored d) (map val_of_key (sorted_nums d)) = Inr (list_like d)"
proof -
  let ?nums = "map val_of_key (int_keys d)"
  have mem: "listable (map val_of_key (sorted_nums d)) = listable ?nums"
    by (rule listable_set) simp
  have "listable ?nums (fst (stored_entry kv)) = listable ?nums (fst kv)"
    if "kv \<in> set (num_part d)" for kv :: "pykey \<times> pyval"
  proof -
    have "is_num_key (fst kv)" using that by (auto simp: num_part_def)
    then show ?thesis by (cases "fst kv") (auto simp: stored_entry_def key_text_def listable_def)
  qed
  then have "list_all (listable ?nums) (map fst (stored d))
      \<longleftrightarrow> (\<forall>kv \<in> set (num_part d) \<union> set (text_part d). listable ?nums (fst kv))"
    by (auto simp: stored_def list_all_iff)
  moreover have "rmap (list_key (map val_of_key (sorted_nums d))) (map fst (stored d))
      = Inr (map (listable ?nums) (map fst (stored d)))"
    by (subst rmap_list_key) (auto simp: mem fst_stored_text [OF assms(1)])
  ultimately show ?thesis
    using assms(2) unfolding set_parts
    by (simp add: is_list_keys_def list_like_def list_all_iff o_def)
qed

lemma rmap_AfterLoad_vals:
  "(\<And>k v. (k, v) \<in> set d \<Longrightarrow> AfterLoad (f v) = Inr (g v)) \<Longrightarrow>
   rmap (\<lambda>(k, v). rbind (AfterLoad v) (\<lambda>w. Inr (k, w))) (map_vals f d) = Inr (map_vals g d)"
  unfolding map_vals_def rmap_map by (rule rmap_total) auto

text \<open>The table as it is read back: the text entries, then the numeric keys in order.\<close>

definition reloaded :: "(pykey \<times> pyval) list \<Rightarrow> (pykey \<times> pyval) list" where
  "reloaded d = text_part d @ map (\<lambda>k. (k, the (dget d k))) (sorted_nums d)"

lemma reloaded_props:
  assumes d: "storable_keys d"
  shows "length (reloaded d) = length d"
    and "(k, v) \<in> set (reloaded d) \<Longrightarrow> (k, v) \<in> set d"
    and "(k, v) \<in> set d \<Longrightarrow> dget (reloaded d) k = Some v"
proof -
  have dist: "distinct (dkeys d)" using d by (simp add: storable_keys_def)
  show "length (reloaded d) = length d"
    using length_parts [of d] by (simp add: reloaded_def sorted_nums_def int_keys_num_part)
  show "(k, v) \<in> set d" if "(k, v) \<in> set (reloaded d)" for k v
    using that by (auto simp: reloaded_def text_part_def int_keys_def dget_mem [OF dist])
  have nums: "distinct (map knorm (sorted_nums d))"
  proof -
    have "distinct (map knorm (int_keys d))"
      using dist by (simp add: int_keys_def dkeys_def distinct_map_filter flip: map_map)
    then show ?thesis
      by (simp add: distinct_map sorted_nums_def)
  qed
  have "knorm k \<noteq> knorm k'" if "(k, v) \<in> set (text_part d)" and "k' \<in> set (int_keys d)" for k v k'
    using knorm_text_key [OF storable_parts(4) [OF d that(1)]]
      num_key_not_text [of k' "key_text k"] that(2)
    by (auto simp: int_keys_def simp del: knorm.simps)
  moreover have "distinct (dkeys (text_part d))"
    using dist by (simp add: dkeys_def text_part_def distinct_map_filter)
  ultimately have "distinct (dkeys (reloaded d))"
    using nums by (force simp: reloaded_def dkeys_def o_def)
  moreover have "(k, v) \<in> set (reloaded d)" if "(k, v) \<in> set d" for k v
    using that by (force simp: reloaded_def text_part_def int_keys_def dget_mem [OF dist])
  ultimately show "dget (reloaded d) k = Some v" if "(k, v) \<in> set d" for k v
    using that by (blast intro: dget_mem)
qed

lemma rfold_rekey_stored:
  assumes d: "storable_keys d"
  shows "rfold rekey_back (map val_of_key (sorted_nums d)) (map_vals f (stored d))
    = Inr (map_vals f (reloaded d))"
proof -
  let ?S = "map_vals f (stored d)"
  have dist: "distinct (dkeys d)" using d by (simp add: storable_keys_def)
  have val: "dget ?S (KUni (key_text k)) = Some (f (the (dget d k)))" if "k \<in> set (sorted_nums d)" for k
  proof -
    from that obtain v where "(k, v) \<in> set d" by (auto simp: int_keys_def)
    then show ?thesis by (simp add: dget_map_vals dget_stored [OF d] dget_mem [OF dist])
  qed
  have "rfold rekey_back (map val_of_key (sorted_nums d)) ?S =
    Inr (filter (\<lambda>(k, _). knorm k \<notin> (NStr \<circ> key_text) ` set (sorted_nums d)) ?S
         @ map (\<lambda>k. (k, the (dget ?S (KUni (key_text k))))) (sorted_nums d))"
    (is "_ = Inr (?A @ ?B)")
  proof (rule rfold_rekey_back)
    fix k assume k: "k \<in> set (sorted_nums d)"
    then have "is_num_key k" by (simp add: int_keys_def)
    with val [OF k] show "is_num_key k \<and> dhas ?S (KUni (key_text k)) \<and> knorm k \<notin> set (dkeys ?S)"
      by (auto simp: dhas_def dkeys_stored [OF d] dest: num_key_not_text)
  next
    have "distinct (map key_text (int_keys d))"
      using storable_parts(1) [OF d] by (simp add: int_keys_num_part o_def case_prod_beta')
    then show "distinct (map key_text (sorted_nums d))"
      by (simp add: distinct_map sorted_nums_def)
    have "distinct (map knorm (int_keys d))"
      using dist by (simp add: int_keys_def dkeys_def distinct_map_filter flip: map_map)
    then show "distinct (map knorm (sorted_nums d))"
      by (simp add: distinct_map sorted_nums_def)
  qed
  moreover have "?A = map_vals f (text_part d)"
  proof -
    let ?P = "\<lambda>(k, _). knorm k \<notin> (NStr \<circ> key_text) ` set (sorted_nums d)"
    have "filter ?P (map_vals f (map stored_entry (num_part d))) = []"
      by (auto simp: filter_empty_conv map_vals_def stored_entry_def int_keys_num_part)
    moreover have "filter ?P (map_vals f (text_part d)) = map_vals f (text_part d)"
      using storable_parts(3) [OF d, symmetric] knorm_text_key [OF storable_parts(4) [OF d]]
      by (fastforce simp: filter_id_conv map_vals_def int_keys_num_part)
    ultimately show ?thesis by (simp add: stored_def map_vals_def)
  qed
  moreover have "?B = map_vals f (map (\<lambda>k. (k, the (dget d k))) (sorted_nums d))"
    using val by (simp add: map_vals_def)
  ultimately show ?thesis by (simp add: reloaded_def map_vals_def)
qed

text \<open>Loading the stored form of a table that is not a list.\<close>

lemma AfterLoad_stored:
  assumes d: "storable_keys d" and "\<not> list_like d"
    and vals: "\<And>k v. (k, v) \<in> set d \<Longrightarrow> AfterLoad (f v) = Inr (g v)"
  shows "AfterLoad (PDict (map_vals f (stored d)
        @ (if int_keys d = [] then [] else [(meta_key, PList (map val_of_key (int_keys d)))])))
    = Inr (PDict (map_vals g (reloaded d)))"
proof -
  let ?S = "map_vals f (stored d)"
  have no_meta: "dget ?S meta_key = None"
    using meta_notin_stored [OF d] by (simp add: dget_None_iff)
  then have del: "ddel ?S meta_key = ?S"
    by (intro ddel_absent) (simp add: dget_None_iff)
  have reload: "rmap (\<lambda>(k, v). rbind (AfterLoad v) (\<lambda>w. Inr (k, w))) (map_vals f (reloaded d))
      = Inr (map_vals g (reloaded d))"
    by (rule rmap_AfterLoad_vals) (auto dest: reloaded_props(2) [OF d] vals)
  show ?thesis
  proof (cases "int_keys d = []")
    case True
    then have "sorted_nums d = []" "num_part d = []" by (simp_all add: sorted_nums_def int_keys_num_part)
    then have "stored d = reloaded d" by (simp add: stored_def reloaded_def)
    with True reload no_meta show ?thesis by (subst AfterLoad.simps) simp
  next
    case False
    let ?L = "PList (map val_of_key (int_keys d))"
    have "dget (?S @ [(meta_key, ?L)]) meta_key = Some ?L" "ddel (?S @ [(meta_key, ?L)]) meta_key = ?S"
      using no_meta del by (simp_all add: dget_append ddel_append)
    moreover have "is_list_keys ?S (map val_of_key (sorted_nums d)) = Inr False"
      using is_list_keys_stored [OF d False] assms(2) by (simp add: is_list_keys_def)
    ultimately show ?thesis
      using False reload rfold_rekey_stored [OF d, of f]
      by (subst AfterLoad.simps) (simp add: sort_nums_int_keys)
  qed
qed

lemma py_eq_reloaded:
  assumes "storable_keys d" and "\<And>k v. (k, v) \<in> set d \<Longrightarrow> py_eq v (g v)"
  shows "py_eq (PDict d) (PDict (map_vals g (reloaded d)))"
  using assms(2) reloaded_props(1,3) [OF assms(1)]
  by (auto simp: list_all_iff dget_map_vals) (simp add: map_vals_def)

text \<open>
  C1: what \<open>BeforeSave\<close> writes, \<open>AfterLoad\<close> reads back as an equal value, for every
  value whose tables have text or numeric keys with different texts and are not lists in disguise.
\<close>

theorem BeforeSave_roundtrip:
  "savable v \<Longrightarrow> \<exists>w. AfterLoad (BeforeSave v) = Inr w \<and> py_eq v w"
proof (induction v rule: savable.induct)
  case (1 vs)
  show ?case
  proof (cases "vs = []")
    case True
    then show ?thesis by (simp add: BeforeSave.simps AfterLoad.simps)
  next
    case False
    from 1 have "\<forall>v \<in> set vs. \<exists>w. AfterLoad (BeforeSave v) = Inr w \<and> py_eq v w" by (auto simp: list_all_iff)
    then obtain g where g: "\<And>v. v \<in> set vs \<Longrightarrow> AfterLoad (BeforeSave v) = Inr (g v) \<and> py_eq v (g v)" by metis
    have "rmap AfterLoad (map BeforeSave vs) = Inr (map g vs)"
      unfolding rmap_map by (rule rmap_total) (simp add: g)
    then show ?thesis
      using AfterLoad_list_doc [of "map BeforeSave vs"] False g
      by (simp add: BeforeSave_list list_all2_conv_all_nth)
  qed
next
  case (2 d)
  then have "\<forall>v \<in> snd ` set d. \<exists>w. AfterLoad (BeforeSave v) = Inr w \<and> py_eq v w"
    by (fastforce simp: list_all_iff)
  then obtain g where "\<And>v. v \<in> snd ` set d \<Longrightarrow> AfterLoad (BeforeSave v) = Inr (g v) \<and> py_eq v (g v)" by metis
  then have g: "\<And>k v. (k, v) \<in> set d \<Longrightarrow> AfterLoad (BeforeSave v) = Inr (g v) \<and> py_eq v (g v)" by force
  have "AfterLoad (BeforeSave (PDict d)) = Inr (PDict (map_vals g (reloaded d)))"
    using 2(2) g AfterLoad_stored [of d BeforeSave g] by (simp add: BeforeSave_dict)
  moreover have "py_eq (PDict d) (PDict (map_vals g (reloaded d)))"
    using 2(2) g by (intro py_eq_reloaded) auto
  ultimately show ?case by blast
qed (simp_all add: BeforeSave.simps AfterLoad.simps)

lemma BeforeSave_roundtrip_witness:
  "savable (PDict [(KUni ''name'', PUni ''x''), (KInt 5, PList [PInt 1, PNone])])
   \<and> (\<exists>w. AfterLoad (BeforeSave (PDict [(KUni ''name'', PUni ''x''), (KInt 5, PList [PInt 1, PNone])])) = Inr w
        \<and> py_eq (PDict [(KUni ''name'', PUni ''x''), (KInt 5, PList [PInt 1, PNone])]) w)"
proof -
  have "savable (PDict [(KUni ''name'', PUni ''x''), (KInt 5, PList [PInt 1, PNone])])"
    by (simp add: storable_keys_def list_like_def int_keys_def sorted_nums_def is_py_int_def
        key_text_def str_of_int_def str_of_nat_eval digit_char_def)
  with BeforeSave_roundtrip [OF this] show ?thesis by blast
qed

section \<open>Tables with the keys 1 .. n come back as lists\<close>

definition int_table :: "nat \<Rightarrow> (pykey \<times> pyval) list \<Rightarrow> bool" where
  "int_table n d \<longleftrightarrow> distinct (map fst d) \<and> set (map fst d) = (\<lambda>i. KInt (int i + 1)) ` {..<n}"

lemma int_table_key: "int_table n d \<Longrightarrow> (k, v) \<in> set d \<Longrightarrow> \<exists>i<n. k = KInt (int i + 1)"
proof -
  assume d: "int_table n d" and "(k, v) \<in> set d"
  then have "k \<in> set (map fst d)" by force
  with d show ?thesis by (auto simp: int_table_def simp del: set_map)
qed

lemma key_text_int: "key_text (KInt (int i + 1)) = str_of_nat (Suc i)"
  by (simp add: key_text_def str_of_int_def nat_add_distrib)

lemma int_table_parts:
  assumes "int_table n d" and "n < 2 ^ 63"
  shows "num_part d = d" and "text_part d = []" and "int_keys d = map fst d"
proof -
  have "is_num_key k" if "(k, v) \<in> set d" for k v
    using int_table_key [OF assms(1) that] assms(2) by (auto simp: is_py_int_def)
  then show "num_part d = d" "text_part d = []"
    by (auto simp: num_part_def text_part_def filter_id_conv filter_empty_conv)
  then show "int_keys d = map fst d" by (simp add: int_keys_num_part)
qed

lemma int_table_distinct:
  assumes "int_table n d"
  shows "distinct (map (\<lambda>(k, v). key_text k) d)" and "distinct (dkeys d)"
proof -
  have "distinct (map fst d)" using assms by (simp add: int_table_def)
  moreover have "inj_on key_text (set (map fst d))" "inj_on knorm (set (map fst d))"
    using assms by (auto simp: int_table_def inj_on_def key_text_int)
  ultimately have "distinct (map key_text (map fst d))" "distinct (map knorm (map fst d))"
    by (simp_all only: distinct_map)
  moreover have "map (\<lambda>(k, v). key_text k) d = map key_text (map fst d)" "dkeys d = map knorm (map fst d)"
    by (simp_all add: dkeys_def case_prod_beta')
  ultimately show "distinct (map (\<lambda>(k, v). key_text k) d)" "distinct (dkeys d)"
    by (simp_all only:)
qed

lemma int_table_storable:
  assumes "int_table n d" and "n < 2 ^ 63"
  shows "storable_keys d"
proof -
  have "is_num_key k \<and> key_text k \<noteq> ''_meta_intkey''" if "(k, v) \<in> set d" for k v
    using int_table_key [OF assms(1) that] assms(2)
    by (auto simp: is_py_int_def key_text_int meta_not_digits)
  then show ?thesis
    using int_table_distinct [OF assms(1)] by (auto simp: storable_keys_def list_all_iff)
qed

lemma int_table_sorted:
  assumes "int_table n d" and "n < 2 ^ 63"
  shows "sorted_nums d = map (\<lambda>i. KInt (int i + 1)) [0..<n]"
proof -
  let ?f = "\<lambda>k. the (num_of (val_of_key k))"
  let ?ks = "map (\<lambda>i. KInt (int i + 1)) [0..<n]"
  have keys: "distinct (map fst d)" "set (map fst d) = set ?ks"
    using assms(1) by (auto simp: int_table_def)
  have "sorted (map ?f (sorted_nums d))" by (simp add: sorted_nums_def)
  moreover have "sorted (map ?f ?ks)" by (simp add: o_def sorted_map sorted_wrt_upt)
  moreover have inj: "inj_on ?f (set ?ks)" by (auto simp: inj_on_def)
  moreover have set: "set (sorted_nums d) = set ?ks"
    using keys by (simp add: int_table_parts [OF assms])
  moreover have "distinct (sorted_nums d)" "distinct ?ks" using keys(1)
    by (simp_all add: sorted_nums_def int_table_parts [OF assms] distinct_map inj_on_def)
  ultimately have "map ?f (sorted_nums d) = map ?f ?ks"
    by (intro sorted_distinct_set_unique) (simp_all only: distinct_map set_map)
  then show ?thesis by (rule map_inj_on) (use inj set in simp)
qed

text \<open>A table with the keys \<open>1 .. n\<close>, in whatever order, is loaded as the list of its values.\<close>

lemma AfterLoad_int_table:
  assumes d: "int_table n d" and n: "0 < n" "n < 2 ^ 63"
    and vals: "\<And>k v. (k, v) \<in> set d \<Longrightarrow> AfterLoad (BeforeSave v) = Inr (g v)"
  shows "AfterLoad (BeforeSave (PDict d))
    = Inr (PList (map (\<lambda>i. g (the (dget d (KInt (int i + 1))))) [0..<n]))"
proof -
  note st = int_table_storable [OF d n(2)]
  let ?nums = "map (\<lambda>i. PInt (int i + 1)) [0..<n]"
  let ?S = "map_vals BeforeSave (stored d)"
  let ?L = "PList (map val_of_key (int_keys d))"
  have keys: "set (map fst d) = (\<lambda>i. KInt (int i + 1)) ` {..<n}" using d by (simp add: int_table_def)
  have ne: "int_keys d \<noteq> []" using keys n(1) by (auto simp: int_table_parts [OF d n(2)])
  have meta: "dget ?S meta_key = None"
    using meta_notin_stored [OF st] by (simp add: dget_None_iff)
  then have look: "dget (?S @ [(meta_key, ?L)]) meta_key = Some ?L" "ddel (?S @ [(meta_key, ?L)]) meta_key = ?S"
    using ddel_absent [of meta_key ?S] dget_None_iff [of ?S meta_key]
    by (simp_all only: dget_append ddel_append) simp_all
  have nums: "map val_of_key (sorted_nums d) = ?nums"
    by (simp add: int_table_sorted [OF d n(2)])
  have "listable (map val_of_key (int_keys d)) = listable ?nums"
    by (rule listable_set) (simp flip: nums)
  moreover have "list_all (listable ?nums) (map fst d)"
    using int_mem_list_nums [of _ n]
    by (auto simp: list_all_iff listable_def key_text_int list_nums_def dest!: int_table_key [OF d])
  ultimately have "list_like d"
    using ne from_one_list_nums [of 0 n] by (simp add: list_like_def nums)
  with is_list_keys_stored [OF st ne] have isl: "is_list_keys ?S ?nums = Inr True"
    by (simp add: is_list_keys_def nums)
  have "rbind (list_elem ?S (PInt (int i + 1))) AfterLoad = Inr (g (the (dget d (KInt (int i + 1)))))"
    if "i < n" for i
  proof -
    from that keys obtain v where v: "(KInt (int i + 1), v) \<in> set d" by force
    with vals dget_stored [OF st v] dget_mem [OF int_table_distinct(2) [OF d] v] show ?thesis
      by (simp add: list_elem_def dget_map_vals key_text_int str_of_int_def nat_add_distrib)
  qed
  then have "rmap (\<lambda>k. rbind (list_elem ?S k) AfterLoad) ?nums
      = Inr (map (\<lambda>i. g (the (dget d (KInt (int i + 1))))) [0..<n])"
    unfolding rmap_map by (intro rmap_total) simp
  with isl nums look ne sort_nums_int_keys [of d] show ?thesis
    by (subst AfterLoad.simps) (simp add: BeforeSave_dict [OF st])
qed

text \<open>
  C8: a table whose keys are the integers \<open>1 .. n\<close> in any order is read back as the list of
  its values in the order of the keys, each value equal to the one saved.
\<close>

theorem int_table_loads_as_list:
  assumes "int_table n d" and "0 < n" and "n < 2 ^ 63" and "list_all (\<lambda>(k, v). savable v) d"
  shows "\<exists>ws. AfterLoad (BeforeSave (PDict d)) = Inr (PList ws) \<and> length ws = n
     \<and> (\<forall>i<n. \<exists>v. dget d (KInt (int i + 1)) = Some v \<and> py_eq v (ws ! i))"
proof -
  have "\<forall>v \<in> snd ` set d. \<exists>w. AfterLoad (BeforeSave v) = Inr w \<and> py_eq v w"
    using assms(4) BeforeSave_roundtrip by (fastforce simp: list_all_iff)
  then obtain g where g: "\<And>v. v \<in> snd ` set d \<Longrightarrow> AfterLoad (BeforeSave v) = Inr (g v) \<and> py_eq v (g v)" by metis
  have "\<exists>v. dget d (KInt (int i + 1)) = Some v \<and> py_eq v (g (the (dget d (KInt (int i + 1)))))" if "i < n" for i
  proof -
    from that assms(1) obtain v where v: "(KInt (int i + 1), v) \<in> set d" by (force simp: int_table_def)
    then have "v \<in> snd ` set d" by force
    with g dget_mem [OF int_table_distinct(2) [OF assms(1)] v] show ?thesis by auto
  qed
  moreover have "AfterLoad (BeforeSave (PDict d)) = Inr (PList (map (\<lambda>i. g (the (dget d (KInt (int i + 1))))) [0..<n]))"
    by (rule AfterLoad_int_table [OF assms(1-3)]) (use g in force)
  ultimately show ?thesis by auto
qed

lemma int_table_loads_as_list_witness:
  "\<exists>ws. AfterLoad (BeforeSave (PDict [(KInt 2, PInt 20), (KInt 1, PInt 10)])) = Inr (PList ws) \<and> length ws = 2
     \<and> (\<forall>i<2. \<exists>v. dget [(KInt 2, PInt 20), (KInt 1, PInt 10)] (KInt (int i + 1)) = Some v \<and> py_eq v (ws ! i))"
proof -
  have "int_table 2 [(KInt 2, PInt 20), (KInt 1, PInt 10)]"
    by (auto simp: int_table_def lessThan_nat_numeral lessThan_Suc)
  from int_table_loads_as_list [OF this] show ?thesis by simp
qed

section \<open>Stored documents have text keys\<close>

fun bson_keys :: "pyval \<Rightarrow> bool" where
  "bson_keys (PList vs) \<longleftrightarrow> list_all bson_keys vs"
| "bson_keys (PDict d) \<longleftrightarrow> list_all (\<lambda>(k, v). text_key k \<and> bson_keys v) d"
| "bson_keys _ \<longleftrightarrow> True"

fun plain_keys :: "pyval \<Rightarrow> bool" where
  "plain_keys (PList vs) \<longleftrightarrow> list_all plain_keys vs"
| "plain_keys (PDict d) \<longleftrightarrow> list_all (\<lambda>(k, v). (text_key k \<or> is_num_key k) \<and> plain_keys v) d"
| "plain_keys _ \<longleftrightarrow> True"

lemma dput_mem: "(k', v') \<in> set (dput d k v) \<Longrightarrow> k' \<in> fst ` set d \<or> k' = k"
  by (induction d k v rule: dput.induct) (force split: if_splits)+

text \<open>After the first loop no numeric key is left.\<close>

lemma rekey_out_keys:
  assumes "(k', v') \<in> set (rekey_out k d)"
  shows "(\<exists>s. k' = KUni s) \<or> k' \<in> fst ` set d \<and> k' \<noteq> k"
proof (cases "dget d k")
  case None
  with assms have mem: "(k', v') \<in> set d" by (simp add: rekey_out_def)
  with None dkeys_mem [OF mem] have "k' \<noteq> k" by (auto simp: dget_None_iff)
  with mem show ?thesis by force
next
  case (Some v)
  then have "(k', v') \<in> set (dput d (KUni (key_text k)) v)" and "k' \<noteq> k"
    using assms by (auto simp: rekey_out_def ddel_def)
  with dput_mem [OF this(1)] show ?thesis by auto
qed

lemma fold_rekey_out_keys:
  "(k', v') \<in> set (fold rekey_out ks d) \<Longrightarrow> (\<exists>s. k' = KUni s) \<or> k' \<in> fst ` set d \<and> k' \<notin> set ks"
proof (induction ks arbitrary: d)
  case Nil
  then show ?case by force
next
  case (Cons k ks)
  from Cons.IH [of "rekey_out k d"] Cons.prems rekey_out_keys [of k' _ k d] show ?case by fastforce
qed

lemma rekeyed_text:
  assumes "\<forall>(k, v) \<in> set d. text_key k \<or> is_num_key k" and "(k', v') \<in> set (fold rekey_out (int_keys d) d)"
  shows "text_key k'"
  using fold_rekey_out_keys [OF assms(2)] assms(1) by (auto simp: int_keys_def)

text \<open>
  C9: when every key of a value is text or a machine integer, a float or a boolean, every key of
  every document \<open>BeforeSave\<close> writes, at any depth, is text, which is what BSON requires.
\<close>

theorem BeforeSave_bson_keys: "plain_keys v \<Longrightarrow> bson_keys (BeforeSave v)"
proof (induction v rule: BeforeSave.induct)
  case (1 rData)
  show ?case
  proof (cases rData)
    case (PList vs)
    then have "bson_keys (BeforeSave v)" if "v \<in> set vs" for v
      using that 1 by (cases vs) (auto simp: list_all_iff)
    then show ?thesis
      by (cases "vs = []") (auto simp: PList BeforeSave_list BeforeSave.simps [of "PList []"]
          list_all_iff list_doc_def list_nums_def meta_key_def)
  next
    case (PDict d)
    let ?d = "fold rekey_out (int_keys d) d"
    have keys: "\<forall>(k, v) \<in> set d. text_key k \<or> is_num_key k" and vals: "\<forall>(k, v) \<in> set d. plain_keys v"
      using 1(3) by (auto simp: PDict list_all_iff)
    have "text_key k \<and> bson_keys (BeforeSave v)" if "(k, v) \<in> set ?d" for k v
    proof -
      from that obtain k' where "(k', v) \<in> set d" using fold_rekey_out_values by blast
      with vals have "plain_keys v" by auto
      moreover have "d \<noteq> []" using \<open>(k', v) \<in> set d\<close> by auto
      ultimately show ?thesis
        using 1(2) [of d "int_keys d" ?d "(k, v)" k v] that rekeyed_text [OF keys that] by (simp add: PDict)
    qed
    then have all: "list_all (\<lambda>(k, v). text_key k \<and> bson_keys v) (map (\<lambda>(k, v). (k, BeforeSave v)) ?d)"
      by (auto simp: list_all_iff)
    have put: "list_all (\<lambda>(k, v). text_key k \<and> bson_keys v) (dput e meta_key (PList (map val_of_key ks)))"
      if "list_all (\<lambda>(k, v). text_key k \<and> bson_keys v) e" for e ks
    proof -
      have "bson_keys (val_of_key k)" for k by (cases k) simp_all
      then have "bson_keys (PList (map val_of_key ks))" by (simp add: list_all_iff)
      with that show ?thesis
        by (induction e) (auto simp: meta_key_def simp del: bson_keys.simps)
    qed
    show ?thesis
      using all put [OF all] by (cases "int_keys d = []"; subst BeforeSave.simps) (simp_all add: PDict Let_def)
  qed (simp_all add: BeforeSave.simps)
qed

lemma BeforeSave_bson_keys_witness:
  "bson_keys (BeforeSave (PDict [(KInt 7, PDict [(KFloat 2, PInt 1)]), (KStr ''a'', PNone)]))"
  by (rule BeforeSave_bson_keys) (simp add: is_py_int_def is_ascii_def)

text \<open>
  The keys \<open>1\<close> and \<open>u"1"\<close> of one table get the same text: the entry of the text key is
  overwritten by that of the number.
\<close>

lemma BeforeSave_key_collision:
  "BeforeSave (PDict [(KInt 1, PInt 10), (KUni ''1'', PInt 20)]) =
     PDict [(KUni ''1'', PInt 10), (meta_key, PList [PInt 1])]"
proof -
  have "key_text (KInt 1) = ''1''"
    by (simp add: key_text_def str_of_int_def str_of_nat_eval digit_char_def)
  then have "fold rekey_out (int_keys [(KInt 1, PInt 10), (KUni ''1'', PInt 20)])
      [(KInt 1, PInt 10), (KUni ''1'', PInt 20)] = [(KUni ''1'', PInt 10)]"
    by (simp add: int_keys_def is_py_int_def rekey_out_def ddel_def)
  then show ?thesis
    by (subst BeforeSave.simps)
      (simp add: int_keys_def is_py_int_def BeforeSave.simps [of "PInt 10"] meta_key_def)
qed

end
