(* ===== verification/HefuGlobal.thy ===== *)
theory HefuGlobal
  imports Tables DbData "HOL-Library.Sublist"
begin

text \<open>
  \<open>shell/db/hefu_global.py\<close>: the merge of the collection \<open>global\<close> when two game
  servers are joined. Documents of both servers are indexed by their name; for every name the
  merge knows, the data of the server that disappears (\<open>from\<close>) is folded into the data of
  the one that stays (\<open>dest\<close>) by a handler per kind of data. The code changes dictionaries
  in place; a handler of the model returns the new document of \<open>dest\<close>.
\<close>

section \<open>Names and documents\<close>

abbreviation kstr :: "string \<Rightarrow> pykey" where
  "kstr \<equiv> KStr"

abbreviation k_data :: pykey where
  "k_data \<equiv> KStr ''data''"

definition global_names :: "string list" where
  "global_names = [''achieve'', ''hongbao'', ''partner'', ''arenagame'', ''dialytask'', ''equalarena'',
     ''orgfuben'', ''pata'', ''travel'']"

definition IsGlobalSave :: "pykey \<Rightarrow> bool" where
  "IsGlobalSave sName \<longleftrightarrow> list_ex (\<lambda>s. knorm sName = knorm (KStr s)) global_names"

text \<open>
  \<open>InitGlobalData\<close> changes both indexes: it creates the two documents and their entry
  \<open>data\<close> where they are missing.
\<close>

definition init_doc :: "pykey \<Rightarrow> (pykey \<times> pyval) list \<Rightarrow> (pykey \<times> pyval) list res" where
  "init_doc sName mRes =
     (let mRes1 = (if dhas mRes sName then mRes else dput mRes sName (PDict []))
      in rbind (of_option KeyError (dget mRes1 sName)) (\<lambda>mData.
         rbind (ensure mData k_data (PDict [])) (\<lambda>mData1. Inr (dput mRes1 sName mData1))))"

definition InitGlobalData ::
  "pykey \<Rightarrow> (pykey \<times> pyval) list \<Rightarrow> (pykey \<times> pyval) list
    \<Rightarrow> ((pykey \<times> pyval) list \<times> (pykey \<times> pyval) list) res" where
  "InitGlobalData sName mFromRes mDestRes =
     rbind (init_doc sName mFromRes) (\<lambda>f. rbind (init_doc sName mDestRes) (\<lambda>d. Inr (f, d)))"

section \<open>The handlers\<close>

text \<open>\<open>dst[k] = dst[k] + n\<close> for a counter that starts at 0.\<close>

definition add_count :: "pykey \<times> pyval \<Rightarrow> pyval \<Rightarrow> pyval res" where
  "add_count kv m =
     rbind (ensure m (fst kv) (PInt 0)) (\<lambda>m1.
     rbind (getitem m1 (fst kv)) (\<lambda>old.
     rbind (py_add old (snd kv)) (\<lambda>s. setitem m1 (fst kv) s)))"

definition StartDealGlobalAchieve :: "pyval \<Rightarrow> pyval \<Rightarrow> pyval res" where
  "StartDealGlobalAchieve mFromData mDestData =
     rbind (getitem mFromData k_data) (\<lambda>mFromAchieveData.
     rbind (getitem mDestData k_data) (\<lambda>mDestAchieveData.
     rbind (getitem mFromAchieveData (kstr ''achcnt'')) (\<lambda>mAchieveCnt.
     rbind (ensure mDestAchieveData (kstr ''achcnt'') (PDict [])) (\<lambda>dest1.
     rbind (getitem dest1 (kstr ''achcnt'')) (\<lambda>mDestAchieveCnt.
     rbind (items_of mAchieveCnt) (\<lambda>kvs.
     rbind (rfold add_count kvs mDestAchieveCnt) (\<lambda>cnt.
     rbind (setitem dest1 (kstr ''achcnt'') cnt) (\<lambda>dest2.
     setitem mDestData k_data dest2))))))))"

definition StartDealGlobalHongBao :: "pyval \<Rightarrow> pyval \<Rightarrow> pyval res" where
  "StartDealGlobalHongBao mFromData mDestData =
     rbind (getitem mFromData k_data) (\<lambda>mHbFromData.
     rbind (getitem mDestData k_data) (\<lambda>mHbDestData.
     rbind (has_key mHbFromData (kstr ''hbid'')) (\<lambda>b.
     rbind (if b then
              rbind (getitem mHbFromData (kstr ''hbid'')) (\<lambda>iFromHbid.
              rbind (getitem mHbDestData (kstr ''hbid'')) (\<lambda>iDestHbid.
              rbind (py_lt iDestHbid iFromHbid) (\<lambda>gt.
              if gt then setitem mHbDestData (kstr ''hbid'') iFromHbid else Inr mHbDestData)))
            else Inr mHbDestData) (\<lambda>dest1.
     rbind (has_key mHbFromData (kstr ''hongbao'')) (\<lambda>b2.
     rbind (if b2 then
              rbind (getitem mHbFromData (kstr ''hongbao'')) (\<lambda>mFromHbObjSave.
              rbind (ensure dest1 (kstr ''hongbao'') (PDict [])) (\<lambda>dest2.
              rbind (getitem dest2 (kstr ''hongbao'')) (\<lambda>mDestHbObjSave.
              rbind (copy_items mFromHbObjSave mDestHbObjSave) (\<lambda>objs.
              setitem dest2 (kstr ''hongbao'') objs))))
            else Inr dest1) (\<lambda>dest3.
     setitem mDestData k_data dest3))))))"

text \<open>One partner's comments: the list is filled up to 200, the hot comments are all appended.\<close>

definition merge_comments :: "pykey \<times> pyval \<Rightarrow> pyval \<Rightarrow> pyval res" where
  "merge_comments kv dest =
     rbind (ensure dest (fst kv) (PDict [])) (\<lambda>dest1.
     rbind (getitem dest1 (fst kv)) (\<lambda>mDestCmt.
     rbind (ensure mDestCmt (kstr ''list'') (PList [])) (\<lambda>mDestCmt1.
     rbind (getitem mDestCmt1 (kstr ''list'')) (\<lambda>lDestCmtList.
     rbind (getitem (snd kv) (kstr ''list'')) (\<lambda>lFromCmtList.
     rbind (iter_of lFromCmtList) (\<lambda>cmts.
     rbind (append_capped 200 cmts lDestCmtList) (\<lambda>l1.
     rbind (getitem (snd kv) (kstr ''hot_list'')) (\<lambda>lFromHotCmtList.
     rbind (iter_of lFromHotCmtList) (\<lambda>hots.
     rbind (append_all hots l1) (\<lambda>l2.
     rbind (setitem mDestCmt1 (kstr ''list'') l2) (\<lambda>mDestCmt2.
     setitem dest1 (fst kv) mDestCmt2)))))))))))"

definition StartDealGlobalPartner :: "pyval \<Rightarrow> pyval \<Rightarrow> pyval res" where
  "StartDealGlobalPartner mFromData mDestData =
     rbind (getitem mFromData k_data) (\<lambda>mFromPartnerCmtData.
     rbind (getitem mDestData k_data) (\<lambda>mDestPartnerCmtData.
     rbind (items_of mFromPartnerCmtData) (\<lambda>kvs.
     rbind (rfold merge_comments kvs mDestPartnerCmtData) (\<lambda>dest1.
     setitem mDestData k_data dest1))))"

text \<open>\<open>if not dst.has_key(k): dst[k] = []\<close>, then the records of the other server are appended.\<close>

definition append_records :: "pykey \<times> pyval \<Rightarrow> pyval \<Rightarrow> pyval res" where
  "append_records kv dest =
     rbind (ensure dest (fst kv) (PList [])) (\<lambda>dest1.
     rbind (getitem dest1 (fst kv)) (\<lambda>lDestRecord.
     rbind (iter_of (snd kv)) (\<lambda>recs.
     rbind (append_all recs lDestRecord) (\<lambda>l. setitem dest1 (fst kv) l))))"

definition StartDealGlobalArenagame :: "pyval \<Rightarrow> pyval \<Rightarrow> pyval res" where
  "StartDealGlobalArenagame mFromData mDestData =
     rbind (getitem mFromData k_data) (\<lambda>mFromArenagame.
     rbind (getitem mDestData k_data) (\<lambda>mDestArenagame.
     rbind (getitem mFromArenagame (kstr ''show'')) (\<lambda>mFromRecordList.
     rbind (ensure mDestArenagame (kstr ''show'') (PDict [])) (\<lambda>dest1.
     rbind (getitem dest1 (kstr ''show'')) (\<lambda>mDestRecordList.
     rbind (items_of mFromRecordList) (\<lambda>kvs.
     rbind (rfold append_records kvs mDestRecordList) (\<lambda>recs.
     rbind (setitem dest1 (kstr ''show'') recs) (\<lambda>dest2.
     setitem mDestData k_data dest2))))))))"

text \<open>The barrage of one show, filled up to 100.\<close>

definition merge_barrage :: "pykey \<times> pyval \<Rightarrow> pyval \<Rightarrow> pyval res" where
  "merge_barrage kv dest =
     rbind (ensure dest (fst kv) (PList [])) (\<lambda>dest1.
     rbind (getitem dest1 (fst kv)) (\<lambda>lDestBarrage.
     rbind (iter_of (snd kv)) (\<lambda>lBarrage.
     rbind (append_capped 100 lBarrage lDestBarrage) (\<lambda>l. setitem dest1 (fst kv) l))))"

definition StartDealGlobalDialyTask :: "pyval \<Rightarrow> pyval \<Rightarrow> pyval res" where
  "StartDealGlobalDialyTask mFromData mDestData =
     rbind (getitem mFromData k_data) (\<lambda>mFromDialyTask.
     rbind (getitem mDestData k_data) (\<lambda>mDestDialyTask.
     rbind (items_of mFromDialyTask) (\<lambda>kvs.
     rbind (rfold merge_barrage kvs mDestDialyTask) (\<lambda>dest1.
     setitem mDestData k_data dest1))))"

text \<open>One week of the ranking: the point kept is the smaller one, 0 for a week \<open>dest\<close> has not.\<close>

definition merge_point :: "pykey \<times> pyval \<Rightarrow> pyval \<Rightarrow> pyval res" where
  "merge_point kv dest =
     rbind (ensure dest (fst kv) (PDict [])) (\<lambda>dest1.
     rbind (getitem dest1 (fst kv)) (\<lambda>mDestPoint.
     rbind (getitem (snd kv) (kstr ''point'')) (\<lambda>iFromPoint.
     rbind (ensure mDestPoint (kstr ''point'') (PInt 0)) (\<lambda>mDestPoint1.
     rbind (getitem mDestPoint1 (kstr ''point'')) (\<lambda>iDestPoint.
     rbind (py_lt iFromPoint iDestPoint) (\<lambda>lt.
     rbind (if lt then setitem mDestPoint1 (kstr ''point'') iFromPoint else Inr mDestPoint1) (\<lambda>mDestPoint2.
     setitem dest1 (fst kv) mDestPoint2)))))))"

definition StartDealGlobalEqualArean :: "pyval \<Rightarrow> pyval \<Rightarrow> pyval res" where
  "StartDealGlobalEqualArean mFromData mDestData =
     rbind (getitem mFromData k_data) (\<lambda>mFromArenagame.
     rbind (getitem mDestData k_data) (\<lambda>mDestArenagame.
     rbind (getitem mFromArenagame (kstr ''show'')) (\<lambda>mFromRecordList.
     rbind (ensure mDestArenagame (kstr ''show'') (PDict [])) (\<lambda>dest1.
     rbind (getitem dest1 (kstr ''show'')) (\<lambda>mDestRecordList.
     rbind (items_of mFromRecordList) (\<lambda>kvs.
     rbind (rfold append_records kvs mDestRecordList) (\<lambda>recs.
     rbind (setitem dest1 (kstr ''show'') recs) (\<lambda>dest2.
     rbind (getitem mFromArenagame (kstr ''rank'')) (\<lambda>mFromRankData.
     rbind (ensure dest2 (kstr ''rank'') (PDict [])) (\<lambda>dest3.
     rbind (getitem dest3 (kstr ''rank'')) (\<lambda>mDestRankData.
     rbind (items_of mFromRankData) (\<lambda>rks.
     rbind (rfold merge_point rks mDestRankData) (\<lambda>ranks.
     rbind (setitem dest3 (kstr ''rank'') ranks) (\<lambda>dest4.
     setitem mDestData k_data dest4))))))))))))))"

text \<open>\<open>for k, v in from[key].items(): dest[key][k] = v\<close>, with \<open>dest[key]\<close> created if missing.\<close>

definition copy_table :: "pykey \<Rightarrow> pyval \<Rightarrow> pyval \<Rightarrow> pyval res" where
  "copy_table sKey mFrom mDest =
     rbind (getitem mFrom sKey) (\<lambda>mFromTable.
     rbind (ensure mDest sKey (PDict [])) (\<lambda>dest1.
     rbind (getitem dest1 sKey) (\<lambda>mDestTable.
     rbind (copy_items mFromTable mDestTable) (\<lambda>t. setitem dest1 sKey t))))"

definition StartDealGlobalOrgFuben :: "pyval \<Rightarrow> pyval \<Rightarrow> pyval res" where
  "StartDealGlobalOrgFuben mFromData mDestData =
     rbind (getitem mFromData k_data) (\<lambda>mFromOrgData.
     rbind (getitem mDestData k_data) (\<lambda>mDestOrgData.
     rbind (copy_table (kstr ''boss'') mFromOrgData mDestOrgData) (\<lambda>dest1.
     setitem mDestData k_data dest1)))"

definition StartDealGolbalPata :: "pyval \<Rightarrow> pyval \<Rightarrow> pyval res" where
  "StartDealGolbalPata mFromData mDestData =
     rbind (getitem mFromData k_data) (\<lambda>mFromPataData.
     rbind (getitem mDestData k_data) (\<lambda>mDestPataData.
     rbind (copy_table (kstr ''sweepinfo'') mFromPataData mDestPataData) (\<lambda>dest1.
     rbind (copy_table (kstr ''sweepreward'') mFromPataData dest1) (\<lambda>dest2.
     setitem mDestData k_data dest2))))"

definition StartDealGlobalTravel :: "pyval \<Rightarrow> pyval \<Rightarrow> pyval res" where
  "StartDealGlobalTravel mFromData mDestData =
     rbind (getitem mFromData k_data) (\<lambda>mFromTravelData.
     rbind (getitem mDestData k_data) (\<lambda>mDestTravelData.
     rbind (copy_table (kstr ''game'') mFromTravelData mDestTravelData) (\<lambda>dest1.
     setitem mDestData k_data dest1)))"

section \<open>The merge\<close>

text \<open>
  The chain of \<open>if sName == ...\<close>; \<open>IsGlobalSave\<close> holds of no other name.
\<close>

definition global_handlers :: "(string \<times> (pyval \<Rightarrow> pyval \<Rightarrow> pyval res)) list" where
  "global_handlers =
     [(''achieve'', StartDealGlobalAchieve), (''hongbao'', StartDealGlobalHongBao),
      (''partner'', StartDealGlobalPartner), (''arenagame'', StartDealGlobalArenagame),
      (''dialytask'', StartDealGlobalDialyTask), (''equalarena'', StartDealGlobalEqualArean),
      (''orgfuben'', StartDealGlobalOrgFuben), (''pata'', StartDealGolbalPata),
      (''travel'', StartDealGlobalTravel)]"

definition deal_global :: "pykey \<Rightarrow> pyval \<Rightarrow> pyval \<Rightarrow> pyval res" where
  "deal_global sName mFromData mDestData =
     (case find (\<lambda>(s, h). knorm sName = knorm (KStr s)) global_handlers of
        None \<Rightarrow> Inr mDestData
      | Some (s, h) \<Rightarrow> h mFromData mDestData)"

text \<open>
  \<open>mRes[mData["name"]] = db.AfterLoad(mData)\<close>. A document read back as a list had digits as
  its only keys, so it has no name.
\<close>

definition index_doc :: "pyval \<Rightarrow> (pykey \<times> pyval) list \<Rightarrow> (pykey \<times> pyval) list res" where
  "index_doc mData mRes =
     rbind (AfterLoad mData) (\<lambda>w.
     rbind (case w of PList _ \<Rightarrow> Inl KeyError | _ \<Rightarrow> getitem w (kstr ''name'')) (\<lambda>nm.
     rbind (key_of nm) (\<lambda>k. Inr (dput mRes k w))))"

definition index_docs :: "pyval list \<Rightarrow> (pykey \<times> pyval) list res" where
  "index_docs docs = rfold index_doc docs []"

text \<open>One turn of the loop over the names of the source; the state is both indexes.\<close>

definition merge_name ::
  "pykey \<Rightarrow> (pykey \<times> pyval) list \<times> (pykey \<times> pyval) list
    \<Rightarrow> ((pykey \<times> pyval) list \<times> (pykey \<times> pyval) list) res" where
  "merge_name sName st =
     (if \<not> IsGlobalSave sName then Inr st else
      rbind (InitGlobalData sName (fst st) (snd st)) (\<lambda>(mFromRes, mDestRes).
      rbind (of_option KeyError (dget mFromRes sName)) (\<lambda>mFromData.
      rbind (of_option KeyError (dget mDestRes sName)) (\<lambda>mDestData.
      rbind (deal_global sName mFromData mDestData) (\<lambda>d1.
      rbind (ensure d1 (kstr ''name'') (val_of_key sName)) (\<lambda>d2.
      rbind (has_key d2 (kstr ''_id'')) (\<lambda>b.
      rbind (if b then Inr d2
             else rbind (getitem mFromData (kstr ''_id'')) (\<lambda>i. setitem d2 (kstr ''_id'') i)) (\<lambda>d3.
      Inr (mFromRes, dput mDestRes sName d3)))))))))"

definition StartDealGlobal :: "pyval list \<Rightarrow> pyval list \<Rightarrow> pyval list res" where
  "StartDealGlobal lFromRes lDestRes =
     rbind (index_docs lFromRes) (\<lambda>mFromRes.
     rbind (index_docs lDestRes) (\<lambda>mDestRes.
     rbind (rfold merge_name (map fst mFromRes) (mFromRes, mDestRes)) (\<lambda>st.
     Inr (map snd (snd st)))))"

section \<open>The turns of the handlers' loops\<close>

definition count_ok :: "pyval \<Rightarrow> pyval option \<Rightarrow> bool" where
  "count_ok v w \<longleftrightarrow> int_or_none (Some v) \<and> int_or_none w"

definition records_ok :: "pyval \<Rightarrow> pyval option \<Rightarrow> bool" where
  "records_ok v w \<longleftrightarrow> list_or_none (Some v) \<and> list_or_none w"

interpretation counts: entry_update add_count "\<lambda>v w. PInt (as_int w + as_int (Some v))" count_ok
proof
  fix v d k assume ok: "count_ok v (dget d k)"
  then obtain i where v: "v = PInt i" by (auto simp: count_ok_def)
  with ok show "\<exists>d'. add_count (k, v) (PDict d) = Inr (PDict d') \<and>
      (\<forall>k'. dget d' k' = (if knorm k' = knorm k then Some (PInt (as_int (dget d k) + as_int (Some v))) else dget d k'))"
    unfolding count_ok_def
    by (auto dest!: or_noneE simp: add_count_def py_add_def dhas_simps
        simp del: rbind_eq_Inr)
qed

interpretation records: entry_update append_records "\<lambda>v w. PList (as_list w @ as_list (Some v))" records_ok
proof
  fix v d k assume ok: "records_ok v (dget d k)"
  then obtain xs where v: "v = PList xs" by (auto simp: records_ok_def)
  with ok show "\<exists>d'. append_records (k, v) (PDict d) = Inr (PDict d') \<and>
      (\<forall>k'. dget d' k' = (if knorm k' = knorm k then Some (PList (as_list (dget d k) @ as_list (Some v))) else dget d k'))"
    unfolding records_ok_def
    by (auto dest!: or_noneE simp: append_records_def dhas_simps)
qed

interpretation barrage: entry_update merge_barrage
  "\<lambda>v w. PList (as_list w @ take (100 - length (as_list w)) (as_list (Some v)))" records_ok
proof
  fix v d k assume ok: "records_ok v (dget d k)"
  then obtain xs where v: "v = PList xs" by (auto simp: records_ok_def)
  with ok show "\<exists>d'. merge_barrage (k, v) (PDict d) = Inr (PDict d') \<and>
      (\<forall>k'. dget d' k' = (if knorm k' = knorm k
         then Some (PList (as_list (dget d k) @ take (100 - length (as_list (dget d k))) (as_list (Some v))))
         else dget d k'))"
    unfolding records_ok_def
    by (auto dest!: or_noneE simp: merge_barrage_def dhas_simps)
qed

text \<open>A partner's comments: the condition on the two documents, and the new list.\<close>

definition comments_ok :: "pyval \<Rightarrow> pyval option \<Rightarrow> bool" where
  "comments_ok v w \<longleftrightarrow> table_or_none (Some v) \<and> table_or_none w
     \<and> list_or_none (dget (as_table w) (kstr ''list''))
     \<and> dget (as_table (Some v)) (kstr ''list'') = Some (PList (as_list (dget (as_table (Some v)) (kstr ''list''))))
     \<and> dget (as_table (Some v)) (kstr ''hot_list'') = Some (PList (as_list (dget (as_table (Some v)) (kstr ''hot_list''))))"

definition merged_comments :: "pyval \<Rightarrow> pyval option \<Rightarrow> pyval list" where
  "merged_comments v w =
     (let old = as_list (dget (as_table w) (kstr ''list''))
      in old @ take (200 - length old) (as_list (dget (as_table (Some v)) (kstr ''list'')))
         @ as_list (dget (as_table (Some v)) (kstr ''hot_list'')))"

interpretation comments: entry_update merge_comments
  "\<lambda>v w. PDict (dput (ensured (as_table w) (kstr ''list'') (PList [])) (kstr ''list'') (PList (merged_comments v w)))"
  comments_ok
proof
  fix v d k assume ok: "comments_ok v (dget d k)"
  then obtain t where v: "v = PDict t" by (auto simp: comments_ok_def)
  from ok obtain xs hs where t: "dget t (kstr ''list'') = Some (PList xs)" "dget t (kstr ''hot_list'') = Some (PList hs)"
    by (auto simp: comments_ok_def v)
  show "\<exists>d'. merge_comments (k, v) (PDict d) = Inr (PDict d') \<and>
      (\<forall>k'. dget d' k' = (if knorm k' = knorm k
         then Some (PDict (dput (ensured (as_table (dget d k)) (kstr ''list'') (PList [])) (kstr ''list'')
           (PList (merged_comments v (dget d k))))) else dget d k'))"
    using ok unfolding comments_ok_def
    by (auto dest!: or_noneE simp: merge_comments_def dhas_simps v t merged_comments_def )
qed

text \<open>A week's point.\<close>

definition point_ok :: "pyval \<Rightarrow> pyval option \<Rightarrow> bool" where
  "point_ok v w \<longleftrightarrow> table_or_none (Some v) \<and> table_or_none w
     \<and> dget (as_table (Some v)) (kstr ''point'') = Some (PInt (as_int (dget (as_table (Some v)) (kstr ''point''))))
     \<and> int_or_none (dget (as_table w) (kstr ''point''))"

definition merged_point :: "pyval \<Rightarrow> pyval option \<Rightarrow> (pykey \<times> pyval) list" where
  "merged_point v w =
     (let t = ensured (as_table w) (kstr ''point'') (PInt 0);
          p = as_int (dget (as_table (Some v)) (kstr ''point''))
      in if p < as_int (dget t (kstr ''point'')) then dput t (kstr ''point'') (PInt p) else t)"

interpretation points: entry_update merge_point "\<lambda>v w. PDict (merged_point v w)" point_ok
proof
  fix v d k assume ok: "point_ok v (dget d k)"
  then obtain t where v: "v = PDict t" by (auto simp: point_ok_def)
  from ok obtain p where t: "dget t (kstr ''point'') = Some (PInt p)" by (auto simp: point_ok_def v)
  show "\<exists>d'. merge_point (k, v) (PDict d) = Inr (PDict d') \<and>
      (\<forall>k'. dget d' k' = (if knorm k' = knorm k then Some (PDict (merged_point v (dget d k))) else dget d k'))"
    using ok unfolding point_ok_def
    by (auto dest!: or_noneE simp: merge_point_def py_lt_def dhas_simps v t merged_point_def  rbind_if
        simp del: rbind_eq_Inr)
qed


section \<open>The handlers\<close>

text \<open>The paths below the table \<open>key\<close> of a document's data.\<close>

abbreviation entry_at :: "string \<Rightarrow> pykey \<Rightarrow> pyval \<Rightarrow> pyval option" where
  "entry_at key k v \<equiv> vpath [k_data, KStr key, k] v"

text \<open>\<open>dest\<close> has its data, and the table \<open>key\<close> there is a table if it is present.\<close>

definition data_table :: "string \<Rightarrow> pyval \<Rightarrow> (pykey \<times> pyval) list \<Rightarrow> bool" where
  "data_table key v t \<longleftrightarrow> (\<exists>d e. v = PDict d \<and> dget d k_data = Some (PDict e)
     \<and> table_or_none (dget e (KStr key)) \<and> t = as_table (dget e (KStr key)))"

lemma entry_at_data_table: "data_table key v t \<Longrightarrow> entry_at key k v = dget t k"
  by (auto simp: data_table_def dest!: or_noneE split: option.splits)

text \<open>The result of a handler that rewrites one table: that table's entries and the frame.\<close>

definition table_update :: "string \<Rightarrow> pyval \<Rightarrow> pyval \<Rightarrow> (pykey \<Rightarrow> pyval option) \<Rightarrow> bool" where
  "table_update key v w f \<longleftrightarrow> (\<forall>k. entry_at key k w = f k)
     \<and> (\<forall>k. knorm k \<noteq> knorm (KStr key) \<longrightarrow> vpath [k_data, k] w = vpath [k_data, k] v)
     \<and> (\<forall>k. knorm k \<noteq> knorm k_data \<longrightarrow> vpath [k] w = vpath [k] v)"

lemma table_updateI:
  assumes "v = PDict d" and "dget d k_data = Some (PDict e)" and "\<And>k. dget t' k = f k"
  shows "table_update key v (PDict (dput d k_data (PDict (dput (ensured e (KStr key) (PDict [])) (KStr key) (PDict t'))))) f"
  using assms by (auto simp: table_update_def split: option.splits)

text \<open>
  The shape of the handlers that rewrite one table of the data, and its effect for any turn that
  meets the contract.
\<close>

definition table_handler :: "string \<Rightarrow> (pykey \<times> pyval \<Rightarrow> pyval \<Rightarrow> pyval res) \<Rightarrow> pyval \<Rightarrow> pyval \<Rightarrow> pyval res" where
  "table_handler key step mFromData mDestData =
     rbind (getitem mFromData k_data) (\<lambda>mFrom.
     rbind (getitem mDestData k_data) (\<lambda>mDest.
     rbind (getitem mFrom (KStr key)) (\<lambda>src.
     rbind (ensure mDest (KStr key) (PDict [])) (\<lambda>dest1.
     rbind (getitem dest1 (KStr key)) (\<lambda>dst.
     rbind (items_of src) (\<lambda>kvs.
     rbind (rfold step kvs dst) (\<lambda>dst'.
     rbind (setitem dest1 (KStr key) dst') (\<lambda>dest2.
     setitem mDestData k_data dest2))))))))"

lemma Achieve_handler: "StartDealGlobalAchieve = table_handler ''achcnt'' add_count"
  and Arenagame_handler: "StartDealGlobalArenagame = table_handler ''show'' append_records"
  by (simp_all only: fun_eq_iff StartDealGlobalAchieve_def StartDealGlobalArenagame_def table_handler_def simp_thms)

lemma table_handler_run:
  assumes from_table: "vpath [k_data, KStr key] mFrom = Some (PDict kvs)"
    and dest: "data_table key mDest t"
    and run: "\<exists>t'. rfold step kvs (PDict t) = Inr (PDict t') \<and> (\<forall>k. dget t' k = f k)"
  shows "\<exists>m. table_handler key step mFrom mDest = Inr m \<and> table_update key mDest m f"
proof -
  from from_table obtain df ef where f: "mFrom = PDict df" "dget df k_data = Some (PDict ef)"
    "dget ef (KStr key) = Some (PDict kvs)" by (auto simp: vpath_2)
  from dest obtain d e where d: "mDest = PDict d" "dget d k_data = Some (PDict e)"
    "table_or_none (dget e (KStr key))" "t = as_table (dget e (KStr key))"
    by (auto simp: data_table_def)
  from run obtain t' where t': "rfold step kvs (PDict t) = Inr (PDict t')" "\<And>k. dget t' k = f k" by blast
  have "table_handler key step mFrom mDest =
      Inr (PDict (dput d k_data (PDict (dput (ensured e (KStr key) (PDict [])) (KStr key) (PDict t')))))"
    using t'(1) unfolding table_handler_def
    by (simp add: f d(1,2) dget_as_table [OF d(3)] del: rbind_eq_Inr dget_ensured flip: d(4))
  then show ?thesis using table_updateI [OF d(1,2) t'(2)] by blast
qed

text \<open>
  Merging the achievement counters succeeds on counters that are integers, adds to every
  counter of the source the value \<open>dest\<close> had (0 if it had none), and changes nothing else.
\<close>

theorem achieve_counts_add:
  assumes "vpath [k_data, kstr ''achcnt''] mFrom = Some (PDict fc)"
    and "data_table ''achcnt'' mDest t" and "entries_ok count_ok fc t"
  shows "\<exists>m. StartDealGlobalAchieve mFrom mDest = Inr m \<and>
    table_update ''achcnt'' mDest m (\<lambda>k. case dget fc k of
        Some v \<Rightarrow> Some (PInt (as_int (dget t k) + as_int (Some v))) | None \<Rightarrow> dget t k)"
  unfolding Achieve_handler
  using assms counts.run [of fc t] by (intro table_handler_run) (auto simp: entries_ok_def list_all_iff)

lemma achieve_counts_add_witness:
  "\<exists>m. StartDealGlobalAchieve (PDict [(KUni ''data'', PDict [(KUni ''achcnt'', PDict [(KUni ''3'', PInt 2)])])])
      (PDict [(KUni ''data'', PDict [(KUni ''achcnt'', PDict [(KUni ''3'', PInt 5)])])]) = Inr m \<and>
    table_update ''achcnt'' (PDict [(KUni ''data'', PDict [(KUni ''achcnt'', PDict [(KUni ''3'', PInt 5)])])]) m
      (\<lambda>k. case dget [(KUni ''3'', PInt 2)] k of
        Some v \<Rightarrow> Some (PInt (as_int (dget [(KUni ''3'', PInt 5)] k) + as_int (Some v)))
      | None \<Rightarrow> dget [(KUni ''3'', PInt 5)] k)"
  by (rule achieve_counts_add)
    (simp_all add: is_ascii_def data_table_def entries_ok_def count_ok_def)

text \<open>
  Merging the arena records keeps every list of \<open>dest\<close> and appends the records of the
  source for the same stage, in their order.
\<close>

theorem arenagame_records_append:
  assumes "vpath [k_data, kstr ''show''] mFrom = Some (PDict fr)"
    and "data_table ''show'' mDest t" and "entries_ok records_ok fr t"
  shows "\<exists>m. StartDealGlobalArenagame mFrom mDest = Inr m \<and>
    table_update ''show'' mDest m (\<lambda>k. case dget fr k of
        Some v \<Rightarrow> Some (PList (as_list (dget t k) @ as_list (Some v))) | None \<Rightarrow> dget t k)"
  unfolding Arenagame_handler
  using assms records.run [of fr t] by (intro table_handler_run) (auto simp: entries_ok_def list_all_iff)

lemma arenagame_records_append_witness:
  "\<exists>m. StartDealGlobalArenagame (PDict [(KUni ''data'', PDict [(KUni ''show'', PDict [(KUni ''1'', PList [PInt 7])])])])
      (PDict [(KUni ''data'', PDict [(KUni ''show'', PDict [(KUni ''1'', PList [PInt 4])])])]) = Inr m \<and>
    table_update ''show'' (PDict [(KUni ''data'', PDict [(KUni ''show'', PDict [(KUni ''1'', PList [PInt 4])])])]) m
      (\<lambda>k. case dget [(KUni ''1'', PList [PInt 7])] k of
        Some v \<Rightarrow> Some (PList (as_list (dget [(KUni ''1'', PList [PInt 4])] k) @ as_list (Some v)))
      | None \<Rightarrow> dget [(KUni ''1'', PList [PInt 4])] k)"
  by (rule arenagame_records_append)
    (simp_all add: is_ascii_def data_table_def entries_ok_def records_ok_def)

text \<open>The handlers whose table is the data itself.\<close>

definition data_update :: "pyval \<Rightarrow> pyval \<Rightarrow> (pykey \<Rightarrow> pyval option) \<Rightarrow> bool" where
  "data_update v w f \<longleftrightarrow> (\<forall>k. vpath [k_data, k] w = f k)
     \<and> (\<forall>k. knorm k \<noteq> knorm k_data \<longrightarrow> vpath [k] w = vpath [k] v)"

lemma data_handler_run:
  assumes "vpath [k_data] mFrom = Some (PDict kvs)" and "vpath [k_data] mDest = Some (PDict t)"
    and run: "\<exists>t'. rfold step kvs (PDict t) = Inr (PDict t') \<and> (\<forall>k. dget t' k = f k)"
  shows "\<exists>m. rbind (getitem mFrom k_data) (\<lambda>fr. rbind (getitem mDest k_data) (\<lambda>d.
      rbind (items_of fr) (\<lambda>kvs. rbind (rfold step kvs d) (\<lambda>dest1. setitem mDest k_data dest1)))) = Inr m
    \<and> data_update mDest m f"
proof -
  from assms(1,2) obtain df d where f: "mFrom = PDict df" "dget df k_data = Some (PDict kvs)"
    and d: "mDest = PDict d" "dget d k_data = Some (PDict t)" by (auto simp: vpath_1)
  from run obtain t' where "rfold step kvs (PDict t) = Inr (PDict t')" "\<And>k. dget t' k = f k" by blast
  with f d show ?thesis by (auto simp: data_update_def split: option.splits)
qed

text \<open>
  C13: merging the barrage keeps the messages of \<open>dest\<close>, appends those of the source only
  while the list holds fewer than 100, and so never makes a list longer than 100 or than it was.
\<close>

theorem dialytask_capped:
  assumes "vpath [k_data] mFrom = Some (PDict fb)" and "vpath [k_data] mDest = Some (PDict t)"
    and "entries_ok records_ok fb t"
  shows "\<exists>m. StartDealGlobalDialyTask mFrom mDest = Inr m
    \<and> data_update mDest m (\<lambda>k. case dget fb k of
        Some v \<Rightarrow> Some (PList (as_list (dget t k) @ take (100 - length (as_list (dget t k))) (as_list (Some v))))
      | None \<Rightarrow> dget t k)
    \<and> (\<forall>k. dget fb k \<noteq> None \<longrightarrow>
         length (as_list (vpath [k_data, k] m)) \<le> max 100 (length (as_list (dget t k))))"
proof -
  have "\<exists>m. StartDealGlobalDialyTask mFrom mDest = Inr m
    \<and> data_update mDest m (\<lambda>k. case dget fb k of
        Some v \<Rightarrow> Some (PList (as_list (dget t k) @ take (100 - length (as_list (dget t k))) (as_list (Some v))))
      | None \<Rightarrow> dget t k)"
    unfolding StartDealGlobalDialyTask_def
    using assms barrage.run [of fb t] by (intro data_handler_run) (auto simp: entries_ok_def list_all_iff)
  then show ?thesis by (fastforce simp: data_update_def)
qed

lemma dialytask_capped_witness:
  "\<exists>m. StartDealGlobalDialyTask (PDict [(KUni ''data'', PDict [(KUni ''1'', PList [PInt 7])])])
      (PDict [(KUni ''data'', PDict [])]) = Inr m
    \<and> data_update (PDict [(KUni ''data'', PDict [])]) m (\<lambda>k. case dget [(KUni ''1'', PList [PInt 7])] k of
        Some v \<Rightarrow> Some (PList (as_list (dget [] k) @ take (100 - length (as_list (dget [] k))) (as_list (Some v))))
      | None \<Rightarrow> dget [] k)
    \<and> (\<forall>k. dget [(KUni ''1'', PList [PInt 7])] k \<noteq> None \<longrightarrow>
         length (as_list (vpath [k_data, k] m)) \<le> max 100 (length (as_list (dget [] k))))"
  by (rule dialytask_capped) (simp_all add: is_ascii_def entries_ok_def records_ok_def)

text \<open>
  Merging the comments on a partner keeps the comments of \<open>dest\<close> in front, fills up to
  200 with those of the source, and appends all of its hot comments, so a list can exceed 200 by
  the number of hot comments and no more.
\<close>

lemma partner_comments_merge:
  assumes "vpath [k_data] mFrom = Some (PDict fp)" and "vpath [k_data] mDest = Some (PDict t)"
    and "entries_ok comments_ok fp t"
  shows "\<exists>m. StartDealGlobalPartner mFrom mDest = Inr m
    \<and> (\<forall>k v. dget fp k = Some v \<longrightarrow> (\<exists>ls.
         vpath [k_data, k, kstr ''list''] m = Some (PList ls)
         \<and> ls = merged_comments v (dget t k)
         \<and> prefix (as_list (dget (as_table (dget t k)) (kstr ''list''))) ls
         \<and> length ls \<le> max 200 (length (as_list (dget (as_table (dget t k)) (kstr ''list''))))
             + length (as_list (dget (as_table (Some v)) (kstr ''hot_list'')))))
    \<and> (\<forall>k. dget fp k = None \<longrightarrow> vpath [k_data, k] m = dget t k)"
proof -
  let ?new = "\<lambda>k. case dget fp k of
      Some v \<Rightarrow> Some (PDict (dput (ensured (as_table (dget t k)) (kstr ''list'') (PList [])) (kstr ''list'')
        (PList (merged_comments v (dget t k)))))
    | None \<Rightarrow> dget t k"
  have "\<exists>m. StartDealGlobalPartner mFrom mDest = Inr m \<and> data_update mDest m ?new"
    unfolding StartDealGlobalPartner_def
    using assms comments.run [of fp t] by (intro data_handler_run) (auto simp: entries_ok_def list_all_iff)
  then obtain m where m: "StartDealGlobalPartner mFrom mDest = Inr m" "data_update mDest m ?new" by blast
  have look: "vpath [k_data, k] m = ?new k" for k using m(2) by (simp add: data_update_def)
  have "vpath [k_data, k, kstr ''list''] m = Some (PList (merged_comments v (dget t k)))" if "dget fp k = Some v" for k v
    using vpath_append [of "[k_data, k]" "[kstr ''list'']" m] look [of k] that by simp
  with m(1) look show ?thesis
    by (auto simp: merged_comments_def Let_def)
qed


text \<open>The point of a merged week: the smaller of the two, with 0 for a missing one.\<close>

lemma merged_point_value:
  assumes "point_ok v w"
  shows "dget (merged_point v w) (kstr ''point'')
    = Some (PInt (min (as_int (dget (as_table w) (kstr ''point''))) (as_int (dget (as_table (Some v)) (kstr ''point'')))))"
  using assms
  by (auto simp: point_ok_def merged_point_def Let_def dest!: int_or_noneE split: option.splits)

text \<open>
  C14: the ranking of the equal arena. A week of the source gets the smaller of its point and the
  point of \<open>dest\<close>, where a week \<open>dest\<close> does not have counts as 0: a positive point of such a
  week is replaced by 0.
\<close>

theorem equalarena_points_min:
  assumes "vpath [k_data, kstr ''show''] mFrom = Some (PDict fs)"
    and "vpath [k_data, kstr ''rank''] mFrom = Some (PDict fr)"
    and "data_table ''show'' mDest ts" and "data_table ''rank'' mDest tr"
    and "entries_ok records_ok fs ts" and "entries_ok point_ok fr tr"
  shows "\<exists>m. StartDealGlobalEqualArean mFrom mDest = Inr m
    \<and> (\<forall>k v. dget fr k = Some v \<longrightarrow> vpath [k_data, kstr ''rank'', k, kstr ''point''] m =
         Some (PInt (min (as_int (dget (as_table (dget tr k)) (kstr ''point'')))
                         (as_int (dget (as_table (Some v)) (kstr ''point''))))))
    \<and> (\<forall>k. dget fr k = None \<longrightarrow> entry_at ''rank'' k m = dget tr k)
    \<and> (\<forall>k. entry_at ''show'' k m = (case dget fs k of
         Some v \<Rightarrow> Some (PList (as_list (dget ts k) @ as_list (Some v))) | None \<Rightarrow> dget ts k))"
proof -
  from assms(1,2) obtain df ef where f: "mFrom = PDict df" "dget df k_data = Some (PDict ef)"
    "dget ef (kstr ''show'') = Some (PDict fs)" "dget ef (kstr ''rank'') = Some (PDict fr)"
    by (auto simp: vpath_2)
  from assms(3,4) obtain d e where d: "mDest = PDict d" "dget d k_data = Some (PDict e)"
    and s: "table_or_none (dget e (kstr ''show''))" "ts = as_table (dget e (kstr ''show''))"
    and r: "table_or_none (dget e (kstr ''rank''))" "tr = as_table (dget e (kstr ''rank''))"
    by (auto simp: data_table_def)
  obtain s' where s': "rfold append_records fs (PDict ts) = Inr (PDict s')"
    "\<And>k. dget s' k = (case dget fs k of
         Some v \<Rightarrow> Some (PList (as_list (dget ts k) @ as_list (Some v))) | None \<Rightarrow> dget ts k)"
    using records.run [of fs ts] assms(5) by (auto simp: entries_ok_def list_all_iff)
  obtain r' where r': "rfold merge_point fr (PDict tr) = Inr (PDict r')"
    "\<And>k. dget r' k = (case dget fr k of Some v \<Rightarrow> Some (PDict (merged_point v (dget tr k))) | None \<Rightarrow> dget tr k)"
    using points.run [of fr tr] assms(6) by (auto simp: entries_ok_def list_all_iff)
  let ?e1 = "dput (ensured e (kstr ''show'') (PDict [])) (kstr ''show'') (PDict s')"
  let ?m = "PDict (dput d k_data (PDict (dput (ensured ?e1 (kstr ''rank'') (PDict [])) (kstr ''rank'') (PDict r'))))"
  have "dget ?e1 (kstr ''rank'') = dget e (kstr ''rank'')" by (simp add: is_ascii_def)
  then have "dget (ensured ?e1 (kstr ''rank'') (PDict [])) (kstr ''rank'') = Some (PDict tr)"
    using dget_as_table [of ?e1 "kstr ''rank''"] r by simp
  with s'(1) r'(1) have run: "StartDealGlobalEqualArean mFrom mDest = Inr ?m"
    unfolding StartDealGlobalEqualArean_def
    by (simp add: f d dget_as_table [OF s(1)] del: rbind_eq_Inr dget_ensured dget_dput flip: s(2))
  have rank: "entry_at ''rank'' k ?m = dget r' k" for k by (simp split: option.splits)
  have show_: "entry_at ''show'' k ?m = dget s' k" for k by (simp add: is_ascii_def split: option.splits)
  have "vpath [k_data, kstr ''rank'', k, kstr ''point''] ?m =
         Some (PInt (min (as_int (dget (as_table (dget tr k)) (kstr ''point'')))
                         (as_int (dget (as_table (Some v)) (kstr ''point'')))))" if "dget fr k = Some v" for k v
  proof -
    have "point_ok v (dget tr k)"
    proof -
      from that obtain k' where k': "(k', v) \<in> set fr" "knorm k' = knorm k" by (auto dest: dget_SomeD)
      with assms(6) have "point_ok v (dget tr k')" by (auto simp: entries_ok_def list_all_iff)
      then show ?thesis by (simp add: dget_knorm [OF k'(2)])
    qed
    from merged_point_value [OF this] that show ?thesis
      using vpath_append [of "[k_data, kstr ''rank'', k]" "[kstr ''point'']" ?m] rank [of k] by (simp add: r'(2))
  qed
  with run rank show_ s'(2) r'(2) show ?thesis by (intro exI [of _ ?m]) (simp add: split: option.splits)
qed

text \<open>
  The red packets. When the source has a packet number and \<open>dest\<close> has none, the handler
  raises \<open>KeyError\<close>: the guard that creates the number tests the source instead of \<open>dest\<close>.
\<close>

theorem hongbao_missing_hbid:
  assumes "vpath [k_data] mFrom = Some (PDict f)" and "vpath [k_data] mDest = Some (PDict d)"
    and "dhas f (kstr ''hbid'')" and "\<not> dhas d (kstr ''hbid'')"
  shows "StartDealGlobalHongBao mFrom mDest = Inl KeyError"
proof -
  from assms(1,2) obtain df dd where "mFrom = PDict df" "dget df k_data = Some (PDict f)"
    "mDest = PDict dd" "dget dd k_data = Some (PDict d)" by (auto simp: vpath_1)
  with assms(3,4) show ?thesis by (auto simp: StartDealGlobalHongBao_def dhas_def)
qed

lemma hongbao_missing_hbid_witness:
  "StartDealGlobalHongBao (PDict [(KUni ''data'', PDict [(KUni ''hbid'', PInt 3)])])
     (PDict [(KUni ''data'', PDict [])]) = Inl KeyError"
  by (rule hongbao_missing_hbid [of _ "[(KUni ''hbid'', PInt 3)]" _ "[]"]) (simp_all add: is_ascii_def dhas_def)

text \<open>
  With a packet number on both sides the larger one is kept, every packet of the source is
  taken over (winning over one of \<open>dest\<close> with the same id), and the other packets stay.
\<close>

theorem hongbao_merge:
  assumes "vpath [k_data] mFrom = Some (PDict f)" and "vpath [k_data] mDest = Some (PDict d)"
    and "dget f (kstr ''hbid'') = Some (PInt i)" and "dget d (kstr ''hbid'') = Some (PInt j)"
    and "dget f (kstr ''hongbao'') = Some (PDict fh)" and "table_or_none (dget d (kstr ''hongbao''))"
    and "distinct (dkeys fh)"
  shows "\<exists>m. StartDealGlobalHongBao mFrom mDest = Inr m
    \<and> vpath [k_data, kstr ''hbid''] m = Some (PInt (max i j))
    \<and> (\<forall>k. entry_at ''hongbao'' k m =
         (case dget fh k of Some v \<Rightarrow> Some v | None \<Rightarrow> dget (as_table (dget d (kstr ''hongbao''))) k))"
proof -
  from assms(1,2) obtain df dd where ff: "mFrom = PDict df" "dget df k_data = Some (PDict f)"
    and dd: "mDest = PDict dd" "dget dd k_data = Some (PDict d)" by (auto simp: vpath_1)
  define d1 where "d1 = (if j < i then dput d (kstr ''hbid'') (PInt i) else d)"
  have d1: "dget d1 (kstr ''hbid'') = Some (PInt (max i j))"
    "dget d1 (kstr ''hongbao'') = dget d (kstr ''hongbao'')"
    using assms(4) by (auto simp: d1_def is_ascii_def)
  let ?t = "as_table (dget d (kstr ''hongbao''))"
  let ?m = "PDict (dput dd k_data (PDict (dput (ensured d1 (kstr ''hongbao'') (PDict [])) (kstr ''hongbao'') (PDict (dput_all fh ?t)))))"
  have tab: "dget (ensured d1 (kstr ''hongbao'') (PDict [])) (kstr ''hongbao'') = Some (PDict ?t)"
    using dget_as_table [of d1 "kstr ''hongbao''"] assms(6) d1(2) by simp
  have "StartDealGlobalHongBao mFrom mDest = Inr ?m"
    unfolding StartDealGlobalHongBao_def using assms(3-5) tab
    by (simp add: ff dd py_lt_def dhas_def rbind_if d1_def del: rbind_eq_Inr dget_ensured dget_dput split: if_splits)
  moreover have "vpath [k_data, kstr ''hbid''] ?m = Some (PInt (max i j))"
    using d1(1) by (simp add: is_ascii_def)
  moreover have "entry_at ''hongbao'' k ?m = dget (dput_all fh ?t) k" for k by (simp split: option.splits)
  ultimately show ?thesis by (auto simp: dget_dput_all [OF assms(7)] split: option.splits)
qed

lemma equalarena_points_min_witness:
  "\<exists>m. StartDealGlobalEqualArean
      (PDict [(KUni ''data'', PDict [(KUni ''show'', PDict []), (KUni ''rank'', PDict [(KUni ''9'', PDict [(KUni ''point'', PInt 30)])])])])
      (PDict [(KUni ''data'', PDict [])]) = Inr m
    \<and> (\<forall>k v. dget [(KUni ''9'', PDict [(KUni ''point'', PInt 30)])] k = Some v \<longrightarrow>
         vpath [k_data, kstr ''rank'', k, kstr ''point''] m =
         Some (PInt (min (as_int (dget (as_table (dget [] k)) (kstr ''point'')))
                         (as_int (dget (as_table (Some v)) (kstr ''point''))))))
    \<and> (\<forall>k. dget [(KUni ''9'', PDict [(KUni ''point'', PInt 30)])] k = None \<longrightarrow> entry_at ''rank'' k m = dget [] k)
    \<and> (\<forall>k. entry_at ''show'' k m = (case dget [] k of
         Some v \<Rightarrow> Some (PList (as_list (dget [] k) @ as_list (Some v))) | None \<Rightarrow> dget [] k))"
  by (rule equalarena_points_min)
    (simp_all add: is_ascii_def data_table_def entries_ok_def point_ok_def)

lemma hongbao_merge_witness:
  "\<exists>m. StartDealGlobalHongBao
      (PDict [(KUni ''data'', PDict [(KUni ''hbid'', PInt 9), (KUni ''hongbao'', PDict [(KUni ''9'', PInt 1)])])])
      (PDict [(KUni ''data'', PDict [(KUni ''hbid'', PInt 4)])]) = Inr m
    \<and> vpath [k_data, kstr ''hbid''] m = Some (PInt (max 9 4))
    \<and> (\<forall>k. entry_at ''hongbao'' k m = (case dget [(KUni ''9'', PInt 1)] k of Some v \<Rightarrow> Some v
         | None \<Rightarrow> dget (as_table (dget [(KUni ''hbid'', PInt 4)] (kstr ''hongbao''))) k))"
  by (rule hongbao_merge [of _ "[(KUni ''hbid'', PInt 9), (KUni ''hongbao'', PDict [(KUni ''9'', PInt 1)])]"
        _ "[(KUni ''hbid'', PInt 4)]"]) (simp_all add: is_ascii_def)

text \<open>Copying a table: the keys of the source get its values, the others are unchanged.\<close>

lemma copy_table_run:
  assumes "dget ef sKey = Some (PDict src)" and "table_or_none (dget e sKey)"
  shows "copy_table sKey (PDict ef) (PDict e) =
    Inr (PDict (dput (ensured e sKey (PDict [])) sKey (PDict (dput_all src (as_table (dget e sKey))))))"
  unfolding copy_table_def
  by (simp add: assms(1) dget_as_table [OF assms(2)] del: rbind_eq_Inr dget_ensured)

definition copied :: "(pykey \<times> pyval) list \<Rightarrow> (pykey \<times> pyval) list \<Rightarrow> pykey \<Rightarrow> pyval option" where
  "copied src t k = (case dget src k of Some v \<Rightarrow> Some v | None \<Rightarrow> dget t k)"

text \<open>
  The tower data. Both tables of the source are copied into \<open>dest\<close>: an entry of the source
  wins over the entry of \<open>dest\<close> with the same player, every other entry of \<open>dest\<close> stays.
\<close>

theorem pata_copies_tables:
  assumes "vpath [k_data, kstr ''sweepinfo''] mFrom = Some (PDict fi)"
    and "vpath [k_data, kstr ''sweepreward''] mFrom = Some (PDict fr)"
    and "data_table ''sweepinfo'' mDest ti" and "data_table ''sweepreward'' mDest tr"
    and "distinct (dkeys fi)" and "distinct (dkeys fr)"
  shows "\<exists>m. StartDealGolbalPata mFrom mDest = Inr m
    \<and> (\<forall>k. entry_at ''sweepinfo'' k m = copied fi ti k)
    \<and> (\<forall>k. entry_at ''sweepreward'' k m = copied fr tr k)
    \<and> (\<forall>k. knorm k \<notin> {NStr ''sweepinfo'', NStr ''sweepreward''} \<longrightarrow> vpath [k_data, k] m = vpath [k_data, k] mDest)"
proof -
  from assms(1,2) obtain df ef where f: "mFrom = PDict df" "dget df k_data = Some (PDict ef)"
    "dget ef (kstr ''sweepinfo'') = Some (PDict fi)" "dget ef (kstr ''sweepreward'') = Some (PDict fr)"
    by (auto simp: vpath_2)
  from assms(3,4) obtain d e where d: "mDest = PDict d" "dget d k_data = Some (PDict e)"
    and i: "table_or_none (dget e (kstr ''sweepinfo''))" "ti = as_table (dget e (kstr ''sweepinfo''))"
    and r: "table_or_none (dget e (kstr ''sweepreward''))" "tr = as_table (dget e (kstr ''sweepreward''))"
    by (auto simp: data_table_def)
  let ?e1 = "dput (ensured e (kstr ''sweepinfo'') (PDict [])) (kstr ''sweepinfo'') (PDict (dput_all fi ti))"
  let ?e2 = "dput (ensured ?e1 (kstr ''sweepreward'') (PDict [])) (kstr ''sweepreward'') (PDict (dput_all fr tr))"
  have e1: "dget ?e1 (kstr ''sweepreward'') = dget e (kstr ''sweepreward'')" by (simp add: is_ascii_def)
  have "copy_table (kstr ''sweepinfo'') (PDict ef) (PDict e) = Inr (PDict ?e1)"
    using copy_table_run [OF f(3) i(1)] by (simp only: i(2))
  moreover have "copy_table (kstr ''sweepreward'') (PDict ef) (PDict ?e1) = Inr (PDict ?e2)"
    using copy_table_run [OF f(4), of ?e1] r by (simp only: e1)
  ultimately have "StartDealGolbalPata mFrom mDest = Inr (PDict (dput d k_data (PDict ?e2)))"
    by (simp add: StartDealGolbalPata_def f(1,2) d del: rbind_eq_Inr dget_ensured dget_dput)
  moreover have "entry_at ''sweepinfo'' k (PDict (dput d k_data (PDict ?e2))) = copied fi ti k" for k
    by (simp add: is_ascii_def copied_def dget_dput_all [OF assms(5)] split: option.splits)
  moreover have "entry_at ''sweepreward'' k (PDict (dput d k_data (PDict ?e2))) = copied fr tr k" for k
    by (simp add: is_ascii_def copied_def dget_dput_all [OF assms(6)] split: option.splits)
  moreover have "knorm k \<notin> {NStr ''sweepinfo'', NStr ''sweepreward''} \<longrightarrow>
      vpath [k_data, k] (PDict (dput d k_data (PDict ?e2))) = vpath [k_data, k] mDest" for k
    by (simp add: is_ascii_def d split: option.splits)
  ultimately show ?thesis by blast
qed

lemma pata_copies_tables_witness:
  "\<exists>m. StartDealGolbalPata
      (PDict [(KUni ''data'', PDict [(KUni ''sweepinfo'', PDict [(KUni ''10'', PInt 1)]), (KUni ''sweepreward'', PDict [])])])
      (PDict [(KUni ''data'', PDict [])]) = Inr m
    \<and> (\<forall>k. entry_at ''sweepinfo'' k m = copied [(KUni ''10'', PInt 1)] [] k)
    \<and> (\<forall>k. entry_at ''sweepreward'' k m = copied [] [] k)
    \<and> (\<forall>k. knorm k \<notin> {NStr ''sweepinfo'', NStr ''sweepreward''} \<longrightarrow>
          vpath [k_data, k] m = vpath [k_data, k] (PDict [(KUni ''data'', PDict [])]))"
  by (rule pata_copies_tables) (simp_all add: is_ascii_def data_table_def)

section \<open>The merge of all documents\<close>

lemma ensure_other: "ensure m k v = Inr m' \<Longrightarrow> \<exists>d. m' = PDict d"
  by (auto simp: ensure_Inr)

lemma init_doc_frame:
  "init_doc n mRes = Inr mRes' \<Longrightarrow> knorm k \<noteq> knorm n \<Longrightarrow> dget mRes' k = dget mRes k"
  by (auto simp: init_doc_def Let_def split: if_splits)

lemma InitGlobalData_frame:
  "InitGlobalData n mF mD = Inr (mF', mD') \<Longrightarrow> knorm k \<noteq> knorm n
    \<Longrightarrow> dget mF' k = dget mF k \<and> dget mD' k = dget mD k"
  by (auto simp: InitGlobalData_def init_doc_frame)

lemma merge_name_frame:
  assumes "merge_name n (mF, mD) = Inr (mF', mD')" and "IsGlobalSave n" and "knorm k \<noteq> knorm n"
  shows "dget mD' k = dget mD k"
proof -
  from assms(1,2) have "\<exists>mF1 mD1 d. InitGlobalData n mF mD = Inr (mF1, mD1) \<and> mD' = dput mD1 n d"
    apply (simp add: merge_name_def del: rbind_eq_Inr)
    apply (erule rbind_InrE, clarsimp simp del: rbind_eq_Inr)
    apply (erule rbind_InrE)+
    apply auto
    done
  then obtain mF1 mD1 d where 1: "InitGlobalData n mF mD = Inr (mF1, mD1)"
    and 2: "mD' = dput mD1 n d" by blast
  from InitGlobalData_frame [OF 1 assms(3)] show ?thesis using 2 assms(3) by simp
qed

lemma merge_name_skip: "merge_name n st = Inr st' \<Longrightarrow> \<not> IsGlobalSave n \<Longrightarrow> st' = st"
  by (simp add: merge_name_def)

lemma IsGlobalSave_cong: "knorm k = knorm n \<Longrightarrow> IsGlobalSave k = IsGlobalSave n"
  by (simp add: IsGlobalSave_def)

text \<open>
  C10: joining the collections touches only what it names: the document of \<open>dest\<close> under a name
  that is not one of the nine merged names, or that the source does not have, is in the result as
  it was loaded.
\<close>

theorem global_merge_frame:
  assumes "StartDealGlobal lFrom lDest = Inr docs"
    and "index_docs lFrom = Inr mFrom" and "index_docs lDest = Inr mDest"
    and "dget mDest k = Some doc" and "\<not> IsGlobalSave k \<or> \<not> dhas mFrom k"
  shows "doc \<in> set docs"
proof -
  from assms(1-3) obtain st where st: "rfold merge_name (map fst mFrom) (mFrom, mDest) = Inr st"
    and docs: "docs = map snd (snd st)"
    unfolding StartDealGlobal_def by (simp del: rbind_eq_Inr) (erule rbind_InrE, auto)
  have "dget (snd st) k = Some doc"
  proof (rule rfold_invariant [OF st, of "\<lambda>st. dget (snd st) k = Some doc"])
    fix n s t assume n: "n \<in> set (map fst mFrom)" and s: "dget (snd s) k = Some doc" and t: "merge_name n s = Inr t"
    show "dget (snd t) k = Some doc"
    proof (cases "knorm k = knorm n")
      case True
      with n have "dhas mFrom k" by (rule dhas_fst)
      with assms(5) IsGlobalSave_cong [OF True] have "\<not> IsGlobalSave n" by simp
      with merge_name_skip [OF t] s show ?thesis by simp
    next
      case False
      then show ?thesis using merge_name_frame [of n "fst s" "snd s" "fst t" "snd t" k]
          merge_name_skip [OF t] s t by (cases "IsGlobalSave n") simp_all
    qed
  qed (simp add: assms(4))
  then show ?thesis using docs by (force dest: dget_SomeD)
qed


lemma global_merge_frame_witness:
  "PDict [(KStr ''name'', PStr ''mail''), (KStr ''_id'', PInt 9)] \<in> set
     [PDict [(KStr ''name'', PStr ''mail''), (KStr ''_id'', PInt 9)]]"
  by (rule global_merge_frame [where lFrom = "[PDict [(KStr ''name'', PStr ''mail'')]]"
        and lDest = "[PDict [(KStr ''name'', PStr ''mail''), (KStr ''_id'', PInt 9)]]"
        and mFrom = "[(KStr ''mail'', PDict [(KStr ''name'', PStr ''mail'')])]"
        and mDest = "[(KStr ''mail'', PDict [(KStr ''name'', PStr ''mail''), (KStr ''_id'', PInt 9)])]"
        and k = "KStr ''mail''"])
    (simp_all add: StartDealGlobal_def index_docs_def index_doc_def AfterLoad.simps meta_key_def
      is_ascii_def merge_name_def IsGlobalSave_def global_names_def)

end
