(* ===== verification/HefuRank.thy ===== *)
theory HefuRank
  imports Tables DbData
begin

text \<open>
  \<open>shell/db/hefu_rank.py\<close> and \<open>shell/db/hefu_world.py\<close>: the merge of the collections
  \<open>rank\<close> and \<open>world\<close> when two game servers are joined. The index of the documents of
  \<open>dest\<close> is a dictionary from their names, which the loop over the source updates.
\<close>

section \<open>The ranks\<close>

abbreviation k_rank :: pykey where
  "k_rank \<equiv> KStr ''rank_data''"

text \<open>
  \<open>mRes[mData["name"]] = db.AfterLoad(mData)\<close>: the right-hand side runs first and changes
  \<open>mData\<close> in place; a document it reads as a list has digits as its only keys, and no name.
\<close>

definition rank_index_doc :: "pyval \<Rightarrow> pyval \<Rightarrow> pyval res" where
  "rank_index_doc mData mRes =
     rbind (AfterLoad mData) (\<lambda>w.
     rbind (case w of PList _ \<Rightarrow> Inl KeyError | _ \<Rightarrow> getitem w (KStr ''name'')) (\<lambda>nm.
     rbind (key_of nm) (\<lambda>k. setitem mRes k w)))"

definition rank_index :: "pyval list \<Rightarrow> pyval res" where
  "rank_index docs = rfold rank_index_doc docs (PDict [])"

text \<open>One turn of the loop over the documents of the source.\<close>

definition merge_rank :: "pykey \<times> pyval \<Rightarrow> pyval \<Rightarrow> pyval res" where
  "merge_rank = (\<lambda>(sName, mFromData) mDestRes.
     rbind (ensure mDestRes sName (PDict [])) (\<lambda>dest1.
     rbind (getitem dest1 sName) (\<lambda>mDestData.
     rbind (ensure mDestData k_rank (PDict [])) (\<lambda>data1.
     rbind (getitem data1 k_rank) (\<lambda>mDestRankData.
     rbind (getitem mFromData k_rank) (\<lambda>mFromRankData.
     rbind (ensure mDestRankData k_rank (PDict [])) (\<lambda>rank1.
     rbind (getitem rank1 k_rank) (\<lambda>mDestSaveRankData.
     rbind (getitem mFromRankData k_rank) (\<lambda>mFromSaveRankData.
     rbind (copy_items mFromSaveRankData mDestSaveRankData) (\<lambda>save.
     rbind (setitem rank1 k_rank save) (\<lambda>rank2.
     rbind (setitem data1 k_rank rank2) (\<lambda>data2.
     rbind (ensure data2 (KStr ''name'') (val_of_key sName)) (\<lambda>data3.
     rbind (has_key data3 (KStr ''_id'')) (\<lambda>b.
     rbind (if b then Inr data3
            else rbind (getitem mFromData (KStr ''_id'')) (\<lambda>i. setitem data3 (KStr ''_id'') i)) (\<lambda>data4.
     setitem dest1 sName data4)))))))))))))))"

definition StartDealRank :: "pyval list \<Rightarrow> pyval list \<Rightarrow> pyval list res" where
  "StartDealRank lFromRes lDestRes =
     rbind (rank_index lFromRes) (\<lambda>mFromRes.
     rbind (rank_index lDestRes) (\<lambda>mDestRes.
     rbind (items_of mFromRes) (\<lambda>kvs.
     rbind (rfold merge_rank kvs mDestRes) (\<lambda>res.
     rbind (items_of res) (\<lambda>docs. Inr (map snd docs))))))"

section \<open>The world\<close>

text \<open>
  The function returns nothing and changes the list \<open>mDestRes\<close>: the model returns it. When it is
  empty the code puts the source's own document in it, so that both names denote one object;
  what is read of the source after that (whether it has \<open>data\<close> and \<open>link\<close>, and the value of
  \<open>link\<close>) is not changed by what is written.
\<close>

definition StartDealWorld :: "pyval list \<Rightarrow> pyval list \<Rightarrow> pyval list res" where
  "StartDealWorld mFromRes mDestRes =
     (case mFromRes of
        [] \<Rightarrow> Inr mDestRes
      | mFromData # _ \<Rightarrow>
          (case (if mDestRes = [] then [mFromData] else mDestRes) of
             [] \<Rightarrow> Inr []
           | mDestData # rest \<Rightarrow>
               rbind (has_key mFromData (KStr ''data'')) (\<lambda>b.
               if \<not> b then Inr (mDestData # rest) else
               rbind (getitem mFromData (KStr ''data'')) (\<lambda>mFromWorldData.
               rbind (ensure mDestData (KStr ''data'') (PDict [])) (\<lambda>dest1.
               rbind (getitem dest1 (KStr ''data'')) (\<lambda>mDestWorldData.
               rbind (setitem mDestWorldData (KStr ''is_hefu'') (PInt 1)) (\<lambda>world1.
               rbind (has_key mFromWorldData (KStr ''link'')) (\<lambda>b.
               rbind (if \<not> b then Inr world1 else
                      rbind (getitem mFromWorldData (KStr ''link'')) (\<lambda>iFromLint.
                      rbind (getitem world1 (KStr ''link'')) (\<lambda>iDestLink.
                      rbind (if \<not> truthy iDestLink then Inr True else py_lt iDestLink iFromLint) (\<lambda>b.
                      if b then setitem world1 (KStr ''link'') iFromLint else Inr world1)))) (\<lambda>world2.
               rbind (setitem dest1 (KStr ''data'') world2) (\<lambda>dest2.
               Inr (dest2 # rest)))))))))))"


section \<open>What the merge of the ranks does\<close>

text \<open>The rank entry of a key in a document: \<open>doc["rank_data"]["rank_data"][k]\<close>.\<close>

abbreviation rank_entry :: "pykey \<Rightarrow> pyval \<Rightarrow> pyval option" where
  "rank_entry k v \<equiv> vpath [k_rank, k_rank, k] v"

text \<open>A document of the source that has its ranks, and one of \<open>dest\<close> that may lack them.\<close>

definition rank_ok :: "pyval \<Rightarrow> pyval option \<Rightarrow> bool" where
  "rank_ok v w \<longleftrightarrow>
     (\<exists>fd fr fs. v = PDict fd \<and> dget fd k_rank = Some (PDict fr) \<and> dget fr k_rank = Some (PDict fs)
        \<and> distinct (dkeys fs) \<and> dhas fd (KStr ''_id''))
     \<and> table_or_none w \<and> table_or_none (dget (as_table w) k_rank)
     \<and> table_or_none (dget (as_table (dget (as_table w) k_rank)) k_rank)"

text \<open>
  What the new document of \<open>dest\<close> under the name \<open>n\<close> holds, from the document \<open>v\<close> of the source and
  the one \<open>w\<close> that \<open>dest\<close> has, if any: the rank entries of the source before those of \<open>dest\<close>, the other
  entries of the table around them and the other fields as \<open>dest\<close> has them, the name and the id of
  \<open>dest\<close> where it has them, else the name \<open>n\<close> and the id of the source.
\<close>

definition rank_merged :: "pykey \<Rightarrow> pyval \<Rightarrow> pyval option \<Rightarrow> pyval \<Rightarrow> bool" where
  "rank_merged n v w w' \<longleftrightarrow>
     (\<forall>k. rank_entry k w' = (case rank_entry k v of Some x \<Rightarrow> Some x | None \<Rightarrow> Option.bind w (rank_entry k)))
     \<and> (\<forall>k. knorm k \<noteq> knorm k_rank \<longrightarrow> vpath [k_rank, k] w' = Option.bind w (vpath [k_rank, k]))
     \<and> (\<forall>k. knorm k \<notin> knorm ` {k_rank, KStr ''name'', KStr ''_id''}
          \<longrightarrow> vpath [k] w' = Option.bind w (vpath [k]))
     \<and> vpath [KStr ''name''] w' =
         (case Option.bind w (vpath [KStr ''name'']) of Some x \<Rightarrow> Some x | None \<Rightarrow> Some (val_of_key n))
     \<and> vpath [KStr ''_id''] w' =
         (case Option.bind w (vpath [KStr ''_id'']) of Some x \<Rightarrow> Some x | None \<Rightarrow> vpath [KStr ''_id''] v)"

lemma vpath_doc:
  "Option.bind w (vpath [k]) = (if w = None then None else dget (as_table w) k)"
  if "table_or_none w"
  using table_or_noneE [OF that] by (auto split: option.splits)

interpretation ranks: keyed_relation merge_rank rank_merged rank_ok
proof
  fix v d k assume ok: "rank_ok v (dget d k)"
  then obtain fd fr fs where v: "v = PDict fd" "dget fd k_rank = Some (PDict fr)"
    "dget fr k_rank = Some (PDict fs)" "distinct (dkeys fs)" "dhas fd (KStr ''_id'')"
    by (auto simp: rank_ok_def)
  then obtain i where i: "dget fd (KStr ''_id'') = Some i" by (auto simp: dhas_def)
  let ?t = "as_table (dget d k)"
  let ?r = "as_table (dget ?t k_rank)"
  let ?s = "as_table (dget ?r k_rank)"
  let ?r' = "dput (ensured ?r k_rank (PDict [])) k_rank (PDict (dput_all fs ?s))"
  let ?t1 = "ensured (dput (ensured ?t k_rank (PDict [])) k_rank (PDict ?r')) (KStr ''name'') (val_of_key k)"
  let ?t' = "ensured ?t1 (KStr ''_id'') i"
  from ok have ok': "table_or_none (dget d k)" "table_or_none (dget ?t k_rank)" "table_or_none (dget ?r k_rank)"
    by (simp_all add: rank_ok_def)
  note rd = dget_as_table [OF ok'(1)] dget_as_table [OF ok'(2)] dget_as_table [OF ok'(3)]
  have "merge_rank (k, v) (PDict d) = Inr (PDict (dput (ensured d k (PDict [])) k (PDict ?t')))"
    by (cases "dhas ?t1 (KStr ''_id'')")
      (simp_all add: merge_rank_def v i rd ensured_def [of ?t1] del: rbind_eq_Inr dget_ensured)
  moreover have "rank_merged k v (dget d k) (PDict ?t')"
    using ok' v(4)
    by (auto simp: rank_merged_def v(1-3) i dget_dput_all vpath_doc is_ascii_def dest!: or_noneE
        split: option.splits)
  ultimately show "\<exists>d' w. merge_rank (k, v) (PDict d) = Inr (PDict d') \<and> rank_merged k v (dget d k) w
      \<and> (\<forall>k'. dget d' k' = (if knorm k' = knorm k then Some w else dget d k'))"
    by force
qed

text \<open>
  C4: the merge of the ranks of two servers succeeds when the documents of the source have their
  ranks and an id, and those \<open>dest\<close> has under the same names are tables. In the result the rank
  entries of the source replace or join those of \<open>dest\<close> under the same name; the other rank entries, the
  other entries of the table \<open>rank_data\<close> around them and the other fields of a document are those of
  \<open>dest\<close>; its name and its id are the ones \<open>dest\<close> has, and only where it has none the name the source's
  document is indexed by and the id of that document; and a document of \<open>dest\<close> the source does not
  have is unchanged.
\<close>

theorem ranks_merge:
  assumes "rank_index lFrom = Inr (PDict mFrom)" and "rank_index lDest = Inr (PDict mDest)"
    and "entries_ok rank_ok mFrom mDest"
  shows "\<exists>res. StartDealRank lFrom lDest = Inr (map snd res)
    \<and> (\<forall>(n, v) \<in> set mFrom. \<exists>w. dget res n = Some w \<and> rank_merged n v (dget mDest n) w)
    \<and> (\<forall>n. dget mFrom n = None \<longrightarrow> dget res n = dget mDest n)"
proof -
  from ranks.run_keyed [OF entries_okD [OF assms(3)]] obtain res where
    "rfold merge_rank mFrom (PDict mDest) = Inr (PDict res)"
    "\<forall>(n, v) \<in> set mFrom. \<exists>w. dget res n = Some w \<and> rank_merged n v (dget mDest n) w"
    "\<And>n. dget mFrom n = None \<Longrightarrow> dget res n = dget mDest n"
    by blast
  then show ?thesis by (auto simp: StartDealRank_def assms(1,2) simp del: rbind_eq_Inr)
qed

definition rank_doc_example :: "int \<Rightarrow> (pykey \<times> pyval) list \<Rightarrow> pyval" where
  "rank_doc_example i ranks =
     PDict [(KStr ''name'', PStr ''grade''), (KStr ''_id'', PInt i),
       (KStr ''rank_data'', PDict [(KStr ''rank_data'', PDict ranks), (KStr ''size'', PInt i)])]"

text \<open>Two servers with the rank of grades: the merged document keeps the id 2 of \<open>dest\<close>.\<close>

lemma ranks_merge_witness:
  "\<exists>res w. StartDealRank [rank_doc_example 1 [(KStr ''7'', PInt 70)]]
      [rank_doc_example 2 [(KStr ''8'', PInt 80)]] = Inr (map snd res)
    \<and> dget res (KStr ''grade'') = Some w
    \<and> vpath [KStr ''name''] w = Some (PStr ''grade'') \<and> vpath [KStr ''_id''] w = Some (PInt 2)
    \<and> vpath [k_rank, KStr ''size''] w = Some (PInt 2)
    \<and> rank_entry (KStr ''7'') w = Some (PInt 70) \<and> rank_entry (KStr ''8'') w = Some (PInt 80)"
proof -
  let ?from = "[(KStr ''grade'', rank_doc_example 1 [(KStr ''7'', PInt 70)])]"
  let ?dest = "[(KStr ''grade'', rank_doc_example 2 [(KStr ''8'', PInt 80)])]"
  have "\<exists>res. StartDealRank [rank_doc_example 1 [(KStr ''7'', PInt 70)]]
      [rank_doc_example 2 [(KStr ''8'', PInt 80)]] = Inr (map snd res)
    \<and> (\<forall>(n, v) \<in> set ?from. \<exists>w. dget res n = Some w \<and> rank_merged n v (dget ?dest n) w)
    \<and> (\<forall>n. dget ?from n = None \<longrightarrow> dget res n = dget ?dest n)"
    by (rule ranks_merge)
      (simp_all add: rank_index_def rank_index_doc_def rank_doc_example_def AfterLoad.simps meta_key_def
        is_ascii_def entries_ok_def rank_ok_def dhas_def)
  then obtain res w where
    "StartDealRank [rank_doc_example 1 [(KStr ''7'', PInt 70)]]
      [rank_doc_example 2 [(KStr ''8'', PInt 80)]] = Inr (map snd res)"
    "dget res (KStr ''grade'') = Some w"
    "rank_merged (KStr ''grade'') (rank_doc_example 1 [(KStr ''7'', PInt 70)])
       (Some (rank_doc_example 2 [(KStr ''8'', PInt 80)])) w" by auto
  then show ?thesis
    by (intro exI [of _ res] exI [of _ w]) (simp add: rank_merged_def rank_doc_example_def is_ascii_def)
qed

section \<open>What the merge of the worlds does\<close>

abbreviation world_entry :: "string \<Rightarrow> pyval \<Rightarrow> pyval option" where
  "world_entry k v \<equiv> vpath [KStr ''data'', KStr k] v"

text \<open>
  Joining the worlds marks the data of \<open>dest\<close> with \<open>is_hefu\<close> and leaves it the larger of
  the two link numbers (the source's when the one of \<open>dest\<close> is 0), whenever both have a number;
  the other documents and the other entries are not changed.
\<close>

theorem world_link_max:
  assumes "vpath [KStr ''data''] from = Some (PDict fw)" and "dget fw (KStr ''link'') = Some (PInt i)"
    and "to = PDict dd" and "dget dd (KStr ''data'') = Some (PDict dw)"
    and "dget dw (KStr ''link'') = Some (PInt j)" and "0 \<le> i" and "0 \<le> j"
  shows "\<exists>to'. StartDealWorld (from # froms) (to # tos) = Inr (to' # tos)
    \<and> world_entry ''is_hefu'' to' = Some (PInt 1)
    \<and> world_entry ''link'' to' = Some (PInt (max i j))
    \<and> (\<forall>k. k \<noteq> ''is_hefu'' \<and> k \<noteq> ''link'' \<longrightarrow> world_entry k to' = world_entry k to)
    \<and> (\<forall>k. knorm k \<noteq> knorm (KStr ''data'') \<longrightarrow> vpath [k] to' = vpath [k] to)"
proof -
  from assms(1) obtain fd where f: "from = PDict fd" "dget fd (KStr ''data'') = Some (PDict fw)"
    by (auto simp: vpath_1)
  show ?thesis using assms(2-)
    by (auto simp: StartDealWorld_def f dhas_simps ensured_def py_lt_def rbind_if is_ascii_def max_def
        simp del: rbind_eq_Inr)
qed

lemma world_link_max_witness:
  "\<exists>to'. StartDealWorld [PDict [(KStr ''data'', PDict [(KStr ''link'', PInt 7)])]]
      [PDict [(KStr ''data'', PDict [(KStr ''link'', PInt 3)])]] = Inr [to']
    \<and> world_entry ''is_hefu'' to' = Some (PInt 1)
    \<and> world_entry ''link'' to' = Some (PInt (max 7 3))
    \<and> (\<forall>k. k \<noteq> ''is_hefu'' \<and> k \<noteq> ''link'' \<longrightarrow>
         world_entry k to' = world_entry k (PDict [(KStr ''data'', PDict [(KStr ''link'', PInt 3)])]))
    \<and> (\<forall>k. knorm k \<noteq> knorm (KStr ''data'') \<longrightarrow>
         vpath [k] to' = vpath [k] (PDict [(KStr ''data'', PDict [(KStr ''link'', PInt 3)])]))"
  by (rule world_link_max [of _ "[(KStr ''link'', PInt 7)]" 7 _ "[(KStr ''data'', PDict [(KStr ''link'', PInt 3)])]"
        "[(KStr ''link'', PInt 3)]"])
    (simp_all add: is_ascii_def)

text \<open>
  When the world of \<open>dest\<close> has no link number yet and the source has one, the merge stops
  with a \<open>KeyError\<close> although the test \<open>not mDestWorldData[sKey]\<close> is there for a missing link.
\<close>

theorem world_link_missing:
  assumes "vpath [KStr ''data''] from = Some (PDict fw)" and "dhas fw (KStr ''link'')"
    and "to = PDict dd" and "table_or_none (dget dd (KStr ''data''))"
    and "\<not> dhas (as_table (dget dd (KStr ''data''))) (KStr ''link'')"
  shows "StartDealWorld (from # froms) (to # tos) = Inl KeyError"
proof -
  from assms(1) obtain fd where f: "from = PDict fd" "dget fd (KStr ''data'') = Some (PDict fw)"
    by (auto simp: vpath_1)
  from assms(2) obtain i where "dget fw (KStr ''link'') = Some i" by (auto simp: dhas_def)
  with assms(2,5) show ?thesis
    by (simp add: StartDealWorld_def f assms(3) dget_as_table [OF assms(4)] dhas_def is_ascii_def
        del: rbind_eq_Inr dget_ensured)
qed

lemma world_link_missing_witness:
  "StartDealWorld [PDict [(KStr ''data'', PDict [(KStr ''link'', PInt 7)])]] [PDict []] = Inl KeyError"
  by (rule world_link_missing [of _ "[(KStr ''link'', PInt 7)]" _ "[]"])
    (simp_all add: is_ascii_def dhas_def)

end
