(* ===== verification/PosixPath.thy ===== *)
theory PosixPath
  imports PyStr "HOL-Library.Char_ord" "HOL-Library.List_Lexorder"
begin

text \<open>
  Path names, as the tools' Python distribution computes with them: \<open>posixpath.py\<close> and
  \<open>genericpath.py\<close>. A path is a string; nothing here looks at the file system, the current
  directory that \<open>abspath\<close> asks for is an argument.
\<close>

section \<open>Joining and splitting\<close>

abbreviation slash :: char where "slash \<equiv> CHR ''/''"

definition isabs :: "string \<Rightarrow> bool" where
  "isabs s \<longleftrightarrow> prefix [slash] s"

definition join_step :: "string \<Rightarrow> string \<Rightarrow> string" where
  "join_step b path =
     (if prefix [slash] b then b
      else if path = [] \<or> suffix [slash] path then path @ b
      else path @ [slash] @ b)"

definition path_join :: "string \<Rightarrow> string list \<Rightarrow> string" where
  "path_join a p = fold join_step p a"

text \<open>\<open>p.rfind(c)\<close>: the last position of a character, -1 when it is absent.\<close>

definition rfind :: "char \<Rightarrow> string \<Rightarrow> int" where
  "rfind c p = int (length (dropWhile (\<lambda>x. x \<noteq> c) (rev p))) - 1"

definition rstrip_char :: "char \<Rightarrow> string \<Rightarrow> string" where
  "rstrip_char c s = rev (dropWhile (\<lambda>x. x = c) (rev s))"

definition clean_head :: "string \<Rightarrow> string" where
  "clean_head head =
     (if head \<noteq> [] \<and> head \<noteq> replicate (length head) slash then rstrip_char slash head else head)"

definition path_split :: "string \<Rightarrow> string \<times> string" where
  "path_split p =
     (let i = nat (rfind slash p + 1); head = take i p; tail = drop i p in (clean_head head, tail))"

definition basename :: "string \<Rightarrow> string" where
  "basename p = (let i = nat (rfind slash p + 1) in drop i p)"

definition dirname :: "string \<Rightarrow> string" where
  "dirname p = (let i = nat (rfind slash p + 1); head = take i p in clean_head head)"

text \<open>\<open>_splitext\<close>: the extension starts at the last dot, leading dots of the name are not one.\<close>

definition splitext_by :: "char \<Rightarrow> char \<Rightarrow> string \<Rightarrow> string \<times> string" where
  "splitext_by sep extsep p =
     (let sep_index = rfind sep p; dot_index = rfind extsep p in
      if sep_index < dot_index
         \<and> list_ex (\<lambda>c. c \<noteq> extsep) (drop (nat (sep_index + 1)) (take (nat dot_index) p))
      then (take (nat dot_index) p, drop (nat dot_index) p)
      else (p, []))"

definition splitext :: "string \<Rightarrow> string \<times> string" where
  "splitext p = splitext_by slash (CHR ''.'') p"

section \<open>Normal form\<close>

definition norm_step :: "bool \<Rightarrow> string \<Rightarrow> string list \<Rightarrow> string list" where
  "norm_step initial_slashes part new_comps =
     (if part = [] \<or> part = ''.'' then new_comps
      else if part \<noteq> ''..'' \<or> (\<not> initial_slashes \<and> new_comps = [])
              \<or> (new_comps \<noteq> [] \<and> last new_comps = ''..'')
      then new_comps @ [part]
      else if new_comps \<noteq> [] then butlast new_comps
      else new_comps)"

definition count_slashes :: "string \<Rightarrow> nat" where
  "count_slashes path =
     (if \<not> prefix [slash] path then 0
      else if prefix ''//'' path \<and> \<not> prefix ''///'' path then 2 else 1)"

definition normpath :: "string \<Rightarrow> string" where
  "normpath path =
     (if path = [] then ''.''
      else
        let initial_slashes = count_slashes path;
            comps = fold (norm_step (0 < initial_slashes)) (split_on slash path) [];
            path = replicate initial_slashes slash @ join [slash] comps
        in if path = [] then ''.'' else path)"

definition abspath :: "string \<Rightarrow> string \<Rightarrow> string" where
  "abspath cwd path = normpath (if isabs path then path else path_join cwd [path])"

section \<open>Common prefix and relative paths\<close>

text \<open>
  \<open>commonprefix\<close> works on strings and, for \<open>relpath\<close>, on lists of path components: it compares
  the smallest with the largest. Reading the latter past its end would be an \<open>IndexError\<close>.
\<close>

fun common_loop :: "'a list \<Rightarrow> 'a list \<Rightarrow> 'a list res" where
  "common_loop [] s2 = Inr []"
| "common_loop (c # s1) [] = Inl IndexError"
| "common_loop (c # s1) (d # s2) = (if c \<noteq> d then Inr [] else rbind (common_loop s1 s2) (\<lambda>r. Inr (c # r)))"

definition commonprefix :: "'a::linorder list list \<Rightarrow> 'a list res" where
  "commonprefix m =
     (if m = [] then Inr []
      else common_loop (foldl min (hd m) (tl m)) (foldl max (hd m) (tl m)))"

definition relpath :: "string \<Rightarrow> string \<Rightarrow> string \<Rightarrow> string res" where
  "relpath cwd path start =
     (if path = [] then Inl ValueError
      else
        let start_list = filter (\<lambda>x. x \<noteq> []) (split_on slash (abspath cwd start));
            path_list = filter (\<lambda>x. x \<noteq> []) (split_on slash (abspath cwd path))
        in rbind (commonprefix [start_list, path_list]) (\<lambda>common.
          let i = length common;
              rel_list = replicate (length start_list - i) ''..'' @ drop i path_list
          in Inr (case rel_list of [] \<Rightarrow> ''.'' | r # rs \<Rightarrow> path_join r rs)))"

section \<open>Properties\<close>

lemma rfind_bounds: "- 1 \<le> rfind c p \<and> rfind c p < int (length p)"
proof -
  have "length (dropWhile (\<lambda>x. x \<noteq> c) (rev p)) \<le> length p"
    using length_dropWhile_le [of "\<lambda>x. x \<noteq> c" "rev p"] by simp
  then show ?thesis by (simp add: rfind_def)
qed

text \<open>The smallest and the largest of lists in lexicographic order bound all of them.\<close>

lemma foldl_min_mem: "foldl min a xs \<in> insert a (set xs)" for a :: "'a::linorder"
proof (induction xs arbitrary: a)
  case (Cons x xs)
  show ?case using Cons [of "min a x"] by (auto simp: min_def split: if_splits)
qed simp

lemma foldl_max_mem: "foldl max a xs \<in> insert a (set xs)" for a :: "'a::linorder"
proof (induction xs arbitrary: a)
  case (Cons x xs)
  show ?case using Cons [of "max a x"] by (auto simp: max_def split: if_splits)
qed simp

lemma foldl_min_le: "y \<in> insert a (set xs) \<Longrightarrow> foldl min a xs \<le> y" for a :: "'a::linorder"
proof (induction xs arbitrary: a y)
  case (Cons x xs)
  have h: "foldl min (min a x) xs \<le> min a x" by (rule Cons.IH) simp
  show ?case
    using Cons.IH [of y "min a x"] order.trans [OF h min.cobounded1] order.trans [OF h min.cobounded2] Cons.prems
    by auto
qed simp

lemma foldl_max_ge: "y \<in> insert a (set xs) \<Longrightarrow> y \<le> foldl max a xs" for a :: "'a::linorder"
proof (induction xs arbitrary: a y)
  case (Cons x xs)
  have h: "max a x \<le> foldl max (max a x) xs" by (rule Cons.IH) simp
  show ?case
    using Cons.IH [of y "max a x"] order.trans [OF max.cobounded1 h] order.trans [OF max.cobounded2 h] Cons.prems
    by auto
qed simp

lemma common_loop_run:
  "s1 \<le> s2 \<Longrightarrow> \<exists>r. common_loop s1 s2 = Inr r \<and> prefix r s1 \<and> prefix r s2
     \<and> (\<forall>t. s1 \<le> t \<and> t \<le> s2 \<longrightarrow> prefix r t) \<and> (\<forall>q. prefix q s1 \<and> prefix q s2 \<longrightarrow> prefix q r)"
  for s1 s2 :: "'a::linorder list"
proof (induction s1 s2 rule: common_loop.induct)
  case (3 c s1 d s2)
  show ?case
  proof (cases "c = d")
    case True
    with 3 obtain r where r: "common_loop s1 s2 = Inr r" "prefix r s1" "prefix r s2"
      "\<And>t. s1 \<le> t \<Longrightarrow> t \<le> s2 \<Longrightarrow> prefix r t" "\<And>q. prefix q s1 \<Longrightarrow> prefix q s2 \<Longrightarrow> prefix q r"
      by auto
    have "prefix (c # r) t" if "c # s1 \<le> t" "t \<le> c # s2" for t
      using that r(4) by (cases t) (auto split: if_splits)
    moreover have "prefix q (c # r)" if "prefix q (c # s1)" "prefix q (c # s2)" for q
      using that r(5) by (cases q) auto
    ultimately show ?thesis using True r(1-3) by auto
  next
    case False
    then have "q = []" if "prefix q (c # s1)" "prefix q (d # s2)" for q
      using that by (cases q) auto
    with False show ?thesis by simp
  qed
qed simp_all

text \<open>
  \<open>commonprefix\<close> returns, without an exception, the longest prefix that all the strings have
  (or all the lists of components, in \<open>relpath\<close>), although it looks at two of them only.
\<close>

theorem commonprefix_longest:
  fixes m :: "'a::linorder list list"
  assumes "m \<noteq> []"
  shows "\<exists>r. commonprefix m = Inr r \<and> (\<forall>q. (\<forall>t \<in> set m. prefix q t) \<longleftrightarrow> prefix q r)"
proof -
  let ?lo = "foldl min (hd m) (tl m)" and ?hi = "foldl max (hd m) (tl m)"
  have m: "set m = insert (hd m) (set (tl m))" using assms by (cases m) auto
  have in_m: "?lo \<in> set m" "?hi \<in> set m" and bounds: "\<And>t. t \<in> set m \<Longrightarrow> ?lo \<le> t \<and> t \<le> ?hi"
    unfolding m by (rule foldl_min_mem, rule foldl_max_mem) (blast intro: foldl_min_le foldl_max_ge)
  then have "?lo \<le> ?hi" by blast
  from common_loop_run [OF this] obtain r where r: "common_loop ?lo ?hi = Inr r"
    "\<And>t. ?lo \<le> t \<Longrightarrow> t \<le> ?hi \<Longrightarrow> prefix r t" "\<And>q. prefix q ?lo \<Longrightarrow> prefix q ?hi \<Longrightarrow> prefix q r" by blast
  have "(\<forall>t \<in> set m. prefix q t) \<longleftrightarrow> prefix q r" for q
  proof
    assume "\<forall>t \<in> set m. prefix q t"
    then show "prefix q r" using in_m by (intro r(3)) simp_all
  next
    assume q: "prefix q r"
    show "\<forall>t \<in> set m. prefix q t"
    proof
      fix t assume "t \<in> set m"
      from r(2) [OF bounds [OF this, THEN conjunct1] bounds [OF this, THEN conjunct2]] q
      show "prefix q t" by (rule prefix_order.trans [rotated])
    qed
  qed
  with r(1) assms show ?thesis by (simp add: commonprefix_def)
qed

lemma commonprefix_longest_witness:
  "\<exists>r. commonprefix [''abc'', ''abd''] = Inr r \<and> (\<forall>q. (\<forall>t \<in> set [''abc'', ''abd'']. prefix q t) \<longleftrightarrow> prefix q r)"
  by (rule commonprefix_longest) simp

text \<open>
  The components of a normal path: none is empty, \<open>.\<close> or holds a slash, and \<open>..\<close> occurs only at
  the front of a relative path.
\<close>

definition normal_comps :: "bool \<Rightarrow> string list \<Rightarrow> bool" where
  "normal_comps ini cs \<longleftrightarrow> (\<forall>c \<in> set cs. c \<noteq> [] \<and> c \<noteq> ''.'' \<and> slash \<notin> set c)
     \<and> (\<exists>n rest. cs = replicate n ''..'' @ rest \<and> ''..'' \<notin> set rest \<and> (ini \<longrightarrow> n = 0))"

lemma normal_comps_snoc:
  "normal_comps ini (cs @ [c]) \<longleftrightarrow> normal_comps ini cs \<and> c \<noteq> [] \<and> c \<noteq> ''.'' \<and> slash \<notin> set c
     \<and> (c = ''..'' \<longrightarrow> \<not> ini \<and> (cs = [] \<or> last cs = ''..''))"
proof (cases "c = ''..''")
  case True
  have "(\<exists>n rest. cs @ [c] = replicate n ''..'' @ rest \<and> ''..'' \<notin> set rest \<and> (ini \<longrightarrow> n = 0))
      \<longleftrightarrow> \<not> ini \<and> (\<exists>n. cs = replicate n ''..'')" (is "?L \<longleftrightarrow> ?R")
  proof
    assume ?L
    then obtain n rest where r: "cs @ [c] = replicate n ''..'' @ rest" "''..'' \<notin> set rest" "ini \<longrightarrow> n = 0" by blast
    then have "rest = []" using True by (cases rest rule: rev_cases) auto
    with r show ?R by (cases n) (auto simp: replicate_app_Cons_same [symmetric] simp flip: replicate_append_same)
  next
    assume ?R
    then obtain n where "cs = replicate n ''..''" "\<not> ini" by blast
    with True show ?L by (intro exI [of _ "Suc n"] exI [of _ "[]"]) (simp add: replicate_append_same)
  qed
  moreover have "(\<exists>n rest. cs = replicate n ''..'' @ rest \<and> ''..'' \<notin> set rest) \<and> (cs = [] \<or> last cs = ''..'')
      \<longleftrightarrow> (\<exists>n. cs = replicate n ''..'')" (is "?L \<longleftrightarrow> ?R")
  proof
    assume l: ?L
    then obtain n rest where r: "cs = replicate n ''..'' @ rest" "''..'' \<notin> set rest" by blast
    with l have "rest = []" by (cases rest rule: rev_cases) auto
    with r show ?R by auto
  next
    assume ?R
    then obtain n where "cs = replicate n ''..''" by blast
    then show ?L by (cases n) (auto intro!: exI [of _ n] exI [of _ "[]"])
  qed
  ultimately show ?thesis using True by (auto simp: normal_comps_def)
next
  case False
  have "(\<exists>n rest. cs @ [c] = replicate n ''..'' @ rest \<and> ''..'' \<notin> set rest \<and> (ini \<longrightarrow> n = 0))
     \<longleftrightarrow> (\<exists>n rest. cs = replicate n ''..'' @ rest \<and> ''..'' \<notin> set rest \<and> (ini \<longrightarrow> n = 0))" (is "?L \<longleftrightarrow> ?R")
  proof
    assume ?L
    then obtain n rest where r: "cs @ [c] = replicate n ''..'' @ rest" "''..'' \<notin> set rest" "ini \<longrightarrow> n = 0" by blast
    show ?R
    proof (cases rest rule: rev_cases)
      case Nil
      with r False show ?thesis by (cases n) (auto simp flip: replicate_append_same)
    next
      case (snoc ys y)
      with r show ?thesis by auto
    qed
  next
    assume ?R
    then obtain n rest where "cs = replicate n ''..'' @ rest" "''..'' \<notin> set rest" "ini \<longrightarrow> n = 0" by blast
    with False show ?L by (intro exI [of _ n] exI [of _ "rest @ [c]"]) auto
  qed
  with False show ?thesis by (auto simp: normal_comps_def)
qed

lemma norm_step_normal:
  "normal_comps ini cs \<Longrightarrow> slash \<notin> set c \<Longrightarrow> normal_comps ini (norm_step ini c cs)"
proof -
  assume n: "normal_comps ini cs" and c: "slash \<notin> set c"
  have "cs \<noteq> [] \<Longrightarrow> normal_comps ini (butlast cs) \<and> (last cs = ''..'' \<longrightarrow> \<not> ini)"
    using n normal_comps_snoc [of ini "butlast cs" "last cs"] by simp
  with n c show ?thesis by (auto simp: norm_step_def normal_comps_snoc)
qed

lemma normal_comps_Nil [simp]: "normal_comps ini []"
  by (simp add: normal_comps_def)

lemma split_on_clean: "p \<in> set (split_on c s) \<Longrightarrow> c \<notin> set p"
  by (induction s arbitrary: p) (auto split: list.splits if_splits)

lemma norm_fold_normal:
  "(\<And>c. c \<in> set ps \<Longrightarrow> slash \<notin> set c) \<Longrightarrow> normal_comps ini cs \<Longrightarrow> normal_comps ini (fold (norm_step ini) ps cs)"
  by (induction ps arbitrary: cs) (auto simp: norm_step_normal)

lemma norm_fold_id: "normal_comps ini (cs @ ps) \<Longrightarrow> fold (norm_step ini) ps cs = cs @ ps"
proof (induction ps arbitrary: cs)
  case (Cons p ps)
  then have n: "normal_comps ini ((cs @ [p]) @ ps)" by simp
  have "normal_comps ini (as @ bs) \<Longrightarrow> normal_comps ini as" for as bs
    by (induction bs rule: rev_induct) (simp_all flip: append_assoc add: normal_comps_snoc)
  with n have "normal_comps ini (cs @ [p])" by blast
  then have "norm_step ini p cs = cs @ [p]" by (auto simp: normal_comps_snoc norm_step_def)
  with Cons.IH [OF n] show ?case by simp
qed simp

lemma norm_fold_blanks: "fold (norm_step ini) (replicate k [] @ ps) cs = fold (norm_step ini) ps cs"
  by (induction k) (simp_all add: norm_step_def)

lemma split_on_slashes: "split_on c (replicate k c @ s) = replicate k [] @ split_on c s"
  by (induction k) simp_all

text \<open>The text of a normal path, read again, has the same slashes and components.\<close>

lemma count_slashes_le: "count_slashes p \<le> 2"
  by (simp add: count_slashes_def)

lemma join_hd: "cs \<noteq> [] \<Longrightarrow> hd cs \<noteq> [] \<Longrightarrow> \<exists>r. join sep cs = hd (hd cs) # r"
  by (cases "(sep, cs)" rule: join.cases) (auto simp: neq_Nil_conv)

lemma normal_hd:
  assumes "normal_comps ini cs" and "cs \<noteq> []"
  shows "\<exists>x r. join [slash] cs = x # r \<and> x \<noteq> slash"
proof -
  have "hd cs \<noteq> [] \<and> slash \<notin> set (hd cs)" using assms by (simp add: normal_comps_def)
  with join_hd [OF assms(2), of "[slash]"] show ?thesis by (cases "hd cs") auto
qed

lemma count_slashes_again:
  assumes "normal_comps ini cs" and "k \<le> 2"
  shows "count_slashes (replicate k slash @ join [slash] cs) = k"
proof -
  have "k = 0 \<or> k = 1 \<or> k = 2" using assms(2) by auto
  moreover have "join [slash] cs = [] \<or> (\<exists>x r. join [slash] cs = x # r \<and> x \<noteq> slash)"
    using normal_hd [OF assms(1)] by (cases "cs = []") auto
  ultimately show ?thesis by (auto simp: count_slashes_def numeral_2_eq_2)
qed

lemma comps_again:
  assumes "normal_comps (0 < k) cs"
  shows "fold (norm_step (0 < k)) (split_on slash (replicate k slash @ join [slash] cs)) [] = cs"
proof (cases "cs = []")
  case True
  have "split_on slash (replicate k slash) = replicate k [] @ [[]]"
    using split_on_slashes [of slash k "[]"] by simp
  then have "fold (norm_step (0 < k)) (split_on slash (replicate k slash)) [] = []"
    by (simp only: norm_fold_blanks) (simp add: norm_step_def)
  with True show ?thesis by simp
next
  case False
  have "split_on slash (join [slash] cs) = cs"
    using split_join [OF False] assms by (simp add: normal_comps_def)
  then show ?thesis using norm_fold_id [of "0 < k" "[]" cs] assms
    by (simp only: split_on_slashes norm_fold_blanks append_Nil)
qed

lemma normpath_shape:
  assumes "normal_comps (0 < k) cs" and "k \<le> 2" and "p = replicate k slash @ join [slash] cs" and "p \<noteq> []"
  shows "normpath p = p"
  using assms(4) unfolding normpath_def assms(3) count_slashes_again [OF assms(1,2)] Let_def comps_again [OF assms(1)]
  by simp

text \<open>
  \<open>normpath\<close> is idempotent: the path it returns has one or two slashes at the front or none,
  then components without \<open>.\<close>, empty names and \<open>..\<close> (but for those at the front of a relative
  path), and normalising it again changes nothing.
\<close>

lemma normpath_idempotent: "normpath (normpath p) = normpath p"
proof -
  let ?k = "count_slashes p"
  let ?cs = "fold (norm_step (0 < ?k)) (split_on slash p) []"
  let ?q = "replicate ?k slash @ join [slash] ?cs"
  have cs: "normal_comps (0 < ?k) ?cs" by (rule norm_fold_normal) (auto dest: split_on_clean)
  have dot: "normpath ''.'' = ''.''"
    by (simp add: normpath_def count_slashes_def norm_step_def)
  show ?thesis
  proof (cases "p = [] \<or> ?q = []")
    case True
    then have "normpath p = ''.''" by (auto simp: normpath_def Let_def)
    with dot show ?thesis by simp
  next
    case False
    then have "normpath p = ?q" by (simp only: normpath_def Let_def de_Morgan_disj simp_thms if_False)
    with normpath_shape [OF cs count_slashes_le refl] False show ?thesis by simp
  qed
qed

end
