(* ===== verification/FileSys.thy ===== *)
theory FileSys
  imports PosixPath
begin

text \<open>
  The file system of the scripts that read and write files: a finite map from paths to nodes, with
  the calls of \<open>os\<close> and the built-in \<open>open\<close> the scripts use. A file is written in an existing directory
  only; the root and the current directory always exist.
\<close>

section \<open>The file system\<close>

datatype node = File string | Dir

type_synonym fs = "(string \<times> node) list"

definition path_exists :: "fs \<Rightarrow> string \<Rightarrow> bool" where
  "path_exists fs p \<longleftrightarrow> aget fs p \<noteq> None"

definition isdir :: "fs \<Rightarrow> string \<Rightarrow> bool" where
  "isdir fs p \<longleftrightarrow> aget fs p = Some Dir"

text \<open>The directory a path is in; the root and the current directory always exist.\<close>

definition parent_dir :: "string \<Rightarrow> string" where
  "parent_dir p = rev (drop 1 (dropWhile (\<lambda>c. c \<noteq> slash) (rev p)))"

definition parent_ok :: "fs \<Rightarrow> string \<Rightarrow> bool" where
  "parent_ok fs p \<longleftrightarrow> parent_dir p = [] \<or> isdir fs (parent_dir p)"

abbreviation join2 :: "string \<Rightarrow> string \<Rightarrow> string" where
  "join2 a b \<equiv> join_step b a"

text \<open>\<open>os.listdir\<close>, \<open>os.remove\<close>, \<open>os.mkdir\<close>, \<open>os.mknod\<close>.\<close>

definition child_of :: "string \<Rightarrow> string \<Rightarrow> string option" where
  "child_of d p =
     (if prefix (d @ [slash]) p then
        let i = drop (Suc (length d)) p in if i \<noteq> [] \<and> slash \<notin> set i then Some i else None
      else None)"

definition os_listdir :: "fs \<Rightarrow> string \<Rightarrow> string list" where
  "os_listdir fs d = List.map_filter (\<lambda>(p, n). child_of d p) fs"

definition os_remove :: "string \<Rightarrow> fs \<Rightarrow> fs res" where
  "os_remove p fs = (case aget fs p of Some (File c) \<Rightarrow> Inr (adel fs p) | _ \<Rightarrow> Inl OSError)"

definition os_mkdir :: "string \<Rightarrow> fs \<Rightarrow> fs res" where
  "os_mkdir p fs = (if path_exists fs p \<or> \<not> parent_ok fs p then Inl OSError else Inr (aput fs p Dir))"

definition os_mknod :: "string \<Rightarrow> fs \<Rightarrow> fs res" where
  "os_mknod p fs = (if path_exists fs p \<or> \<not> parent_ok fs p then Inl OSError else Inr (aput fs p (File [])))"

text \<open>Reading a file whole, and opening it for writing (which empties or creates it).\<close>

definition read_file :: "fs \<Rightarrow> string \<Rightarrow> string res" where
  "read_file fs p = (case aget fs p of Some (File c) \<Rightarrow> Inr c | _ \<Rightarrow> Inl OSError)"

definition write_file :: "string \<Rightarrow> string \<Rightarrow> fs \<Rightarrow> fs res" where
  "write_file p c fs = (if isdir fs p \<or> \<not> parent_ok fs p then Inl OSError else Inr (aput fs p (File c)))"

definition copyfile :: "string \<Rightarrow> string \<Rightarrow> fs \<Rightarrow> fs res" where
  "copyfile src dst fs =
     (if src = dst then Inl OSError else rbind (read_file fs src) (\<lambda>c. write_file dst c fs))"

section \<open>Facts\<close>

lemma parent_dir_app [simp]: "CHR ''/'' \<notin> set n \<Longrightarrow> parent_dir (d @ CHR ''/'' # n) = d"
  by (auto simp: parent_dir_def dropWhile_append3 dropWhile_append)

end
