(* ===== verification/HefuFiles.thy ===== *)
theory HefuFiles
  imports HefuGlobal HefuRank FileSys
begin

text \<open>
  \<open>shell/db/hefu_gs.py\<close>: joining the dumps of two game servers. The files of both are read,
  merged and written to the directory \<open>newdb\<close>. Decoding and encoding of BSON are parameters (the library \<open>bson\<close> is not part of the
  repository), as is the value of the variable \<open>HOME\<close>.
\<close>

section \<open>The script\<close>

definition DealNewDir :: "string \<Rightarrow> fs \<Rightarrow> fs res" where
  "DealNewDir dir fs =
     (if isdir fs dir then rfold (\<lambda>i. os_remove (join2 dir i)) (os_listdir fs dir) fs
      else os_mkdir dir fs)"

definition meta_tables :: "string list" where
  "meta_tables = [''global'', ''rank'', ''world'', ''achieve'', ''house'', ''picture'', ''image'',
     ''offline'', ''org'', ''partner'', ''player'', ''warfilm'']"

definition meta_file :: "string \<Rightarrow> string \<Rightarrow> string" where
  "meta_file d sTable = d @ ''/'' @ sTable @ ''.metadata.json''"

text \<open>The loop of \<open>CopyMetaJsonFile\<close>: it returns at the first table neither server has.\<close>

fun copy_meta :: "string \<Rightarrow> string \<Rightarrow> string \<Rightarrow> string list \<Rightarrow> fs \<Rightarrow> fs res" where
  "copy_meta from_dir to_dir new_dir [] fs = Inr fs"
| "copy_meta from_dir to_dir new_dir (sTable # lTables) fs =
     (if path_exists fs (meta_file to_dir sTable) then
        rbind (copyfile (meta_file to_dir sTable) (meta_file new_dir sTable) fs)
          (copy_meta from_dir to_dir new_dir lTables)
      else if \<not> path_exists fs (meta_file from_dir sTable) then Inr fs
      else
        rbind (copyfile (meta_file from_dir sTable) (meta_file new_dir sTable) fs)
          (copy_meta from_dir to_dir new_dir lTables))"

definition CopyMetaJsonFile :: "string \<Rightarrow> string \<Rightarrow> string \<Rightarrow> fs \<Rightarrow> fs res" where
  "CopyMetaJsonFile from_dir to_dir new_dir = copy_meta from_dir to_dir new_dir meta_tables"

definition bson_file :: "string \<Rightarrow> string \<Rightarrow> string" where
  "bson_file d sTable = d @ ''/'' @ sTable @ ''.bson''"

text \<open>\<open>if not os.path.exists(p): os.mknod(p)\<close>, and \<open>ReadFile\<close>.\<close>

definition ensure_file :: "string \<Rightarrow> fs \<Rightarrow> fs res" where
  "ensure_file p fs = (if path_exists fs p then Inr fs else os_mknod p fs)"

definition ReadFile :: "(string \<Rightarrow> pyval list res) \<Rightarrow> fs \<Rightarrow> string \<Rightarrow> pyval list res" where
  "ReadFile decode_all fs sFile = rbind (read_file fs sFile) decode_all"

text \<open>Writing the documents of one table, each prepared and encoded in turn.\<close>

definition write_docs ::
  "(pyval \<Rightarrow> string res) \<Rightarrow> pyval list \<Rightarrow> string \<Rightarrow> fs \<Rightarrow> fs res" where
  "write_docs enc docs p fs =
     rbind (ensure_file p fs) (\<lambda>fs.
     rbind (write_file p [] fs) (\<lambda>fs.
     rbind (rmap enc docs) (\<lambda>cs. write_file p (concat cs) fs)))"

definition merge_docs :: "string \<Rightarrow> pyval list \<Rightarrow> pyval list \<Rightarrow> pyval list res" where
  "merge_docs sTable mFromRes mDestRes =
     (if sTable = ''global'' then StartDealGlobal mFromRes mDestRes
      else if sTable = ''rank'' then StartDealRank mFromRes mDestRes
      else if sTable = ''world'' then StartDealWorld mFromRes mDestRes
      else Inr mDestRes)"

text \<open>One turn of each of the two loops of \<open>GS_StartHefu\<close>.\<close>

definition hefu_merged ::
  "(string \<Rightarrow> pyval list res) \<Rightarrow> (pyval \<Rightarrow> string res) \<Rightarrow> string \<Rightarrow> string \<Rightarrow> string \<Rightarrow> string \<Rightarrow> fs \<Rightarrow> fs res" where
  "hefu_merged decode_all encode from_dir to_dir new_dir sTable fs =
     rbind (ensure_file (bson_file from_dir sTable) fs) (\<lambda>fs.
     rbind (ensure_file (bson_file to_dir sTable) fs) (\<lambda>fs.
     rbind (ReadFile decode_all fs (bson_file from_dir sTable)) (\<lambda>mFromRes.
     rbind (ReadFile decode_all fs (bson_file to_dir sTable)) (\<lambda>mDestRes.
     rbind (merge_docs sTable mFromRes mDestRes) (\<lambda>mDestRes.
     write_docs (\<lambda>d. encode (BeforeSave d)) mDestRes (bson_file new_dir sTable) fs)))))"

definition hefu_appended ::
  "(string \<Rightarrow> pyval list res) \<Rightarrow> (pyval \<Rightarrow> string res) \<Rightarrow> string \<Rightarrow> string \<Rightarrow> string \<Rightarrow> string \<Rightarrow> fs \<Rightarrow> fs res" where
  "hefu_appended decode_all encode from_dir to_dir new_dir sTable fs =
     rbind (ensure_file (bson_file from_dir sTable) fs) (\<lambda>fs.
     rbind (ensure_file (bson_file to_dir sTable) fs) (\<lambda>fs.
     rbind (ReadFile decode_all fs (bson_file from_dir sTable)) (\<lambda>mFromRes.
     rbind (ReadFile decode_all fs (bson_file to_dir sTable)) (\<lambda>mDestRes.
     write_docs encode (mDestRes @ mFromRes) (bson_file new_dir sTable) fs))))"

definition merged_tables :: "string list" where
  "merged_tables = [''global'', ''rank'', ''world'']"

definition appended_tables :: "string list" where
  "appended_tables = [''achieve'', ''house'', ''picture'', ''image'', ''offline'', ''org'', ''partner'',
     ''player'', ''warfilm'']"

definition GS_StartHefu ::
  "(string \<Rightarrow> pyval list res) \<Rightarrow> (pyval \<Rightarrow> string res) \<Rightarrow> string \<Rightarrow> string \<Rightarrow> string \<Rightarrow> fs \<Rightarrow> fs res" where
  "GS_StartHefu decode_all encode home from_server to_server fs =
     (let from_dir = home @ ''/mergedb/'' @ from_server;
          to_dir = home @ ''/mergedb/'' @ to_server;
          new_dir = home @ ''/mergedb/newdb''
      in rbind (DealNewDir new_dir fs) (\<lambda>fs.
         rbind (CopyMetaJsonFile from_dir to_dir new_dir fs) (\<lambda>fs.
         rbind (rfold (hefu_merged decode_all encode from_dir to_dir new_dir) merged_tables fs) (\<lambda>fs.
         rfold (hefu_appended decode_all encode from_dir to_dir new_dir) appended_tables fs))))"

section \<open>Paths\<close>

lemma bson_file_parent [simp]: "CHR ''/'' \<notin> set t \<Longrightarrow> parent_dir (bson_file d t) = d"
  by (simp add: bson_file_def)

lemma bson_file_inj [simp]:
  "CHR ''/'' \<notin> set t \<Longrightarrow> CHR ''/'' \<notin> set u \<Longrightarrow> bson_file d t = bson_file e u \<longleftrightarrow> d = e \<and> t = u"
proof (intro iffI conjI)
  assume t: "CHR ''/'' \<notin> set t" "CHR ''/'' \<notin> set u" and e: "bson_file d t = bson_file e u"
  from arg_cong [OF e, of parent_dir] t show "d = e" by simp
  with e show "t = u" by (simp add: bson_file_def)
qed simp

lemma meta_file_parent [simp]: "CHR ''/'' \<notin> set t \<Longrightarrow> parent_dir (meta_file d t) = d"
  by (simp add: meta_file_def)

lemma meta_file_inj [simp]:
  "CHR ''/'' \<notin> set t \<Longrightarrow> CHR ''/'' \<notin> set u \<Longrightarrow> meta_file d t = meta_file e u \<longleftrightarrow> d = e \<and> t = u"
proof (intro iffI conjI)
  assume t: "CHR ''/'' \<notin> set t" "CHR ''/'' \<notin> set u" and e: "meta_file d t = meta_file e u"
  from arg_cong [OF e, of parent_dir] t show "d = e" by simp
  with e show "t = u" by (simp add: meta_file_def)
qed simp

lemma meta_file_neq_bson [simp]: "meta_file d t \<noteq> bson_file e u"
proof
  assume "meta_file d t = bson_file e u"
  then have "rev (meta_file d t) = rev (bson_file e u)" by simp
  then show False by (simp add: meta_file_def bson_file_def)
qed

lemma aget_fs_upd: "aget (aput fs p n) q = (if q = p then Some n else aget fs q)"
  by simp

section \<open>The new directory\<close>

lemma child_of_Some: "child_of d p = Some i \<longleftrightarrow> p = d @ CHR ''/'' # i \<and> i \<noteq> [] \<and> CHR ''/'' \<notin> set i"
  by (auto simp: child_of_def Let_def prefix_def)

lemma child_of_None: "child_of d p = None \<longleftrightarrow> (\<forall>i. p = d @ CHR ''/'' # i \<longrightarrow> i = [] \<or> CHR ''/'' \<in> set i)"
  using child_of_Some [of d p] by (cases "child_of d p") auto

lemma listdir_set:
  "set (os_listdir fs d) = {i. i \<noteq> [] \<and> CHR ''/'' \<notin> set i \<and> aget fs (d @ CHR ''/'' # i) \<noteq> None}"
proof -
  have "i \<in> set (os_listdir fs d) \<longleftrightarrow> (\<exists>p n. (p, n) \<in> set fs \<and> child_of d p = Some i)" for i
    by (force simp: os_listdir_def List.map_filter_def)
  moreover have "aget fs p \<noteq> None \<longleftrightarrow> (\<exists>n. (p, n) \<in> set fs)" for p
    by (simp only: aget_None_iff) force
  ultimately show ?thesis by (simp only: child_of_Some) blast
qed

lemma distinct_listdir: "distinct (map fst fs) \<Longrightarrow> distinct (os_listdir fs d)"
proof (induction fs)
  case (Cons pn fs)
  have "i \<notin> set (os_listdir fs d)" if "child_of d (fst pn) = Some i" for i
    using that Cons.prems by (auto simp: child_of_Some listdir_set aget_None_iff)
  with Cons show ?case by (cases pn) (auto simp: os_listdir_def split: option.splits)
qed (simp add: os_listdir_def)

lemma join2_child: "d \<noteq> [] \<Longrightarrow> \<not> suffix [CHR ''/''] d \<Longrightarrow> i \<noteq> [] \<Longrightarrow> CHR ''/'' \<notin> set i
    \<Longrightarrow> join2 d i = d @ CHR ''/'' # i"
  by (cases i) (auto simp: join_step_def)

text \<open>The loop that removes entries which are files.\<close>

lemma remove_loop:
  assumes "\<And>i. i \<in> set xs \<Longrightarrow> \<exists>c. aget fs (join2 d i) = Some (File c)" and "distinct (map (join2 d) xs)"
  shows "\<exists>fs'. rfold (\<lambda>i. os_remove (join2 d i)) xs fs = Inr fs'
    \<and> (\<forall>p. aget fs' p = (if p \<in> join2 d ` set xs then None else aget fs p))"
  using assms
proof (induction xs arbitrary: fs)
  case (Cons i xs)
  from Cons.prems(1) [of i] have r: "os_remove (join2 d i) fs = Inr (adel fs (join2 d i))"
    by (auto simp: os_remove_def)
  have "\<exists>c. aget (adel fs (join2 d i)) (join2 d j) = Some (File c)" if "j \<in> set xs" for j
  proof -
    from that Cons.prems(2) have "join2 d j \<noteq> join2 d i" by (simp add: image_iff) metis
    with Cons.prems(1) [of j] that show ?thesis by simp
  qed
  with Cons.IH [of "adel fs (join2 d i)"] Cons.prems(2) obtain fs' where
    "rfold (\<lambda>i. os_remove (join2 d i)) xs (adel fs (join2 d i)) = Inr fs'"
    "\<And>p. aget fs' p = (if p \<in> join2 d ` set xs then None else aget (adel fs (join2 d i)) p)"
    by auto
  then show ?case by (auto simp: r)
qed simp

lemma listdir_join:
  assumes "d \<noteq> []" and "\<not> suffix [CHR ''/''] d"
  shows "map (join2 d) (os_listdir fs d) = map (\<lambda>i. d @ CHR ''/'' # i) (os_listdir fs d)"
  using assms by (auto simp: listdir_set join2_child)

text \<open>
  After \<open>DealNewDir\<close> the directory exists and has no entries, and every path outside it is
  as it was, when its entries are files or it is new in an existing directory.
\<close>

theorem DealNewDir_empty:
  assumes "d \<noteq> []" and "\<not> suffix ''/'' d" and "distinct (map fst fs)"
    and "isdir fs d \<and> (\<forall>i \<in> set (os_listdir fs d). \<not> isdir fs (join2 d i))
      \<or> \<not> path_exists fs d \<and> parent_ok fs d \<and> os_listdir fs d = []"
  shows "\<exists>fs'. DealNewDir d fs = Inr fs' \<and> isdir fs' d \<and> os_listdir fs' d = []
    \<and> (\<forall>p. child_of d p = None \<and> p \<noteq> d \<longrightarrow> aget fs' p = aget fs p)"
proof (cases "isdir fs d")
  case True
  let ?ls = "os_listdir fs d" and ?q = "\<lambda>i. d @ CHR ''/'' # i"
  have join: "join2 d i = ?q i" if "i \<in> set ?ls" for i
    using that assms(1,2) by (simp add: listdir_set join2_child)
  have "\<exists>c. aget fs (join2 d i) = Some (File c)" if "i \<in> set ?ls" for i
    using that True assms(4) join [OF that]
    by (cases "the (aget fs (?q i))") (auto simp: isdir_def path_exists_def listdir_set)
  moreover have "distinct (map (join2 d) ?ls)"
    using distinct_listdir [OF assms(3)] assms(1,2)
    by (auto simp: listdir_join distinct_map inj_on_def simp del: map_map)
  ultimately obtain fs' where fs': "rfold (\<lambda>i. os_remove (join2 d i)) ?ls fs = Inr fs'"
    "\<And>p. aget fs' p = (if p \<in> join2 d ` set ?ls then None else aget fs p)" using remove_loop by blast
  moreover have "join2 d ` set ?ls = ?q ` set ?ls" using join by force
  ultimately have a: "aget fs' p = (if p \<in> ?q ` set ?ls then None else aget fs p)" for p by simp
  have "set (os_listdir fs' d) = {}" by (auto simp: listdir_set a)
  moreover have "isdir fs' d" using True by (auto simp: isdir_def a)
  moreover have "aget fs' p = aget fs p" if "child_of d p = None" for p
    using that by (auto simp: a child_of_None listdir_set)
  ultimately show ?thesis using True fs'(1) by (auto simp: DealNewDir_def)
next
  case False
  with assms(4) have n: "DealNewDir d fs = Inr (aput fs d Dir)"
    by (auto simp: DealNewDir_def os_mkdir_def)
  have "set (os_listdir (aput fs d Dir) d) = set (os_listdir fs d)"
    by (auto simp: listdir_set)
  with n False assms(4) show ?thesis by (auto simp: isdir_def)
qed

lemma DealNewDir_empty_witness:
  "\<exists>fs'. DealNewDir ''/n'' [(''/n'', Dir), (''/n/a'', File ''x''), (''/m'', Dir)] = Inr fs' \<and> isdir fs' ''/n''
    \<and> os_listdir fs' ''/n'' = []
    \<and> (\<forall>p. child_of ''/n'' p = None \<and> p \<noteq> ''/n'' \<longrightarrow>
         aget fs' p = aget [(''/n'', Dir), (''/n/a'', File ''x''), (''/m'', Dir)] p)"
  by (rule DealNewDir_empty) (simp_all add: suffix_to_prefix isdir_def os_listdir_def child_of_def join_step_def)

section \<open>The metadata\<close>

text \<open>The copy of one metadata file reads outside the new directory and writes into it.\<close>

definition meta_source :: "string \<Rightarrow> string \<Rightarrow> fs \<Rightarrow> string \<Rightarrow> string option" where
  "meta_source from_dir to_dir fs t =
     (case aget fs (meta_file to_dir t) of
        Some (File c) \<Rightarrow> Some c
      | Some Dir \<Rightarrow> None
      | None \<Rightarrow> (case aget fs (meta_file from_dir t) of Some (File c) \<Rightarrow> Some c | _ \<Rightarrow> None))"

lemma copy_meta_run:
  assumes "isdir fs nd" and "fd \<noteq> nd" and "td \<noteq> nd" and "distinct ts" and "list_all (\<lambda>t. CHR ''/'' \<notin> set t) ts"
    and "\<And>t. t \<in> set ts \<Longrightarrow> meta_source fd td fs t \<noteq> None \<and> aget fs (meta_file nd t) \<noteq> Some Dir"
    and "\<And>t. nd \<noteq> meta_file nd t"
  shows "\<exists>fs'. copy_meta fd td nd ts fs = Inr fs'
    \<and> (\<forall>t \<in> set ts. aget fs' (meta_file nd t) = map_option File (meta_source fd td fs t))
    \<and> (\<forall>p. p \<notin> meta_file nd ` set ts \<longrightarrow> aget fs' p = aget fs p)"
  using assms(1,4-6)
proof (induction ts arbitrary: fs)
  case (Cons t ts)
  then obtain c where c: "meta_source fd td fs t = Some c" by fastforce
  let ?f = "aput fs (meta_file nd t) (File c)"
  from Cons.prems(3) have t: "CHR ''/'' \<notin> set t" by simp
  have step: "copy_meta fd td nd (t # ts) fs = copy_meta fd td nd ts ?f"
    using c Cons.prems(1,4) assms(2,3) t
    by (auto simp: meta_source_def path_exists_def copyfile_def read_file_def write_file_def parent_ok_def
        isdir_def split: option.splits node.splits)
  have src: "meta_source fd td ?f u = meta_source fd td fs u" if "u \<in> set ts" for u
    using that assms(2,3) t Cons.prems(3) by (auto simp: meta_source_def list_all_iff split: option.split)
  have "meta_source fd td ?f u \<noteq> None \<and> aget ?f (meta_file nd u) \<noteq> Some Dir" if "u \<in> set ts" for u
    using that Cons.prems(4) [of u] by (simp add: src)
  moreover have "isdir ?f nd" using Cons.prems(1) assms(7) by (simp add: isdir_def)
  ultimately obtain fs' where
    "copy_meta fd td nd ts ?f = Inr fs'"
    "\<And>u. u \<in> set ts \<Longrightarrow> aget fs' (meta_file nd u) = map_option File (meta_source fd td fs u)"
    "\<And>p. p \<notin> meta_file nd ` set ts \<Longrightarrow> aget fs' p = aget ?f p"
    using Cons.IH [of ?f] Cons.prems(2,3) src by auto
  moreover have "meta_file nd t \<notin> meta_file nd ` set ts"
    using Cons.prems(2,3) t by (auto simp: list_all_iff)
  ultimately show ?case unfolding step by (auto simp: c)
qed simp

text \<open>
  When every table has a metadata file on one of the two servers, \<open>CopyMetaJsonFile\<close> copies
  all twelve into the new directory, the one of \<open>dest\<close> where both have one, and changes nothing
  else.
\<close>

theorem CopyMetaJsonFile_all:
  assumes "isdir fs nd" and "fd \<noteq> nd" and "td \<noteq> nd"
    and "\<forall>t \<in> set meta_tables. meta_source fd td fs t \<noteq> None \<and> aget fs (meta_file nd t) \<noteq> Some Dir"
  shows "\<exists>fs'. CopyMetaJsonFile fd td nd fs = Inr fs'
    \<and> (\<forall>t \<in> set meta_tables. aget fs' (meta_file nd t) = map_option File (meta_source fd td fs t))
    \<and> (\<forall>p. p \<notin> meta_file nd ` set meta_tables \<longrightarrow> aget fs' p = aget fs p)"
proof -
  have "nd \<noteq> meta_file nd t" for t by (simp add: meta_file_def)
  moreover have "distinct meta_tables" "list_all (\<lambda>t. CHR ''/'' \<notin> set t) meta_tables"
    by (simp_all add: meta_tables_def)
  ultimately show ?thesis
    unfolding CopyMetaJsonFile_def using assms by (intro copy_meta_run) auto
qed

definition meta_example :: fs where
  "meta_example = (''/n'', Dir) # (''/f'', Dir) # (''/t'', Dir)
     # map (\<lambda>t. (meta_file ''/f'' t, File ''from'')) (drop 1 meta_tables)
     @ [(meta_file ''/t'' ''global'', File ''to'')]"

lemma CopyMetaJsonFile_all_witness:
  "\<exists>fs'. CopyMetaJsonFile ''/f'' ''/t'' ''/n'' meta_example = Inr fs'
    \<and> (\<forall>t \<in> set meta_tables. aget fs' (meta_file ''/n'' t)
         = map_option File (meta_source ''/f'' ''/t'' meta_example t))
    \<and> (\<forall>p. p \<notin> meta_file ''/n'' ` set meta_tables \<longrightarrow> aget fs' p = aget meta_example p)"
  by (rule CopyMetaJsonFile_all)
    (simp_all add: meta_example_def meta_tables_def meta_file_def meta_source_def isdir_def)

section \<open>The appended tables\<close>

text \<open>The documents of a file, an absent file being created empty.\<close>

definition file_docs :: "(string \<Rightarrow> pyval list res) \<Rightarrow> fs \<Rightarrow> string \<Rightarrow> pyval list res" where
  "file_docs decode_all fs p = (if path_exists fs p then ReadFile decode_all fs p else decode_all [])"

text \<open>The bytes the merge of one table writes.\<close>

definition appended_bytes ::
  "(string \<Rightarrow> pyval list res) \<Rightarrow> (pyval \<Rightarrow> string res) \<Rightarrow> string \<Rightarrow> string \<Rightarrow> fs \<Rightarrow> string \<Rightarrow> string res" where
  "appended_bytes decode_all encode fd td fs t =
     rbind (file_docs decode_all fs (bson_file fd t)) (\<lambda>from.
     rbind (file_docs decode_all fs (bson_file td t)) (\<lambda>dest.
     rbind (rmap encode (dest @ from)) (\<lambda>cs. Inr (concat cs))))"

lemma ensure_file_run:
  assumes "\<not> path_exists fs p \<longrightarrow> parent_ok fs p"
  shows "ensure_file p fs = Inr (if path_exists fs p then fs else aput fs p (File []))"
  using assms by (simp add: ensure_file_def os_mknod_def)

text \<open>The three directories, and a table whose three files are no directories.\<close>

definition three_dirs :: "fs \<Rightarrow> string \<Rightarrow> string \<Rightarrow> string \<Rightarrow> bool" where
  "three_dirs fs fd td nd \<longleftrightarrow> isdir fs fd \<and> isdir fs td \<and> isdir fs nd \<and> fd \<noteq> nd \<and> td \<noteq> nd"

definition table_ready :: "fs \<Rightarrow> string \<Rightarrow> string \<Rightarrow> string \<Rightarrow> string \<Rightarrow> bool" where
  "table_ready fs fd td nd t \<longleftrightarrow> CHR ''/'' \<notin> set t \<and> \<not> isdir fs (bson_file fd t)
     \<and> \<not> isdir fs (bson_file td t) \<and> \<not> isdir fs (bson_file nd t)"

lemma bson_file_neq_dir [simp]:
  "bson_file d t \<noteq> d" "d \<noteq> bson_file d t"
  by (simp_all add: bson_file_def)

lemma write_docs_run:
  assumes "isdir fs d" and "CHR ''/'' \<notin> set t" and "\<not> isdir fs (bson_file d t)" and "rmap enc docs = Inr cs"
  shows "\<exists>fs'. write_docs enc docs (bson_file d t) fs = Inr fs'
    \<and> (\<forall>p. aget fs' p = (if p = bson_file d t then Some (File (concat cs)) else aget fs p))"
  using assms
  by (auto simp: write_docs_def ensure_file_def os_mknod_def write_file_def parent_ok_def isdir_def
      simp del: rbind_eq_Inr)

lemma ReadFile_aget: "ReadFile dec fs p = (case aget fs p of Some (File c) \<Rightarrow> dec c | _ \<Rightarrow> Inl OSError)"
  by (auto simp: ReadFile_def read_file_def split: option.split node.split)

lemma file_docs_aget:
  "file_docs dec fs p = (case aget fs p of None \<Rightarrow> dec [] | Some (File c) \<Rightarrow> dec c | _ \<Rightarrow> Inl OSError)"
  by (auto simp: file_docs_def ReadFile_aget path_exists_def split: option.split node.split)

lemma hefu_appended_step:
  assumes "three_dirs fs fd td nd" and "table_ready fs fd td nd t"
    and "appended_bytes dec enc fd td fs t = Inr c"
  shows "\<exists>fs'. hefu_appended dec enc fd td nd t fs = Inr fs'
    \<and> aget fs' (bson_file nd t) = Some (File c)
    \<and> (\<forall>p. p \<notin> {bson_file fd t, bson_file td t, bson_file nd t} \<longrightarrow> aget fs' p = aget fs p)"
proof -
  let ?f = "bson_file fd t" and ?t = "bson_file td t" and ?n = "bson_file nd t"
  from assms(2) have s: "CHR ''/'' \<notin> set t" by (simp add: table_ready_def)
  have neq: "?f \<noteq> td" "?f \<noteq> nd" "?t \<noteq> nd" "?t \<noteq> ?n" "?f \<noteq> ?n"
    using assms(1,2) s by (auto simp: three_dirs_def table_ready_def)
  define fs1 where "fs1 = (if path_exists fs ?f then fs else aput fs ?f (File []))"
  define fs2 where "fs2 = (if path_exists fs1 ?t then fs1 else aput fs1 ?t (File []))"
  have a2: "aget fs2 p = (if p \<in> {?f, ?t} \<and> aget fs p = None then Some (File []) else aget fs p)" for p
    by (auto simp: fs2_def fs1_def path_exists_def)
  have e1: "ensure_file ?f fs = Inr fs1"
    unfolding fs1_def using assms(1) s by (intro ensure_file_run) (simp add: parent_ok_def three_dirs_def)
  have e2: "ensure_file ?t fs1 = Inr fs2"
    unfolding fs2_def using assms(1) s neq
    by (intro ensure_file_run) (auto simp: parent_ok_def three_dirs_def fs1_def isdir_def)
  from assms(3) obtain from_docs dest_docs cs where docs: "file_docs dec fs ?f = Inr from_docs"
    "file_docs dec fs ?t = Inr dest_docs" "rmap enc (dest_docs @ from_docs) = Inr cs" "c = concat cs"
    unfolding appended_bytes_def by auto
  have r: "ReadFile dec fs2 ?f = Inr from_docs" "ReadFile dec fs2 ?t = Inr dest_docs"
    using docs(1,2) by (simp_all add: ReadFile_aget file_docs_aget a2 split: option.splits)
  have "isdir fs2 nd" "\<not> isdir fs2 ?n"
    using assms(1,2) neq by (auto simp: three_dirs_def table_ready_def isdir_def a2)
  from write_docs_run [OF this(1) s this(2) docs(3)] obtain fs' where
    "write_docs enc (dest_docs @ from_docs) ?n fs2 = Inr fs'"
    "\<And>p. aget fs' p = (if p = ?n then Some (File c) else aget fs2 p)" by (auto simp: docs(4))
  then show ?thesis by (auto simp: hefu_appended_def e1 e2 r a2 simp del: rbind_eq_Inr)
qed

text \<open>
  C3: the second loop of \<open>GS_StartHefu\<close>. When the three directories exist and every table's
  documents can be decoded and encoded again, the loop ends and the new file of each table holds
  the documents of \<open>dest\<close> followed by those of the source; files of other tables are unchanged.
\<close>

theorem hefu_appended_loop:
  assumes "three_dirs fs fd td nd" and "distinct ts" and "\<forall>t \<in> set ts. table_ready fs fd td nd t"
    and "\<forall>t \<in> set ts. isl (appended_bytes dec enc fd td fs t) = False"
  shows "\<exists>fs'. rfold (hefu_appended dec enc fd td nd) ts fs = Inr fs'
    \<and> (\<forall>t \<in> set ts. \<exists>c. appended_bytes dec enc fd td fs t = Inr c \<and> aget fs' (bson_file nd t) = Some (File c))
    \<and> (\<forall>p. (\<forall>t \<in> set ts. p \<notin> {bson_file fd t, bson_file td t, bson_file nd t}) \<longrightarrow> aget fs' p = aget fs p)"
  using assms
proof (induction ts arbitrary: fs)
  case (Cons t ts)
  from Cons.prems(4) obtain c where c: "appended_bytes dec enc fd td fs t = Inr c"
    by (cases "appended_bytes dec enc fd td fs t") auto
  from hefu_appended_step [OF Cons.prems(1) _ c] Cons.prems(3) obtain fs1 where
    fs1: "hefu_appended dec enc fd td nd t fs = Inr fs1" "aget fs1 (bson_file nd t) = Some (File c)"
    "\<And>p. p \<notin> {bson_file fd t, bson_file td t, bson_file nd t} \<Longrightarrow> aget fs1 p = aget fs p" by auto
  have s: "CHR ''/'' \<notin> set t" "\<And>u. u \<in> set ts \<Longrightarrow> CHR ''/'' \<notin> set u"
    using Cons.prems(3) by (auto simp: table_ready_def)
  have other: "aget fs1 (bson_file d u) = aget fs (bson_file d u)" if "u \<in> set ts" for d u
    using that Cons.prems(2) s by (intro fs1(3)) auto
  have dir: "isdir fs1 d" if "isdir fs d" for d
    using that Cons.prems(3) fs1(3) [of d] by (auto simp: isdir_def table_ready_def)
  have "three_dirs fs1 fd td nd" using Cons.prems(1) by (simp add: three_dirs_def dir)
  moreover have "table_ready fs1 fd td nd u" if "u \<in> set ts" for u
    using that Cons.prems(3) by (simp add: table_ready_def isdir_def other)
  moreover have "appended_bytes dec enc fd td fs1 u = appended_bytes dec enc fd td fs u" if "u \<in> set ts" for u
    by (simp add: appended_bytes_def file_docs_aget other [OF that])
  ultimately obtain fs' where fs':
    "rfold (hefu_appended dec enc fd td nd) ts fs1 = Inr fs'"
    "\<And>u. u \<in> set ts \<Longrightarrow> \<exists>c. appended_bytes dec enc fd td fs u = Inr c \<and> aget fs' (bson_file nd u) = Some (File c)"
    "\<And>p. (\<forall>u \<in> set ts. p \<notin> {bson_file fd u, bson_file td u, bson_file nd u}) \<Longrightarrow> aget fs' p = aget fs1 p"
    using Cons.IH [of fs1] Cons.prems(2,4) by auto
  have "aget fs' (bson_file nd t) = aget fs1 (bson_file nd t)"
    using Cons.prems(2) s by (intro fs'(3)) auto
  then show ?case using fs1 fs' c by auto
qed simp

text \<open>A file system with the dumps of two servers, and a coder of documents that are numbers.\<close>

fun digits_decode :: "string \<Rightarrow> pyval list res" where
  "digits_decode s = Inr (map (\<lambda>c. PInt (int (of_char c))) s)"

fun digits_encode :: "pyval \<Rightarrow> string res" where
  "digits_encode (PInt i) = Inr [char_of (nat i)]"
| "digits_encode _ = Inl TypeError"

definition dumps_example :: fs where
  "dumps_example = [(''/f'', Dir), (''/t'', Dir), (''/n'', Dir),
     (bson_file ''/f'' ''org'', File ''A''), (bson_file ''/t'' ''org'', File ''BC'')]"

lemma hefu_appended_loop_witness:
  "\<exists>fs'. rfold (hefu_appended digits_decode digits_encode ''/f'' ''/t'' ''/n'') [''org'', ''house''] dumps_example
      = Inr fs'
    \<and> (\<forall>t \<in> set [''org'', ''house'']. \<exists>c.
         appended_bytes digits_decode digits_encode ''/f'' ''/t'' dumps_example t = Inr c
         \<and> aget fs' (bson_file ''/n'' t) = Some (File c))
    \<and> (\<forall>p. (\<forall>t \<in> set [''org'', ''house''].
         p \<notin> {bson_file ''/f'' t, bson_file ''/t'' t, bson_file ''/n'' t}) \<longrightarrow> aget fs' p = aget dumps_example p)"
  by (rule hefu_appended_loop)
    (simp_all add: dumps_example_def three_dirs_def table_ready_def isdir_def appended_bytes_def file_docs_aget
      bson_file_def)

end
