(* ===== verification/Mongo.thy ===== *)
theory Mongo
  imports PyOps
begin

text \<open>
  The commands the scripts send to the database, and a script as a function from the documents its
  cursor yields. The driver \<open>pymongo\<close> and the database are not part of the repository.
\<close>

section \<open>Commands\<close>

text \<open>\<open>update(query, change, upsert)\<close> (of one document), \<open>update_many\<close>, \<open>insert\<close> or \<open>insert_one\<close>, \<open>insert_many\<close> on a
  collection of a database.\<close>

datatype mongo_cmd =
    Update string string pyval pyval bool
  | UpdateMany string string pyval pyval
  | InsertOne string string pyval
  | InsertMany string string "pyval list"

text \<open>
  A script that goes through the documents and sends the commands of each. When a document raises an exception the result
  is the exception: the commands sent for the documents before it are not part of the result.
\<close>

definition run_script :: "(pyval \<Rightarrow> mongo_cmd list res) \<Rightarrow> pyval list \<Rightarrow> mongo_cmd list res" where
  "run_script f docs = rbind (rmap f docs) (\<lambda>cs. Inr (concat cs))"

end
