(* ===== verification/FixBug.thy ===== *)
theory FixBug
  imports Mongo Tables DbData
begin

unbundle bit_operations_syntax

text \<open>
  \<open>shell/fix_bug.py\<close>: the scripts that repair the documents of a running game. A script reads
  the documents of one collection and sends commands to the database. The driver \<open>pymongo\<close> is
  not part of the repository: a script is the function from the documents its cursor yields to
  the commands it sends, in their order, or to the exception that stops it.
\<close>

section \<open>The update of a player\<close>

text \<open>\<open>update({"pid": iPid}, {op: {field: v}})\<close>.\<close>

definition update_pid :: "string \<Rightarrow> pyval \<Rightarrow> string \<Rightarrow> string \<Rightarrow> pyval \<Rightarrow> mongo_cmd" where
  "update_pid coll iPid op field v =
     Update ''game'' coll (PDict [(KStr ''pid'', iPid)])
       (PDict [(KStr op, PDict [(KStr field, v)])]) False"

section \<open>Removing items\<close>

definition GetItemData :: "int list" where
  "GetItemData =
     [21051,21052,21061,21062,21151,21152,21161,21162,21251,21252,21261,21262,
      21351,21352,21361,21362,21451,21452,21461,21462,21551,21552,21561,21562,21651,21652,
      21661,21662,23051,23052,23061,23062,23151,23152,23161,23162,23251,23252,23261,23262,
      23351,23352,23361,23362,24051,24052,24061,24062,24151,24152,24161,24162,24251,24252,
      24261,24262,24351,24352,24361,24362,24451,24452,24461,24462,25051,25052,25061,25062,
      25151,25152,25161,25162,25251,25252,25261,25262,25351,25352,25361,25362,25451,25452,
      25461,25462,25551,25552,25561,25562,21611,21612,21613,21614,21615,21616,21621,21622,
      21623,21624,21625,21626,21631,21632,21633,21634,21635,21636,21641,21642,21643,21644,
      21645,21646,23011,23012,23013,23014,23015,23016,23021,23022,23023,23024,23025,23026,
      23031,23032,23033,23034,23035,23036,23041,23042,23043,23044,23045,23046,25311,25312,
      25313,25314,25315,25316,25321,25322,25323,25324,25325,25326,25331,25332,25333,25334,
      25335,25336,25341,25342,25343,25344,25345,25346,201004,201005,201006,201007,201150,
      201151,201753,201754,201755]"

definition IsDelete :: "pyval \<Rightarrow> bool" where
  "IsDelete iShape \<longleftrightarrow> list_ex (\<lambda>iDeleteShape. py_eq iShape (PInt iDeleteShape)) GetItemData"

text \<open>\<open>del v[i]\<close> of a list, with an index in range.\<close>

fun del_index :: "nat \<Rightarrow> pyval \<Rightarrow> pyval res" where
  "del_index i (PList vs) = (if i < length vs then Inr (PList (take i vs @ drop (Suc i) vs)) else Inl IndexError)"
| "del_index i (PDict d) = Inl KeyError"
| "del_index i _ = Inl TypeError"

text \<open>
  The two loops of both item scripts: the first collects the positions of the items to delete,
  the second deletes them from the last to the first. \<open>shape\<close> reads the shape of an item.
\<close>

definition marked :: "(pyval \<Rightarrow> pyval res) \<Rightarrow> pyval list \<Rightarrow> nat list res" where
  "marked shape items =
     rbind (rmap (\<lambda>mData. rbind (shape mData) (\<lambda>iShape. Inr (IsDelete iShape))) items) (\<lambda>bs.
     Inr (map fst (filter snd (enumerate 0 bs))))"

definition delete_items :: "(pyval \<Rightarrow> pyval res) \<Rightarrow> pyval \<Rightarrow> pyval res" where
  "delete_items shape mContainer =
     rbind (iter_of mContainer) (\<lambda>items.
     rbind (marked shape items) (\<lambda>mDelete.
     rbind (py_len mContainer) (\<lambda>n.
     rfold (\<lambda>iKey c. if iKey \<in> set mDelete then del_index iKey c else Inr c) (rev [0..<n]) mContainer)))"

definition DeletePartnerItem :: "pyval \<Rightarrow> mongo_cmd list res" where
  "DeletePartnerItem partner =
     rbind (getitem partner (KStr ''pid'')) (\<lambda>iPid.
     rbind (has_key partner (KStr ''item'')) (\<lambda>b. if \<not> b then Inr [] else
     rbind (getitem partner (KStr ''item'')) (\<lambda>mItem.
     rbind (getitem mItem (KStr ''itemdata'')) (\<lambda>itemdata.
     rbind (has_key itemdata (KStr ''5'')) (\<lambda>b. if \<not> b then Inr [] else
     rbind (getitem itemdata (KStr ''5'')) (\<lambda>mContainer.
     rbind (delete_items (\<lambda>m. getitem m (KStr ''sid'')) mContainer) (\<lambda>mContainer.
     rbind (setitem itemdata (KStr ''5'') mContainer) (\<lambda>itemdata.
     rbind (setitem mItem (KStr ''itemdata'') itemdata) (\<lambda>mItem.
     Inr [update_pid ''partner'' iPid ''$set'' ''item'' mItem])))))))))"

definition DeleteOfflineItem :: "pyval \<Rightarrow> mongo_cmd list res" where
  "DeleteOfflineItem offline =
     rbind (getitem offline (KStr ''pid'')) (\<lambda>iPid.
     rbind (has_key offline (KStr ''partner_info'')) (\<lambda>b. if \<not> b then Inr [] else
     rbind (getitem offline (KStr ''partner_info'')) (\<lambda>mPartner.
     rbind (has_key mPartner (KStr ''show_partner'')) (\<lambda>b. if \<not> b then Inr [] else
     rbind (getitem mPartner (KStr ''show_partner'')) (\<lambda>mShowPartner.
     rbind (iter_of mShowPartner) (\<lambda>shown.
     rbind (rmap (\<lambda>mPartnerData.
       rbind (getitem mPartnerData (KStr ''equip'')) (\<lambda>mItemData.
       rbind (delete_items (\<lambda>m. rbind (getitem m (KStr ''data'')) (\<lambda>d. getitem d (KStr ''sid''))) mItemData)
         (\<lambda>mItemData. setitem mPartnerData (KStr ''equip'') mItemData))) shown) (\<lambda>shown.
     rbind (setitem mPartner (KStr ''show_partner'')
              (case mShowPartner of PList _ \<Rightarrow> PList shown | _ \<Rightarrow> mShowPartner)) (\<lambda>mPartner.
     Inr [update_pid ''offline'' iPid ''$set'' ''partner_info'' mPartner]))))))))"

section \<open>Clearing and moving fields\<close>

definition ClearPartnerChip :: "pyval \<Rightarrow> mongo_cmd list res" where
  "ClearPartnerChip player =
     rbind (getitem player (KStr ''pid'')) (\<lambda>iPid.
     rbind (has_key player (KStr ''item_info'')) (\<lambda>b. if \<not> b then Inr [] else
     rbind (getitem player (KStr ''item_info'')) (\<lambda>mItem.
     rbind (getitem mItem (KStr ''itemdata'')) (\<lambda>itemdata.
     rbind (has_key itemdata (KStr ''7'')) (\<lambda>b. if \<not> b then Inr [] else
     rbind (setitem itemdata (KStr ''7'') (PDict [])) (\<lambda>itemdata.
     rbind (setitem mItem (KStr ''itemdata'') itemdata) (\<lambda>mItem.
     Inr [update_pid ''player'' iPid ''$set'' ''item_info'' mItem])))))))"

definition ClearMail :: "pyval \<Rightarrow> mongo_cmd list res" where
  "ClearMail offline =
     rbind (getitem offline (KStr ''pid'')) (\<lambda>iPid.
     rbind (has_key offline (KStr ''mail_info'')) (\<lambda>b. if \<not> b then Inr [] else
     Inr [update_pid ''offline'' iPid ''$set'' ''mail_info'' (PDict [])]))"

definition ClearHandBookData :: "pyval \<Rightarrow> mongo_cmd list res" where
  "ClearHandBookData player =
     rbind (has_key player (KStr ''handbook'')) (\<lambda>b. if \<not> b then Inr [] else
     rbind (getitem player (KStr ''pid'')) (\<lambda>iPid.
     Inr [update_pid ''player'' iPid ''$unset'' ''handbook'' (PInt 1)]))"

definition MoveItemTable :: "pyval \<Rightarrow> mongo_cmd list res" where
  "MoveItemTable data =
     rbind (getitem data (KStr ''pid'')) (\<lambda>iPid.
     rbind (getitem data (KStr ''item'')) (\<lambda>item.
     Inr [update_pid ''player'' iPid ''$set'' ''item_info'' item]))"

section \<open>Rune plans\<close>

text \<open>\<open>str(v)\<close> of a scalar and \<open>int(v)\<close>; the text of a container is not modelled.\<close>

fun str_of :: "pyval \<Rightarrow> string res" where
  "str_of (PStr s) = Inr s"
| "str_of (PUni s) = (if is_ascii s then Inr s else Inl ValueError)"
| "str_of v = unicode_of v"

definition int_of_text :: "string \<Rightarrow> int res" where
  "int_of_text s =
     (let t = strip s; neg = (take 1 t = ''-''); ds = (if neg \<or> take 1 t = ''+'' then drop 1 t else t)
      in if isdigit ds then Inr (if neg then - int (nat_of_digits ds) else int (nat_of_digits ds))
         else Inl ValueError)"

fun py_int :: "pyval \<Rightarrow> int res" where
  "py_int (PBool b) = Inr (of_bool b)"
| "py_int (PInt i) = Inr i"
| "py_int (PFloat r) = Inr (if 0 \<le> r then \<lfloor>r\<rfloor> else - \<lfloor>- r\<rfloor>)"
| "py_int (PStr s) = int_of_text s"
| "py_int (PUni s) = int_of_text s"
| "py_int _ = Inl TypeError"

text \<open>The plans of one piece of equipment, and whether it had to be changed.\<close>

definition fuwen_plan :: "pyval \<Rightarrow> pyval \<Rightarrow> (pyval \<times> bool) res" where
  "fuwen_plan iGrade mInfo =
     rbind (has_key mInfo (KStr ''fuwen_plan'')) (\<lambda>b. if b then Inr (mInfo, False) else
     rbind (getitem mInfo (KStr ''fuwen'')) (\<lambda>fuwen.
     rbind (getitem mInfo (KStr ''data'')) (\<lambda>data.
     rbind (has_key data (KStr ''back_fuwen'')) (\<lambda>b.
     rbind (if b then rbind (getitem data (KStr ''back_fuwen'')) (\<lambda>bf.
              Inr [(KStr ''fuwen'', fuwen), (KStr ''back_fuwen'', bf)])
            else Inr [(KStr ''fuwen'', fuwen)]) (\<lambda>plan1.
     rbind (py_lt iGrade (PInt 25)) (\<lambda>lt.
     rbind (setitem mInfo (KStr ''fuwen_plan'')
              (PDict ((KStr ''1'', PDict plan1)
                 # (if lt then [] else [(KStr ''2'', PDict [(KStr ''fuwen'', fuwen)])])))) (\<lambda>mInfo.
     Inr (mInfo, True))))))))"

definition fuwen_info :: "pyval \<Rightarrow> pyval \<Rightarrow> (pyval \<times> bool) res" where
  "fuwen_info iGrade mInfo =
     rbind (fuwen_plan iGrade mInfo) (\<lambda>(mInfo, bModify).
     rbind (getitem mInfo (KStr ''data'')) (\<lambda>mData.
     rbind (has_key mData (KStr ''fuwen_plan'')) (\<lambda>b. if b then Inr (mInfo, bModify) else
     rbind (setitem mData (KStr ''fuwen_plan'') (PInt 1)) (\<lambda>mData.
     rbind (setitem mInfo (KStr ''data'') mData) (\<lambda>mInfo. Inr (mInfo, True))))))"

definition fuwen_pos :: "pyval \<Rightarrow> nat \<Rightarrow> pyval \<times> bool \<Rightarrow> (pyval \<times> bool) res" where
  "fuwen_pos iGrade iPos st =
     rbind (has_key (fst st) (KStr (str_of_nat iPos))) (\<lambda>b. if \<not> b then Inr st else
     rbind (getitem (fst st) (KStr (str_of_nat iPos))) (\<lambda>mInfo.
     rbind (fuwen_info iGrade mInfo) (\<lambda>(mInfo, m).
     rbind (setitem (fst st) (KStr (str_of_nat iPos)) mInfo) (\<lambda>mEquip. Inr (mEquip, snd st \<or> m)))))"

definition FixEquipFuWen :: "pyval \<Rightarrow> mongo_cmd list res" where
  "FixEquipFuWen player =
     rbind (has_key player (KStr ''item_info'')) (\<lambda>b. if \<not> b then Inr [] else
     rbind (getitem player (KStr ''pid'')) (\<lambda>iPid.
     rbind (getitem player (KStr ''base_info'')) (\<lambda>base_info.
     rbind (getitem base_info (KStr ''grade'')) (\<lambda>iGrade.
     rbind (getitem player (KStr ''item_info'')) (\<lambda>mItemInfo.
     rbind (getitem mItemInfo (KStr ''equip'')) (\<lambda>mEquip.
     rbind (rfold (fuwen_pos iGrade) [1..<7] (mEquip, False)) (\<lambda>(mEquip, bModify).
     if \<not> bModify then Inr [] else
     rbind (setitem mItemInfo (KStr ''equip'') mEquip) (\<lambda>mItemInfo.
     Inr [update_pid ''player'' iPid ''$set'' ''item_info'' mItemInfo]))))))))"

section \<open>Merging partners and items\<close>

text \<open>\<open>datas\<close> keeps the other partners, \<open>mBaoZi\<close> the first of the partners merged into one.\<close>

record baozi =
  bz_partner :: pyval
  bz_datas :: "pyval list"
  bz_logs :: "pyval list"

text \<open>The name given to the partner, as the bytes of the source file (UTF-8).\<close>

definition baozi_name :: pyval where
  "baozi_name = PStr [CHR 0xE9, CHR 0xB2, CHR 0x9C, CHR 0xE8, CHR 0x82, CHR 0x89, CHR 0xE5, CHR 0x8C, CHR 0x85]"

definition py_and :: "pyval \<Rightarrow> int \<Rightarrow> pyval res" where
  "py_and v j = (case int_of v of Some i \<Rightarrow> Inr (PInt (i AND j)) | None \<Rightarrow> Inl TypeError)"

definition baozi_status :: "pyval \<Rightarrow> pyval res" where
  "baozi_status mBaoZi =
     rbind (has_key mBaoZi (KStr ''status'')) (\<lambda>b.
     rbind (if b then getitem mBaoZi (KStr ''status'') else Inr (PInt 0)) (\<lambda>status.
     rbind (py_and status (NOT (push_bit 3 1))) (\<lambda>status.
     rbind (py_and status (NOT (push_bit 4 1))) (\<lambda>status.
     setitem mBaoZi (KStr ''status'') status))))"

definition baozi_first :: "pyval \<Rightarrow> pyval res" where
  "baozi_first mPar =
     rbind (setitem mPar (KStr ''name'') baozi_name) (\<lambda>mBaoZi. ensure mBaoZi (KStr ''amount'') (PInt 1))"

definition baozi_more :: "pyval \<Rightarrow> pyval \<Rightarrow> pyval \<Rightarrow> (pyval \<times> pyval) res" where
  "baozi_more iPid mPar mBaoZi =
     rbind (getitem mBaoZi (KStr ''amount'')) (\<lambda>old.
     rbind (py_add (py_or old (PInt 1)) (PInt 1)) (\<lambda>amount.
     rbind (setitem mBaoZi (KStr ''amount'') amount) (\<lambda>mBaoZi.
     rbind (getitem mPar (KStr ''traceno'')) (\<lambda>traceno.
     Inr (mBaoZi, PDict [(KStr ''partner_type'', PInt 1754), (KStr ''pid'', iPid),
       (KStr ''amount'', py_or amount (PInt 1)), (KStr ''traceno'', traceno)])))))"

definition baozi_step :: "pyval \<Rightarrow> pyval \<Rightarrow> baozi \<Rightarrow> baozi res" where
  "baozi_step iPid mPar st =
     rbind (getitem mPar (KStr ''partner_type'')) (\<lambda>ty.
     if py_eq ty (PInt 1754) then
       rbind (if \<not> truthy (bz_partner st) then rbind (baozi_first mPar) (\<lambda>m. Inr (m, bz_logs st))
              else rbind (baozi_more iPid mPar (bz_partner st)) (\<lambda>(m, l). Inr (m, bz_logs st @ [l])))
         (\<lambda>(mBaoZi, logs).
       rbind (baozi_status mBaoZi) (\<lambda>mBaoZi. Inr (st\<lparr>bz_partner := mBaoZi, bz_logs := logs\<rparr>)))
     else Inr (st\<lparr>bz_datas := bz_datas st @ [mPar]\<rparr>))"

definition FixPartnerBaozi :: "string \<Rightarrow> pyval \<Rightarrow> mongo_cmd list res" where
  "FixPartnerBaozi sTable partner =
     rbind (has_key partner (KStr ''partner'')) (\<lambda>b. if \<not> b then Inr [] else
     rbind (getitem partner (KStr ''partner'')) (\<lambda>mData.
     rbind (has_key mData (KStr ''partner'')) (\<lambda>b. if \<not> b then Inr [] else
     rbind (getitem partner (KStr ''pid'')) (\<lambda>iPid.
     rbind (getitem mData (KStr ''partner'')) (\<lambda>saved.
     rbind (AfterLoad saved) (\<lambda>loaded.
     rbind (iter_of (py_or loaded (PList []))) (\<lambda>parData.
     rbind (rfold (baozi_step iPid) parData \<lparr>bz_partner = PNone, bz_datas = [], bz_logs = []\<rparr>) (\<lambda>st.
     let datas = bz_datas st @ (if truthy (bz_partner st) then [bz_partner st] else []) in
     rbind (setitem mData (KStr ''partner'') (BeforeSave (PList datas))) (\<lambda>mData.
     Inr (update_pid ''partner'' iPid ''$set'' ''partner'' mData
       # (if bz_logs st = [] then [] else [InsertMany sTable ''partner'' (bz_logs st)])))))))))))"

definition IsMerge :: "pyval \<Rightarrow> bool" where
  "IsMerge iSid \<longleftrightarrow> list_ex (\<lambda>i. py_eq iSid (PInt i)) [26911,26912,26913,26914,26915,26916]"

text \<open>The items kept as they are, the first item of every merged shape, and the log.\<close>

record exp_equip =
  ee_datas :: "pyval list"
  ee_record :: "(pykey \<times> pyval) list"
  ee_logs :: "pyval list"

definition exp_step :: "pyval \<Rightarrow> pyval \<Rightarrow> exp_equip \<Rightarrow> exp_equip res" where
  "exp_step iPid mData st =
     rbind (getitem mData (KStr ''sid'')) (\<lambda>iSid.
     if IsMerge iSid then
       rbind (key_of iSid) (\<lambda>k.
       case dget (ee_record st) k of
         None \<Rightarrow> Inr (st\<lparr>ee_record := dput (ee_record st) k mData\<rparr>)
       | Some m \<Rightarrow>
           rbind (getitem m (KStr ''amount'')) (\<lambda>a.
           rbind (getitem mData (KStr ''amount'')) (\<lambda>b.
           rbind (py_add (py_or a (PInt 0)) (py_or b (PInt 1))) (\<lambda>amount.
           rbind (setitem m (KStr ''amount'') amount) (\<lambda>m.
           rbind (getitem mData (KStr ''data'')) (\<lambda>d.
           rbind (getitem d (KStr ''TraceNo'')) (\<lambda>traceno.
           Inr (st\<lparr>ee_record := dput (ee_record st) k m,
                  ee_logs := ee_logs st @ [PDict [(KStr ''sid'', iSid), (KStr ''pid'', iPid),
                    (KStr ''amount'', b), (KStr ''TraceNo'', traceno)]]\<rparr>))))))))
     else Inr (st\<lparr>ee_datas := ee_datas st @ [mData]\<rparr>))"

text \<open>
  \<open>BeforeSave(mItemInfo)\<close> converts the dictionary in place: \<open>mItemInfo\<close>, which the update sends,
  is then the converted one.
\<close>

definition FixPartnerExpEquip :: "string \<Rightarrow> pyval \<Rightarrow> mongo_cmd list res" where
  "FixPartnerExpEquip sTable player =
     rbind (has_key player (KStr ''item_info'')) (\<lambda>b. if \<not> b then Inr [] else
     rbind (getitem player (KStr ''item_info'')) (\<lambda>saved.
     rbind (AfterLoad saved) (\<lambda>mItemInfo.
     rbind (has_key mItemInfo (KStr ''itemdata'')) (\<lambda>b. if \<not> b then Inr [] else
     rbind (getitem mItemInfo (KStr ''itemdata'')) (\<lambda>mItemData.
     rbind (has_key mItemData (KStr ''5'')) (\<lambda>b. if \<not> b then Inr [] else
     rbind (getitem player (KStr ''pid'')) (\<lambda>iPid.
     rbind (getitem mItemData (KStr ''5'')) (\<lambda>mPEquip.
     rbind (iter_of mPEquip) (\<lambda>items.
     rbind (rfold (exp_step iPid) items \<lparr>ee_datas = [], ee_record = [], ee_logs = []\<rparr>) (\<lambda>st.
     rbind (setitem mItemData (KStr ''5'') (PList (ee_datas st @ map snd (ee_record st)))) (\<lambda>mItemData.
     rbind (setitem mItemInfo (KStr ''itemdata'') mItemData) (\<lambda>mItemInfo.
     Inr (update_pid ''player'' iPid ''$set'' ''item_info'' (BeforeSave mItemInfo)
       # (if ee_logs st = [] then [] else [InsertMany sTable ''item'' (ee_logs st)]))))))))))))))"

section \<open>Ranks and coins\<close>

text \<open>One rank of the combined document becomes a document of its own; its data gets its name too.\<close>

definition rank_save :: "pyval \<Rightarrow> pyval \<Rightarrow> mongo_cmd res" where
  "rank_save mRank sType =
     rbind (key_of sType) (\<lambda>k.
     rbind (getitem mRank k) (\<lambda>mData.
     rbind (str_of sType) (\<lambda>t.
     rbind (setitem mData (KStr ''name'') (PStr (''partner'' @ t))) (\<lambda>mData.
     Inr (Update ''game'' ''rank'' (PDict [(KStr ''name'', PStr (''partner'' @ t))])
       (PDict [(KStr ''name'', PStr (''partner'' @ t)), (KStr ''rank_data'', mData)]) True)))))"

definition FixRankData :: "string \<Rightarrow> string \<Rightarrow> pyval \<Rightarrow> mongo_cmd list res" where
  "FixRankData sTable sTime rank =
     rbind (getitem rank (KStr ''name'')) (\<lambda>sRank.
     if \<not> py_eq sRank (PStr ''parpower'') then Inr [] else
     rbind (has_key rank (KStr ''rank_data'')) (\<lambda>b. if \<not> b then Inr [] else
     rbind (getitem rank (KStr ''rank_data'')) (\<lambda>mRankData.
     rbind (has_key mRankData (KStr ''rank'')) (\<lambda>b. if \<not> b then Inr [] else
     rbind (getitem mRankData (KStr ''rank'')) (\<lambda>mRank.
     rbind (iter_of mRank) (\<lambda>types.
     rbind (rmap (rank_save mRank) types) (\<lambda>cs.
     Inr (cs @ [InsertOne sTable ''rank'' (PDict [(KStr ''name'', PStr ''parpower''),
       (KStr ''time'', PStr sTime)])]))))))))"

definition py_mul :: "pyval \<Rightarrow> pyval \<Rightarrow> pyval res" where
  "py_mul v w = (case (int_of v, int_of w) of (Some i, Some j) \<Rightarrow> Inr (PInt (i * j)) | _ \<Rightarrow> Inl Unsupported)"

definition FixColorCoin :: "string \<Rightarrow> pyval \<Rightarrow> mongo_cmd list res" where
  "FixColorCoin sTable offline =
     rbind (has_key offline (KStr ''profile_info'')) (\<lambda>b. if \<not> b then Inr [] else
     rbind (getitem offline (KStr ''profile_info'')) (\<lambda>saved.
     rbind (AfterLoad saved) (\<lambda>profile.
     rbind (has_key profile (KStr ''color_coin'')) (\<lambda>b. if \<not> b then Inr [] else
     rbind (getitem profile (KStr ''color_coin'')) (\<lambda>c.
     let colorcoin = py_or c (PInt 0) in
     rbind (py_lt (PInt 0) colorcoin) (\<lambda>b. if \<not> b then Inr [] else
     rbind (getitem offline (KStr ''pid'')) (\<lambda>pid.
     rbind (has_key profile (KStr ''goldcoin'')) (\<lambda>b.
     rbind (if b then rbind (getitem profile (KStr ''goldcoin'')) (\<lambda>g. Inr (py_or g (PInt 0)))
            else Inr (PInt 0)) (\<lambda>oldgoldcoin.
     rbind (py_mul colorcoin (PInt 10)) (\<lambda>ten.
     rbind (py_add oldgoldcoin ten) (\<lambda>goldcoin.
     rbind (setitem profile (KStr ''color_coin'') (PInt 0)) (\<lambda>profile.
     rbind (setitem profile (KStr ''goldcoin'') goldcoin) (\<lambda>profile.
     let savedata = BeforeSave profile in
     Inr [update_pid ''offline'' pid ''$set'' ''profile_info'' savedata,
       InsertOne sTable ''offline'' (PDict [(KStr ''name'', PStr ''parnter_info''), (KStr ''pid'', pid),
         (KStr ''oldcolorcoin'', colorcoin), (KStr ''colorcoin'', PInt 0),
         (KStr ''oldgoldcoin'', oldgoldcoin), (KStr ''goldcoin'', goldcoin)])])))))))))))))"

section \<open>Partner equipment\<close>

definition mUnlock :: "int \<Rightarrow> int option" where
  "mUnlock = map_of [(1, 0), (2, 50), (3, 55), (4, 60)]"

text \<open>
  One item worn at a place the player's grade does not unlock: the log entry of it. The change of
  \<open>wield\<close> in the code stays in memory, because the statements that write the items back are
  comments.
\<close>

definition wield_log :: "pyval \<Rightarrow> pyval \<Rightarrow> pyval list res" where
  "wield_log iGrade mData =
     rbind (getitem mData (KStr ''data'')) (\<lambda>d.
     rbind (has_key d (KStr ''wield'')) (\<lambda>b. if \<not> b then Inr [] else
     rbind (getitem d (KStr ''wield'')) (\<lambda>wield.
     rbind (py_lt (PInt 0) wield) (\<lambda>b. if \<not> b then Inr [] else
     rbind (getitem mData (KStr ''sid'')) (\<lambda>sid.
     rbind (py_int sid) (\<lambda>iSid.
     rbind (of_option KeyError (mUnlock ((iSid - 6000000) div 100000))) (\<lambda>g.
     rbind (py_lt iGrade (PInt g)) (\<lambda>locked. if \<not> locked then Inr [] else
     Inr [PDict [(KStr ''parid'', wield), (KStr ''sid'', PInt iSid)]]))))))))"

definition FixPartnerEquip :: "string \<Rightarrow> pyval \<Rightarrow> mongo_cmd list res" where
  "FixPartnerEquip sTable player =
     rbind (has_key player (KStr ''item_info'')) (\<lambda>b. if \<not> b then Inr [] else
     rbind (getitem player (KStr ''item_info'')) (\<lambda>saved.
     rbind (AfterLoad saved) (\<lambda>mItemInfo.
     rbind (has_key mItemInfo (KStr ''itemdata'')) (\<lambda>b. if \<not> b then Inr [] else
     rbind (getitem mItemInfo (KStr ''itemdata'')) (\<lambda>mItemData.
     rbind (has_key mItemData (KStr ''5'')) (\<lambda>b. if \<not> b then Inr [] else
     rbind (getitem player (KStr ''pid'')) (\<lambda>iPid.
     rbind (getitem player (KStr ''base_info'')) (\<lambda>base_info.
     rbind (getitem base_info (KStr ''grade'')) (\<lambda>iGrade.
     rbind (getitem mItemData (KStr ''5'')) (\<lambda>mPEquip.
     rbind (iter_of mPEquip) (\<lambda>items.
     rbind (rmap (wield_log iGrade) items) (\<lambda>ls.
     if concat ls = [] then Inr [] else
     rbind (getitem player (KStr ''account'')) (\<lambda>account.
     Inr [InsertOne sTable ''parequip'' (PDict [(KStr ''pid'', iPid),
       (KStr ''unlock_wield_list'', PList (concat ls))])])))))))))))))"

section \<open>Chapters\<close>

definition bianli_key :: "pykey \<Rightarrow> pyval \<Rightarrow> pykey res" where
  "bianli_key key v =
     (if (case key of KInt _ \<Rightarrow> True | KBool _ \<Rightarrow> True | _ \<Rightarrow> False)
        \<or> (case v of PDict _ \<Rightarrow> True | _ \<Rightarrow> False)
      then rbind (str_of (val_of_key key)) (\<lambda>s. Inr (KStr s)) else Inr key)"

text \<open>The copy of a dictionary with its integer keys as text, dictionaries in it included.\<close>

function bianli :: "pyval \<Rightarrow> pyval res" where
  "bianli m =
     (case m of
        PDict d \<Rightarrow>
          rbind (rfold (\<lambda>(key, v) mResult.
            rbind (bianli_key key v) (\<lambda>k.
            rbind (case v of PDict _ \<Rightarrow> bianli v | _ \<Rightarrow> Inr v) (\<lambda>w.
            Inr (dput mResult k w)))) d []) (\<lambda>mResult. Inr (PDict mResult))
      | _ \<Rightarrow> Inl Unsupported)"
  by pat_completeness auto
termination
  by (relation "measure size") (auto dest: dict_value_size)

declare bianli.simps [simp del]

definition FixChapterfb :: "pyval \<Rightarrow> mongo_cmd list res" where
  "FixChapterfb info =
     rbind (getitem info (KStr ''pid'')) (\<lambda>iPid.
     rbind (has_key info (KStr ''huodong_info'')) (\<lambda>b. if \<not> b then Inr [] else
     rbind (getitem info (KStr ''huodong_info'')) (\<lambda>saved.
     rbind (AfterLoad saved) (\<lambda>mHuodong.
     rbind (has_key mHuodong (KStr ''chapterfb'')) (\<lambda>b. if \<not> b then Inr [] else
     rbind (getitem mHuodong (KStr ''chapterfb'')) (\<lambda>chapterfb.
     rbind (AfterLoad chapterfb) (\<lambda>mChapter.
     rbind (has_key mChapter (KStr ''finalchapter'')) (\<lambda>b.
     rbind (if \<not> b then Inr mChapter else
            rbind (getitem mChapter (KStr ''finalchapter'')) (\<lambda>final.
            rbind (AfterLoad final) (\<lambda>mFinalChapter.
            rbind (setitem mFinalChapter (KStr ''type'') (PInt 1)) (\<lambda>mFinalChapter.
            setitem mChapter (KStr ''finalchapter'') mFinalChapter)))) (\<lambda>mChapter.
     rbind (bianli mChapter) (\<lambda>normal.
     Inr [update_pid ''player'' iPid ''$set'' ''huodong_info.chapterfb''
       (PDict [(KStr ''normal'', normal)])]))))))))))"

text \<open>The repair from the backup: it reads the players of the database \<open>bak_game\<close>.\<close>

definition FixChapterfbBakDB :: "pyval \<Rightarrow> mongo_cmd list res" where
  "FixChapterfbBakDB info =
     rbind (getitem info (KStr ''pid'')) (\<lambda>iPid.
     rbind (has_key info (KStr ''huodong_info'')) (\<lambda>b. if \<not> b then Inr [] else
     rbind (getitem info (KStr ''huodong_info'')) (\<lambda>saved.
     rbind (AfterLoad saved) (\<lambda>mBakHuodong.
     rbind (has_key mBakHuodong (KStr ''chapterfb'')) (\<lambda>b. if \<not> b then Inr [] else
     rbind (getitem mBakHuodong (KStr ''chapterfb'')) (\<lambda>chapterfb.
     rbind (AfterLoad chapterfb) (\<lambda>mBakChapter.
     rbind (has_key mBakChapter (KStr ''finalchapter'')) (\<lambda>b. if \<not> b then Inr [] else
     rbind (getitem mBakChapter (KStr ''finalchapter'')) (\<lambda>final.
     rbind (AfterLoad final) (\<lambda>mFinalChapter.
     rbind (setitem mFinalChapter (KStr ''type'') (PInt 1)) (\<lambda>mFinalChapter.
     rbind (bianli mFinalChapter) (\<lambda>normal.
     Inr [update_pid ''player'' iPid ''$set'' ''huodong_info.chapterfb''
       (PDict [(KStr ''normal'', normal)])]))))))))))))"

section \<open>What the item scripts delete\<close>

lemma del_loop:
  "n \<le> length vs \<Longrightarrow>
   rfold (\<lambda>i c. if i \<in> S then del_index i c else Inr c) (rev [0..<n]) (PList (take n vs @ ys))
     = Inr (PList (nths (take n vs) (- S) @ ys))"
proof (induction n arbitrary: ys)
  case (Suc n)
  then have t: "take (Suc n) vs = take n vs @ [vs ! n]" by (simp add: take_Suc_conv_app_nth)
  show ?case
  proof (cases "n \<in> S")
    case True
    with Suc show ?thesis by (simp add: t nths_append)
  next
    case False
    with Suc Suc.IH [of "vs ! n # ys"] show ?thesis by (simp add: t nths_append)
  qed
qed simp

lemma marked_total:
  assumes "\<And>m. m \<in> set items \<Longrightarrow> shape m = Inr (sid m)"
  shows "marked shape items = Inr (map fst (filter snd (enumerate 0 (map (IsDelete \<circ> sid) items))))"
proof -
  have "rmap (\<lambda>mData. rbind (shape mData) (\<lambda>iShape. Inr (IsDelete iShape))) items
      = Inr (map (IsDelete \<circ> sid) items)"
    using assms by (intro rmap_total) simp
  then show ?thesis by (simp add: marked_def)
qed

lemma nths_cong: "(\<And>i. i < length xs \<Longrightarrow> i \<in> A \<longleftrightarrow> i \<in> B) \<Longrightarrow> nths xs A = nths xs B"
  unfolding nths_def by (rule arg_cong [where f = "map fst"], rule filter_cong) (auto dest: set_zip_rightD)

lemma marked_mem: "i \<in> set (map fst (filter snd (enumerate 0 bs))) \<longleftrightarrow> i < length bs \<and> bs ! i"
  by (auto simp: in_set_enumerate_eq image_iff)

lemma nths_marked: "nths vs (- set (map fst (filter snd (enumerate 0 (map P vs))))) = filter (\<lambda>v. \<not> P v) vs"
  unfolding filter_eq_nths [of _ vs]
  by (rule nths_cong) (simp only: Compl_iff marked_mem mem_Collect_eq length_map nth_map, simp)

text \<open>The two loops keep exactly the items whose shape is not in the table, in their order.\<close>

lemma delete_items_filter:
  assumes "\<forall>m \<in> set items. shape m = Inr (sid m)"
  shows "delete_items shape (PList items) = Inr (PList (filter (\<lambda>m. \<not> IsDelete (sid m)) items))"
proof -
  let ?S = "set (map fst (filter snd (enumerate 0 (map (IsDelete \<circ> sid) items))))"
  have "marked shape items = Inr (map fst (filter snd (enumerate 0 (map (IsDelete \<circ> sid) items))))"
    using assms by (intro marked_total) simp
  then have "delete_items shape (PList items) = rfold (\<lambda>i c. if i \<in> ?S then del_index i c else Inr c)
      (rev [0..<length items]) (PList (take (length items) items @ []))"
    by (simp add: delete_items_def)
  also have "\<dots> = Inr (PList (nths items (- ?S)))"
    by (subst del_loop) simp_all
  finally show ?thesis using nths_marked [of items "IsDelete \<circ> sid"] by simp
qed

text \<open>
  \<open>DeletePartnerItem\<close> sends one update for a partner document that has a container 5: the
  item field it writes holds the items of the container whose shape is not in the table of deleted
  shapes, in their order, and everything else as it was.
\<close>

theorem DeletePartnerItem_command:
  assumes "partner = PDict d" and "dget d (KStr ''pid'') = Some pid"
    and "vpath [KStr ''item'', KStr ''itemdata'', KStr ''5''] partner = Some (PList items)"
    and "\<forall>m \<in> set items. getitem m (KStr ''sid'') = Inr (sid m)"
  shows "\<exists>mItem. DeletePartnerItem partner = Inr [update_pid ''partner'' pid ''$set'' ''item'' mItem]
    \<and> vpath [KStr ''itemdata'', KStr ''5''] mItem = Some (PList (filter (\<lambda>m. \<not> IsDelete (sid m)) items))
    \<and> (\<forall>k. knorm k \<noteq> knorm (KStr ''5'') \<longrightarrow>
         vpath [KStr ''itemdata'', k] mItem = vpath [KStr ''item'', KStr ''itemdata'', k] partner)"
proof -
  from assms(3) obtain mi it where p: "dget d (KStr ''item'') = Some (PDict mi)"
    "dget mi (KStr ''itemdata'') = Some (PDict it)" "dget it (KStr ''5'') = Some (PList items)"
    by (auto simp: assms(1) vpath_2 split: option.splits)
  show ?thesis
    using delete_items_filter [OF assms(4)]
    by (auto simp: DeletePartnerItem_def assms(1,2) p dhas_simps simp del: rbind_eq_Inr)
qed

definition partner_example :: pyval where
  "partner_example = PDict [(KStr ''pid'', PInt 1), (KStr ''item'', PDict [(KStr ''itemdata'', PDict
     [(KStr ''5'', PList [PDict [(KStr ''sid'', PInt 21051)], PDict [(KStr ''sid'', PInt 7)]])])])]"

lemma DeletePartnerItem_command_witness:
  "\<exists>mItem. DeletePartnerItem partner_example = Inr [update_pid ''partner'' (PInt 1) ''$set'' ''item'' mItem]
    \<and> vpath [KStr ''itemdata'', KStr ''5''] mItem = Some (PList (filter (\<lambda>m. \<not> IsDelete (case m of
          PDict ((k, v) # _) \<Rightarrow> v | _ \<Rightarrow> PNone))
        [PDict [(KStr ''sid'', PInt 21051)], PDict [(KStr ''sid'', PInt 7)]]))
    \<and> (\<forall>k. knorm k \<noteq> knorm (KStr ''5'') \<longrightarrow>
         vpath [KStr ''itemdata'', k] mItem = vpath [KStr ''item'', KStr ''itemdata'', k] partner_example)"
  by (rule DeletePartnerItem_command [OF partner_example_def])
    (simp_all add: is_ascii_def partner_example_def)

section \<open>Coins\<close>

text \<open>
  A player with a positive number of colour coins gets ten gold coins for each, and keeps no
  colour coin; the profile is otherwise written back as it was read, and one log entry is added
  with the two old numbers and the new one. A player with none is not touched.
\<close>

theorem FixColorCoin_exchange:
  assumes "offline = PDict d" and "dget d (KStr ''pid'') = Some pid"
    and "dget d (KStr ''profile_info'') = Some saved" and "AfterLoad saved = Inr (PDict p)"
    and "dget p (KStr ''color_coin'') = Some (PInt c)" and "int_or_none (dget p (KStr ''goldcoin''))"
  shows "if c \<le> 0 then FixColorCoin sTable offline = Inr [] else (\<exists>p' log.
      FixColorCoin sTable offline
        = Inr [update_pid ''offline'' pid ''$set'' ''profile_info'' (BeforeSave (PDict p')),
            InsertOne sTable ''offline'' (PDict log)]
      \<and> dget p' (KStr ''color_coin'') = Some (PInt 0)
      \<and> dget p' (KStr ''goldcoin'') = Some (PInt (as_int (dget p (KStr ''goldcoin'')) + c * 10))
      \<and> (\<forall>k. knorm k \<notin> knorm ` {KStr ''color_coin'', KStr ''goldcoin''} \<longrightarrow> dget p' k = dget p k)
      \<and> dget log (KStr ''oldcolorcoin'') = Some (PInt c)
      \<and> dget log (KStr ''oldgoldcoin'') = Some (PInt (as_int (dget p (KStr ''goldcoin''))))
      \<and> dget log (KStr ''goldcoin'') = dget p' (KStr ''goldcoin''))"
proof -
  have "FixColorCoin sTable offline = (if c \<le> 0 then Inr [] else
      Inr [update_pid ''offline'' pid ''$set'' ''profile_info'' (BeforeSave (PDict
          (dput (dput p (KStr ''color_coin'') (PInt 0)) (KStr ''goldcoin'')
            (PInt (as_int (dget p (KStr ''goldcoin'')) + c * 10))))),
        InsertOne sTable ''offline'' (PDict [(KStr ''name'', PStr ''parnter_info''), (KStr ''pid'', pid),
         (KStr ''oldcolorcoin'', PInt c), (KStr ''colorcoin'', PInt 0),
         (KStr ''oldgoldcoin'', PInt (as_int (dget p (KStr ''goldcoin'')))),
         (KStr ''goldcoin'', PInt (as_int (dget p (KStr ''goldcoin'')) + c * 10))])])"
    using assms(5,6)
    by (auto simp: FixColorCoin_def assms(1-4) dhas_simps Let_def py_or_def py_lt_def py_mul_def py_add_def
        dest!: or_noneE simp del: rbind_eq_Inr)
  then show ?thesis by (auto simp: is_ascii_def)
qed

definition profile_example :: "(pykey \<times> pyval) list" where
  "profile_example = [(KStr ''color_coin'', PInt 5), (KStr ''goldcoin'', PInt 7)]"

lemma FixColorCoin_exchange_witness:
  "if (5::int) \<le> 0 then FixColorCoin ''fixdata201801''
      (PDict [(KStr ''pid'', PInt 1), (KStr ''profile_info'', PDict profile_example)]) = Inr []
    else (\<exists>p' log.
      FixColorCoin ''fixdata201801'' (PDict [(KStr ''pid'', PInt 1), (KStr ''profile_info'', PDict profile_example)])
        = Inr [update_pid ''offline'' (PInt 1) ''$set'' ''profile_info'' (BeforeSave (PDict p')),
            InsertOne ''fixdata201801'' ''offline'' (PDict log)]
      \<and> dget p' (KStr ''color_coin'') = Some (PInt 0)
      \<and> dget p' (KStr ''goldcoin'') = Some (PInt (as_int (dget profile_example (KStr ''goldcoin'')) + 5 * 10))
      \<and> (\<forall>k. knorm k \<notin> knorm ` {KStr ''color_coin'', KStr ''goldcoin''} \<longrightarrow> dget p' k = dget profile_example k)
      \<and> dget log (KStr ''oldcolorcoin'') = Some (PInt 5)
      \<and> dget log (KStr ''oldgoldcoin'') = Some (PInt (as_int (dget profile_example (KStr ''goldcoin''))))
      \<and> dget log (KStr ''goldcoin'') = dget p' (KStr ''goldcoin''))"
  by (rule FixColorCoin_exchange [OF refl, of _ _ "PDict profile_example"])
    (simp_all add: profile_example_def is_ascii_def AfterLoad.simps meta_key_def)

section \<open>Rune plans\<close>

text \<open>A piece of equipment the script leaves alone.\<close>

definition fuwen_done :: "pyval \<Rightarrow> bool" where
  "fuwen_done m \<longleftrightarrow> (\<exists>d e. m = PDict d \<and> dhas d (KStr ''fuwen_plan'')
     \<and> dget d (KStr ''data'') = Some (PDict e) \<and> dhas e (KStr ''fuwen_plan''))"

lemma dput_same: "dget d k = Some v \<Longrightarrow> dput d k v = d"
  by (induction d k v rule: dput.induct) (auto split: if_splits)

lemma fuwen_done_info: "fuwen_done m \<Longrightarrow> fuwen_info g m = Inr (m, False)"
  by (auto simp: fuwen_done_def fuwen_info_def fuwen_plan_def simp del: rbind_eq_Inr)

lemma fuwen_plan_has: "fuwen_plan g m = Inr (m', b) \<Longrightarrow> \<exists>d. m' = PDict d \<and> dhas d (KStr ''fuwen_plan'')"
  by (auto simp: fuwen_plan_def has_key_Inr setitem_Inr dhas_def split: if_splits)

lemma fuwen_info_done:
  assumes "fuwen_info g m = Inr (m', b)"
  shows "fuwen_done m'"
proof -
  from assms obtain m1 b1 data where 1: "fuwen_plan g m = Inr (m1, b1)" "getitem m1 (KStr ''data'') = Inr data"
    and r: "rbind (has_key data (KStr ''fuwen_plan'')) (\<lambda>b. if b then Inr (m1, b1) else
     rbind (setitem data (KStr ''fuwen_plan'') (PInt 1)) (\<lambda>mData.
     rbind (setitem m1 (KStr ''data'') mData) (\<lambda>mInfo. Inr (mInfo, True)))) = Inr (m', b)"
    unfolding fuwen_info_def by auto
  from fuwen_plan_has [OF 1(1)] obtain d where d: "m1 = PDict d" "dhas d (KStr ''fuwen_plan'')" by auto
  with r obtain e where e: "data = PDict e" by (auto simp: has_key_Inr)
  show ?thesis
    using 1(2) r d by (auto simp: e fuwen_done_def dhas_def is_ascii_def split: if_splits)
qed

lemma fuwen_loop:
  assumes "rfold (fuwen_pos g) ps (PDict e, b) = Inr (E', b')" and "distinct ps"
  shows "\<exists>e'. E' = PDict e'
    \<and> (\<forall>p \<in> set ps. \<forall>m. dget e' (KStr (str_of_nat p)) = Some m \<longrightarrow> fuwen_done m)
    \<and> (\<forall>k. k \<notin> str_of_nat ` set ps \<longrightarrow> dget e' (KStr k) = dget e (KStr k))"
  using assms
proof (induction ps arbitrary: e b)
  case (Cons p ps)
  then obtain E1 b1 where 1: "fuwen_pos g p (PDict e, b) = Inr (E1, b1)"
    and 2: "rfold (fuwen_pos g) ps (E1, b1) = Inr (E', b')" by auto
  from 1 obtain e1 where e1: "E1 = PDict e1" "\<And>m. dget e1 (KStr (str_of_nat p)) = Some m \<Longrightarrow> fuwen_done m"
    "\<And>k. k \<noteq> str_of_nat p \<Longrightarrow> dget e1 (KStr k) = dget e (KStr k)"
    by (auto simp: fuwen_pos_def dhas_def knorm_KStr_eq dest: fuwen_info_done simp del: knorm.simps
        split: if_splits)
  from Cons.IH [of e1 b1] 2 Cons.prems(2) obtain e' where e': "E' = PDict e'"
    "\<And>q m. q \<in> set ps \<Longrightarrow> dget e' (KStr (str_of_nat q)) = Some m \<Longrightarrow> fuwen_done m"
    "\<And>k. k \<notin> str_of_nat ` set ps \<Longrightarrow> dget e' (KStr k) = dget e1 (KStr k)" by (auto simp: e1(1))
  have "str_of_nat p \<notin> str_of_nat ` set ps"
    using Cons.prems(2) by auto
  with e' e1 show ?case by auto
qed auto

lemma fuwen_loop_done:
  assumes "\<And>p m. p \<in> set ps \<Longrightarrow> dget e (KStr (str_of_nat p)) = Some m \<Longrightarrow> fuwen_done m"
  shows "rfold (fuwen_pos g) ps (PDict e, b) = Inr (PDict e, b)"
proof -
  have "fuwen_pos g p (PDict e, b) = Inr (PDict e, b)" if "p \<in> set ps" for p
    using assms [OF that]
    by (cases "dget e (KStr (str_of_nat p))")
      (simp_all add: fuwen_pos_def dhas_def fuwen_done_info dput_same del: rbind_eq_Inr knorm.simps)
  then show ?thesis by (induction ps) auto
qed

text \<open>
  C11: the repair of the rune plans is done once: when the script sends an update for a player, the
  update writes the field \<open>item_info\<close> of that player, and on the player with this field the script
  sends nothing.
\<close>

theorem FixEquipFuWen_idempotent:
  assumes "FixEquipFuWen player = Inr cs" and "cs \<noteq> []"
  shows "\<exists>iPid mItem player'. cs = [update_pid ''player'' iPid ''$set'' ''item_info'' mItem]
    \<and> setitem player (KStr ''item_info'') mItem = Inr player' \<and> FixEquipFuWen player' = Inr []"
proof -
  from assms(1,2) obtain d pid bi g ii E E' where
    p: "player = PDict d" "dget d (KStr ''item_info'') = Some (PDict ii)" "dget d (KStr ''pid'') = Some pid"
      "dget d (KStr ''base_info'') = Some bi" "getitem bi (KStr ''grade'') = Inr g"
      "dget ii (KStr ''equip'') = Some E"
    and r: "rfold (fuwen_pos g) [1..<7] (E, False) = Inr (E', True)"
    and cs: "cs = [update_pid ''player'' pid ''$set'' ''item_info'' (PDict (dput ii (KStr ''equip'') E'))]"
    unfolding FixEquipFuWen_def by (auto simp: has_key_Inr getitem_Inr setitem_Inr split: if_splits)
  have "\<exists>e. E = PDict e"
    using r by (cases E) (auto simp: upt_rec fuwen_pos_def)
  then obtain e where e: "E = PDict e" ..
  from fuwen_loop [OF r [unfolded e]] obtain e' where e': "E' = PDict e'"
    "\<And>p m. p \<in> set [1..<7] \<Longrightarrow> dget e' (KStr (str_of_nat p)) = Some m \<Longrightarrow> fuwen_done m" by auto
  then have "rfold (fuwen_pos g) [1..<7] (E', False) = Inr (E', False)"
    by (simp only: e'(1)) (rule fuwen_loop_done, blast)
  then have "FixEquipFuWen (PDict (dput d (KStr ''item_info'') (PDict (dput ii (KStr ''equip'') E')))) = Inr []"
    by (simp add: p FixEquipFuWen_def dhas_simps is_ascii_def del: rbind_eq_Inr)
  then show ?thesis by (auto simp: cs p(1))
qed

definition fuwen_example :: pyval where
  "fuwen_example = PDict [(KStr ''pid'', PInt 1), (KStr ''base_info'', PDict [(KStr ''grade'', PInt 30)]),
     (KStr ''item_info'', PDict [(KStr ''equip'', PDict [(KStr ''2'', PDict
        [(KStr ''fuwen'', PInt 9), (KStr ''data'', PDict [])])])])]"

lemma FixEquipFuWen_idempotent_witness:
  "\<exists>iPid mItem player'. [update_pid ''player'' (PInt 1) ''$set'' ''item_info'' (PDict [(KStr ''equip'', PDict [(KStr ''2'', PDict
        [(KStr ''fuwen'', PInt 9), (KStr ''data'', PDict [(KStr ''fuwen_plan'', PInt 1)]),
         (KStr ''fuwen_plan'', PDict [(KStr ''1'', PDict [(KStr ''fuwen'', PInt 9)]),
           (KStr ''2'', PDict [(KStr ''fuwen'', PInt 9)])])])])])]
       = [update_pid ''player'' iPid ''$set'' ''item_info'' mItem]
    \<and> setitem fuwen_example (KStr ''item_info'') mItem = Inr player' \<and> FixEquipFuWen player' = Inr []"
proof (rule FixEquipFuWen_idempotent)
  have u: "[1..<7] = [1, 2, 3, 4, 5, 6::nat]" by (simp add: upt_rec)
  show "FixEquipFuWen fuwen_example = Inr [update_pid ''player'' (PInt 1) ''$set'' ''item_info''
      (PDict [(KStr ''equip'', PDict [(KStr ''2'', PDict
        [(KStr ''fuwen'', PInt 9), (KStr ''data'', PDict [(KStr ''fuwen_plan'', PInt 1)]),
         (KStr ''fuwen_plan'', PDict [(KStr ''1'', PDict [(KStr ''fuwen'', PInt 9)]),
           (KStr ''2'', PDict [(KStr ''fuwen'', PInt 9)])])])])])]"
    unfolding FixEquipFuWen_def u
    by (simp add: fuwen_example_def fuwen_pos_def fuwen_info_def fuwen_plan_def is_ascii_def py_lt_def dhas_def
        str_of_nat_eval digit_char_def del: rbind_eq_Inr)
qed simp

section \<open>Merged items\<close>

definition item_sid :: "pyval \<Rightarrow> int" where
  "item_sid m = as_int (vpath [KStr ''sid''] m)"

definition item_amount :: "pyval \<Rightarrow> int" where
  "item_amount m = as_int (vpath [KStr ''amount''] m)"

abbreviation merged_item :: "pyval \<Rightarrow> bool" where
  "merged_item m \<equiv> IsMerge (PInt (item_sid m))"

text \<open>The amount of one shape in a list of items.\<close>

definition amount_of :: "int \<Rightarrow> pyval list \<Rightarrow> int" where
  "amount_of i xs = sum_list (map item_amount (filter (\<lambda>m. item_sid m = i) xs))"

text \<open>An item with a number as its shape and a number as its amount; one the script can log.\<close>

definition item_ok :: "pyval \<Rightarrow> bool" where
  "item_ok m \<longleftrightarrow> (\<exists>d i a. m = PDict d \<and> dget d (KStr ''sid'') = Some (PInt i)
     \<and> dget d (KStr ''amount'') = Some (PInt a))"

definition item_logged :: "pyval \<Rightarrow> bool" where
  "item_logged m \<longleftrightarrow> item_ok m \<and> item_amount m \<noteq> 0 \<and> vpath [KStr ''data'', KStr ''TraceNo''] m \<noteq> None"

definition exp_inv :: "pyval list \<Rightarrow> exp_equip \<Rightarrow> bool" where
  "exp_inv xs st \<longleftrightarrow>
     ee_datas st = filter (\<lambda>m. \<not> merged_item m) xs
     \<and> distinct (dkeys (ee_record st))
     \<and> (\<forall>(k, m) \<in> set (ee_record st). k = KInt (item_sid m) \<and> item_ok m \<and> merged_item m)
     \<and> (\<forall>i. IsMerge (PInt i) \<longrightarrow>
          amount_of i xs = (case dget (ee_record st) (KInt i) of None \<Rightarrow> 0 | Some m \<Rightarrow> item_amount m))
     \<and> length (ee_logs st) + length (ee_record st) = length (filter merged_item xs)"

lemma dput_entry_mem: "(k', v') \<in> set (dput d k v) \<Longrightarrow>
    (k', v') \<in> set d \<or> v' = v \<and> knorm k' = knorm k \<and> (k' = k \<or> k' \<in> fst ` set d)"
  by (induction d k v rule: dput.induct) (auto split: if_splits)

lemma length_dput: "length (dput d k v) = (if dhas d k then length d else Suc (length d))"
  by (induction d k v rule: dput.induct) (auto simp: dhas_def)

lemma amount_of_snoc: "amount_of i (xs @ [m]) = amount_of i xs + (if item_sid m = i then item_amount m else 0)"
  by (simp add: amount_of_def)

lemma exp_step_inv:
  assumes "exp_inv xs st" and "item_logged m"
  shows "\<exists>st'. exp_step pid m st = Inr st' \<and> exp_inv (xs @ [m]) st'"
proof -
  from assms(2) obtain d i a e tn where m: "m = PDict d" "dget d (KStr ''sid'') = Some (PInt i)"
    "dget d (KStr ''amount'') = Some (PInt a)" "dget d (KStr ''data'') = Some (PDict e)"
    "dget e (KStr ''TraceNo'') = Some tn" "a \<noteq> 0"
    by (auto simp: item_logged_def item_ok_def item_amount_def vpath_2 split: option.splits)
  have sid: "item_sid m = i" and am: "item_amount m = a" and ok: "item_ok m"
    using m by (auto simp: item_sid_def item_amount_def item_ok_def)
  note inv = assms(1) [unfolded exp_inv_def]
  let ?r = "ee_record st"
  show ?thesis
  proof (cases "IsMerge (PInt i)")
    case False
    then show ?thesis using inv m sid by (auto simp: exp_step_def exp_inv_def amount_of_snoc)
  next
    case True
    show ?thesis
    proof (cases "dget ?r (KInt i)")
      case None
      have "exp_step pid m st = Inr (st\<lparr>ee_record := dput ?r (KInt i) m\<rparr>)"
        using m True None by (simp add: exp_step_def del: rbind_eq_Inr)
      moreover have "exp_inv (xs @ [m]) (st\<lparr>ee_record := dput ?r (KInt i) m\<rparr>)"
        using inv True sid am ok None
        by (auto simp: exp_inv_def amount_of_snoc distinct_dput length_dput dhas_simps dest!: dput_entry_mem)
      ultimately show ?thesis by blast
    next
      case (Some m0)
      then obtain k0 where k0: "(k0, m0) \<in> set ?r" "knorm k0 = knorm (KInt i)" using dget_SomeD by fast
      with inv have "k0 = KInt (item_sid m0)" "item_ok m0" by auto
      with k0(2) obtain d0 a0 where m0: "m0 = PDict d0" "dget d0 (KStr ''sid'') = Some (PInt i)"
        "dget d0 (KStr ''amount'') = Some (PInt a0)" by (auto simp: item_ok_def item_sid_def)
      define m1 where "m1 = PDict (dput d0 (KStr ''amount'') (PInt (a0 + a)))"
      define lg where "lg = PDict [(KStr ''sid'', PInt i), (KStr ''pid'', pid), (KStr ''amount'', PInt a), (KStr ''TraceNo'', tn)]"
      have m1: "item_sid m1 = i" "item_amount m1 = a0 + a" "item_ok m1" "item_amount m0 = a0"
        using m0 by (auto simp: m1_def item_sid_def item_amount_def item_ok_def is_ascii_def)
      let ?s = "st\<lparr>ee_record := dput ?r (KInt i) m1, ee_logs := ee_logs st @ [lg]\<rparr>"
      have "exp_step pid m st = Inr ?s"
        using m m0 True Some
        by (cases "a0 = 0") (simp_all add: exp_step_def py_or_def py_add_def m1_def lg_def del: rbind_eq_Inr)
      moreover have "exp_inv (xs @ [m]) ?s"
        using inv True sid am m1 Some k0
        by (auto simp: exp_inv_def amount_of_snoc distinct_dput length_dput dhas_simps dest!: dput_entry_mem)
      ultimately show ?thesis by blast
    qed
  qed
qed

lemma exp_loop:
  "\<forall>m \<in> set xs. item_logged m \<Longrightarrow>
   \<exists>st. rfold (exp_step pid) xs \<lparr>ee_datas = [], ee_record = [], ee_logs = []\<rparr> = Inr st \<and> exp_inv xs st"
proof (induction xs rule: rev_induct)
  case Nil
  show ?case by (simp add: exp_inv_def amount_of_def)
next
  case (snoc m xs)
  then obtain st where st: "rfold (exp_step pid) xs \<lparr>ee_datas = [], ee_record = [], ee_logs = []\<rparr> = Inr st"
    "exp_inv xs st" by auto
  from exp_step_inv [OF st(2), of m pid] snoc.prems obtain st' where
    "exp_step pid m st = Inr st'" "exp_inv (xs @ [m]) st'" by auto
  with st(1) show ?case by (simp add: rfold_append del: rbind_eq_Inr)
qed

text \<open>A record holds every shape once, so its amount is that of the entry.\<close>

lemma record_filter:
  assumes "distinct (dkeys r)" and "\<forall>(k, m) \<in> set r. k = KInt (item_sid m)"
  shows "filter (\<lambda>m. item_sid m = i) (map snd r) = (case dget r (KInt i) of None \<Rightarrow> [] | Some m \<Rightarrow> [m])"
  using assms
proof (induction r)
  case (Cons km r)
  obtain k m where km: "km = (k, m)" by (cases km)
  then have k: "k = KInt (item_sid m)" using Cons.prems by auto
  show ?case
  proof (cases "item_sid m = i")
    case True
    then have "dget r (KInt i) = None" using Cons.prems(1) by (simp add: km k dget_None_iff)
    with Cons True show ?thesis by (simp add: km k)
  next
    case False
    with Cons show ?thesis by (simp add: km k)
  qed
qed simp

lemma exp_inv_result:
  assumes "exp_inv xs st" and "ys = ee_datas st @ map snd (ee_record st)"
  shows "filter (\<lambda>m. \<not> merged_item m) ys = filter (\<lambda>m. \<not> merged_item m) xs
    \<and> (\<forall>i. IsMerge (PInt i) \<longrightarrow> amount_of i ys = amount_of i xs \<and> length (filter (\<lambda>m. item_sid m = i) ys) \<le> 1)
    \<and> length (ee_logs st) + length ys = length xs"
proof -
  note inv = assms(1) [unfolded exp_inv_def]
  have f: "filter (\<lambda>m. \<not> merged_item m) (map snd (ee_record st)) = []"
    using inv by (auto simp: filter_empty_conv)
  have one: "filter (\<lambda>m. item_sid m = i) ys = (case dget (ee_record st) (KInt i) of None \<Rightarrow> [] | Some m \<Rightarrow> [m])"
    if "IsMerge (PInt i)" for i
  proof -
    have "filter (\<lambda>m. item_sid m = i) (ee_datas st) = []" using inv that by (auto simp: filter_empty_conv)
    moreover have "filter (\<lambda>m. item_sid m = i) (map snd (ee_record st))
        = (case dget (ee_record st) (KInt i) of None \<Rightarrow> [] | Some m \<Rightarrow> [m])"
      using inv by (intro record_filter) auto
    ultimately show ?thesis by (simp add: assms(2))
  qed
  have "length (filter merged_item xs) + length (filter (\<lambda>m. \<not> merged_item m) xs) = length xs"
    by (rule sum_length_filter_compl)
  with inv have "length (ee_logs st) + length ys = length xs" by (simp add: assms(2))
  moreover have "amount_of i ys = amount_of i xs" if "IsMerge (PInt i)" for i
    using inv one [OF that] that by (simp add: amount_of_def split: option.splits)
  ultimately show ?thesis using inv f one by (auto simp: assms(2) split: option.splits)
qed

text \<open>
  C2: the merge of the experience items. In the container written back, every merged shape occurs
  at most once and has the total amount the items of that shape had; the other items are kept in
  their order; and there is one log entry for every item that disappeared.
\<close>

theorem FixPartnerExpEquip_amounts:
  assumes "player = PDict d" and "dget d (KStr ''item_info'') = Some saved" and "dget d (KStr ''pid'') = Some pid"
    and "AfterLoad saved = Inr (PDict p)" and "dget p (KStr ''itemdata'') = Some (PDict t)"
    and "dget t (KStr ''5'') = Some (PList xs)" and "\<forall>m \<in> set xs. item_logged m"
  shows "\<exists>ys logs. FixPartnerExpEquip sTable player
      = Inr (update_pid ''player'' pid ''$set'' ''item_info''
          (BeforeSave (PDict (dput p (KStr ''itemdata'') (PDict (dput t (KStr ''5'') (PList ys))))))
        # (if logs = [] then [] else [InsertMany sTable ''item'' logs]))
    \<and> filter (\<lambda>m. \<not> merged_item m) ys = filter (\<lambda>m. \<not> merged_item m) xs
    \<and> (\<forall>i. IsMerge (PInt i) \<longrightarrow> amount_of i ys = amount_of i xs \<and> length (filter (\<lambda>m. item_sid m = i) ys) \<le> 1)
    \<and> length logs + length ys = length xs"
proof -
  from exp_loop [OF assms(7), of pid] obtain st where
    st: "rfold (exp_step pid) xs \<lparr>ee_datas = [], ee_record = [], ee_logs = []\<rparr> = Inr st" "exp_inv xs st" by auto
  have "FixPartnerExpEquip sTable player
      = Inr (update_pid ''player'' pid ''$set'' ''item_info''
          (BeforeSave (PDict (dput p (KStr ''itemdata'') (PDict (dput t (KStr ''5'')
            (PList (ee_datas st @ map snd (ee_record st))))))))
        # (if ee_logs st = [] then [] else [InsertMany sTable ''item'' (ee_logs st)]))"
    by (simp add: FixPartnerExpEquip_def assms(1-6) st(1) dhas_simps del: rbind_eq_Inr)
  with exp_inv_result [OF st(2) refl] show ?thesis by blast
qed

definition exp_item :: "int \<Rightarrow> int \<Rightarrow> pyval" where
  "exp_item i a = PDict [(KStr ''sid'', PInt i), (KStr ''amount'', PInt a),
     (KStr ''data'', PDict [(KStr ''TraceNo'', PInt 77)])]"

lemma FixPartnerExpEquip_amounts_witness:
  "\<exists>ys logs. FixPartnerExpEquip ''fixdata201801'' (PDict [(KStr ''pid'', PInt 1), (KStr ''item_info'',
        PDict [(KStr ''itemdata'', PDict [(KStr ''5'', PList [exp_item 26911 3, exp_item 26911 4])])])])
      = Inr (update_pid ''player'' (PInt 1) ''$set'' ''item_info''
          (BeforeSave (PDict (dput [(KStr ''itemdata'', PDict [(KStr ''5'', PList [exp_item 26911 3, exp_item 26911 4])])]
             (KStr ''itemdata'') (PDict (dput [(KStr ''5'', PList [exp_item 26911 3, exp_item 26911 4])]
               (KStr ''5'') (PList ys))))))
        # (if logs = [] then [] else [InsertMany ''fixdata201801'' ''item'' logs]))
    \<and> filter (\<lambda>m. \<not> merged_item m) ys = filter (\<lambda>m. \<not> merged_item m) [exp_item 26911 3, exp_item 26911 4]
    \<and> (\<forall>i. IsMerge (PInt i) \<longrightarrow> amount_of i ys = amount_of i [exp_item 26911 3, exp_item 26911 4]
         \<and> length (filter (\<lambda>m. item_sid m = i) ys) \<le> 1)
    \<and> length logs + length ys = length [exp_item 26911 3, exp_item 26911 4]"
  by (rule FixPartnerExpEquip_amounts [OF refl, of _ "PDict [(KStr ''itemdata'',
          PDict [(KStr ''5'', PList [exp_item 26911 3, exp_item 26911 4])])]"])
    (simp_all add: is_ascii_def AfterLoad.simps meta_key_def exp_item_def item_logged_def item_ok_def item_amount_def)

section \<open>Merged partners\<close>

definition baozi_type :: "pyval \<Rightarrow> bool" where
  "baozi_type m \<longleftrightarrow> vpath [KStr ''partner_type''] m = Some (PInt 1754)"

text \<open>A partner with a type, a trace number, and a status and an amount that are numbers.\<close>

definition partner_ok :: "pyval \<Rightarrow> bool" where
  "partner_ok m \<longleftrightarrow> (\<exists>d ty. m = PDict d \<and> dget d (KStr ''partner_type'') = Some (PInt ty)
     \<and> dhas d (KStr ''traceno'') \<and> int_or_none (dget d (KStr ''status''))
     \<and> (\<exists>a. dget d (KStr ''amount'') = Some (PInt a) \<and> 0 < a \<or> dget d (KStr ''amount'') = None))"

definition partner_amount :: "pyval \<Rightarrow> int" where
  "partner_amount m = (case vpath [KStr ''amount''] m of Some (PInt a) \<Rightarrow> a | _ \<Rightarrow> 1)"

text \<open>
  After the partners \<open>xs\<close>: the others are kept, and the merged partner has the amount of the
  first one plus one for each further one, with the bits 3 and 4 of its status cleared.
\<close>

definition baozi_inv :: "pyval list \<Rightarrow> baozi \<Rightarrow> bool" where
  "baozi_inv xs st \<longleftrightarrow>
     bz_datas st = filter (\<lambda>m. \<not> baozi_type m) xs
     \<and> (case filter baozi_type xs of
          [] \<Rightarrow> bz_partner st = PNone \<and> bz_logs st = []
        | b # bs \<Rightarrow> (\<exists>d s. bz_partner st = PDict d \<and> d \<noteq> []
            \<and> dget d (KStr ''amount'') = Some (PInt (partner_amount b + int (length bs)))
            \<and> 0 < partner_amount b
            \<and> dget d (KStr ''status'') = Some (PInt s) \<and> \<not> bit s 3 \<and> \<not> bit s 4
            \<and> dget d (KStr ''name'') = Some baozi_name
            \<and> dget d (KStr ''traceno'') = vpath [KStr ''traceno''] b)
            \<and> length (bz_logs st) = length bs)"

lemma baozi_status_run:
  assumes "int_or_none (dget d (KStr ''status''))"
  shows "\<exists>s. baozi_status (PDict d) = Inr (PDict (dput d (KStr ''status'') (PInt s))) \<and> \<not> bit s 3 \<and> \<not> bit s 4"
  using assms
  by (auto simp: baozi_status_def dhas_simps py_and_def bit_and_iff bit_not_iff bit_push_bit_iff bit_1_iff
      dest!: or_noneE simp del: rbind_eq_Inr)

lemma partner_okE:
  assumes "partner_ok m"
  obtains d ty tn where "m = PDict d" and "dget d (KStr ''partner_type'') = Some (PInt ty)"
    and "dget d (KStr ''traceno'') = Some tn" and "int_or_none (dget d (KStr ''status''))"
    and "0 < partner_amount m" and "baozi_type m \<longleftrightarrow> ty = 1754"
    and "dget d (KStr ''amount'') = Some (PInt (partner_amount m))
      \<or> dget d (KStr ''amount'') = None \<and> partner_amount m = 1"
proof -
  from assms obtain d ty tn where "m = PDict d" "dget d (KStr ''partner_type'') = Some (PInt ty)"
    "dget d (KStr ''traceno'') = Some tn" "int_or_none (dget d (KStr ''status''))"
    "\<exists>a. dget d (KStr ''amount'') = Some (PInt a) \<and> 0 < a \<or> dget d (KStr ''amount'') = None"
    by (auto simp: partner_ok_def dhas_def)
  then show thesis by (intro that) (auto simp: partner_amount_def baozi_type_def)
qed

text \<open>The first of the duplicated partners becomes the one that is kept.\<close>

lemma baozi_step_first:
  assumes inv: "baozi_inv xs st" and m: "partner_ok m" "baozi_type m" and none: "filter baozi_type xs = []"
  shows "\<exists>st'. baozi_step pid m st = Inr st' \<and> baozi_inv (xs @ [m]) st'"
proof -
  from m(1) obtain d ty tn where d: "m = PDict d" "dget d (KStr ''partner_type'') = Some (PInt ty)"
    "dget d (KStr ''traceno'') = Some tn" "int_or_none (dget d (KStr ''status''))" "0 < partner_amount m"
    "baozi_type m \<longleftrightarrow> ty = 1754"
    "dget d (KStr ''amount'') = Some (PInt (partner_amount m)) \<or> dget d (KStr ''amount'') = None \<and> partner_amount m = 1"
    by (rule partner_okE)
  note inv = inv [unfolded baozi_inv_def none list.case]
  let ?d1 = "ensured (dput d (KStr ''name'') baozi_name) (KStr ''amount'') (PInt 1)"
  from d(4) have "int_or_none (dget ?d1 (KStr ''status''))" by (simp add: is_ascii_def)
  from baozi_status_run [OF this] obtain s where s:
    "baozi_status (PDict ?d1) = Inr (PDict (dput ?d1 (KStr ''status'') (PInt s)))" "\<not> bit s 3" "\<not> bit s 4" by auto
  let ?st = "st\<lparr>bz_partner := PDict (dput ?d1 (KStr ''status'') (PInt s)), bz_logs := bz_logs st\<rparr>"
  have "py_eq (PInt ty) (PInt 1754)" using m(2) d(6) by simp
  then have "baozi_step pid m st = Inr ?st"
    using d(1,2) inv s(1) by (simp add: baozi_step_def baozi_first_def del: rbind_eq_Inr py_eq.simps)
  moreover have "dput ?d1 (KStr ''status'') (PInt s) \<noteq> []" by (cases ?d1) (auto split: if_splits)
  moreover have "dget ?d1 (KStr ''amount'') = Some (PInt (partner_amount m))"
    using d(7) by (auto simp: is_ascii_def)
  ultimately show ?thesis
    using none inv m(2) s(2,3) d(1,3,5) by (auto simp: baozi_inv_def is_ascii_def)
qed

text \<open>A further one adds one to the amount.\<close>

lemma baozi_step_more:
  assumes inv: "baozi_inv xs st" and m: "partner_ok m" "baozi_type m" and some: "filter baozi_type xs = b # bs"
  shows "\<exists>st'. baozi_step pid m st = Inr st' \<and> baozi_inv (xs @ [m]) st'"
proof -
  from m(1) obtain d ty tn where d: "m = PDict d" "dget d (KStr ''partner_type'') = Some (PInt ty)"
    "dget d (KStr ''traceno'') = Some tn" "int_or_none (dget d (KStr ''status''))" "0 < partner_amount m"
    "baozi_type m \<longleftrightarrow> ty = 1754"
    "dget d (KStr ''amount'') = Some (PInt (partner_amount m)) \<or> dget d (KStr ''amount'') = None \<and> partner_amount m = 1"
    by (rule partner_okE)
  note inv = inv [unfolded baozi_inv_def some list.case]
  from inv obtain e s0 where e: "bz_partner st = PDict e" "e \<noteq> []"
    "dget e (KStr ''amount'') = Some (PInt (partner_amount b + int (length bs)))" "0 < partner_amount b"
    "dget e (KStr ''status'') = Some (PInt s0)"
    "dget e (KStr ''name'') = Some baozi_name" "dget e (KStr ''traceno'') = vpath [KStr ''traceno''] b"
    "length (bz_logs st) = length bs"
    by auto
  let ?e1 = "dput e (KStr ''amount'') (PInt (partner_amount b + int (length bs) + 1))"
  from e(5) have "int_or_none (dget ?e1 (KStr ''status''))" by (simp add: is_ascii_def)
  from baozi_status_run [OF this] obtain s where s:
    "baozi_status (PDict ?e1) = Inr (PDict (dput ?e1 (KStr ''status'') (PInt s)))" "\<not> bit s 3" "\<not> bit s 4" by auto
  from e d(3) obtain lg where lg: "baozi_more pid m (PDict e) = Inr (PDict ?e1, lg)"
    by (auto simp: baozi_more_def py_or_def py_add_def d(1) simp del: rbind_eq_Inr)
  let ?st = "st\<lparr>bz_partner := PDict (dput ?e1 (KStr ''status'') (PInt s)), bz_logs := bz_logs st @ [lg]\<rparr>"
  have "py_eq (PInt ty) (PInt 1754)" using m(2) d(6) by simp
  then have "baozi_step pid m st = Inr ?st"
    using d(1,2) e(1,2) s(1) lg by (simp add: baozi_step_def del: rbind_eq_Inr py_eq.simps)
  moreover have "dput ?e1 (KStr ''status'') (PInt s) \<noteq> []" using e(2) by (cases e) (auto split: if_splits)
  ultimately show ?thesis using some inv m(2) s(2,3) e by (auto simp: baozi_inv_def is_ascii_def)
qed

lemma baozi_step_inv:
  assumes "baozi_inv xs st" and "partner_ok m"
  shows "\<exists>st'. baozi_step pid m st = Inr st' \<and> baozi_inv (xs @ [m]) st'"
proof (cases "baozi_type m")
  case True
  then show ?thesis using baozi_step_first [OF assms] baozi_step_more [OF assms]
    by (cases "filter baozi_type xs") blast+
next
  case False
  from assms(2) obtain d ty where "m = PDict d" "dget d (KStr ''partner_type'') = Some (PInt ty)" "ty \<noteq> 1754"
    using False by (metis partner_okE)
  then have "baozi_step pid m st = Inr (st\<lparr>bz_datas := bz_datas st @ [m]\<rparr>)" by (simp add: baozi_step_def)
  with False assms(1) show ?thesis by (cases "filter baozi_type xs") (auto simp: baozi_inv_def)
qed

lemma baozi_loop:
  "\<forall>m \<in> set xs. partner_ok m \<Longrightarrow>
   \<exists>st. rfold (baozi_step pid) xs \<lparr>bz_partner = PNone, bz_datas = [], bz_logs = []\<rparr> = Inr st \<and> baozi_inv xs st"
proof (induction xs rule: rev_induct)
  case Nil
  show ?case by (simp add: baozi_inv_def)
next
  case (snoc m xs)
  then obtain st where st: "rfold (baozi_step pid) xs \<lparr>bz_partner = PNone, bz_datas = [], bz_logs = []\<rparr> = Inr st"
    "baozi_inv xs st" by auto
  from baozi_step_inv [OF st(2), of m pid] snoc.prems obtain st' where
    "baozi_step pid m st = Inr st'" "baozi_inv (xs @ [m]) st'" by auto
  with st(1) show ?case by (simp add: rfold_append del: rbind_eq_Inr)
qed

text \<open>
  C12: the repair of the duplicated partners of type 1754. The list written back has the other
  partners in their order, followed by one partner for all those of the type: the first of them,
  with one more in its amount for each further one, a fixed name, and the bits 3 and 4 of its
  status cleared; every further one gives a log entry.
\<close>

theorem FixPartnerBaozi_one:
  assumes "partner = PDict d" and "dget d (KStr ''pid'') = Some pid" and "dget d (KStr ''partner'') = Some (PDict t)"
    and "dget t (KStr ''partner'') = Some saved" and "AfterLoad saved = Inr (PList xs)"
    and "\<forall>m \<in> set xs. partner_ok m" and "filter baozi_type xs = b # bs"
  shows "\<exists>e s logs. FixPartnerBaozi sTable partner
      = Inr (update_pid ''partner'' pid ''$set'' ''partner''
          (PDict (dput t (KStr ''partner'') (BeforeSave (PList (filter (\<lambda>m. \<not> baozi_type m) xs @ [PDict e])))))
        # (if logs = [] then [] else [InsertMany sTable ''partner'' logs]))
    \<and> dget e (KStr ''amount'') = Some (PInt (partner_amount b + int (length bs)))
    \<and> dget e (KStr ''traceno'') = vpath [KStr ''traceno''] b
    \<and> dget e (KStr ''name'') = Some baozi_name
    \<and> dget e (KStr ''status'') = Some (PInt s) \<and> \<not> bit s 3 \<and> \<not> bit s 4
    \<and> length logs = length bs"
proof -
  from baozi_loop [OF assms(6), of pid] obtain st where
    st: "rfold (baozi_step pid) xs \<lparr>bz_partner = PNone, bz_datas = [], bz_logs = []\<rparr> = Inr st" "baozi_inv xs st"
    by auto
  from st(2) assms(7) obtain e s where e: "bz_partner st = PDict e" "e \<noteq> []"
    "bz_datas st = filter (\<lambda>m. \<not> baozi_type m) xs"
    "dget e (KStr ''amount'') = Some (PInt (partner_amount b + int (length bs)))"
    "dget e (KStr ''status'') = Some (PInt s)" "\<not> bit s 3" "\<not> bit s 4"
    "dget e (KStr ''name'') = Some baozi_name" "dget e (KStr ''traceno'') = vpath [KStr ''traceno''] b"
    "length (bz_logs st) = length bs" by (auto simp: baozi_inv_def)
  have "xs \<noteq> []" using assms(7) by auto
  then have "FixPartnerBaozi sTable partner
      = Inr (update_pid ''partner'' pid ''$set'' ''partner''
          (PDict (dput t (KStr ''partner'') (BeforeSave (PList (filter (\<lambda>m. \<not> baozi_type m) xs @ [PDict e])))))
        # (if bz_logs st = [] then [] else [InsertMany sTable ''partner'' (bz_logs st)]))"
    using st(1) e(1-3)
    by (simp add: FixPartnerBaozi_def assms(1-5) dhas_simps py_or_def Let_def del: rbind_eq_Inr)
  with e(4-) show ?thesis by blast
qed

definition baozi_example :: "pyval list" where
  "baozi_example = [PDict [(KStr ''partner_type'', PInt 1754), (KStr ''traceno'', PInt 1)],
     PDict [(KStr ''partner_type'', PInt 1001), (KStr ''traceno'', PInt 2)],
     PDict [(KStr ''partner_type'', PInt 1754), (KStr ''traceno'', PInt 3)]]"

lemma FixPartnerBaozi_one_witness:
  "\<exists>e s logs. FixPartnerBaozi ''fixdata201801''
        (PDict [(KStr ''pid'', PInt 5), (KStr ''partner'', PDict [(KStr ''partner'', PList baozi_example)])])
      = Inr (update_pid ''partner'' (PInt 5) ''$set'' ''partner''
          (PDict (dput [(KStr ''partner'', PList baozi_example)] (KStr ''partner'')
            (BeforeSave (PList (filter (\<lambda>m. \<not> baozi_type m) baozi_example @ [PDict e])))))
        # (if logs = [] then [] else [InsertMany ''fixdata201801'' ''partner'' logs]))
    \<and> dget e (KStr ''amount'') = Some (PInt (partner_amount (hd baozi_example)
        + int (length [PDict [(KStr ''partner_type'', PInt 1754), (KStr ''traceno'', PInt 3)]])))
    \<and> dget e (KStr ''traceno'') = vpath [KStr ''traceno''] (hd baozi_example)
    \<and> dget e (KStr ''name'') = Some baozi_name
    \<and> dget e (KStr ''status'') = Some (PInt s) \<and> \<not> bit s 3 \<and> \<not> bit s 4
    \<and> length logs = length [PDict [(KStr ''partner_type'', PInt 1754), (KStr ''traceno'', PInt 3)]]"
  by (rule FixPartnerBaozi_one [OF refl, of _ _ _ "PList baozi_example"])
    (simp_all add: is_ascii_def AfterLoad.simps baozi_example_def partner_ok_def dhas_def baozi_type_def)

section \<open>The copy with text keys\<close>

text \<open>No integer key in a dictionary, nor in the dictionaries it has as values.\<close>

fun text_keys :: "pyval \<Rightarrow> bool" where
  "text_keys (PDict d) \<longleftrightarrow>
     list_all (\<lambda>(k, v). (case k of KInt _ \<Rightarrow> False | KBool _ \<Rightarrow> False | _ \<Rightarrow> True) \<and> text_keys v) d"
| "text_keys _ \<longleftrightarrow> True"

definition bianli_value :: "pyval \<Rightarrow> pyval res" where
  "bianli_value v = (case v of PDict _ \<Rightarrow> bianli v | _ \<Rightarrow> Inr v)"

lemma bianli_dict:
  "bianli (PDict d) = rbind (rfold (\<lambda>(key, v) mResult. rbind (bianli_key key v) (\<lambda>k.
      rbind (bianli_value v) (\<lambda>w. Inr (dput mResult k w)))) d []) (\<lambda>r. Inr (PDict r))"
  by (subst bianli.simps) (simp add: bianli_value_def)

lemma bianli_key_text:
  "bianli_key key v = Inr k \<Longrightarrow> (case k of KInt _ \<Rightarrow> False | KBool _ \<Rightarrow> False | _ \<Rightarrow> True)"
  by (cases key) (auto simp: bianli_key_def split: if_splits)

lemma bianli_loop:
  assumes "rfold (\<lambda>(key, v) mResult. rbind (bianli_key key v) (\<lambda>k.
      rbind (bianli_value v) (\<lambda>w. Inr (dput mResult k w)))) d acc = Inr r"
    and "rmap (\<lambda>(key, v). bianli_key key v) d = Inr ks" and "distinct (dkeys acc @ map knorm ks)"
  shows "\<exists>ws. r = acc @ zip ks ws \<and> length ws = length ks \<and> list_all2 (\<lambda>(key, v) w. bianli_value v = Inr w) d ws"
  using assms
proof (induction d arbitrary: acc ks)
  case (Cons kv d)
  obtain key v where kv: "kv = (key, v)" by (cases kv)
  from Cons.prems(2) obtain k ks' where k: "bianli_key key v = Inr k" "rmap (\<lambda>(key, v). bianli_key key v) d = Inr ks'"
    "ks = k # ks'" by (auto simp: kv)
  from Cons.prems(1) k(1) obtain w where w: "bianli_value v = Inr w"
    "rfold (\<lambda>(key, v) mResult. rbind (bianli_key key v) (\<lambda>k.
      rbind (bianli_value v) (\<lambda>w. Inr (dput mResult k w)))) d (dput acc k w) = Inr r" by (auto simp: kv)
  from Cons.prems(3) have "dput acc k w = acc @ [(k, w)]"
    by (intro dput_absent) (simp add: k(3) dget_None_iff)
  with Cons.IH [OF w(2) k(2)] Cons.prems(3) obtain ws where
    "r = (acc @ [(k, w)]) @ zip ks' ws" "length ws = length ks'" "list_all2 (\<lambda>(key, v) w. bianli_value v = Inr w) d ws"
    by (auto simp: k(3))
  with w(1) show ?case by (intro exI [of _ "w # ws"]) (simp add: k(3) kv)
qed auto

lemma bianli_text: "bianli m = Inr m' \<Longrightarrow> text_keys m'"
proof (induction m arbitrary: m' rule: bianli.induct)
  case (1 m)
  then obtain d where m: "m = PDict d" by (subst (asm) (2) bianli.simps) (auto split: pyval.splits)
  from 1(2) obtain r where r: "rfold (\<lambda>(key, v) mResult. rbind (bianli_key key v) (\<lambda>k.
      rbind (bianli_value v) (\<lambda>w. Inr (dput mResult k w)))) d [] = Inr r" and m': "m' = PDict r"
    by (auto simp: m bianli_dict)
  have val: "text_keys w" if "(key, v) \<in> set d" "bianli_value v = Inr w" "bianli_key key v = Inr k" for key v w k
    using that(2,3) 1(1) [OF m that(1)] by (cases v) (auto simp: bianli_value_def)
  have "text_keys (PDict r)"
  proof (rule rfold_invariant [OF r, of "\<lambda>r. text_keys (PDict r)"])
    fix kv s t assume kv: "kv \<in> set d" "text_keys (PDict s)"
      and t: "(case kv of (key, v) \<Rightarrow> \<lambda>mResult. rbind (bianli_key key v) (\<lambda>k.
        rbind (bianli_value v) (\<lambda>w. Inr (dput mResult k w)))) s = Inr t"
    obtain key v where e: "kv = (key, v)" by (cases kv)
    from t obtain k w where kw: "bianli_key key v = Inr k" "bianli_value v = Inr w" "t = dput s k w" by (auto simp: e)
    show "text_keys (PDict t)"
      using kv val [OF _ kw(2,1)] bianli_key_text [OF kw(1)] kw
      by (auto simp: e list_all_iff dest!: dput_entry_mem)
  qed simp
  then show ?case by (simp add: m')
qed

text \<open>
  The copy of a dictionary by \<open>bianli\<close> has no integer key at any level of dictionaries, which
  is what BSON demands; and when no two keys get the same text, it has the same entries in the
  same order: a dictionary as its own copy, another value as it was.
\<close>

theorem bianli_copy:
  assumes "bianli (PDict d) = Inr m'" and "rmap (\<lambda>(key, v). bianli_key key v) d = Inr ks"
    and "distinct (map knorm ks)"
  shows "text_keys m' \<and> (\<exists>ws. m' = PDict (zip ks ws) \<and> length ws = length ks
    \<and> list_all2 (\<lambda>(key, v) w. bianli_value v = Inr w) d ws)"
proof -
  from assms(1) obtain r where r: "rfold (\<lambda>(key, v) mResult. rbind (bianli_key key v) (\<lambda>k.
      rbind (bianli_value v) (\<lambda>w. Inr (dput mResult k w)))) d [] = Inr r" "m' = PDict r"
    by (auto simp: bianli_dict)
  with bianli_loop [OF r(1) assms(2)] assms(3) bianli_text [OF assms(1)] show ?thesis by auto
qed

lemma bianli_copy_witness:
  "text_keys (PDict [(KStr ''1'', PDict [(KStr ''2'', PInt 3)])])
    \<and> (\<exists>ws. PDict [(KStr ''1'', PDict [(KStr ''2'', PInt 3)])] = PDict (zip [KStr ''1''] ws)
      \<and> length ws = length [KStr ''1'']
      \<and> list_all2 (\<lambda>(key, v) w. bianli_value v = Inr w) [(KInt 1, PDict [(KInt 2, PInt 3)])] ws)"
  by (rule bianli_copy)
    (simp_all add: bianli_dict bianli_value_def bianli_key_def str_of_int_def str_of_nat_eval digit_char_def)

text \<open>Two keys with the same text: the copy keeps one of the two values.\<close>

lemma bianli_collision:
  "bianli (PDict [(KInt 1, PInt 5), (KUni ''1'', PInt 6)]) = Inr (PDict [(KStr ''1'', PInt 6)])"
  by (simp add: bianli_dict bianli_value_def bianli_key_def str_of_int_def str_of_nat_eval digit_char_def is_ascii_def)

end
