(* ===== verification/HefuCs.thy ===== *)
theory HefuCs
  imports HefuFiles FixBug
begin

text \<open>
  \<open>shell/db/hefu_cs.py\<close>, \<open>hefu_cs_backup.py\<close> and \<open>hefu_cs_recover.py\<close>: moving the roles of a
  server to another one in the central database, writing down where they were, and the way back.
  The documents are those the cursor over \<open>roleinfo\<close> yields; the result is the commands sent.
\<close>

section \<open>Moving the roles\<close>

definition role_update :: "pyval \<Rightarrow> pyval \<Rightarrow> mongo_cmd" where
  "role_update iPid server = update_pid ''roleinfo'' iPid ''$set'' ''server'' server"

definition move_role :: "string \<Rightarrow> string \<Rightarrow> pyval \<Rightarrow> mongo_cmd list res" where
  "move_role from_server to_server data =
     rbind (getitem data (KStr ''server'')) (\<lambda>server.
     if \<not> py_eq server (PStr from_server) then Inr [] else
     rbind (getitem data (KStr ''pid'')) (\<lambda>iPid. Inr [role_update iPid (PStr to_server)]))"

definition CS_StartHefu :: "string \<Rightarrow> string \<Rightarrow> pyval list \<Rightarrow> mongo_cmd list res" where
  "CS_StartHefu from_server to_server = run_script (move_role from_server to_server)"

section \<open>The backup\<close>

text \<open>\<open>"%s:%s" % (data["pid"], from_server)\<close>.\<close>

definition backup_info :: "string \<Rightarrow> pyval \<Rightarrow> string list res" where
  "backup_info from_server data =
     rbind (getitem data (KStr ''server'')) (\<lambda>server.
     if \<not> py_eq server (PStr from_server) then Inr [] else
     rbind (getitem data (KStr ''pid'')) (\<lambda>iPid.
     rbind (str_of iPid) (\<lambda>s. Inr [s @ '':'' @ from_server])))"

text \<open>The text to be written.\<close>

definition backup_text :: "string \<Rightarrow> pyval list \<Rightarrow> string res" where
  "backup_text from_server docs =
     rbind (rmap (backup_info from_server) docs) (\<lambda>ls. Inr (join '','' (concat ls)))"

text \<open>
  The module \<open>os\<close> is not imported by \<open>hefu_cs_backup.py\<close>: \<open>os.environ['HOME']\<close>, evaluated after
  the text is complete, is a \<open>NameError\<close>, and the file is never written.
\<close>

definition BackUpHefu :: "string \<Rightarrow> pyval list \<Rightarrow> fs \<Rightarrow> fs res" where
  "BackUpHefu from_server docs fs = rbind (backup_text from_server docs) (\<lambda>sBack. Inl NameError)"

section \<open>The recovery\<close>

text \<open>\<open>iPid, iFromServer = sInfo.split(":")\<close>.\<close>

definition unpack_info :: "string \<Rightarrow> (string \<times> string) res" where
  "unpack_info sInfo = (case split_on (CHR '':'') sInfo of [a, b] \<Rightarrow> Inr (a, b) | _ \<Rightarrow> Inl ValueError)"

definition parse_backup :: "string \<Rightarrow> (pykey \<times> pyval) list res" where
  "parse_backup sContent =
     rfold (\<lambda>sInfo mPid. rbind (unpack_info sInfo) (\<lambda>(iPid, iFromServer).
       Inr (dput mPid (KStr iPid) (PStr iFromServer)))) (split_on (CHR '','') sContent) []"

definition GetBackCSInfo :: "string \<Rightarrow> fs \<Rightarrow> (pykey \<times> pyval) list res" where
  "GetBackCSInfo home fs = rbind (read_file fs (home @ ''/csback.txt'')) parse_backup"

definition recover_role :: "(pykey \<times> pyval) list \<Rightarrow> pyval \<Rightarrow> mongo_cmd list res" where
  "recover_role mPid data =
     rbind (getitem data (KStr ''pid'')) (\<lambda>iPid.
     rbind (key_of iPid) (\<lambda>k.
     Inr (case dget mPid k of Some iFromServer \<Rightarrow> [role_update iPid iFromServer] | None \<Rightarrow> [])))"

definition CS_RecoverServer :: "string \<Rightarrow> fs \<Rightarrow> pyval list \<Rightarrow> mongo_cmd list res" where
  "CS_RecoverServer home fs docs =
     rbind (GetBackCSInfo home fs) (\<lambda>mPid. run_script (recover_role mPid) docs)"

section \<open>What the scripts send\<close>

definition role_doc :: "pyval \<Rightarrow> bool" where
  "role_doc m \<longleftrightarrow> (\<exists>d. m = PDict d \<and> dhas d (KStr ''server'') \<and> (\<exists>p. dget d (KStr ''pid'') = Some (PInt p)))"

definition role_pid :: "pyval \<Rightarrow> int" where
  "role_pid m = as_int (vpath [KStr ''pid''] m)"

definition on_server :: "string \<Rightarrow> pyval \<Rightarrow> bool" where
  "on_server s m \<longleftrightarrow> (\<exists>v. vpath [KStr ''server''] m = Some v \<and> py_eq v (PStr s))"

lemma concat_map_filter_if: "concat (map (\<lambda>x. if P x then [f x] else []) xs) = map f (filter P xs)"
  by (induction xs) auto

lemma role_docE:
  assumes "role_doc m"
  obtains d v p where "m = PDict d" "dget d (KStr ''server'') = Some v" "dget d (KStr ''pid'') = Some (PInt p)"
    "role_pid m = p"
  using assms by (auto simp: role_doc_def dhas_def role_pid_def)

text \<open>
  \<open>CS_StartHefu\<close> sends, in the order of the cursor, one update for every role of the source
  server, which sets its server, and none for the other roles.
\<close>

theorem CS_StartHefu_roles:
  assumes "\<forall>m \<in> set docs. role_doc m"
  shows "CS_StartHefu from_server to_server docs
    = Inr (map (\<lambda>m. role_update (PInt (role_pid m)) (PStr to_server)) (filter (on_server from_server) docs))"
proof -
  have "move_role from_server to_server m = Inr (if on_server from_server m
      then [role_update (PInt (role_pid m)) (PStr to_server)] else [])" if "m \<in> set docs" for m
  proof -
    from assms that have "role_doc m" by blast
    then show ?thesis by (rule role_docE) (simp add: move_role_def on_server_def del: rbind_eq_Inr py_eq.simps)
  qed
  then have "rmap (move_role from_server to_server) docs = Inr (map (\<lambda>m. if on_server from_server m
      then [role_update (PInt (role_pid m)) (PStr to_server)] else []) docs)"
    by (intro rmap_total)
  then show ?thesis by (simp add: CS_StartHefu_def run_script_def concat_map_filter_if)
qed

definition role_example :: "string \<Rightarrow> int \<Rightarrow> pyval" where
  "role_example s p = PDict [(KStr ''server'', PStr s), (KStr ''pid'', PInt p)]"

lemma role_doc_example [simp]: "role_doc (role_example s p)"
  by (simp add: role_doc_def role_example_def dhas_def is_ascii_def)

lemma CS_StartHefu_roles_witness:
  "CS_StartHefu ''gs1'' ''gs2'' [role_example ''gs1'' 10, role_example ''gs3'' 11]
    = Inr (map (\<lambda>m. role_update (PInt (role_pid m)) (PStr ''gs2''))
        (filter (on_server ''gs1'') [role_example ''gs1'' 10, role_example ''gs3'' 11]))"
  by (rule CS_StartHefu_roles) simp

lemma backup_text_eq:
  assumes "\<forall>m \<in> set docs. role_doc m"
  shows "backup_text s docs
    = Inr (join '','' (map (\<lambda>m. str_of_int (role_pid m) @ '':'' @ s) (filter (on_server s) docs)))"
proof -
  have "backup_info s m = Inr (if on_server s m then [str_of_int (role_pid m) @ '':'' @ s] else [])"
    if "m \<in> set docs" for m
  proof -
    from assms that have "role_doc m" by blast
    then show ?thesis by (rule role_docE) (simp add: backup_info_def on_server_def del: rbind_eq_Inr py_eq.simps)
  qed
  then have "rmap (backup_info s) docs
      = Inr (map (\<lambda>m. if on_server s m then [str_of_int (role_pid m) @ '':'' @ s] else []) docs)"
    by (intro rmap_total)
  then show ?thesis by (simp add: backup_text_def concat_map_filter_if)
qed

lemma parse_infos:
  assumes "\<forall>s \<in> set ss. CHR '':'' \<notin> set s" and "CHR '':'' \<notin> set srv"
  shows "rfold (\<lambda>sInfo mPid. rbind (unpack_info sInfo) (\<lambda>(iPid, iFromServer).
       Inr (dput mPid (KStr iPid) (PStr iFromServer)))) (map (\<lambda>s. s @ '':'' @ srv) ss) m
    = Inr (fold (\<lambda>s m. dput m (KStr s) (PStr srv)) ss m)"
  using assms(1)
proof (induction ss arbitrary: m)
  case (Cons s ss)
  then have "unpack_info (s @ '':'' @ srv) = Inr (s, srv)"
    using assms(2) by (simp add: unpack_info_def split_on_append split_on_simple)
  with Cons show ?case by simp
qed simp

lemma dget_put_strs:
  "dget (fold (\<lambda>s m. dput m (KStr s) v) ss m) (KStr t) = (if t \<in> set ss then Some v else dget m (KStr t))"
  by (induction ss arbitrary: m) (auto simp: knorm_KStr_eq simp del: knorm.simps)

lemma str_of_int_chars: "c \<in> set (str_of_int i) \<Longrightarrow> is_digit c \<or> c = CHR ''-''"
  using str_of_nat_digits by (auto simp: str_of_int_def list_all_iff split: if_splits)

text \<open>
  C15: the text the backup builds is read back by the recovery as the map that has, under the text
  of its number, the server of every role that was on the server, and nothing else, when the name
  of the server has neither a colon nor a comma and it has a role.
\<close>

theorem backup_parsed:
  assumes "\<forall>m \<in> set docs. role_doc m" and "list_ex (on_server s) docs"
    and "CHR '':'' \<notin> set s" and "CHR '','' \<notin> set s"
  shows "\<exists>t mPid. backup_text s docs = Inr t \<and> parse_backup t = Inr mPid
    \<and> (\<forall>k. dget mPid (KStr k) = (if \<exists>m \<in> set docs. on_server s m \<and> k = str_of_int (role_pid m)
        then Some (PStr s) else None))"
proof -
  let ?ss = "map (\<lambda>m. str_of_int (role_pid m)) (filter (on_server s) docs)"
  have ss: "CHR '':'' \<notin> set x \<and> CHR '','' \<notin> set x" if "x \<in> set ?ss" for x
    using that by (auto simp: is_digit_def dest!: str_of_int_chars)
  have ne: "?ss \<noteq> []" using assms(2) by (auto simp: filter_empty_conv list_ex_iff)
  have "split_on (CHR '','') (join '','' (map (\<lambda>x. x @ '':'' @ s) ?ss)) = map (\<lambda>x. x @ '':'' @ s) ?ss"
    using ne ss assms(4) by (intro split_join) auto
  then have "parse_backup (join '','' (map (\<lambda>x. x @ '':'' @ s) ?ss))
      = Inr (fold (\<lambda>x m. dput m (KStr x) (PStr s)) ?ss [])"
    unfolding parse_backup_def using parse_infos [of ?ss s "[]"] ss assms(3) by simp
  moreover have "backup_text s docs = Inr (join '','' (map (\<lambda>x. x @ '':'' @ s) ?ss))"
    using backup_text_eq [OF assms(1)] by (simp add: o_def)
  ultimately show ?thesis by (auto simp: dget_put_strs)
qed

lemma backup_parsed_witness:
  "\<exists>t mPid. backup_text ''gs1'' [role_example ''gs1'' 10, role_example ''gs3'' 11] = Inr t
    \<and> parse_backup t = Inr mPid
    \<and> (\<forall>k. dget mPid (KStr k) = (if \<exists>m \<in> set [role_example ''gs1'' 10, role_example ''gs3'' 11].
          on_server ''gs1'' m \<and> k = str_of_int (role_pid m) then Some (PStr ''gs1'') else None))"
proof (rule backup_parsed)
  show "list_ex (on_server ''gs1'') [role_example ''gs1'' 10, role_example ''gs3'' 11]"
    by (simp add: on_server_def role_example_def is_ascii_def)
qed simp_all

text \<open>The keys of the map read back are text, so no number is among them.\<close>

lemma parse_backup_keys:
  assumes "parse_backup t = Inr mPid"
  shows "dget mPid (KInt p) = None"
  using assms unfolding parse_backup_def
proof (rule rfold_invariant [of _ _ _ _ "\<lambda>m. dget m (KInt p) = None"])
  fix x m m' assume "dget m (KInt p) = None" "rbind (unpack_info x) (\<lambda>(iPid, iFromServer).
      Inr (dput m (KStr iPid) (PStr iFromServer))) = Inr m'"
  then show "dget m' (KInt p) = None" by auto
qed simp

text \<open>
  C16: the recovery never sends an update: the backup's numbers are read as text and looked up as
  the numbers of the documents, which are never among the keys.
\<close>

theorem recover_sends_nothing:
  assumes "GetBackCSInfo home fs = Inr mPid" and "\<forall>m \<in> set docs. role_doc m"
  shows "CS_RecoverServer home fs docs = Inr []"
proof -
  from assms(1) obtain t where "parse_backup t = Inr mPid" by (auto simp: GetBackCSInfo_def)
  then have none: "dget mPid (KInt p) = None" for p by (rule parse_backup_keys)
  have "recover_role mPid m = Inr []" if "m \<in> set docs" for m
  proof -
    from assms(2) that have "role_doc m" by blast
    then show ?thesis by (rule role_docE) (simp add: recover_role_def none del: rbind_eq_Inr)
  qed
  then have "rmap (recover_role mPid) docs = Inr (map (\<lambda>_. []) docs)"
    by (intro rmap_total)
  then show ?thesis by (simp add: CS_RecoverServer_def assms(1) run_script_def)
qed

lemma recover_sends_nothing_witness:
  "CS_RecoverServer ''/h'' [(''/h/csback.txt'', File ''10:gs1'')] [role_example ''gs2'' 10] = Inr []"
  by (rule recover_sends_nothing [of _ _ "[(KStr ''10'', PStr ''gs1'')]"])
    (simp_all add: GetBackCSInfo_def read_file_def parse_backup_def unpack_info_def)

text \<open>The backup script stops before it writes the file, whatever the documents are.\<close>

lemma backup_NameError: "\<forall>m \<in> set docs. role_doc m \<Longrightarrow> BackUpHefu s docs fs = Inl NameError"
  by (simp add: BackUpHefu_def backup_text_eq)

text \<open>A backup without a role is empty, and the recovery stops on it.\<close>

lemma empty_backup: "parse_backup [] = Inl ValueError"
  by (simp add: parse_backup_def unpack_info_def)

end
