(* ===== verification/ShowId.thy ===== *)
theory ShowId
  imports Mongo "HOL-Library.Sublist"
begin

text \<open>
  \<open>shell/gen_show_id.py\<close>: the generator of the short numbers shown for players. A pattern like
  \<open>AA\<close>, \<open>ABC\<close> stands for every block of digits of that shape; the blocks of a list of
  patterns are combined with a prefix and a suffix, and what passes the filters is an id.
\<close>

section \<open>The generator\<close>

text \<open>What an id is stored with; the ids are the keys of the dictionary \<open>m_result\<close>.\<close>

record show_info =
  status :: int
  occupy :: int

type_synonym show_ids = "(nat \<times> show_info) list"

text \<open>The blocks of one pattern whose first digit is at least \<open>start\<close>; \<open>None\<close> for no pattern.\<close>

definition gen_element :: "string \<Rightarrow> nat \<Rightarrow> int list list option" where
  "gen_element m start =
     (case m of
        [] \<Rightarrow> None
      | key # _ \<Rightarrow>
          let char_list = map (\<lambda>c. int (of_char c) - int (of_char key)) m
          in Some (filter (\<lambda>tmp. \<not> length tmp < length m)
               (map (\<lambda>i. filter (\<lambda>x. 0 \<le> x \<and> x < 10) (map (\<lambda>delta. delta + int i) char_list)) [start..<10])))"

definition convert_string :: "int list \<Rightarrow> string list" where
  "convert_string element_list = map str_of_int element_list"

text \<open>
  The longest run of \<open>val\<close> in \<open>source\<close>: the state of the loop is the current run, the longest
  one so far and the last character. \<open>source[0]\<close> of an empty string is an \<open>IndexError\<close>.
\<close>

fun serial_step :: "char \<Rightarrow> char \<Rightarrow> nat \<times> nat \<times> char \<Rightarrow> nat \<times> nat \<times> char" where
  "serial_step val c (cnt, max_cnt, prev) =
     (if c = val then
        let cnt' = (if val \<noteq> prev then 1 else cnt + 1) in (cnt', max cnt' max_cnt, c)
      else (0, max_cnt, c))"

definition get_serial_val :: "string \<Rightarrow> char \<Rightarrow> nat res" where
  "get_serial_val source val =
     (case source of
        [] \<Rightarrow> Inl IndexError
      | s0 # _ \<Rightarrow> Inr (fst (snd (fold (serial_step val) source (0, 0, s0)))))"

definition check_all_same :: "string \<Rightarrow> int \<Rightarrow> bool" where
  "check_all_same source flt =
     (if flt = 0 then False
      else case source of [] \<Rightarrow> False | s0 # _ \<Rightarrow> length (filter (\<lambda>c. c = s0) source) = length source)"

definition mark :: string where
  "mark = ''$replace''"

text \<open>The end of the recursion: the mark is removed, the filters decide, the id is entered.\<close>

definition add_id :: "string \<Rightarrow> int \<Rightarrow> show_ids \<Rightarrow> show_ids res" where
  "add_id source flt m_result =
     (let result = str_replace mark [] source in
      rbind (get_serial_val result (CHR ''4'')) (\<lambda>n.
      if 2 \<le> n then Inr m_result
      else if check_all_same result flt then Inr m_result
      else if \<not> isdigit result \<or> nat_of_digits result < 1100 then Inr m_result
      else Inr (aput m_result (nat_of_digits result) \<lparr>status = 0, occupy = 0\<rparr>)))"

text \<open>The argument \<open>combine_list\<close> is what the code has from the index \<open>idx\<close> on.\<close>

fun combine1 :: "string \<Rightarrow> int list list option list \<Rightarrow> int \<Rightarrow> show_ids \<Rightarrow> show_ids res" where
  "combine1 source [] flt st = add_id source flt st"
| "combine1 source (None # combine_list) flt st = Inl TypeError"
| "combine1 source (Some blocks # combine_list) flt st =
     rfold (\<lambda>element_list.
       combine1 (str_replace mark (concat (convert_string element_list) @ mark) source) combine_list flt) blocks st"

definition combine :: "int list list option list \<Rightarrow> string \<Rightarrow> string \<Rightarrow> int \<Rightarrow> show_ids \<Rightarrow> show_ids res" where
  "combine combine_list pre tail flt st =
     (case combine_list of
        [] \<Rightarrow> Inl IndexError
      | None # _ \<Rightarrow> Inl TypeError
      | Some blocks # rest \<Rightarrow>
          rfold (\<lambda>element_list. combine1 (pre @ concat (convert_string element_list) @ mark @ tail) rest flt)
            blocks st)"

definition gen_combine_list :: "string list \<Rightarrow> int list list option list" where
  "gen_combine_list match_list =
     (case match_list of [] \<Rightarrow> [] | m # ms \<Rightarrow> gen_element m 1 # map (\<lambda>m. gen_element m 0) ms)"

definition gen_match :: "string list \<Rightarrow> string \<Rightarrow> string \<Rightarrow> int \<Rightarrow> show_ids \<Rightarrow> show_ids res" where
  "gen_match match_list pre tail flt = combine (gen_combine_list match_list) pre tail flt"

text \<open>The table of patterns and the loop over it.\<close>

record match_info =
  mi_match_list :: "string list"
  mi_pre :: string
  mi_tail :: string
  mi_filter :: int

definition all_match_list :: "(nat \<times> match_info) list" where
  "all_match_list =
     [(1, \<lparr>mi_match_list = [''A'', ''B'', ''C'', ''D''], mi_pre = [], mi_tail = [], mi_filter = 0\<rparr>),
      (2, \<lparr>mi_match_list = [''A'', ''BBBB''], mi_pre = [], mi_tail = [], mi_filter = 1\<rparr>),
      (3, \<lparr>mi_match_list = [''AAAA'', ''B''], mi_pre = [], mi_tail = [], mi_filter = 1\<rparr>),
      (4, \<lparr>mi_match_list = [''AA'', ''BBB''], mi_pre = [], mi_tail = [], mi_filter = 1\<rparr>),
      (5, \<lparr>mi_match_list = [''AA'', ''ABC''], mi_pre = [], mi_tail = [], mi_filter = 0\<rparr>),
      (6, \<lparr>mi_match_list = [''AA'', ''CBA''], mi_pre = [], mi_tail = [], mi_filter = 0\<rparr>),
      (7, \<lparr>mi_match_list = [''ABCDE''], mi_pre = [], mi_tail = [], mi_filter = 0\<rparr>),
      (8, \<lparr>mi_match_list = [''EDCBA''], mi_pre = [], mi_tail = [], mi_filter = 0\<rparr>),
      (9, \<lparr>mi_match_list = [''AAAAA''], mi_pre = [], mi_tail = [], mi_filter = 0\<rparr>),
      (10, \<lparr>mi_match_list = [''AAA'', ''BBB''], mi_pre = [], mi_tail = [], mi_filter = 1\<rparr>),
      (11, \<lparr>mi_match_list = [''AA'', ''BBBB''], mi_pre = [], mi_tail = [], mi_filter = 1\<rparr>),
      (12, \<lparr>mi_match_list = [''AAAA'', ''BB''], mi_pre = [], mi_tail = [], mi_filter = 1\<rparr>),
      (13, \<lparr>mi_match_list = [''AAAAA'', ''B''], mi_pre = [], mi_tail = [], mi_filter = 1\<rparr>),
      (14, \<lparr>mi_match_list = [''A'', ''BBBBB''], mi_pre = [], mi_tail = [], mi_filter = 1\<rparr>),
      (15, \<lparr>mi_match_list = [''ABC'', ''ABC''], mi_pre = [], mi_tail = [], mi_filter = 0\<rparr>),
      (16, \<lparr>mi_match_list = [''CBA'', ''CBA''], mi_pre = [], mi_tail = [], mi_filter = 0\<rparr>),
      (17, \<lparr>mi_match_list = [''AAAAAA''], mi_pre = [], mi_tail = [], mi_filter = 0\<rparr>),
      (18, \<lparr>mi_match_list = [''A'', ''B''], mi_pre = ''520'', mi_tail = [], mi_filter = 0\<rparr>),
      (19, \<lparr>mi_match_list = [''A''], mi_pre = ''1314'', mi_tail = [], mi_filter = 0\<rparr>),
      (20, \<lparr>mi_match_list = [''A'', ''B''], mi_pre = ''1314'', mi_tail = [], mi_filter = 0\<rparr>),
      (21, \<lparr>mi_match_list = [''A'', ''B'', ''C''], mi_pre = ''520'', mi_tail = [], mi_filter = 0\<rparr>),
      (22, \<lparr>mi_match_list = [''A'', ''B'', ''C'', ''D''], mi_pre = ''520'', mi_tail = [], mi_filter = 0\<rparr>),
      (23, \<lparr>mi_match_list = [''A'', ''B'', ''C''], mi_pre = ''1314'', mi_tail = [], mi_filter = 0\<rparr>)]"

definition gen_all :: "(nat \<times> match_info) list \<Rightarrow> show_ids res" where
  "gen_all infos = rfold (\<lambda>(idx, mi). gen_match (mi_match_list mi) (mi_pre mi) (mi_tail mi) (mi_filter mi)) infos []"

text \<open>The ids are entered only when the collection is empty: \<open>check_insert\<close>.\<close>

definition show_id_doc :: "nat \<times> show_info \<Rightarrow> mongo_cmd" where
  "show_id_doc = (\<lambda>(show_id, data). InsertOne ''game'' ''showid''
     (PDict [(KStr ''show_id'', PInt (int show_id)),
       (KStr ''data'', PDict [(KStr ''status'', PInt (status data)), (KStr ''occupy'', PInt (occupy data))])]))"

definition insert_data_to_mongo :: "show_ids \<Rightarrow> mongo_cmd list" where
  "insert_data_to_mongo m_result = map show_id_doc m_result"

definition gen_main :: "nat \<Rightarrow> mongo_cmd list res" where
  "gen_main count =
     (if count \<le> 0 then rbind (gen_all all_match_list) (\<lambda>st. Inr (insert_data_to_mongo st)) else Inr [])"

section \<open>The longest run\<close>

lemma suffix_replicate:
  assumes "\<not> suffix [v] p"
  shows "suffix (replicate n v) (p @ replicate k v) \<longleftrightarrow> n \<le> k"
proof
  assume "n \<le> k"
  then have "p @ replicate k v = (p @ replicate (k - n) v) @ replicate n v"
    by (simp flip: replicate_add)
  then show "suffix (replicate n v) (p @ replicate k v)" by (simp add: suffix_def)
next
  assume "suffix (replicate n v) (p @ replicate k v)"
  then obtain q where q: "p @ replicate k v = q @ replicate n v" by (auto simp: suffix_def)
  show "n \<le> k"
  proof (rule ccontr)
    assume "\<not> n \<le> k"
    then have "n = Suc (n - Suc k) + k" by simp
    then have "replicate n v = replicate (Suc (n - Suc k)) v @ replicate k v" by (metis replicate_add)
    with q have "p = q @ replicate (n - Suc k) v @ [v]" by (simp add: replicate_append_same)
    with assms show False by (simp add: suffix_def)
  qed
qed

lemma serial_inv:
  assumes "fold (serial_step v) s (0, 0, s0) = (cnt, mx, l)" and "s \<noteq> [] \<Longrightarrow> s0 = hd s"
  shows "(\<exists>p. s = p @ replicate cnt v \<and> \<not> suffix [v] p) \<and> (s \<noteq> [] \<longrightarrow> l = last s)
    \<and> (\<forall>n. sublist (replicate n v) s \<longleftrightarrow> n \<le> mx)"
  using assms
proof (induction s arbitrary: cnt mx l rule: rev_induct)
  case Nil
  then show ?case by auto
next
  case (snoc c s)
  obtain cnt0 mx0 l0 where f: "fold (serial_step v) s (0, 0, s0) = (cnt0, mx0, l0)" by (metis prod_cases3)
  have "s \<noteq> [] \<Longrightarrow> s0 = hd s" using snoc.prems(2) by simp
  from snoc.IH [OF f this] obtain p where IH: "s = p @ replicate cnt0 v" "\<not> suffix [v] p"
    "s \<noteq> [] \<longrightarrow> l0 = last s" "\<And>n. sublist (replicate n v) s \<longleftrightarrow> n \<le> mx0" by auto
  show ?case
  proof (cases "c = v")
    case False
    then have st: "cnt = 0" "mx = mx0" "l = c" using snoc.prems(1) f by auto
    have "suffix (replicate n v) (s @ [c]) \<longleftrightarrow> n = 0" for n
      using suffix_replicate [of v "s @ [c]" n 0] False by (simp add: suffix_def)
    with False IH(4) st show ?thesis by (auto simp: sublist_snoc suffix_def)
  next
    case True
    have "cnt0 = 0" if "l0 \<noteq> v"
      using that IH(1,3) by (cases cnt0) (auto simp: replicate_append_same [symmetric] simp flip: append_assoc)
    then have st: "cnt = Suc cnt0" "mx = max (Suc cnt0) mx0" "l = v" using snoc.prems(1) f True by (auto simp: Let_def split: if_splits)
    have s: "s @ [c] = p @ replicate (Suc cnt0) v" using IH(1) True by (simp add: replicate_append_same)
    have "suffix (replicate n v) (s @ [c]) \<longleftrightarrow> n \<le> Suc cnt0" for n
      unfolding s by (rule suffix_replicate [OF IH(2)])
    then have "sublist (replicate n v) (s @ [c]) \<longleftrightarrow> n \<le> mx" for n
      unfolding sublist_snoc IH(4) st(2) by auto
    moreover have "\<exists>p. s @ [c] = p @ replicate cnt v \<and> \<not> suffix [v] p" using s st(1) IH(2) by blast
    ultimately show ?thesis using st(3) by (simp add: True)
  qed
qed

lemma get_serial_val_spec:
  "get_serial_val s v = Inr m \<Longrightarrow> sublist (replicate n v) s \<longleftrightarrow> n \<le> m"
proof -
  assume a: "get_serial_val s v = Inr m"
  then obtain c t where s: "s = c # t" by (cases s) (auto simp: get_serial_val_def)
  obtain cnt mx l where f: "fold (serial_step v) s (0, 0, c) = (cnt, mx, l)" by (metis prod_cases3)
  with a have "m = mx" by (simp add: get_serial_val_def s)
  with serial_inv [OF f] s show ?thesis by simp
qed

lemma get_serial_val_total: "s \<noteq> [] \<Longrightarrow> \<exists>m. get_serial_val s v = Inr m"
  by (cases s) (simp_all add: get_serial_val_def)

text \<open>
  \<open>get_serial_val\<close> returns, for a string that is not empty, the length of the longest run of
  the character: a run of \<open>n\<close> of them occurs in the string exactly when \<open>n\<close> is at most its value.
\<close>

theorem get_serial_val_run:
  assumes "s \<noteq> []"
  shows "\<exists>m. get_serial_val s v = Inr m \<and> (\<forall>n. sublist (replicate n v) s \<longleftrightarrow> n \<le> m)"
  using get_serial_val_total [OF assms] get_serial_val_spec by blast

lemma get_serial_val_run_witness:
  "\<exists>m. get_serial_val ''14402'' (CHR ''4'') = Inr m \<and> (\<forall>n. sublist (replicate n (CHR ''4'')) ''14402'' \<longleftrightarrow> n \<le> m)"
  by (rule get_serial_val_run) simp

section \<open>What the generator generates\<close>

text \<open>A string passes the filters.\<close>

definition passes :: "int \<Rightarrow> string \<Rightarrow> bool" where
  "passes flt w \<longleftrightarrow> \<not> sublist ''44'' w \<and> \<not> (flt \<noteq> 0 \<and> (\<exists>c. set w = {c})) \<and> isdigit w \<and> 1100 \<le> nat_of_digits w"

abbreviation ids :: "show_ids \<Rightarrow> nat set" where
  "ids st \<equiv> fst ` set st"

lemma check_all_same_eq: "check_all_same w flt \<longleftrightarrow> flt \<noteq> 0 \<and> (\<exists>c. set w = {c})"
proof (cases w)
  case (Cons c w')
  have "length (filter (\<lambda>x. x = c) w') = length w' \<longleftrightarrow> (\<forall>x \<in> set w'. x = c)"
    using length_filter_less [of _ w' "\<lambda>x. x = c"] by (auto simp: less_le filter_id_conv)
  then show ?thesis by (auto simp: check_all_same_def Cons)
qed (simp add: check_all_same_def)

lemma add_id_run:
  assumes "CHR ''$'' \<notin> set a" and "CHR ''$'' \<notin> set t" and "a @ t \<noteq> []"
  shows "add_id (a @ mark @ t) flt st =
    Inr (if passes flt (a @ t) then aput st (nat_of_digits (a @ t)) \<lparr>status = 0, occupy = 0\<rparr> else st)"
proof -
  have r: "str_replace mark [] (a @ mark @ t) = a @ t"
    using assms(1,2) by (subst str_replace_once) (auto simp: mark_def)
  from get_serial_val_total [OF assms(3)] obtain m where m: "get_serial_val (a @ t) (CHR ''4'') = Inr m" by blast
  have "2 \<le> m \<longleftrightarrow> sublist ''44'' (a @ t)"
    using get_serial_val_spec [OF m, of 2] by (simp add: numeral_2_eq_2)
  then show ?thesis
    by (simp add: add_id_def r m check_all_same_eq passes_def Let_def not_less del: rbind_eq_Inr)
qed

text \<open>A string of digits has the shape of a pattern, its first digit being \<open>i\<close>; a string is
  made of blocks of the shapes of a list of patterns.\<close>

definition block_of :: "string \<Rightarrow> nat \<Rightarrow> string \<Rightarrow> bool" where
  "block_of m i b \<longleftrightarrow>
     list_all2 (\<lambda>c x. is_digit x \<and> int (digit_val x) = int i + int (of_char c) - int (of_char (hd m))) m b"

fun spells :: "nat \<Rightarrow> string list \<Rightarrow> string \<Rightarrow> bool" where
  "spells start [] w \<longleftrightarrow> w = []"
| "spells start (m # ms) w \<longleftrightarrow>
     (\<exists>i b v. start \<le> i \<and> i < 10 \<and> block_of m i b \<and> w = b @ v \<and> spells 0 ms v)"

text \<open>The text of a list of digits.\<close>

abbreviation text_of :: "int list \<Rightarrow> string" where
  "text_of xs \<equiv> concat (convert_string xs)"

lemma str_of_digit: "0 \<le> x \<Longrightarrow> x < 10 \<Longrightarrow> str_of_int x = [digit_char (nat x)]"
  by (simp add: str_of_int_def str_of_nat_eval)

lemma text_of_digits: "\<forall>x \<in> set xs. 0 \<le> x \<and> x < 10 \<Longrightarrow> text_of xs = map (\<lambda>x. digit_char (nat x)) xs"
  by (induction xs) (simp_all add: convert_string_def str_of_digit)

lemma is_digit_eq: "is_digit x \<and> int (digit_val x) = v \<longleftrightarrow> 0 \<le> v \<and> v < 10 \<and> x = digit_char (nat v)"
  by (auto simp: digit_val_less)

lemma list_all2_map_eq: "list_all2 (\<lambda>c x. P c \<and> x = f c) m b \<longleftrightarrow> (\<forall>c \<in> set m. P c) \<and> b = map f m"
  by (induction m arbitrary: b) (auto simp: list_all2_Cons1)

lemma block_of_eq:
  "block_of m i b \<longleftrightarrow>
     (\<forall>c \<in> set m. 0 \<le> int i + int (of_char c) - int (of_char (hd m)) \<and> int i + int (of_char c) - int (of_char (hd m)) < 10)
     \<and> b = map (\<lambda>c. digit_char (nat (int i + int (of_char c) - int (of_char (hd m))))) m"
  unfolding block_of_def is_digit_eq conj_assoc [symmetric] by (rule list_all2_map_eq)

lemma gen_element_blocks:
  assumes "m \<noteq> []"
  shows "\<exists>bs. gen_element m start = Some bs \<and> text_of ` set bs = {b. \<exists>i. start \<le> i \<and> i < 10 \<and> block_of m i b}"
proof -
  let ?f = "\<lambda>i c. int i + int (of_char c) - int (of_char (hd m))"
  let ?g = "\<lambda>i. filter (\<lambda>x. 0 \<le> x \<and> x < 10) (map (?f i) m)"
  have "gen_element m start = Some (filter (\<lambda>tmp. \<not> length tmp < length m) (map ?g [start..<10]))"
    using assms by (cases m) (simp_all add: gen_element_def o_def algebra_simps)
  moreover have "text_of ` set (filter (\<lambda>tmp. \<not> length tmp < length m) (map ?g [start..<10]))
      = {b. \<exists>i. start \<le> i \<and> i < 10 \<and> block_of m i b}"
  proof -
    have full: "\<not> length (?g i) < length m \<longleftrightarrow> (\<forall>c \<in> set m. 0 \<le> ?f i c \<and> ?f i c < 10)" for i
    proof -
      have "length (?g i) < length (map (?f i) m) \<longleftrightarrow> (\<exists>x \<in> set (map (?f i) m). \<not> (0 \<le> x \<and> x < 10))"
        by (metis (no_types, lifting) filter_True length_filter_less less_irrefl)
      then show ?thesis by auto
    qed
    let ?I = "{i. start \<le> i \<and> i < 10 \<and> (\<forall>c \<in> set m. 0 \<le> ?f i c \<and> ?f i c < 10)}"
    have "set (filter (\<lambda>tmp. \<not> length tmp < length m) (map ?g [start..<10])) = ?g ` ?I"
      unfolding filter_map set_map using full by (intro arg_cong2 [where f = image]) auto
    moreover have "text_of (?g i) = map (\<lambda>c. digit_char (nat (?f i c))) m" if "i \<in> ?I" for i
      using that by (subst text_of_digits) (auto simp: filter_map o_def)
    ultimately have "text_of ` set (filter (\<lambda>tmp. \<not> length tmp < length m) (map ?g [start..<10]))
        = (\<lambda>i. map (\<lambda>c. digit_char (nat (?f i c))) m) ` ?I"
      by (simp only: image_image) (rule image_cong, simp_all)
    then show ?thesis by (simp only:) (auto simp: block_of_eq)
  qed
  ultimately show ?thesis by blast
qed

lemma no_mark_digits: "\<forall>x \<in> set xs. is_digit x \<Longrightarrow> CHR ''$'' \<notin> set xs"
  by (auto simp: is_digit_def)

lemma block_digits: "block_of m i b \<Longrightarrow> x \<in> set b \<Longrightarrow> is_digit x"
  by (auto simp: block_of_def list_all2_conv_all_nth in_set_conv_nth)

lemma str_replace_mark:
  "CHR ''$'' \<notin> set a \<Longrightarrow> CHR ''$'' \<notin> set t \<Longrightarrow> str_replace mark (n @ mark) (a @ mark @ t) = (a @ n) @ mark @ t"
  by (subst str_replace_once) (auto simp: mark_def)

text \<open>A loop that adds to the ids what each turn adds.\<close>

lemma rfold_ids:
  assumes "\<And>x st. x \<in> set xs \<Longrightarrow> \<exists>st'. f x st = Inr st' \<and> ids st' = ids st \<union> g x"
  shows "\<exists>st'. rfold f xs st = Inr st' \<and> ids st' = ids st \<union> (\<Union>x \<in> set xs. g x)"
  using assms
proof (induction xs arbitrary: st)
  case (Cons x xs)
  from Cons.prems [of x st] obtain st1 where 1: "f x st = Inr st1" "ids st1 = ids st \<union> g x" by auto
  from Cons.IH [of st1] Cons.prems obtain st' where
    "rfold f xs st1 = Inr st'" "ids st' = ids st1 \<union> (\<Union>x \<in> set xs. g x)" by auto
  with 1 show ?case by auto
qed simp

definition spelled_ids :: "string \<Rightarrow> nat \<Rightarrow> string list \<Rightarrow> string \<Rightarrow> int \<Rightarrow> nat set" where
  "spelled_ids a start ms t flt =
     {nat_of_digits (a @ w @ t) | w. spells start ms w \<and> passes flt (a @ w @ t)}"

lemma spelled_ids_Cons:
  "spelled_ids a start (m # ms) t flt
    = (\<Union>b \<in> {b. \<exists>i. start \<le> i \<and> i < 10 \<and> block_of m i b}. spelled_ids (a @ b) 0 ms t flt)"
proof -
  have "x \<in> spelled_ids a start (m # ms) t flt \<longleftrightarrow> (\<exists>i b v. start \<le> i \<and> i < 10 \<and> block_of m i b \<and> spells 0 ms v
      \<and> passes flt (a @ b @ v @ t) \<and> x = nat_of_digits (a @ b @ v @ t))" for x
    unfolding spelled_ids_def spells.simps mem_Collect_eq by (metis (no_types, lifting) append_assoc)
  then show ?thesis by (auto simp: spelled_ids_def)
qed

lemma combine1_run:
  assumes "CHR ''$'' \<notin> set a" and "CHR ''$'' \<notin> set t" and "a \<noteq> []" and "\<forall>m \<in> set ms. m \<noteq> []"
  shows "\<exists>st'. combine1 (a @ mark @ t) (map (\<lambda>m. gen_element m 0) ms) flt st = Inr st'
    \<and> ids st' = ids st \<union> spelled_ids a 0 ms t flt"
  using assms
proof (induction ms arbitrary: a st)
  case Nil
  then have "combine1 (a @ mark @ t) (map (\<lambda>m. gen_element m 0) []) flt st =
    Inr (if passes flt (a @ t) then aput st (nat_of_digits (a @ t)) \<lparr>status = 0, occupy = 0\<rparr> else st)"
    by (simp add: add_id_run)
  then show ?case by (auto simp: fst_aput spelled_ids_def)
next
  case (Cons m ms)
  from gen_element_blocks [of m 0] Cons.prems(4) obtain bs where bs: "gen_element m 0 = Some bs"
    "text_of ` set bs = {b. \<exists>i. 0 \<le> i \<and> i < 10 \<and> block_of m i b}" by auto
  have "\<exists>st'. combine1 (str_replace mark (text_of el @ mark) (a @ mark @ t))
      (map (\<lambda>m. gen_element m 0) ms) flt st = Inr st'
      \<and> ids st' = ids st \<union> spelled_ids (a @ text_of el) 0 ms t flt" if "el \<in> set bs" for el st
  proof -
    have "text_of el \<in> text_of ` set bs" using that by (rule imageI)
    then obtain i where "block_of m i (text_of el)" unfolding bs(2) by auto
    then have "\<forall>x \<in> set (text_of el). is_digit x" using block_digits by blast
    then have "CHR ''$'' \<notin> set (text_of el)" by (rule no_mark_digits)
    then show ?thesis
      unfolding str_replace_mark [OF Cons.prems(1,2)] using Cons.prems by (intro Cons.IH) auto
  qed
  then have "\<exists>st'. rfold (\<lambda>el. combine1 (str_replace mark (text_of el @ mark) (a @ mark @ t))
        (map (\<lambda>m. gen_element m 0) ms) flt) bs st = Inr st'
      \<and> ids st' = ids st \<union> (\<Union>el \<in> set bs. spelled_ids (a @ text_of el) 0 ms t flt)"
    by (intro rfold_ids)
  moreover have "(\<Union>el \<in> set bs. spelled_ids (a @ text_of el) 0 ms t flt) = spelled_ids a 0 (m # ms) t flt"
    unfolding spelled_ids_Cons bs(2) [symmetric] by simp
  ultimately show ?case by (simp add: bs(1))
qed

lemma gen_match_run:
  assumes "CHR ''$'' \<notin> set a" and "CHR ''$'' \<notin> set t" and "ms \<noteq> []" and "\<forall>m \<in> set ms. m \<noteq> []"
  shows "\<exists>st'. gen_match ms a t flt st = Inr st' \<and> ids st' = ids st \<union> spelled_ids a 1 ms t flt"
proof -
  obtain m rest where ms: "ms = m # rest" using assms(3) by (cases ms) auto
  from gen_element_blocks [of m 1] assms(4) ms obtain bs where bs: "gen_element m 1 = Some bs"
    "text_of ` set bs = {b. \<exists>i. 1 \<le> i \<and> i < 10 \<and> block_of m i b}" by auto
  have "\<exists>st'. combine1 ((a @ text_of el) @ mark @ t) (map (\<lambda>m. gen_element m 0) rest) flt st = Inr st'
      \<and> ids st' = ids st \<union> spelled_ids (a @ text_of el) 0 rest t flt" if "el \<in> set bs" for el st
  proof (rule combine1_run)
    have "text_of el \<in> text_of ` set bs" using that by (rule imageI)
    then obtain i where i: "block_of m i (text_of el)" unfolding bs(2) by auto
    then have "\<forall>x \<in> set (text_of el). is_digit x" using block_digits by blast
    then show "CHR ''$'' \<notin> set (a @ text_of el)" using no_mark_digits assms(1) by simp
    from i assms(4) ms show "a @ text_of el \<noteq> []" by (auto simp: block_of_eq)
  qed (use assms(2,4) ms in auto)
  then have "\<exists>st'. rfold (\<lambda>el. combine1 ((a @ text_of el) @ mark @ t) (map (\<lambda>m. gen_element m 0) rest) flt) bs st
      = Inr st' \<and> ids st' = ids st \<union> (\<Union>el \<in> set bs. spelled_ids (a @ text_of el) 0 rest t flt)"
    by (intro rfold_ids)
  moreover have "(\<Union>el \<in> set bs. spelled_ids (a @ text_of el) 0 rest t flt) = spelled_ids a 1 ms t flt"
    unfolding ms spelled_ids_Cons bs(2) [symmetric] by simp
  ultimately show ?thesis
    by (simp add: gen_match_def combine_def gen_combine_list_def ms bs(1) del: One_nat_def)
qed

text \<open>
  One call of the generator enters, besides the ids it had, exactly the numbers whose digits
  are the prefix, a string made of blocks of the shapes of the patterns (the first block not
  starting with 0) and the suffix, and which pass the filters: no \<open>44\<close>, not one digit repeated
  where the filter asks for it, and at least 1100.
\<close>

theorem gen_match_ids:
  assumes "CHR ''$'' \<notin> set a" and "CHR ''$'' \<notin> set t" and "ms \<noteq> []" and "\<forall>m \<in> set ms. m \<noteq> []"
  shows "\<exists>st'. gen_match ms a t flt st = Inr st'
    \<and> fst ` set st' = fst ` set st \<union> {nat_of_digits (a @ w @ t) | w. spells 1 ms w \<and> passes flt (a @ w @ t)}"
  using gen_match_run [OF assms] by (simp add: spelled_ids_def)

lemma gen_match_ids_witness:
  "\<exists>st'. gen_match [''AA'', ''ABC''] ''13'' [] 0 [] = Inr st'
    \<and> fst ` set st' = fst ` set ([] :: show_ids) \<union> {nat_of_digits (''13'' @ w @ []) | w. spells 1 [''AA'', ''ABC''] w \<and> passes 0 (''13'' @ w @ [])}"
  by (rule gen_match_ids) simp_all

section \<open>The table\<close>

definition info_ok :: "match_info \<Rightarrow> bool" where
  "info_ok mi \<longleftrightarrow> list_all is_digit (mi_pre mi) \<and> mi_tail mi = [] \<and> mi_match_list mi \<noteq> []
     \<and> list_all (\<lambda>m. m \<noteq> []) (mi_match_list mi) \<and> (mi_pre mi = [] \<or> hd (mi_pre mi) \<noteq> CHR ''0'')"

text \<open>The strings of one row of the table that pass its filter.\<close>

definition row_words :: "match_info \<Rightarrow> string set" where
  "row_words mi = {mi_pre mi @ w | w. spells 1 (mi_match_list mi) w \<and> passes (mi_filter mi) (mi_pre mi @ w)}"

lemma table_ok: "list_all (\<lambda>(idx, mi). info_ok mi) all_match_list"
  by (simp add: all_match_list_def info_ok_def is_digit_def)

lemma row_word_text:
  assumes "info_ok mi" and "w \<in> row_words mi"
  shows "str_of_nat (nat_of_digits w) = w"
proof -
  from assms(2) obtain v where v: "w = mi_pre mi @ v" "spells 1 (mi_match_list mi) v" "isdigit w"
    by (auto simp: row_words_def passes_def)
  have "hd w \<noteq> CHR ''0''"
  proof (cases "mi_pre mi")
    case Nil
    from assms(1) obtain m ms where m: "mi_match_list mi = m # ms" "m \<noteq> []"
      by (cases "mi_match_list mi") (auto simp: info_ok_def)
    with v(2) obtain i b u where b: "1 \<le> i" "i < 10" "block_of m i b" "v = b @ u" by auto
    with m(2) have "hd v = digit_char i" by (cases m) (auto simp: block_of_eq)
    moreover have "digit_char i \<noteq> CHR ''0''" using digit_char_inj [of i 0] b(1,2) by (simp add: digit_char_0)
    ultimately show ?thesis using v(1) Nil by simp
  next
    case (Cons c cs)
    with assms(1) v(1) show ?thesis by (simp add: info_ok_def)
  qed
  with v(3) show ?thesis by (intro str_of_nat_of_digits)
qed

lemma row_ids:
  "info_ok mi \<Longrightarrow> spelled_ids (mi_pre mi) 1 (mi_match_list mi) (mi_tail mi) (mi_filter mi) = nat_of_digits ` row_words mi"
  unfolding spelled_ids_def row_words_def info_ok_def by simp blast

lemma gen_all_run:
  assumes "list_all (\<lambda>(idx, mi). info_ok mi) infos"
  shows "\<exists>st. gen_all infos = Inr st \<and> ids st = (\<Union>(idx, mi) \<in> set infos. nat_of_digits ` row_words mi)"
proof -
  have "\<exists>st'. (case x of (idx, mi) \<Rightarrow> gen_match (mi_match_list mi) (mi_pre mi) (mi_tail mi) (mi_filter mi)) st = Inr st'
      \<and> ids st' = ids st \<union> (case x of (idx, mi) \<Rightarrow> nat_of_digits ` row_words mi)" if x: "x \<in> set infos" for x st
  proof -
    obtain idx mi where mi: "x = (idx, mi)" by (cases x)
    with assms x have ok: "info_ok mi" by (auto simp: list_all_iff)
    then have "CHR ''$'' \<notin> set (mi_pre mi)" by (intro no_mark_digits) (simp add: info_ok_def list_all_iff)
    with ok gen_match_run [of "mi_pre mi" "mi_tail mi" "mi_match_list mi" "mi_filter mi" st] show ?thesis
      unfolding row_ids [OF ok] by (simp add: mi info_ok_def list_all_iff)
  qed
  then have "\<exists>st'. rfold (\<lambda>(idx, mi). gen_match (mi_match_list mi) (mi_pre mi) (mi_tail mi) (mi_filter mi)) infos [] = Inr st'
      \<and> ids st' = ids [] \<union> (\<Union>x \<in> set infos. case x of (idx, mi) \<Rightarrow> nat_of_digits ` row_words mi)"
    by (intro rfold_ids)
  then show ?thesis by (simp add: gen_all_def)
qed

text \<open>
  C18: the ids of the program. The loop over the table ends without an exception, and a number is an
  id exactly when its decimal notation is the prefix of a row followed by blocks of the row's
  patterns and passes the row's filter; so every id is at least 1100 and has no \<open>44\<close>.
\<close>

theorem all_show_ids:
  "\<exists>st. gen_all all_match_list = Inr st
    \<and> fst ` set st = {n. \<exists>(idx, mi) \<in> set all_match_list. str_of_nat n \<in> row_words mi}
    \<and> fst ` set st \<subseteq> {n. 1100 \<le> n \<and> \<not> sublist ''44'' (str_of_nat n)}"
proof -
  have ok: "info_ok mi" if "(idx, mi) \<in> set all_match_list" for idx mi
    using table_ok that by (auto simp: list_all_iff)
  from gen_all_run [OF table_ok] obtain st where st: "gen_all all_match_list = Inr st"
    "ids st = (\<Union>(idx, mi) \<in> set all_match_list. nat_of_digits ` row_words mi)" by blast
  have "ids st = {n. \<exists>(idx, mi) \<in> set all_match_list. str_of_nat n \<in> row_words mi}"
  proof (intro set_eqI iffI)
    fix n assume "n \<in> ids st"
    then obtain idx mi w where "(idx, mi) \<in> set all_match_list" "w \<in> row_words mi" "n = nat_of_digits w"
      unfolding st(2) by auto
    with row_word_text [OF ok] show "n \<in> {n. \<exists>(idx, mi) \<in> set all_match_list. str_of_nat n \<in> row_words mi}"
      by fastforce
  next
    fix n assume "n \<in> {n. \<exists>(idx, mi) \<in> set all_match_list. str_of_nat n \<in> row_words mi}"
    then show "n \<in> ids st" unfolding st(2) by (force intro: image_eqI [of _ _ "str_of_nat n"])
  qed
  moreover have "1100 \<le> n \<and> \<not> sublist ''44'' (str_of_nat n)"
    if "str_of_nat n \<in> row_words mi" for n mi
    using that by (auto simp: row_words_def passes_def) (metis nat_of_digits_str_of_nat)+
  ultimately show ?thesis using st(1) by auto
qed

end
