(* ===== verification/PyRe.thy ===== *)
theory PyRe
  imports PyStr
begin

text \<open>
  The regular expressions of the scripts: a sequence of items, each one character of a class or a
  greedy repetition of a class, matched from the start of a text with backtracking, as
  \<open>re.match\<close> does. The result is the piece of text every item took, in order; a group is a piece
  (or several of them joined).
\<close>

section \<open>Classes and items\<close>

datatype re_class =
    Lit char      \<comment> \<open>a character\<close>
  | AnyChar       \<comment> \<open>\<open>.\<close>\<close>
  | AllChar       \<comment> \<open>\<open>.\<close> with \<open>re.S\<close>\<close>
  | NoneOf string \<comment> \<open>\<open>[^...]\<close>\<close>
  | NonSpace      \<comment> \<open>\<open>\S\<close>\<close>
  | Digit         \<comment> \<open>\<open>\d\<close>, \<open>[0-9]\<close>\<close>
  | NonDigit      \<comment> \<open>\<open>[^0-9]\<close>\<close>
  | Alpha         \<comment> \<open>\<open>[a-zA-Z]\<close>\<close>
  | Alnum         \<comment> \<open>\<open>[a-zA-Z0-9]\<close>\<close>
  | NonChar char  \<comment> \<open>\<open>[^c]\<close>\<close>

fun in_class :: "re_class \<Rightarrow> char \<Rightarrow> bool" where
  "in_class (Lit d) c \<longleftrightarrow> c = d"
| "in_class AnyChar c \<longleftrightarrow> c \<noteq> newline"
| "in_class AllChar c \<longleftrightarrow> True"
| "in_class (NoneOf ds) c \<longleftrightarrow> c \<notin> set ds"
| "in_class NonSpace c \<longleftrightarrow> \<not> is_space c"
| "in_class Digit c \<longleftrightarrow> is_digit c"
| "in_class NonDigit c \<longleftrightarrow> \<not> is_digit c"
| "in_class Alpha c \<longleftrightarrow> is_alpha c"
| "in_class Alnum c \<longleftrightarrow> is_alpha c \<or> is_digit c"
| "in_class (NonChar d) c \<longleftrightarrow> c \<noteq> d"

datatype re_item = One re_class | Plus re_class | Star re_class

text \<open>The characters of a literal text as items.\<close>

definition lits :: "string \<Rightarrow> re_item list" where
  "lits s = map (\<lambda>c. One (Lit c)) s"

section \<open>Matching\<close>

text \<open>\<open>try_from f k m\<close> is the first success of \<open>f\<close> at \<open>k, k - 1, ..., m\<close>.\<close>

fun try_from :: "(nat \<Rightarrow> 'a option) \<Rightarrow> nat \<Rightarrow> nat \<Rightarrow> 'a option" where
  "try_from f 0 m = (if m = 0 then f 0 else None)"
| "try_from f (Suc k) m =
     (if Suc k < m then None
      else case f (Suc k) of Some x \<Rightarrow> Some x | None \<Rightarrow> try_from f k m)"

definition run_length :: "re_class \<Rightarrow> string \<Rightarrow> nat" where
  "run_length cl s = length (takeWhile (in_class cl) s)"

fun re_match :: "re_item list \<Rightarrow> string \<Rightarrow> string list option" where
  "re_match [] s = Some []"
| "re_match (One cl # items) s =
     (case s of
        [] \<Rightarrow> None
      | c # t \<Rightarrow> if in_class cl c then map_option ((#) [c]) (re_match items t) else None)"
| "re_match (Plus cl # items) s =
     try_from (\<lambda>i. map_option ((#) (take i s)) (re_match items (drop i s))) (run_length cl s) 1"
| "re_match (Star cl # items) s =
     try_from (\<lambda>i. map_option ((#) (take i s)) (re_match items (drop i s))) (run_length cl s) 0"

text \<open>
  The same for an expression that ends with \<open>$\<close>: what is left must be nothing or one last newline.
  The matcher takes the condition on the rest as an argument.
\<close>

fun re_match_fin :: "(string \<Rightarrow> bool) \<Rightarrow> re_item list \<Rightarrow> string \<Rightarrow> string list option" where
  "re_match_fin fin [] s = (if fin s then Some [] else None)"
| "re_match_fin fin (One cl # items) s =
     (case s of
        [] \<Rightarrow> None
      | c # t \<Rightarrow> if in_class cl c then map_option ((#) [c]) (re_match_fin fin items t) else None)"
| "re_match_fin fin (Plus cl # items) s =
     try_from (\<lambda>i. map_option ((#) (take i s)) (re_match_fin fin items (drop i s))) (run_length cl s) 1"
| "re_match_fin fin (Star cl # items) s =
     try_from (\<lambda>i. map_option ((#) (take i s)) (re_match_fin fin items (drop i s))) (run_length cl s) 0"

definition at_end :: "string \<Rightarrow> bool" where
  "at_end s \<longleftrightarrow> s = [] \<or> s = [newline]"

definition re_match_end :: "re_item list \<Rightarrow> string \<Rightarrow> string list option" where
  "re_match_end = re_match_fin at_end"

lemma re_match_fin_True: "re_match_fin (\<lambda>s. True) items s = re_match items s"
  by (induction items s rule: re_match.induct) (auto split: list.splits)

section \<open>Facts\<close>

lemma try_from_Some:
  "try_from f k m = Some x \<Longrightarrow> \<exists>i. m \<le> i \<and> i \<le> k \<and> f i = Some x \<and> (\<forall>j. i < j \<and> j \<le> k \<longrightarrow> f j = None)"
proof (induction k)
  case (Suc k)
  show ?case
  proof (cases "f (Suc k)")
    case None
    with Suc obtain i where "m \<le> i" "i \<le> k" "f i = Some x" "\<forall>j. i < j \<and> j \<le> k \<longrightarrow> f j = None"
      by (auto split: if_splits)
    with None show ?thesis by (intro exI [of _ i]) (auto simp: le_Suc_eq)
  next
    case (Some y)
    with Suc.prems show ?thesis by (intro exI [of _ "Suc k"]) (auto split: if_splits)
  qed
qed (auto split: if_splits)

lemma try_from_None: "try_from f k m = None \<longleftrightarrow> (\<forall>i. m \<le> i \<and> i \<le> k \<longrightarrow> f i = None)"
proof (induction k)
  case (Suc k)
  show ?case
  proof (cases "f (Suc k)")
    case None
    with Suc show ?thesis by (auto simp: le_Suc_eq)
  next
    case (Some x)
    then show ?thesis using le_Suc_eq by (auto intro!: exI [of _ "Suc k"])
  qed
qed auto

lemma try_from_not_None: "m \<le> i \<Longrightarrow> i \<le> k \<Longrightarrow> f i \<noteq> None \<Longrightarrow> try_from f k m \<noteq> None"
  by (simp add: try_from_None del: not_None_eq) blast

text \<open>The greedy choice: the longest one that works.\<close>

lemma try_from_eqI:
  assumes "m \<le> i" and "i \<le> k" and "f i = Some x" and "\<And>j. i < j \<Longrightarrow> j \<le> k \<Longrightarrow> f j = None"
  shows "try_from f k m = Some x"
  using assms
proof (induction k)
  case (Suc k)
  show ?case
  proof (cases "i = Suc k")
    case True
    with Suc.prems show ?thesis by auto
  next
    case False
    with Suc.prems have "f (Suc k) = None" "try_from f k m = Some x" by (auto intro: Suc.IH)
    with Suc.prems False show ?thesis by auto
  qed
qed simp

lemma run_length_prefix:
  "i \<le> run_length cl s \<Longrightarrow> list_all (in_class cl) (take i s) \<and> i \<le> length s"
  unfolding run_length_def
  by (metis (no_types, lifting) length_takeWhile_le list_all_iff nth_mem order_trans set_takeWhileD
      takeWhile_eq_take take_take min.absorb1 in_set_takeD)

text \<open>
  A match is sound: the pieces, joined, are a prefix of the text, and every piece is made of
  characters of its item's class, one for \<open>One\<close> and at least one for \<open>Plus\<close>.
\<close>

fun piece_ok :: "re_item \<Rightarrow> string \<Rightarrow> bool" where
  "piece_ok (One cl) p \<longleftrightarrow> (\<exists>c. p = [c] \<and> in_class cl c)"
| "piece_ok (Plus cl) p \<longleftrightarrow> p \<noteq> [] \<and> list_all (in_class cl) p"
| "piece_ok (Star cl) p \<longleftrightarrow> list_all (in_class cl) p"

lemma re_match_sound:
  "re_match items s = Some ps \<Longrightarrow> list_all2 piece_ok items ps \<and> (\<exists>t. s = concat ps @ t)"
proof (induction items arbitrary: s ps)
  case (Cons it items)
  show ?case
  proof (cases it)
    case (One cl)
    with Cons show ?thesis by (fastforce split: list.splits if_splits)
  next
    case (Plus cl)
    with Cons.prems obtain i qs where i: "1 \<le> i" "i \<le> run_length cl s" "re_match items (drop i s) = Some qs"
      "ps = take i s # qs" by (auto dest!: try_from_Some)
    from Cons.IH [OF i(3)] obtain t where "list_all2 piece_ok items qs" "drop i s = concat qs @ t" by auto
    moreover from this(2) have "s = take i s @ concat qs @ t" by (metis append_take_drop_id)
    ultimately show ?thesis using i run_length_prefix [OF i(2)] Plus by auto
  next
    case (Star cl)
    with Cons.prems obtain i qs where i: "i \<le> run_length cl s" "re_match items (drop i s) = Some qs"
      "ps = take i s # qs" by (auto dest!: try_from_Some)
    from Cons.IH [OF i(2)] obtain t where "list_all2 piece_ok items qs" "drop i s = concat qs @ t" by auto
    moreover from this(2) have "s = take i s @ concat qs @ t" by (metis append_take_drop_id)
    ultimately show ?thesis using i run_length_prefix [OF i(1)] Star by auto
  qed
qed simp

lemma run_length_append:
  "list_all (in_class cl) p \<Longrightarrow> length p \<le> run_length cl (p @ s)"
  by (simp add: run_length_def list_all_iff takeWhile_append)

lemma re_match_complete:
  "list_all2 piece_ok items ps \<Longrightarrow> re_match items (concat ps @ t) \<noteq> None"
proof (induction items arbitrary: ps)
  case (Cons it items)
  then obtain p qs where ps: "ps = p # qs" "piece_ok it p" "list_all2 piece_ok items qs"
    by (auto simp: list_all2_Cons1)
  have IH: "re_match items (concat qs @ t) \<noteq> None" by (rule Cons.IH [OF ps(3)])
  show ?case
  proof (cases it)
    case (One cl)
    with ps IH show ?thesis by auto
  next
    case (Plus cl)
    with ps(2) have p: "1 \<le> length p" "length p \<le> run_length cl (p @ concat qs @ t)"
      using run_length_append [of cl p "concat qs @ t"] by (auto simp: Suc_le_eq)
    show ?thesis
      unfolding Plus ps(1) re_match.simps using p IH by (intro try_from_not_None [of _ "length p"]) simp_all
  next
    case (Star cl)
    with ps(2) have p: "length p \<le> run_length cl (p @ concat qs @ t)"
      using run_length_append [of cl p "concat qs @ t"] by auto
    show ?thesis
      unfolding Star ps(1) re_match.simps using p IH by (intro try_from_not_None [of _ "length p"]) simp_all
  qed
qed simp

text \<open>
  The matcher finds a match exactly when there is one: a text matches when some prefix of it is
  the joined pieces, each made of characters of its item's class; and the pieces it returns are
  such pieces.
\<close>

lemma re_match_iff:
  "(re_match items s \<noteq> None) = (\<exists>ps t. list_all2 piece_ok items ps \<and> s = concat ps @ t)
    \<and> (case re_match items s of None \<Rightarrow> True | Some ps \<Rightarrow> list_all2 piece_ok items ps \<and> (\<exists>t. s = concat ps @ t))"
proof (cases "re_match items s")
  case None
  then have "\<not> (\<exists>ps t. list_all2 piece_ok items ps \<and> s = concat ps @ t)" by (metis re_match_complete)
  with None show ?thesis by simp
next
  case (Some ps)
  then show ?thesis using re_match_sound [OF Some] by auto
qed

end
