(* ===== verification/FormatProto.thy ===== *)
theory FormatProto
  imports PyRe "HOL-Library.Sublist"
begin

text \<open>
  \<open>shell/format_proto.py\<close>: the numbers of the network messages. The numbers in use are read from
  \<open>netdefines.lua\<close>, the messages from the \<open>.proto\<close> files; a message that has none gets the next
  free number of its file's block of a thousand, and the two sections of \<open>netdefines.lua\<close> are
  written again.
\<close>

section \<open>State\<close>

text \<open>A table maps the name of a collection to its messages, and these to their numbers.\<close>

type_synonym protos = "(string \<times> nat) list"
type_synonym proto_table = "(string \<times> protos) list"

record cformat =
  m_defines_c2s :: proto_table
  m_defines_s2c :: proto_table
  m_proto_c2s :: proto_table
  m_proto_s2c :: proto_table

definition init_format :: cformat where
  "init_format = \<lparr>m_defines_c2s = [], m_defines_s2c = [], m_proto_c2s = [], m_proto_s2c = []\<rparr>"

text \<open>\<open>get_table\<close> returns one of the four dictionaries, or \<open>None\<close>.\<close>

datatype which = Defines_c2s | Defines_s2c | Proto_c2s | Proto_s2c

definition get_table :: "string \<Rightarrow> which option" where
  "get_table source =
     (if prefix ''C2GS'' source then Some Defines_c2s
      else if prefix ''GS2C'' source then Some Defines_s2c
      else if source = ''client'' then Some Proto_c2s
      else if source = ''server'' then Some Proto_s2c
      else None)"

fun table_of :: "cformat \<Rightarrow> which \<Rightarrow> proto_table" where
  "table_of st Defines_c2s = m_defines_c2s st"
| "table_of st Defines_s2c = m_defines_s2c st"
| "table_of st Proto_c2s = m_proto_c2s st"
| "table_of st Proto_s2c = m_proto_s2c st"

fun set_table :: "which \<Rightarrow> proto_table \<Rightarrow> cformat \<Rightarrow> cformat" where
  "set_table Defines_c2s t st = st\<lparr>m_defines_c2s := t\<rparr>"
| "set_table Defines_s2c t st = st\<lparr>m_defines_s2c := t\<rparr>"
| "set_table Proto_c2s t st = st\<lparr>m_proto_c2s := t\<rparr>"
| "set_table Proto_s2c t st = st\<lparr>m_proto_s2c := t\<rparr>"

text \<open>\<open>init_table\<close>; for the table \<open>None\<close> the test \<open>key not in table\<close> is a \<open>TypeError\<close>.\<close>

definition init_table :: "which option \<Rightarrow> string \<Rightarrow> cformat \<Rightarrow> cformat res" where
  "init_table w key st =
     (case w of
        None \<Rightarrow> Inl TypeError
      | Some w \<Rightarrow>
          Inr (case aget (table_of st w) key of
                 None \<Rightarrow> set_table w (aput (table_of st w) key []) st
               | Some _ \<Rightarrow> st))"

text \<open>\<open>table[coll][name] = value\<close>.\<close>

definition set_proto :: "string \<Rightarrow> string \<Rightarrow> nat \<Rightarrow> proto_table \<Rightarrow> proto_table res" where
  "set_proto coll name value t =
     rbind (of_option KeyError (aget t coll)) (\<lambda>info. Inr (aput t coll (aput info name value)))"

definition put_proto :: "which option \<Rightarrow> string \<Rightarrow> string \<Rightarrow> nat \<Rightarrow> cformat \<Rightarrow> cformat res" where
  "put_proto w coll name value st =
     (case w of
        None \<Rightarrow> Inl TypeError
      | Some w \<Rightarrow> rbind (set_proto coll name value (table_of st w)) (\<lambda>t. Inr (set_table w t st)))"

section \<open>Reading\<close>

text \<open>
  \<open>(\S+)\.(\S+)(.*)=(.*){\<close>, \<open>(\S+)(.*)=([^0-9]+)(\d+),\<close> and \<open>(message)(.)(\S+)(.*){\<close>, with
  the groups the code reads.
\<close>

definition p_define :: "re_item list" where
  "p_define = [Plus NonSpace, One (Lit (CHR ''.'')), Plus NonSpace, Star AnyChar, One (Lit (CHR ''='')),
     Star AnyChar, One (Lit (CHR ''{''))]"

definition match_define :: "string \<Rightarrow> (string \<times> string) option" where
  "match_define line =
     (case re_match p_define line of Some (d # _ # c # _) \<Rightarrow> Some (strip d, strip c) | _ \<Rightarrow> None)"

definition p_proto :: "re_item list" where
  "p_proto = [Plus NonSpace, Star AnyChar, One (Lit (CHR ''='')), Plus NonDigit, Plus Digit, One (Lit (CHR '',''))]"

definition match_proto :: "string \<Rightarrow> (string \<times> nat) option" where
  "match_proto line =
     (case re_match p_proto line of
        Some (p # _ # _ # _ # v # _) \<Rightarrow> Some (strip p, nat_of_digits (strip v)) | _ \<Rightarrow> None)"

definition p_message :: "re_item list" where
  "p_message = lits ''message'' @ [One AnyChar, Plus NonSpace, Star AnyChar, One (Lit (CHR ''{''))]"

definition match_message :: "string \<Rightarrow> string option" where
  "match_message line = map_option (\<lambda>ps. ps ! 8) (re_match p_message line)"

text \<open>
  One line of \<open>process_defines\<close>. The variables \<open>table\<close> and \<open>coll\<close> keep the last section's table
  and name; using them before the first section is an error of unbound names.
\<close>

type_synonym section_vars = "(which option \<times> string) option"

definition define_line :: "string \<Rightarrow> cformat \<times> section_vars \<Rightarrow> (cformat \<times> section_vars) res" where
  "define_line line = (\<lambda>(st, cur).
     (let line = strip line in
      rbind (case match_define line of
               None \<Rightarrow> Inr (st, cur)
             | Some (define, coll) \<Rightarrow>
                 rbind (init_table (get_table define) coll st) (\<lambda>st. Inr (st, Some (get_table define, coll))))
        (\<lambda>(st, cur).
           case match_proto line of
             None \<Rightarrow> Inr (st, cur)
           | Some (proto, value) \<Rightarrow>
               (case cur of
                  None \<Rightarrow> Inl NameError
                | Some (w, coll) \<Rightarrow> rbind (put_proto w coll proto value st) (\<lambda>st. Inr (st, cur))))))"

definition process_defines :: "string \<Rightarrow> cformat \<Rightarrow> cformat res" where
  "process_defines content st = rbind (rfold define_line (readlines content) (st, None)) (\<lambda>(st, cur). Inr st)"

text \<open>One line of a \<open>.proto\<close> file: a new message gets the number 0 for now.\<close>

definition proto_line :: "which option \<Rightarrow> string \<Rightarrow> string \<Rightarrow> cformat \<Rightarrow> cformat res" where
  "proto_line w coll line st =
     (case match_message line of
        None \<Rightarrow> Inr st
      | Some func \<Rightarrow>
          (case w of
             None \<Rightarrow> Inl TypeError
           | Some w' \<Rightarrow>
               rbind (of_option KeyError (aget (table_of st w') coll)) (\<lambda>info.
               if aget info func \<noteq> None then Inr st
               else if \<not> prefix ''GS2C'' func \<and> \<not> prefix ''C2GS'' func then Inr st
               else put_proto w coll func 0 st)))"

text \<open>\<open>l[-1]\<close> and \<open>l[-2]\<close>.\<close>

definition from_end :: "nat \<Rightarrow> 'a list \<Rightarrow> 'a res" where
  "from_end k xs = (if k \<le> length xs \<and> 0 < k then Inr (xs ! (length xs - k)) else Inl IndexError)"

definition process_proto_file :: "(string \<Rightarrow> string res) \<Rightarrow> string \<Rightarrow> cformat \<Rightarrow> cformat res" where
  "process_proto_file read file_name st =
     (if sublist ''base/common.proto'' file_name then Inr st
      else if \<not> sublist ''cs_common'' file_name then Inr st
      else
        let name_list = split_on (CHR ''/'') file_name in
        rbind (from_end 2 name_list) (\<lambda>define.
        rbind (from_end 1 name_list) (\<lambda>base.
        let coll = hd (split_on (CHR ''.'') base); w = get_table define in
        rbind (init_table w coll st) (\<lambda>st.
        rbind (read file_name) (\<lambda>content.
        rfold (proto_line w coll) (readlines content) st)))))"

definition process_proto :: "(string \<Rightarrow> string res) \<Rightarrow> string list \<Rightarrow> cformat \<Rightarrow> cformat res" where
  "process_proto read file_list st = rfold (process_proto_file read) file_list st"

section \<open>Numbering\<close>

text \<open>\<open>while v in values: v += 1\<close>, the loop of both searches.\<close>

function fresh_from :: "nat list \<Rightarrow> nat \<Rightarrow> nat" where
  "fresh_from vs v = (if v \<in> set vs then fresh_from vs (Suc v) else v)"
  by pat_completeness auto
termination
proof (relation "measure (\<lambda>(vs, v). card {x \<in> set vs. v \<le> x})")
  fix vs :: "nat list" and v assume "v \<in> set vs"
  then have "v \<in> {x \<in> set vs. v \<le> x} - {x \<in> set vs. Suc v \<le> x}" by simp
  moreover have "{x \<in> set vs. Suc v \<le> x} \<subseteq> {x \<in> set vs. v \<le> x}" by (simp add: Collect_mono Suc_leD)
  ultimately have "{x \<in> set vs. Suc v \<le> x} \<subset> {x \<in> set vs. v \<le> x}" by (metis DiffD1 DiffD2 psubsetI)
  then have "card {x \<in> set vs. Suc v \<le> x} < card {x \<in> set vs. v \<le> x}"
    by (intro psubset_card_mono) simp
  then show "((vs, Suc v), (vs, v)) \<in> measure (\<lambda>(vs, v). card {x \<in> set vs. v \<le> x})" by simp
qed simp

declare fresh_from.simps [simp del]

definition choose_proto_val :: "proto_table \<Rightarrow> string \<Rightarrow> nat \<Rightarrow> nat res" where
  "choose_proto_val t coll range_value =
     rbind (of_option KeyError (aget t coll)) (\<lambda>info. Inr (fresh_from (map snd info) (range_value * 1000 + 1)))"

definition get_range_value :: "(string \<times> nat) list \<Rightarrow> nat" where
  "get_range_value sort_table = fresh_from (map snd sort_table) 1"

text \<open>
  \<open>for coll, info in proto_table.items()\<close>: a message that has a number keeps it; a collection or a
  message that has none is noted.
\<close>

record todo =
  new_coll_list :: "string list"
  sup_coll_list :: "(string \<times> string) list"

definition keep_name ::
  "string \<Rightarrow> protos \<Rightarrow> string \<times> nat \<Rightarrow> proto_table \<times> todo \<Rightarrow> (proto_table \<times> todo) res" where
  "keep_name coll dinfo = (\<lambda>(name, value) (t, td).
     case aget dinfo name of
       None \<Rightarrow> Inr (t, td\<lparr>sup_coll_list := sup_coll_list td @ [(coll, name)]\<rparr>)
     | Some v \<Rightarrow> rbind (set_proto coll name v t) (\<lambda>t. Inr (t, td)))"

definition keep_coll ::
  "proto_table \<Rightarrow> string \<times> protos \<Rightarrow> proto_table \<times> todo \<Rightarrow> (proto_table \<times> todo) res" where
  "keep_coll defines_table = (\<lambda>(coll, info) (t, td).
     case aget defines_table coll of
       None \<Rightarrow> Inr (t, td\<lparr>new_coll_list := new_coll_list td @ [coll]\<rparr>)
     | Some dinfo \<Rightarrow> rfold (keep_name coll dinfo) info (t, td))"

text \<open>The block of a collection: that of its first message.\<close>

definition first_block :: "(string \<times> protos) \<Rightarrow> (string \<times> nat) list \<Rightarrow> (string \<times> nat) list" where
  "first_block = (\<lambda>(coll, info) st. case info of [] \<Rightarrow> st | (name, value) # _ \<Rightarrow> aput st coll (value div 1000))"

definition blocks_of :: "proto_table \<Rightarrow> (string \<times> nat) list" where
  "blocks_of table = fold first_block table []"

definition number_sup ::
  "(string \<times> nat) list \<Rightarrow> string \<times> string \<Rightarrow> proto_table \<Rightarrow> proto_table res" where
  "number_sup sort_coll_table = (\<lambda>(coll, name) t.
     rbind (of_option KeyError (aget sort_coll_table coll)) (\<lambda>range_value.
     rbind (choose_proto_val t coll range_value) (\<lambda>proto_value. set_proto coll name proto_value t)))"

definition number_name :: "string \<Rightarrow> nat \<Rightarrow> string \<times> nat \<Rightarrow> proto_table \<Rightarrow> proto_table res" where
  "number_name coll range_value = (\<lambda>(name, _) t.
     rbind (choose_proto_val t coll range_value) (\<lambda>proto_value. set_proto coll name proto_value t))"

definition number_new ::
  "string \<Rightarrow> proto_table \<times> (string \<times> nat) list \<Rightarrow> (proto_table \<times> (string \<times> nat) list) res" where
  "number_new coll = (\<lambda>(t, sort_coll_table).
     let range_value = get_range_value sort_coll_table in
     rbind (of_option KeyError (aget t coll)) (\<lambda>info.
     rbind (rfold (number_name coll range_value) info t) (\<lambda>t.
     Inr (t, aput sort_coll_table coll range_value))))"

definition gen_result :: "proto_table \<Rightarrow> proto_table \<Rightarrow> proto_table res" where
  "gen_result defines_table proto_table =
     rbind (rfold (keep_coll defines_table) proto_table
              (proto_table, \<lparr>new_coll_list = [], sup_coll_list = []\<rparr>)) (\<lambda>(t, td).
     rbind (rfold (number_sup (blocks_of defines_table)) (sup_coll_list td) t) (\<lambda>t.
     rbind (rfold number_new (new_coll_list td) (t, blocks_of defines_table)) (\<lambda>(t, _). Inr t)))"

section \<open>Writing\<close>

text \<open>
  \<open>sorted(keys, cmp)\<close>: the comparison functions of the code order by the number; the order of
  entries with the same number depends on the sorting routine, the model keeps the table's.
\<close>

definition format_line :: "string \<times> nat \<Rightarrow> string" where
  "format_line = (\<lambda>(proto, value). ''    '' @ proto @ '' = '' @ str_of_nat value @ '','')"

definition format_table :: "string \<Rightarrow> string \<Rightarrow> protos \<Rightarrow> string" where
  "format_table type coll table =
     (let templ = (if type = ''client'' then ''C2GS_DEFINES.'' else ''GS2C_DEFINES.'')
                  @ coll @ '' = {'' @ [newline] @ ''$content}'' @ [newline];
          string_list = map format_line (sort_key snd table)
      in str_replace ''$content'' (join [newline] string_list @ [newline]) templ)"

text \<open>
  Comparing two collections looks up both blocks: with two collections or more, one without
  messages is a \<open>KeyError\<close>.
\<close>

definition format_proto_define :: "string \<Rightarrow> cformat \<Rightarrow> string res" where
  "format_proto_define type st =
     (case get_table type of
        None \<Rightarrow> Inl AttributeError
      | Some w \<Rightarrow>
          let table = table_of st w; pto_value = blocks_of table in
          if 2 \<le> length table \<and> list_ex (\<lambda>(coll, info). info = []) table then Inl KeyError
          else Inr (join [newline]
                 (map (\<lambda>(coll, info). format_table type coll info)
                   (sort_key (\<lambda>(coll, info). case aget pto_value coll of Some v \<Rightarrow> v | None \<Rightarrow> 0) table))))"

text \<open>The section between two marks is replaced; the rest of the file stays.\<close>

definition replace_section :: "string \<Rightarrow> string \<Rightarrow> string \<Rightarrow> string \<Rightarrow> string res" where
  "replace_section begin_mark end_mark section_text all_content =
     rbind (str_index begin_mark all_content) (\<lambda>idx_start.
     rbind (str_index end_mark all_content) (\<lambda>idx_end.
     Inr (take (idx_start + length begin_mark) all_content @ [newline, newline] @ section_text
          @ drop idx_end all_content)))"

definition output_section :: "string \<Rightarrow> string \<Rightarrow> string \<Rightarrow> cformat \<Rightarrow> string \<Rightarrow> string res" where
  "output_section begin_mark end_mark type st all_content =
     rbind (str_index begin_mark all_content) (\<lambda>_.
     rbind (str_index end_mark all_content) (\<lambda>_.
     rbind (format_proto_define type st) (\<lambda>text.
     replace_section begin_mark end_mark text all_content)))"

text \<open>
  The file is written after each section: the result is its text at the end, and the exception
  that stopped the second section or the first.
\<close>

definition do_output :: "cformat \<Rightarrow> string \<Rightarrow> string \<times> unit res" where
  "do_output st all_content =
     (case output_section ''--C2GS BEGIN'' ''--C2GS END'' ''client'' st all_content of
        Inl e \<Rightarrow> (all_content, Inl e)
      | Inr content \<Rightarrow>
          (case output_section ''--GS2C BEGIN'' ''--GS2C END'' ''server'' st content of
             Inl e \<Rightarrow> (content, Inl e)
           | Inr content' \<Rightarrow> (content', Inr ())))"

text \<open>
  The whole program. The two searches for files are commands of the shell: their exit status and
  output are arguments, as are the contents of the files. The result is the file with the
  definitions, its new text and the outcome; an exception before the writing leaves it alone.
\<close>

definition get_all_file :: "nat \<times> string \<Rightarrow> nat \<times> string \<Rightarrow> string list" where
  "get_all_file r1 r2 = (if fst r1 = 0 then [snd r1] else []) @ (if fst r2 = 0 then [snd r2] else [])"

definition do_process ::
  "(string \<Rightarrow> string res) \<Rightarrow> nat \<times> string \<Rightarrow> nat \<times> string \<Rightarrow> (string \<times> string \<times> unit res) res" where
  "do_process read r1 r2 =
     (case get_all_file r1 r2 of
        [] \<Rightarrow> Inl IndexError
      | file_defines # rest \<Rightarrow>
          rbind (read file_defines) (\<lambda>content.
          rbind (process_defines content init_format) (\<lambda>st.
          case rest of
            [] \<Rightarrow> Inl IndexError
          | protos # _ \<Rightarrow>
              rbind (process_proto read (split_on newline protos) st) (\<lambda>st.
              rbind (gen_result (m_defines_c2s st) (m_proto_c2s st)) (\<lambda>c2s.
              rbind (gen_result (m_defines_s2c st) (m_proto_s2c st)) (\<lambda>s2c.
              Inr (file_defines, do_output (st\<lparr>m_proto_c2s := c2s, m_proto_s2c := s2c\<rparr>) content)))))))"

section \<open>The search for a free number\<close>

text \<open>
  What both searches promise: the first number from a start that is not in use. Whatever is
  entered with such a number is told apart from what was there, and the number is not far from
  the start.
\<close>

locale fresh_search =
  fixes search :: "nat list \<Rightarrow> nat \<Rightarrow> nat"
  assumes free: "search vs v \<notin> set vs"
    and from_start: "v \<le> search vs v"
    and skipped: "v \<le> u \<Longrightarrow> u < search vs v \<Longrightarrow> u \<in> set vs"
begin

lemma least: "v \<le> u \<Longrightarrow> u \<notin> set vs \<Longrightarrow> search vs v \<le> u"
  using skipped by (meson not_le)

lemma near: "search vs v \<le> v + length vs"
proof -
  have "{v..<search vs v} \<subseteq> set vs" using skipped by auto
  then have "card {v..<search vs v} \<le> card (set vs)" by (intro card_mono) simp_all
  then show ?thesis using card_length [of vs] by simp
qed

lemma near_used: "search vs v \<le> v + card {x \<in> set vs. v \<le> x}"
proof -
  have "{v..<search vs v} \<subseteq> {x \<in> set vs. v \<le> x}" using skipped by auto
  then have "card {v..<search vs v} \<le> card {x \<in> set vs. v \<le> x}" by (intro card_mono) simp_all
  then show ?thesis by simp
qed

lemma distinct_add: "distinct vs \<Longrightarrow> distinct (search vs v # vs)"
  by (simp add: free)

end

interpretation fresh: fresh_search fresh_from
proof
  fix vs v u
  show "fresh_from vs v \<notin> set vs"
    by (induction vs v rule: fresh_from.induct) (subst fresh_from.simps, simp)
  show "v \<le> fresh_from vs v"
  proof (induction vs v rule: fresh_from.induct)
    case (1 vs v)
    then show ?case by (subst fresh_from.simps) (auto dest: Suc_leD)
  qed
  show "u \<in> set vs" if "v \<le> u" "u < fresh_from vs v"
    using that
  proof (induction vs v rule: fresh_from.induct)
    case (1 vs v)
    show ?case
    proof (cases "v \<in> set vs")
      case True
      with 1 show ?thesis by (cases "u = v") (auto simp: fresh_from.simps [of vs v])
    next
      case False
      with 1(3) have "u < v" by (simp add: fresh_from.simps [of vs v])
      with 1(2) show ?thesis by simp
    qed
  qed
qed

end
