(* ===== verification/FormatNumbers.thy ===== *)
theory FormatNumbers
  imports FormatProto
begin

text \<open>
  The numbering of the messages: what \<open>gen_result\<close> of \<open>shell/format_proto.py\<close> keeps of the
  numbers in use and what it promises of the new ones. \<open>nums\<close> reads a table as a map from pairs of
  a collection and a message to numbers, \<open>shape\<close> forgets the numbers, and \<open>numbered\<close> is the
  invariant of the three loops.
\<close>

section \<open>The numbers of the messages\<close>

text \<open>The number of a message; the messages of a table.\<close>

definition nums :: "proto_table \<Rightarrow> string \<times> string \<Rightarrow> nat option" where
  "nums t p = (case aget t (fst p) of None \<Rightarrow> None | Some info \<Rightarrow> aget info (snd p))"

definition entries :: "proto_table \<Rightarrow> (string \<times> string \<times> nat) list" where
  "entries t = concat (map (\<lambda>(coll, info). map (\<lambda>(name, v). (coll, name, v)) info) t)"

definition wf_table :: "proto_table \<Rightarrow> bool" where
  "wf_table t \<longleftrightarrow> distinct (map fst t) \<and> list_all (\<lambda>(coll, info). distinct (map fst info)) t"

lemma wf_table_get: "wf_table t \<Longrightarrow> aget t c = Some info \<Longrightarrow> distinct (map fst info)"
  by (auto simp: wf_table_def list_all_iff dest: aget_SomeD)

lemma entries_nums:
  assumes "wf_table t"
  shows "(c, n, v) \<in> set (entries t) \<longleftrightarrow> nums t (c, n) = Some v"
proof -
  have "(c, n, v) \<in> set (entries t) \<longleftrightarrow> (\<exists>info. (c, info) \<in> set t \<and> (n, v) \<in> set info)"
    by (force simp: entries_def)
  also have "\<dots> \<longleftrightarrow> (\<exists>info. aget t c = Some info \<and> aget info n = Some v)"
    using assms wf_table_get [OF assms] by (auto simp: wf_table_def aget_eq_Some)
  finally show ?thesis by (auto simp: nums_def split: option.splits)
qed

text \<open>The collections and the names of their messages, in order.\<close>

definition shape :: "proto_table \<Rightarrow> (string \<times> string list) list" where
  "shape t = map (\<lambda>(c, i). (c, map fst i)) t"

lemma set_proto_run:
  assumes "wf_table t" and "nums t (c, n) \<noteq> None"
  shows "\<exists>t'. set_proto c n v t = Inr t' \<and> wf_table t' \<and> nums t' = (nums t)((c, n) \<mapsto> v)
    \<and> shape t' = shape t"
proof -
  from assms(2) obtain info where info: "aget t c = Some info" "aget info n \<noteq> None"
    by (auto simp: nums_def split: option.splits)
  have di: "distinct (map fst info)" by (rule wf_table_get [OF assms(1) info(1)])
  have keys: "map fst (aput i n v) = map fst i" if "aget i n \<noteq> None" for i :: protos
    using that by (induction i n v rule: aput.induct) (auto split: if_splits)
  let ?t = "aput t c (aput info n v)"
  have "shape (aput u c (aput info n v)) = shape u" if "aget u c = Some info" for u
    using that keys [OF info(2)] by (induction u) (auto simp: shape_def split: if_splits)
  then have shape: "shape ?t = shape t" using info(1) .
  have "wf_table ?t"
  proof -
    have "map fst ?t = map fst t" using arg_cong [OF shape, of "map fst"] by (simp add: shape_def o_def case_prod_beta')
    moreover have "map (map fst \<circ> snd) ?t = map (map fst \<circ> snd) t"
      using arg_cong [OF shape, of "map snd"] by (simp add: shape_def o_def case_prod_beta')
    then have "list_all (distinct \<circ> (map fst \<circ> snd)) ?t = list_all (distinct \<circ> (map fst \<circ> snd)) t"
      by (metis list.pred_map)
    ultimately show ?thesis using assms(1) by (simp add: wf_table_def o_def case_prod_beta')
  qed
  moreover have "nums ?t = (nums t)((c, n) \<mapsto> v)"
    by (rule ext) (auto simp: nums_def info(1))
  ultimately show ?thesis using shape by (simp add: set_proto_def info(1))
qed

text \<open>
  The invariant of the numbering: the messages of a collection that have a number (0 is none) have
  different numbers, all in the block the collection has; and no collection has more messages than
  a block has room for.
\<close>

definition block_in :: "(string \<times> nat) list \<Rightarrow> string \<Rightarrow> nat" where
  "block_in st c = (case aget st c of Some b \<Rightarrow> b | None \<Rightarrow> 0)"

definition numbered :: "(string \<times> nat) list \<Rightarrow> proto_table \<Rightarrow> bool" where
  "numbered st t \<longleftrightarrow> wf_table t
     \<and> (\<forall>c n v. nums t (c, n) = Some v \<and> 0 < v \<longrightarrow> aget st c = Some (v div 1000))
     \<and> (\<forall>c n n' v. nums t (c, n) = Some v \<and> nums t (c, n') = Some v \<and> 0 < v \<longrightarrow> n = n')
     \<and> (\<forall>c info. aget t c = Some info \<longrightarrow> length info \<le> 998)"

lemma numberedD:
  "numbered st t \<Longrightarrow> wf_table t"
  "numbered st t \<Longrightarrow> nums t (c, n) = Some v \<Longrightarrow> 0 < v \<Longrightarrow> aget st c = Some (v div 1000)"
  "numbered st t \<Longrightarrow> nums t (c, n) = Some v \<Longrightarrow> nums t (c, n') = Some v \<Longrightarrow> 0 < v \<Longrightarrow> n = n'"
  "numbered st t \<Longrightarrow> aget t c = Some info \<Longrightarrow> length info \<le> 998"
  unfolding numbered_def by metis+

definition number_pair :: "(string \<times> nat) list \<Rightarrow> string \<times> string \<Rightarrow> proto_table \<Rightarrow> proto_table res" where
  "number_pair st = (\<lambda>(c, n) t. rbind (choose_proto_val t c (block_in st c)) (\<lambda>v. set_proto c n v t))"

lemma number_pair_step:
  assumes "numbered st t" and "nums t (c, n) \<noteq> None" and "aget st c = Some b"
  shows "\<exists>t' v. number_pair st (c, n) t = Inr t' \<and> numbered st t' \<and> nums t' = (nums t)((c, n) \<mapsto> v) \<and> 0 < v
    \<and> shape t' = shape t"
proof -
  from assms(2) obtain info where info: "aget t c = Some info"
    by (auto simp: nums_def split: option.splits)
  let ?v = "fresh_from (map snd info) (b * 1000 + 1)"
  have wf: "wf_table t" and len: "length info \<le> 998" using numberedD(1,4) [OF assms(1)] info by auto
  from set_proto_run [OF wf assms(2)] obtain t' where t': "set_proto c n ?v t = Inr t'" "wf_table t'"
    "nums t' = (nums t)((c, n) \<mapsto> ?v)"
    "shape t' = shape t" by blast
  have block: "?v div 1000 = b" "0 < ?v"
    using fresh.from_start [of "b * 1000 + 1" "map snd info"] fresh.near [of "map snd info" "b * 1000 + 1"] len
    by (auto intro: div_nat_eqI)
  have new: "nums t (c, m) \<noteq> Some ?v" for m
  proof
    assume "nums t (c, m) = Some ?v"
    then have "?v \<in> set (map snd info)" by (force simp: nums_def info dest: aget_SomeD)
    then show False using fresh.free by blast
  qed
  have "length i \<le> 998" if i: "aget t' d = Some i" for d i
  proof -
    have "map_of (map (\<lambda>(c, i). (c, length i)) t') d = map_of (map (\<lambda>(c, i). (c, length i)) t) d"
      using arg_cong [OF t'(4), of "map (\<lambda>(c, i). (c, length i))"] by (simp add: shape_def o_def case_prod_beta')
    then have "map_option length (aget t' d) = map_option length (aget t d)"
      by (simp add: aget_def map_of_map)
    then obtain j where "aget t d = Some j" "length j = length i"
      using i by (cases "aget t d") auto
    then show ?thesis using numberedD(4) [OF assms(1)] by metis
  qed
  moreover have "n1 = n2" if "nums t' (d, n1) = Some u" "nums t' (d, n2) = Some u" "0 < u" for d n1 n2 u
    using that numberedD(3) [OF assms(1), of d n1 u n2] new by (auto simp: t'(3) split: if_splits)
  moreover have "aget st d = Some (u div 1000)" if "nums t' (d, m) = Some u" "0 < u" for d m u
    using that numberedD(2) [OF assms(1), of d m u] assms(3) block by (auto simp: t'(3) split: if_splits)
  ultimately have "numbered st t'" using t'(2) by (auto simp: numbered_def)
  then show ?thesis using t' block(2) assms(3) info
    by (auto simp: number_pair_def choose_proto_val_def block_in_def simp del: rbind_eq_Inr)
qed

lemma number_pairs:
  assumes "numbered st t" and "\<And>p. p \<in> set ps \<Longrightarrow> nums t p \<noteq> None \<and> aget st (fst p) \<noteq> None"
  shows "\<exists>t'. rfold (number_pair st) ps t = Inr t' \<and> numbered st t'
    \<and> (\<forall>p. p \<notin> set ps \<longrightarrow> nums t' p = nums t p) \<and> (\<forall>p \<in> set ps. \<exists>v. nums t' p = Some v \<and> 0 < v)
    \<and> shape t' = shape t"
  using assms
proof (induction ps arbitrary: t)
  case (Cons p ps)
  obtain c n where p: "p = (c, n)" by (cases p)
  with Cons.prems(2) [of p] obtain b where b: "nums t (c, n) \<noteq> None" "aget st c = Some b" by auto
  from number_pair_step [OF Cons.prems(1) b] obtain t1 v where t1: "number_pair st (c, n) t = Inr t1"
    "numbered st t1" "nums t1 = (nums t)((c, n) \<mapsto> v)" "0 < v"
    "shape t1 = shape t" by blast
  have "nums t1 q \<noteq> None \<and> aget st (fst q) \<noteq> None" if "q \<in> set ps" for q
    using that Cons.prems(2) [of q] by (simp add: t1(3))
  from Cons.IH [OF t1(2) this] obtain t' where t': "rfold (number_pair st) ps t1 = Inr t'" "numbered st t'"
    "\<And>q. q \<notin> set ps \<Longrightarrow> nums t' q = nums t1 q" "\<And>q. q \<in> set ps \<Longrightarrow> \<exists>v. nums t' q = Some v \<and> 0 < v"
    "shape t' = shape t1" by blast
  have "\<exists>v. nums t' p = Some v \<and> 0 < v"
    using t'(3,4) [of p] t1(3,4) p by (cases "p \<in> set ps") auto
  then show ?case using t1 t' by (auto simp: p)
qed auto

text \<open>The messages of a table; those the definitions have keep their number.\<close>

definition pairs :: "proto_table \<Rightarrow> (string \<times> string) set" where
  "pairs t = {(c, n). \<exists>i. (c, i) \<in> set t \<and> n \<in> fst ` set i}"

lemma pairs_Cons: "pairs ((c, i) # t) = {c} \<times> fst ` set i \<union> pairs t"
  by (auto simp: pairs_def)

lemma pairs_nums: "wf_table t \<Longrightarrow> p \<in> pairs t \<longleftrightarrow> nums t p \<noteq> None"
proof -
  assume wf: "wf_table t"
  obtain c n where p: "p = (c, n)" by (cases p)
  have "p \<in> pairs t \<longleftrightarrow> (\<exists>v. (c, n, v) \<in> set (entries t))" by (force simp: pairs_def p entries_def)
  then show ?thesis using entries_nums [OF wf] by (simp add: p)
qed

lemma keep_names:
  assumes "wf_table t" and "\<And>n. n \<in> fst ` set info \<Longrightarrow> nums t (c, n) \<noteq> None"
  shows "\<exists>t'. rfold (keep_name c dinfo) info (t, td)
      = Inr (t', td\<lparr>sup_coll_list := sup_coll_list td @ map (Pair c) (filter (\<lambda>n. aget dinfo n = None) (map fst info))\<rparr>)
    \<and> wf_table t' \<and> shape t' = shape t
    \<and> (\<forall>d n. nums t' (d, n) = (if d = c \<and> n \<in> fst ` set info \<and> aget dinfo n \<noteq> None then aget dinfo n else nums t (d, n)))"
  using assms
proof (induction info arbitrary: t td)
  case (Cons nv info)
  obtain n v where nv: "nv = (n, v)" by (cases nv)
  show ?case
  proof (cases "aget dinfo n")
    case None
    from Cons.IH [of t "td\<lparr>sup_coll_list := sup_coll_list td @ [(c, n)]\<rparr>"] Cons.prems
    show ?thesis by (auto simp: nv keep_name_def None simp del: rbind_eq_Inr)
  next
    case (Some w)
    from set_proto_run [OF Cons.prems(1), of c n w] Cons.prems(2) nv obtain t1 where
      t1: "set_proto c n w t = Inr t1" "wf_table t1" "nums t1 = (nums t)((c, n) \<mapsto> w)" "shape t1 = shape t" by auto
    have "nums t1 (c, m) \<noteq> None" if "m \<in> fst ` set info" for m
      using that Cons.prems(2) [of m] by (simp add: t1(3) nv)
    from Cons.IH [OF t1(2) this, of td] obtain t' where t': "rfold (keep_name c dinfo) info (t1, td)
        = Inr (t', td\<lparr>sup_coll_list := sup_coll_list td @ map (Pair c) (filter (\<lambda>n. aget dinfo n = None) (map fst info))\<rparr>)"
      "wf_table t'" "shape t' = shape t1"
      "\<And>d m. nums t' (d, m) = (if d = c \<and> m \<in> fst ` set info \<and> aget dinfo m \<noteq> None then aget dinfo m else nums t1 (d, m))"
      by blast
    have "keep_name c dinfo nv (t, td) = Inr (t1, td)" by (simp add: keep_name_def nv Some t1(1))
    then show ?thesis using t' t1(3,4) Some by (auto simp: nv)
  qed
qed auto

lemma keep_colls:
  assumes "wf_table t" and "\<And>p. p \<in> pairs xs \<Longrightarrow> nums t p \<noteq> None"
  shows "\<exists>t' sup. rfold (keep_coll dt) xs (t, td)
      = Inr (t', td\<lparr>sup_coll_list := sup_coll_list td @ sup,
           new_coll_list := new_coll_list td @ filter (\<lambda>c. aget dt c = None) (map fst xs)\<rparr>)
    \<and> set sup = {p \<in> pairs xs. aget dt (fst p) \<noteq> None \<and> nums dt p = None}
    \<and> wf_table t' \<and> shape t' = shape t
    \<and> (\<forall>p. nums t' p = (if p \<in> pairs xs \<and> nums dt p \<noteq> None then nums dt p else nums t p))"
  using assms
proof (induction xs arbitrary: t td)
  case Nil
  then show ?case by (auto simp: pairs_def)
next
  case (Cons ci xs)
  obtain c info where ci: "ci = (c, info)" by (cases ci)
  show ?case
  proof (cases "aget dt c")
    case None
    then have none: "nums dt (c, n) = None" for n by (simp add: nums_def)
    have ex: "\<And>p. p \<in> pairs xs \<Longrightarrow> nums t p \<noteq> None" using Cons.prems(2) by (simp add: ci pairs_Cons)
    from Cons.IH [OF Cons.prems(1) ex, of "td\<lparr>new_coll_list := new_coll_list td @ [c]\<rparr>"] show ?thesis
      using None none by (fastforce simp: ci keep_coll_def pairs_Cons simp del: rbind_eq_Inr)
  next
    case (Some dinfo)
    have "\<And>n. n \<in> fst ` set info \<Longrightarrow> nums t (c, n) \<noteq> None" using Cons.prems(2) by (simp add: ci pairs_Cons)
    from keep_names [where dinfo = dinfo and td = td, OF Cons.prems(1) this] obtain t1 where t1: "rfold (keep_name c dinfo) info (t, td)
      = Inr (t1, td\<lparr>sup_coll_list := sup_coll_list td @ map (Pair c) (filter (\<lambda>n. aget dinfo n = None) (map fst info))\<rparr>)"
      "wf_table t1" "shape t1 = shape t"
      "\<And>d n. nums t1 (d, n) = (if d = c \<and> n \<in> fst ` set info \<and> aget dinfo n \<noteq> None then aget dinfo n else nums t (d, n))"
      by blast
    have dn: "nums dt (c, n) = aget dinfo n" for n by (simp add: nums_def Some)
    let ?new = "map (Pair c) (filter (\<lambda>n. aget dinfo n = None) (map fst info))"
    define td1 where "td1 = td\<lparr>sup_coll_list := sup_coll_list td @ ?new\<rparr>"
    have "\<And>p. p \<in> pairs xs \<Longrightarrow> nums t1 p \<noteq> None"
      using Cons.prems(2) by (auto simp: ci pairs_Cons t1(4))
    from Cons.IH [OF t1(2) this, of td1] obtain t' sup where t': "rfold (keep_coll dt) xs (t1, td1)
      = Inr (t', td1\<lparr>sup_coll_list := sup_coll_list td1 @ sup,
           new_coll_list := new_coll_list td1 @ filter (\<lambda>c. aget dt c = None) (map fst xs)\<rparr>)"
      "set sup = {p \<in> pairs xs. aget dt (fst p) \<noteq> None \<and> nums dt p = None}"
      "wf_table t'" "shape t' = shape t1"
      "\<And>p. nums t' p = (if p \<in> pairs xs \<and> nums dt p \<noteq> None then nums dt p else nums t1 p)"
      by blast
    have "nums t' p = (if p \<in> pairs (ci # xs) \<and> nums dt p \<noteq> None then nums dt p else nums t p)" for p
      by (cases p) (auto simp: t'(5) t1(4) ci pairs_Cons dn)
    moreover have "set (?new @ sup) = {p \<in> pairs (ci # xs). aget dt (fst p) \<noteq> None \<and> nums dt p = None}"
      unfolding set_append t'(2) by (auto simp: ci pairs_Cons dn Some)
    moreover have "rfold (keep_coll dt) (ci # xs) (t, td) = Inr (t', td\<lparr>sup_coll_list := sup_coll_list td @ (?new @ sup),
        new_coll_list := new_coll_list td @ filter (\<lambda>c. aget dt c = None) (map fst (ci # xs))\<rparr>)"
      using t1(1) t'(1) Some by (simp add: ci keep_coll_def td1_def del: rbind_eq_Inr)
    ultimately show ?thesis using t'(3,4) t1(3) by (intro exI [of _ t'] exI [of _ "?new @ sup"]) simp
  qed
qed


lemma rfold_map: "rfold f (map g xs) s = rfold (\<lambda>x. f (g x)) xs s"
  by (induction xs arbitrary: s) (simp, auto intro: arg_cong2 [where f = rbind])

lemma shape_nums:
  "nums t p \<noteq> None \<longleftrightarrow> (\<exists>ns. map_of (shape t) (fst p) = Some ns \<and> snd p \<in> set ns)"
proof -
  have "map_of (shape t) c = map_option (map fst) (aget t c)" for c
    by (simp add: shape_def aget_def map_of_map)
  then show ?thesis
  proof (cases "aget t (fst p)")
    case (Some info)
    with \<open>\<And>c. map_of (shape t) c = map_option (map fst) (aget t c)\<close> show ?thesis
      using aget_None_iff [of info "snd p"] by (auto simp: nums_def)
  qed (simp add: nums_def)
qed

lemma shape_dom: "shape t' = shape t \<Longrightarrow> nums t' p \<noteq> None \<longleftrightarrow> nums t p \<noteq> None"
  by (simp only: shape_nums)

lemma number_sups:
  "(\<And>p. p \<in> set ps \<Longrightarrow> aget st (fst p) \<noteq> None) \<Longrightarrow> rfold (number_sup st) ps t = rfold (number_pair st) ps t"
proof (rule rfold_cong)
  fix x s assume "x \<in> set ps" and "\<And>p. p \<in> set ps \<Longrightarrow> aget st (fst p) \<noteq> None"
  then obtain b where "aget st (fst x) = Some b" by blast
  then show "number_sup st x s = number_pair st x s"
    by (cases x) (simp add: number_sup_def number_pair_def block_in_def)
qed simp_all

lemma number_names:
  "rfold (number_name c r) info t = rfold (number_pair (aput st c r)) (map (\<lambda>(n, _). (c, n)) info) t"
  unfolding rfold_map
  by (rule rfold_cong) (auto simp: number_name_def number_pair_def block_in_def split: prod.splits)

definition blocks_inj :: "(string \<times> nat) list \<Rightarrow> bool" where
  "blocks_inj st \<longleftrightarrow> (\<forall>c d b. aget st c = Some b \<and> aget st d = Some b \<longrightarrow> c = d)"

lemma numbered_aput:
  assumes "numbered st t" and "\<forall>n v. nums t (c, n) = Some v \<longrightarrow> v = 0"
  shows "numbered (aput st c r) t"
  using assms unfolding numbered_def by (metis aget_aput less_irrefl)

lemma number_new_step:
  assumes "numbered st t" and "blocks_inj st" and "aget t c = Some info" and "aget st c = None"
    and "\<forall>n v. nums t (c, n) = Some v \<longrightarrow> v = 0"
  shows "\<exists>t' r. number_new c (t, st) = Inr (t', aput st c r) \<and> numbered (aput st c r) t' \<and> blocks_inj (aput st c r)
    \<and> shape t' = shape t \<and> (\<forall>p. fst p \<noteq> c \<longrightarrow> nums t' p = nums t p)
    \<and> (\<forall>p. fst p = c \<and> nums t p \<noteq> None \<longrightarrow> (\<exists>v. nums t' p = Some v \<and> 0 < v))"
proof -
  let ?r = "get_range_value st" and ?ps = "map (\<lambda>(n, _). (c, n)) info"
  have free: "aget st d \<noteq> Some ?r" for d
    using fresh.free [of "map snd st" 1] by (force simp: get_range_value_def dest: aget_SomeD)
  then have inj: "blocks_inj (aput st c ?r)" using assms(2) by (auto simp: blocks_inj_def)
  have ps: "p \<in> set ?ps \<longleftrightarrow> fst p = c \<and> nums t p \<noteq> None" for p
  proof -
    have "p \<in> set ?ps \<longleftrightarrow> fst p = c \<and> snd p \<in> fst ` set info" by (cases p) force
    also have "\<dots> \<longleftrightarrow> fst p = c \<and> nums t p \<noteq> None"
      using aget_None_iff [of info "snd p"] assms(3) by (auto simp: nums_def)
    finally show ?thesis .
  qed
  have "\<exists>t'. rfold (number_pair (aput st c ?r)) ?ps t = Inr t' \<and> numbered (aput st c ?r) t'
    \<and> (\<forall>p. p \<notin> set ?ps \<longrightarrow> nums t' p = nums t p) \<and> (\<forall>p \<in> set ?ps. \<exists>v. nums t' p = Some v \<and> 0 < v)
    \<and> shape t' = shape t"
    by (rule number_pairs [OF numbered_aput [OF assms(1,5)]]) (unfold ps, simp)
  then obtain t' where
    t': "rfold (number_pair (aput st c ?r)) ?ps t = Inr t'" "numbered (aput st c ?r) t'"
    "\<And>p. p \<notin> set ?ps \<Longrightarrow> nums t' p = nums t p" "\<And>p. p \<in> set ?ps \<Longrightarrow> \<exists>v. nums t' p = Some v \<and> 0 < v"
    "shape t' = shape t" by blast
  have "number_new c (t, st) = Inr (t', aput st c ?r)"
    by (simp add: number_new_def assms(3) number_names [where st = st] t'(1) Let_def del: rbind_eq_Inr)
  then show ?thesis using t'(2,5) inj t'(3,4) unfolding ps by blast
qed

lemma number_news:
  assumes "numbered st t" and "blocks_inj st" and "distinct cs"
    and "\<And>c. c \<in> set cs \<Longrightarrow> aget t c \<noteq> None \<and> aget st c = None"
    and "\<And>c n v. c \<in> set cs \<Longrightarrow> nums t (c, n) = Some v \<Longrightarrow> v = 0"
  shows "\<exists>t' st'. rfold number_new cs (t, st) = Inr (t', st') \<and> numbered st' t' \<and> blocks_inj st'
    \<and> shape t' = shape t \<and> (\<forall>p. fst p \<notin> set cs \<longrightarrow> nums t' p = nums t p)
    \<and> (\<forall>p. fst p \<in> set cs \<and> nums t p \<noteq> None \<longrightarrow> (\<exists>v. nums t' p = Some v \<and> 0 < v))"
  using assms
proof (induction cs arbitrary: t st)
  case (Cons c cs)
  from Cons.prems(4) [of c] obtain info where info: "aget t c = Some info" "aget st c = None" by auto
  have zero: "\<forall>n v. nums t (c, n) = Some v \<longrightarrow> v = 0" using Cons.prems(5) [of c] by simp
  from number_new_step [OF Cons.prems(1,2) info zero] obtain t1 r where
    t1: "number_new c (t, st) = Inr (t1, aput st c r)" "numbered (aput st c r) t1" "blocks_inj (aput st c r)"
    "shape t1 = shape t" "\<And>p. fst p \<noteq> c \<Longrightarrow> nums t1 p = nums t p"
    "\<And>p. fst p = c \<Longrightarrow> nums t p \<noteq> None \<Longrightarrow> \<exists>v. nums t1 p = Some v \<and> 0 < v" by auto
  have keys: "aget t1 d \<noteq> None \<longleftrightarrow> aget t d \<noteq> None" for d
  proof -
    have "map_option (map fst) (aget t1 d) = map_option (map fst) (aget t d)"
      using arg_cong [OF t1(4), of "\<lambda>s. map_of s d"] by (simp add: shape_def aget_def map_of_map)
    then show ?thesis by (cases "aget t1 d"; cases "aget t d") auto
  qed
  have "\<exists>t' st'. rfold number_new cs (t1, aput st c r) = Inr (t', st') \<and> numbered st' t' \<and> blocks_inj st'
    \<and> shape t' = shape t1 \<and> (\<forall>p. fst p \<notin> set cs \<longrightarrow> nums t' p = nums t1 p)
    \<and> (\<forall>p. fst p \<in> set cs \<and> nums t1 p \<noteq> None \<longrightarrow> (\<exists>v. nums t' p = Some v \<and> 0 < v))"
  proof (rule Cons.IH [OF t1(2,3)])
    show "distinct cs" using Cons.prems(3) by simp
    show "aget t1 d \<noteq> None \<and> aget (aput st c r) d = None" if "d \<in> set cs" for d
      using that Cons.prems(3) Cons.prems(4) [of d] keys by auto
    show "v = 0" if "d \<in> set cs" "nums t1 (d, n) = Some v" for d n v
      using that Cons.prems(3) Cons.prems(5) [of d n v] t1(5) [of "(d, n)"] by (cases "d = c") auto
  qed
  then obtain t' st' where t': "rfold number_new cs (t1, aput st c r) = Inr (t', st')" "numbered st' t'" "blocks_inj st'"
    "shape t' = shape t1" "\<And>p. fst p \<notin> set cs \<Longrightarrow> nums t' p = nums t1 p"
    "\<And>p. fst p \<in> set cs \<Longrightarrow> nums t1 p \<noteq> None \<Longrightarrow> \<exists>v. nums t' p = Some v \<and> 0 < v" by auto
  have "\<exists>v. nums t' p = Some v \<and> 0 < v" if "fst p \<in> set (c # cs)" "nums t p \<noteq> None" for p
  proof (cases "fst p = c")
    case True
    with Cons.prems(3) t1(6) [OF True that(2)] t'(5) [of p] show ?thesis by auto
  next
    case False
    with that t'(6) [of p] shape_dom [OF t1(4)] show ?thesis by auto
  qed
  moreover have "nums t' p = nums t p" if "fst p \<notin> set (c # cs)" for p
    using that t'(5) [of p] t1(5) [of p] by simp
  ultimately show ?case using t1(1) t'(1-4) t1(4) by auto
qed auto

text \<open>
  The definitions are in order: no collection is empty, the numbers of a collection are different
  and in one block of a thousand, and two collections have two blocks. The messages read have no
  number yet, and fit in a block.
\<close>

definition defines_ok :: "proto_table \<Rightarrow> bool" where
  "defines_ok dt \<longleftrightarrow> wf_table dt \<and> list_all (\<lambda>(coll, info). info \<noteq> []) dt
     \<and> list_all (\<lambda>(c, n, v). 0 < v \<and> list_all (\<lambda>(d, m, w).
          (v div 1000 = w div 1000 \<longleftrightarrow> c = d) \<and> (v = w \<longrightarrow> c = d \<and> n = m)) (entries dt)) (entries dt)"

definition protos_ok :: "proto_table \<Rightarrow> bool" where
  "protos_ok pt \<longleftrightarrow> wf_table pt \<and> list_all (\<lambda>(coll, info). length info \<le> 998 \<and> list_all (\<lambda>(n, v). v = 0) info) pt"

lemma defines_okD:
  assumes "defines_ok dt" and "nums dt (c, n) = Some v" and "nums dt (d, m) = Some w"
  shows "0 < v" and "v div 1000 = w div 1000 \<longleftrightarrow> c = d" and "v = w \<Longrightarrow> c = d \<and> n = m"
proof -
  have "wf_table dt" using assms(1) by (simp add: defines_ok_def)
  then have mem: "(c, n, v) \<in> set (entries dt)" "(d, m, w) \<in> set (entries dt)"
    using assms(2,3) by (simp_all add: entries_nums)
  note D = assms(1) [unfolded defines_ok_def, THEN conjunct2, THEN conjunct2, unfolded list_all_iff,
      THEN bspec, OF mem(1), unfolded prod.case]
  note D2 = D [THEN conjunct2, THEN bspec, OF mem(2), unfolded prod.case]
  from D show "0 < v" by simp
  from D2 show "v div 1000 = w div 1000 \<longleftrightarrow> c = d" "v = w \<Longrightarrow> c = d \<and> n = m" by simp_all
qed

lemma blocks_of_get:
  assumes "distinct (map fst t)"
  shows "aget (fold first_block t st) c
    = (case aget t c of Some ((n, v) # _) \<Rightarrow> Some (v div 1000) | _ \<Rightarrow> aget st c)"
  using assms
proof (induction t arbitrary: st)
  case (Cons ci t)
  obtain d info where ci: "ci = (d, info)" by (cases ci)
  have "aget t d = None" using Cons.prems by (simp add: ci aget_None_iff)
  with Cons show ?case by (cases info) (auto simp: ci first_block_def split: option.splits list.splits)
qed simp

lemma defines_block:
  assumes "defines_ok dt" and "nums dt (c, n) = Some v"
  shows "aget (blocks_of dt) c = Some (v div 1000)"
proof -
  from assms(2) obtain info where info: "aget dt c = Some info" "aget info n = Some v"
    by (auto simp: nums_def split: option.splits)
  then obtain m w rest where i: "info = (m, w) # rest" by (cases info) auto
  then have "nums dt (c, m) = Some w" by (simp add: nums_def info(1))
  from defines_okD(2) [OF assms(1) assms(2) this] assms(1) info(1) i show ?thesis
    by (simp add: blocks_of_def blocks_of_get defines_ok_def wf_table_def)
qed

lemma defines_dom:
  assumes "defines_ok dt" and "aget dt c = Some info"
  shows "\<exists>n v. nums dt (c, n) = Some v"
proof -
  have "(c, info) \<in> set dt" using assms(2) by (rule aget_SomeD)
  then have "info \<noteq> []" using assms(1) by (auto simp: defines_ok_def list_all_iff)
  then show ?thesis using assms(2) by (cases info) (auto simp: nums_def)
qed

lemma blocks_dom:
  assumes "defines_ok dt"
  shows "aget (blocks_of dt) c \<noteq> None \<longleftrightarrow> aget dt c \<noteq> None"
proof (cases "aget dt c")
  case None
  with assms show ?thesis by (simp add: blocks_of_def blocks_of_get defines_ok_def wf_table_def)
next
  case (Some info)
  with defines_dom [OF assms Some] defines_block [OF assms] show ?thesis by blast
qed

lemma blocks_of_inj:
  assumes "defines_ok dt"
  shows "blocks_inj (blocks_of dt)"
  unfolding blocks_inj_def
proof (intro allI impI)
  fix c d b assume b: "aget (blocks_of dt) c = Some b \<and> aget (blocks_of dt) d = Some b"
  then have "aget dt c \<noteq> None" "aget dt d \<noteq> None" using blocks_dom [OF assms] by force+
  then obtain n v m w where nv: "nums dt (c, n) = Some v" "nums dt (d, m) = Some w"
    using defines_dom [OF assms] by blast
  with defines_block [OF assms] b have "v div 1000 = w div 1000" by force
  with defines_okD(2) [OF assms nv] show "c = d" by simp
qed

lemma protos_zero:
  assumes "protos_ok pt" and "nums pt (c, n) = Some v"
  shows "v = 0"
proof -
  have "(c, n, v) \<in> set (entries pt)" using assms by (simp add: entries_nums protos_ok_def)
  with assms(1) show ?thesis by (fastforce simp: entries_def protos_ok_def list_all_iff)
qed

lemma shape_keys: "shape t = shape t' \<Longrightarrow> fst ` set t = fst ` set t'"
proof -
  assume "shape t = shape t'"
  then have "map fst (shape t) = map fst (shape t')" by simp
  then have "map fst t = map fst t'" by (simp add: shape_def o_def case_prod_beta')
  then show ?thesis by (metis list.set_map)
qed

lemma keep_numbered:
  assumes "defines_ok dt" and "protos_ok pt" and "wf_table t" and "shape t = shape pt"
    and "\<And>p. nums t p = (if p \<in> pairs pt \<and> nums dt p \<noteq> None then nums dt p else nums pt p)"
  shows "numbered (blocks_of dt) t"
proof -
  have wf: "wf_table pt" using assms(2) by (simp add: protos_ok_def)
  note zero = protos_zero [OF assms(2)]
  have pos: "nums dt (c, n) = Some v" if "nums t (c, n) = Some v" "0 < v" for c n v
    using that zero by (auto simp: assms(5) split: if_splits)
  have "length info \<le> 998" if g: "aget t c = Some info" for c info
  proof -
    have "map_option (map fst) (aget t c) = map_option (map fst) (aget pt c)"
      using arg_cong [OF assms(4), of "\<lambda>s. map_of s c"] by (simp add: shape_def aget_def map_of_map)
    then obtain i where "aget pt c = Some i" "map fst i = map fst info"
      unfolding g by (cases "aget pt c") auto
    then show ?thesis using assms(2) by (auto simp: protos_ok_def list_all_iff dest!: aget_SomeD map_eq_imp_length_eq)
  qed
  then show ?thesis
    using assms(3) pos defines_block [OF assms(1)] defines_okD(3) [OF assms(1)]
    unfolding numbered_def by metis
qed

text \<open>The collections that are not in the definitions.\<close>

definition new_colls :: "proto_table \<Rightarrow> proto_table \<Rightarrow> string list" where
  "new_colls dt pt = filter (\<lambda>c. aget dt c = None) (map fst pt)"

text \<open>The first two loops: the numbers of the definitions, and numbers for new messages of known collections.\<close>

lemma gen_known_colls:
  assumes "defines_ok dt" and "protos_ok pt"
  obtains t1 sup t2 where
    "rfold (keep_coll dt) pt (pt, \<lparr>new_coll_list = [], sup_coll_list = []\<rparr>)
      = Inr (t1, \<lparr>new_coll_list = new_colls dt pt, sup_coll_list = sup\<rparr>)"
    and "rfold (number_sup (blocks_of dt)) sup t1 = Inr t2" and "numbered (blocks_of dt) t2" and "shape t2 = shape pt"
    and "\<And>p v. nums dt p = Some v \<Longrightarrow> nums pt p \<noteq> None \<Longrightarrow> nums t2 p = Some v"
    and "\<And>p. aget dt (fst p) \<noteq> None \<Longrightarrow> nums dt p = None \<Longrightarrow> nums pt p \<noteq> None \<Longrightarrow> \<exists>v. nums t2 p = Some v \<and> 0 < v"
    and "\<And>p. aget dt (fst p) = None \<Longrightarrow> nums t2 p = nums pt p"
proof -
  let ?st = "blocks_of dt"
  have wf: "wf_table pt" using assms(2) by (simp add: protos_ok_def)
  from keep_colls [of pt pt dt "\<lparr>new_coll_list = [], sup_coll_list = []\<rparr>"] pairs_nums [OF wf] wf obtain t1 sup where
    k: "rfold (keep_coll dt) pt (pt, \<lparr>new_coll_list = [], sup_coll_list = []\<rparr>)
        = Inr (t1, \<lparr>new_coll_list = new_colls dt pt, sup_coll_list = sup\<rparr>)"
      "set sup = {p \<in> pairs pt. aget dt (fst p) \<noteq> None \<and> nums dt p = None}" "wf_table t1" "shape t1 = shape pt"
      "\<And>p. nums t1 p = (if p \<in> pairs pt \<and> nums dt p \<noteq> None then nums dt p else nums pt p)"
    by (auto simp: new_colls_def)
  have num1: "numbered ?st t1" by (rule keep_numbered [OF assms k(3,4,5)])
  have "nums t1 p \<noteq> None \<and> aget ?st (fst p) \<noteq> None" if "p \<in> set sup" for p
    using that pairs_nums [OF wf] shape_dom [OF k(4)] blocks_dom [OF assms(1)] unfolding k(2) by blast
  with number_pairs [OF num1, of sup] number_sups [of sup ?st t1] obtain t2 where
    t2: "rfold (number_sup ?st) sup t1 = Inr t2" "numbered ?st t2" "\<And>p. p \<notin> set sup \<Longrightarrow> nums t2 p = nums t1 p"
      "\<And>p. p \<in> set sup \<Longrightarrow> \<exists>v. nums t2 p = Some v \<and> 0 < v" "shape t2 = shape pt"
    using k(4) by auto
  show thesis
  proof (rule that [OF k(1) t2(1,2,5)])
    show "nums t2 p = Some v" if "nums dt p = Some v" "nums pt p \<noteq> None" for p v
      using that t2(3) k(2,5) pairs_nums [OF wf] by simp
    show "\<exists>v. nums t2 p = Some v \<and> 0 < v"
      if "aget dt (fst p) \<noteq> None" "nums dt p = None" "nums pt p \<noteq> None" for p
      using that t2(4) k(2) pairs_nums [OF wf] by simp
    show "nums t2 p = nums pt p" if "aget dt (fst p) = None" for p
    proof -
      have "nums dt p = None" using that by (simp add: nums_def)
      then show ?thesis using that t2(3) k(2,5) by simp
    qed
  qed
qed

text \<open>The third loop: a block of numbers for every new collection.\<close>

lemma gen_all_colls:
  assumes "defines_ok dt" and "protos_ok pt"
  obtains t st where "gen_result dt pt = Inr t" and "numbered st t" and "blocks_inj st" and "shape t = shape pt"
    and "\<And>p v. nums dt p = Some v \<Longrightarrow> nums pt p \<noteq> None \<Longrightarrow> nums t p = Some v"
    and "\<And>p. nums dt p = None \<Longrightarrow> nums pt p \<noteq> None \<Longrightarrow> \<exists>v. nums t p = Some v \<and> 0 < v"
proof -
  let ?st = "blocks_of dt" and ?new = "new_colls dt pt"
  obtain t1 sup t2 where run:
    "rfold (keep_coll dt) pt (pt, \<lparr>new_coll_list = [], sup_coll_list = []\<rparr>)
      = Inr (t1, \<lparr>new_coll_list = ?new, sup_coll_list = sup\<rparr>)"
    "rfold (number_sup ?st) sup t1 = Inr t2"
    and t2: "numbered ?st t2" "shape t2 = shape pt"
      "\<And>p v. nums dt p = Some v \<Longrightarrow> nums pt p \<noteq> None \<Longrightarrow> nums t2 p = Some v"
      "\<And>p. aget dt (fst p) \<noteq> None \<Longrightarrow> nums dt p = None \<Longrightarrow> nums pt p \<noteq> None \<Longrightarrow> \<exists>v. nums t2 p = Some v \<and> 0 < v"
      "\<And>p. aget dt (fst p) = None \<Longrightarrow> nums t2 p = nums pt p"
  proof (rule gen_known_colls [OF assms], goal_cases)
    case 1
    from 1(2-) show ?case by (rule 1(1))
  qed
  have wf: "wf_table pt" using assms(2) by (simp add: protos_ok_def)
  have new: "c \<in> set ?new \<longleftrightarrow> aget pt c \<noteq> None \<and> aget dt c = None" for c
    by (auto simp: new_colls_def aget_None_iff)
  have "\<exists>t3 st'. rfold number_new ?new (t2, ?st) = Inr (t3, st') \<and> numbered st' t3 \<and> blocks_inj st'
    \<and> shape t3 = shape t2 \<and> (\<forall>p. fst p \<notin> set ?new \<longrightarrow> nums t3 p = nums t2 p)
    \<and> (\<forall>p. fst p \<in> set ?new \<and> nums t2 p \<noteq> None \<longrightarrow> (\<exists>v. nums t3 p = Some v \<and> 0 < v))"
  proof (rule number_news [OF t2(1) blocks_of_inj [OF assms(1)]])
    show "distinct ?new" using wf by (simp add: wf_table_def new_colls_def)
    show "aget t2 c \<noteq> None \<and> aget ?st c = None" if "c \<in> set ?new" for c
      using that blocks_dom [OF assms(1), of c] shape_keys [OF t2(2)] by (auto simp: new aget_None_iff)
    show "v = 0" if "c \<in> set ?new" "nums t2 (c, n) = Some v" for c n v
      using that t2(5) protos_zero [OF assms(2)] by (simp add: new)
  qed
  then obtain t3 st' where t3: "rfold number_new ?new (t2, ?st) = Inr (t3, st')" "numbered st' t3" "blocks_inj st'"
    "shape t3 = shape t2" "\<And>p. fst p \<notin> set ?new \<Longrightarrow> nums t3 p = nums t2 p"
    "\<And>p. fst p \<in> set ?new \<Longrightarrow> nums t2 p \<noteq> None \<Longrightarrow> \<exists>v. nums t3 p = Some v \<and> 0 < v" by auto
  have dt: "aget dt (fst p) \<noteq> None" if "nums dt p = Some v" for p v
    using that by (cases "aget dt (fst p)") (simp_all add: nums_def)
  show thesis
  proof (rule that [OF _ t3(2,3)])
    show "gen_result dt pt = Inr t3" using run t3(1) by (simp add: gen_result_def del: rbind_eq_Inr)
    show "shape t3 = shape pt" using t2(2) t3(4) by simp
    show "nums t3 p = Some v" if "nums dt p = Some v" "nums pt p \<noteq> None" for p v
      using that t3(5) t2(3) dt by (simp add: new)
    show "\<exists>v. nums t3 p = Some v \<and> 0 < v" if p: "nums dt p = None" "nums pt p \<noteq> None" for p
    proof (cases "aget dt (fst p)")
      case None
      have "aget pt (fst p) \<noteq> None" using p(2) by (cases "aget pt (fst p)") (simp_all add: nums_def)
      then show ?thesis using t3(6) t2(5) p(2) None by (simp add: new)
    next
      case (Some info)
      with t2(4) [of p] t3(5) [of p] p show ?thesis by (simp add: new)
    qed
  qed
qed

text \<open>
  C17: the numbering. It ends without an exception; the tables keep their collections and messages;
  a message that had a number in the definitions keeps it; and at the end every message has a
  positive number which no other message of the table has.
\<close>

theorem gen_result_numbers:
  assumes "defines_ok dt" and "protos_ok pt"
  shows "\<exists>t. gen_result dt pt = Inr t \<and> shape t = shape pt
    \<and> (\<forall>p v. nums dt p = Some v \<and> nums pt p \<noteq> None \<longrightarrow> nums t p = Some v)
    \<and> (\<forall>p q v. nums t p = Some v \<and> nums t q = Some v \<longrightarrow> 0 < v \<and> p = q)"
proof -
  obtain t st where t: "gen_result dt pt = Inr t" "numbered st t" "blocks_inj st" "shape t = shape pt"
    "\<And>p v. nums dt p = Some v \<Longrightarrow> nums pt p \<noteq> None \<Longrightarrow> nums t p = Some v"
    "\<And>p. nums dt p = None \<Longrightarrow> nums pt p \<noteq> None \<Longrightarrow> \<exists>v. nums t p = Some v \<and> 0 < v"
  proof (rule gen_all_colls [OF assms], goal_cases)
    case 1
    from 1(2-) show ?case by (rule 1(1))
  qed
  have pos: "0 < v" if "nums t p = Some v" for p v
  proof -
    have d: "nums pt p \<noteq> None" using that shape_dom [OF t(4), of p] by simp
    show ?thesis
    proof (cases "nums dt p")
      case None
      from t(6) [OF None d] that show ?thesis by simp
    next
      case (Some w)
      then have "v = w" using t(5) [OF Some d] that by simp
      then show ?thesis using defines_okD(1) [OF assms(1), of "fst p" "snd p" v "fst p" "snd p" v] Some by simp
    qed
  qed
  have "p = q" if "nums t p = Some v" "nums t q = Some v" for p q v
    using numberedD(2,3) [OF t(2)] t(3) pos that unfolding blocks_inj_def
    by (cases p; cases q) (metis (no_types, lifting))
  with t(1,4,5) pos show ?thesis by blast
qed

lemma gen_result_numbers_witness:
  "\<exists>t. gen_result [(''login'', [(''C2GSLogin'', 1001)])]
         [(''login'', [(''C2GSLogin'', 0), (''C2GSOut'', 0)]), (''item'', [(''C2GSUse'', 0)])] = Inr t
     \<and> nums t (''login'', ''C2GSLogin'') = Some 1001"
  using gen_result_numbers [of "[(''login'', [(''C2GSLogin'', 1001)])]"
      "[(''login'', [(''C2GSLogin'', 0), (''C2GSOut'', 0)]), (''item'', [(''C2GSUse'', 0)])]"]
  by (fastforce simp: defines_ok_def protos_ok_def wf_table_def entries_def nums_def aget_def)

end
