(* ===== verification/XlsValue.thy ===== *)
theory XlsValue
  imports PyOps "HOL-Library.Log_Nat" "HOL-Library.Char_ord" "HOL-Library.List_Lexorder"
    "HOL-Library.Product_Lexorder"
begin

text \<open>
  The conversions between text and numbers that \<open>daobiao/xls2lua.py\<close> applies to the cells of a
  sheet: \<open>int(x)\<close>, \<open>float(x)\<close> and \<open>str(x)\<close> of the \<open>future\<close> package's types, \<open>strip()\<close> of a
  \<open>unicode\<close> text. A cell is \<open>PUni\<close> for text and for an empty cell, \<open>PFloat\<close> for a number or a date,
  \<open>PInt\<close> for a truth value or an error code. Digits other than the ASCII ones are not read as
  digits.
\<close>

section \<open>Unicode white space\<close>

text \<open>The UTF-8 encodings of the characters \<open>unicode.strip()\<close> removes.\<close>

definition byte_text :: "nat list \<Rightarrow> string" where
  "byte_text ns = map char_of ns"

definition uspaces :: "string list" where
  "uspaces = map byte_text
     ([[9], [10], [11], [12], [13], [28], [29], [30], [31], [32], [0xC2, 0x85], [0xC2, 0xA0],
       [0xE1, 0x9A, 0x80], [0xE1, 0xA0, 0x8E], [0xE2, 0x80, 0xA8], [0xE2, 0x80, 0xA9],
       [0xE2, 0x80, 0xAF], [0xE2, 0x81, 0x9F], [0xE3, 0x80, 0x80]]
      @ map (\<lambda>n. [0xE2, 0x80, n]) [0x80..<0x8B])"

function strip_words :: "string list \<Rightarrow> string \<Rightarrow> string" where
  "strip_words us s =
     (case find (\<lambda>u. u \<noteq> [] \<and> prefix u s) us of
        None \<Rightarrow> s
      | Some u \<Rightarrow> strip_words us (drop (length u) s))"
  by pat_completeness auto
termination
proof (relation "measure (\<lambda>(us, s). length s)")
  fix us :: "string list" and s u assume "find (\<lambda>u. u \<noteq> [] \<and> prefix u s) us = Some u"
  then have "u \<noteq> [] \<and> prefix u s" by (auto simp: find_Some_iff)
  then show "((us, drop (length u) s), (us, s)) \<in> measure (\<lambda>(us, s). length s)"
    by (cases s) auto
qed simp

declare strip_words.simps [simp del]

definition ulstrip :: "string \<Rightarrow> string" where
  "ulstrip s = strip_words uspaces s"

definition ustrip :: "string \<Rightarrow> string" where
  "ustrip s = rev (strip_words (map rev uspaces) (rev (ulstrip s)))"

lemma strip_words_id:
  "(\<And>u. u \<in> set us \<Longrightarrow> u = [] \<or> \<not> prefix u s) \<Longrightarrow> strip_words us s = s"
proof -
  assume "\<And>u. u \<in> set us \<Longrightarrow> u = [] \<or> \<not> prefix u s"
  then have "find (\<lambda>u. u \<noteq> [] \<and> prefix u s) us = None" by (auto simp: find_None_iff)
  then show ?thesis by (subst strip_words.simps) simp
qed

text \<open>A text that starts and ends with a visible ASCII character is left alone.\<close>

definition visible :: "char \<Rightarrow> bool" where
  "visible c \<longleftrightarrow> 33 \<le> (of_char c :: nat) \<and> (of_char c :: nat) < 127"

lemma uspaces_ends:
  "list_all (\<lambda>u. u \<noteq> [] \<and> \<not> visible (hd u) \<and> \<not> visible (last u)) uspaces"
  by (simp add: uspaces_def byte_text_def visible_def upt_rec [of _ "Suc _"] upt_rec)

lemma ustrip_id:
  assumes "s \<noteq> []" and "visible (hd s)" and "visible (last s)"
  shows "ustrip s = s"
proof -
  have u: "u \<noteq> [] \<and> \<not> visible (hd u) \<and> \<not> visible (last u)" if "u \<in> set uspaces" for u
    using uspaces_ends that by (simp add: list_all_iff)
  have 1: "ulstrip s = s" unfolding ulstrip_def
  proof (rule strip_words_id)
    fix u assume "u \<in> set uspaces"
    with u [of u] assms show "u = [] \<or> \<not> prefix u s" by (cases s; cases u) auto
  qed
  have "strip_words (map rev uspaces) (rev s) = rev s"
  proof (rule strip_words_id)
    fix v assume "v \<in> set (map rev uspaces)"
    then obtain w where w: "w \<in> set uspaces" "v = rev w" by auto
    have "\<not> prefix (rev w) (rev s)"
      using u [OF w(1)] assms by (cases s rule: rev_cases; cases w rule: rev_cases) auto
    then show "v = [] \<or> \<not> prefix v (rev s)" using w by simp
  qed
  with 1 show ?thesis by (simp add: ustrip_def)
qed

lemma ustrip_Nil [simp]: "ustrip [] = []"
  by (simp add: ustrip_def ulstrip_def strip_words_id)

section \<open>Numbers from text\<close>

text \<open>
  \<open>long(s)\<close>, which the \<open>int\<close> of \<open>future\<close> ends in: outer white space, a sign, white space, digits
  and perhaps a final \<open>L\<close>.
\<close>

definition sign_of :: "string \<Rightarrow> bool \<times> string" where
  "sign_of s = (case s of [] \<Rightarrow> (False, [])
     | c # t \<Rightarrow> if c = CHR ''+'' then (False, t) else if c = CHR ''-'' then (True, t) else (False, c # t))"

definition int_text :: "string \<Rightarrow> int option" where
  "int_text s =
     (let (neg, t) = sign_of (ustrip s); t = ulstrip t;
          ds = takeWhile is_digit t; rest = dropWhile is_digit t
      in if ds = [] \<or> rest \<notin> {[], ''L'', ''l''} then None
         else Some (if neg then - int (nat_of_digits ds) else int (nat_of_digits ds)))"

text \<open>Rounding to the nearest double; a number past the largest one has no rational value here.\<close>

definition pow2 :: "int \<Rightarrow> rat" where
  "pow2 e = (if 0 \<le> e then 2 ^ nat e else 1 / 2 ^ nat (- e))"

definition exp2 :: "rat \<Rightarrow> int" where
  "exp2 r = (if 1 \<le> r then int (floorlog 2 (nat \<lfloor>r\<rfloor>)) - 1 else - int (floorlog 2 (nat (\<lceil>1 / r\<rceil> - 1))))"

definition to_double :: "rat \<Rightarrow> rat" where
  "to_double r =
     (if r = 0 then 0
      else let a = \<bar>r\<bar>; ulp = pow2 (max (exp2 a) (- 1022) - 52); m = of_int (round_half_even (a / ulp)) * ulp
           in if r < 0 then - m else m)"

text \<open>
  \<open>float(s)\<close>: a decimal number with a fraction and an exponent. The texts of the infinities and
  of NaN are outside the model.
\<close>

definition special_float :: "string \<Rightarrow> bool" where
  "special_float t \<longleftrightarrow> map (\<lambda>c. if is_alpha c \<and> (of_char c :: nat) < 97 then char_of ((of_char c :: nat) + 32) else c) t
     \<in> {''inf'', ''infinity'', ''nan''}"

definition exp_part :: "string \<Rightarrow> int option" where
  "exp_part s =
     (case s of
        [] \<Rightarrow> Some 0
      | c # t \<Rightarrow>
          if c = CHR ''e'' \<or> c = CHR ''E'' then
            let (neg, ds) = sign_of t in
            if isdigit ds then Some (if neg then - int (nat_of_digits ds) else int (nat_of_digits ds)) else None
          else None)"

definition float_text :: "string \<Rightarrow> rat res" where
  "float_text s =
     (let (neg, t) = sign_of (ustrip s);
          ip = takeWhile is_digit t; t1 = dropWhile is_digit t;
          (fp, t2) = (case t1 of c # u \<Rightarrow> if c = CHR ''.'' then (takeWhile is_digit u, dropWhile is_digit u) else ([], t1)
                      | [] \<Rightarrow> ([], []))
      in if special_float t then Inl Unsupported
         else if ip @ fp = [] then Inl ValueError
         else case exp_part t2 of
                None \<Rightarrow> Inl ValueError
              | Some e \<Rightarrow>
                  let r = to_double (of_nat (nat_of_digits (ip @ fp)) * pow10 (e - int (length fp)))
                  in if pow2 1024 \<le> \<bar>r\<bar> then Inl Unsupported else Inr (if neg then - r else r))"

section \<open>Conversions of a value\<close>

definition trunc :: "rat \<Rightarrow> int" where
  "trunc r = (if 0 \<le> r then \<lfloor>r\<rfloor> else \<lceil>r\<rceil>)"

fun to_int :: "pyval \<Rightarrow> int res" where
  "to_int (PBool b) = Inr (if b then 1 else 0)"
| "to_int (PInt i) = Inr i"
| "to_int (PFloat r) = Inr (trunc r)"
| "to_int (PStr s) = of_option ValueError (int_text s)"
| "to_int (PUni s) = of_option ValueError (int_text s)"
| "to_int _ = Inl TypeError"

fun to_float :: "pyval \<Rightarrow> rat res" where
  "to_float (PBool b) = Inr (if b then 1 else 0)"
| "to_float (PInt i) = Inr (to_double (of_int i))"
| "to_float (PFloat r) = Inr r"
| "to_float (PStr s) = float_text s"
| "to_float (PUni s) = float_text s"
| "to_float _ = Inl TypeError"

text \<open>Printing a number and reading it gives it back.\<close>

lemma digits_visible: "is_digit c \<Longrightarrow> visible c"
  by (auto simp: is_digit_def visible_def)

lemma minus_visible: "visible (CHR ''-'')" "visible (CHR ''+'')"
  by (simp_all add: visible_def)

lemma str_of_nat_ends: "is_digit (hd (str_of_nat n))" "is_digit (last (str_of_nat n))"
  using str_of_nat_digits [of n] hd_in_set [OF str_of_nat_not_Nil] last_in_set [OF str_of_nat_not_Nil]
  by (auto simp: list_all_iff)

lemma takeWhile_digits: "list_all is_digit s \<Longrightarrow> takeWhile is_digit s = s \<and> dropWhile is_digit s = []"
  by (induction s) auto

lemma not_digit_sign: "\<not> is_digit (CHR ''-'')" "\<not> is_digit (CHR ''+'')"
  by (simp_all add: is_digit_def)

lemma ulstrip_visible: "s \<noteq> [] \<Longrightarrow> visible (hd s) \<Longrightarrow> ulstrip s = s"
  unfolding ulstrip_def
proof (rule strip_words_id)
  fix u assume s: "s \<noteq> []" "visible (hd s)" and "u \<in> set uspaces"
  then have "u \<noteq> [] \<and> \<not> visible (hd u)" using uspaces_ends by (auto simp: list_all_iff)
  with s show "u = [] \<or> \<not> prefix u s" by (cases s; cases u) auto
qed

lemma int_text_digits:
  assumes "list_all is_digit ds" and "ds \<noteq> []"
  shows "int_text ds = Some (int (nat_of_digits ds))"
proof -
  from assms obtain c cs where ds: "ds = c # cs" "is_digit c" by (cases ds) auto
  have l: "visible (last ds)" using assms by (auto simp: list_all_iff intro: digits_visible)
  have "ustrip ds = ds" using ds l by (intro ustrip_id) (simp_all add: digits_visible)
  moreover have "ulstrip ds = ds" using ds by (intro ulstrip_visible) (simp_all add: digits_visible)
  moreover have "sign_of ds = (False, ds)" using ds by (auto simp: sign_of_def not_digit_sign)
  ultimately show ?thesis using takeWhile_digits [OF assms(1)] assms(2) by (simp add: int_text_def Let_def del: takeWhile_eq_all_conv dropWhile_eq_Nil_conv)
qed

lemma int_text_str_of_int [simp]: "int_text (str_of_int i) = Some i"
proof (cases "i < 0")
  case True
  let ?d = "str_of_nat (nat (- i))"
  have "ustrip (CHR ''-'' # ?d) = CHR ''-'' # ?d"
    using str_of_nat_ends [of "nat (- i)"] by (intro ustrip_id) (simp_all add: minus_visible digits_visible)
  moreover have "ulstrip ?d = ?d"
    using str_of_nat_ends [of "nat (- i)"] by (intro ulstrip_visible) (simp_all add: digits_visible)
  ultimately show ?thesis using True takeWhile_digits [OF str_of_nat_digits [of "nat (- i)"]]
    by (simp add: str_of_int_def int_text_def sign_of_def Let_def del: takeWhile_eq_all_conv dropWhile_eq_Nil_conv)
next
  case False
  with int_text_digits [OF str_of_nat_digits str_of_nat_not_Nil, of "nat i"] show ?thesis by (simp add: str_of_int_def)
qed

section \<open>The order of keys\<close>

text \<open>
  \<open>sort()\<close> of the keys of a dictionary: \<open>None\<close> before the numbers, these before the texts. The
  order is a linear one, which is what the library's sorting asks for.
\<close>

fun nkey_rank :: "nkey \<Rightarrow> nat \<times> rat \<times> string \<times> nat" where
  "nkey_rank NNone = (0, 0, [], 0)"
| "nkey_rank (NNum r) = (1, r, [], 0)"
| "nkey_rank (NBytes s) = (2, 0, s, 0)"
| "nkey_rank (NStr s) = (3, 0, s, 0)"
| "nkey_rank (NOther n) = (4, 0, [], n)"

lemma nkey_rank_inj: "nkey_rank a = nkey_rank b \<longleftrightarrow> a = b"
  by (cases a; cases b) auto

instantiation nkey :: linorder
begin

definition less_eq_nkey :: "nkey \<Rightarrow> nkey \<Rightarrow> bool" where
  "less_eq_nkey a b \<longleftrightarrow> nkey_rank a \<le> nkey_rank b"

definition less_nkey :: "nkey \<Rightarrow> nkey \<Rightarrow> bool" where
  "less_nkey a b \<longleftrightarrow> nkey_rank a < nkey_rank b"

instance
proof
  fix a b c :: nkey
  show "a < b \<longleftrightarrow> a \<le> b \<and> \<not> b \<le> a"
    by (auto simp only: less_eq_nkey_def less_nkey_def less_le_not_le)
  show "a \<le> a" by (simp only: less_eq_nkey_def order.refl)
  show "a \<le> c" if "a \<le> b" "b \<le> c"
    using that unfolding less_eq_nkey_def by (rule order.trans)
  show "a = b" if "a \<le> b" "b \<le> a"
    using that unfolding less_eq_nkey_def nkey_rank_inj [symmetric] by (rule order.antisym)
  show "a \<le> b \<or> b \<le> a" by (simp only: less_eq_nkey_def linear)
qed

end

end
