(* ===== verification/Xls2Lua.thy ===== *)
theory Xls2Lua
  imports XlsValue PosixPath
begin

text \<open>
  \<open>daobiao/xls2lua.py\<close>: the sheets of the designers' workbooks become Lua tables. The first row of
  a sheet holds the types of the columns, the second their names, the third their titles; the data
  follows. A workbook as \<open>xlrd\<close> reads it is the list of its sheets, a sheet the list of its rows,
  a row the list of its cells (\<open>XlsValue\<close>). \<open>eval\<close>, which the converter applies to a cell that is
  no number, is the parameter \<open>ev\<close>. The text of an exception is not modelled.
\<close>

section \<open>Types\<close>

type_synonym eval_fun = "string \<Rightarrow> pyval res"
type_synonym enum_table = "(string \<times> (pykey \<times> int) list) list"

definition assertx :: "bool \<Rightarrow> unit res" where
  "assertx b = (if b then Inr () else Inl AssertionError)"

lemma assertx_simps [simp]: "assertx True = Inr ()" "assertx False = Inl AssertionError"
  "assertx b = Inr x \<longleftrightarrow> b"
  by (simp_all add: assertx_def)

definition type_tbl :: "string list" where
  "type_tbl = [''int'', ''float'', ''string'', ''formula'']"

fun default_tbl :: "string \<Rightarrow> pyval" where
  "default_tbl t =
     (if t = ''int'' then PInt 0 else if t = ''float'' then PFloat 0 else PUni [])"

definition legal_extra_types :: "string list" where
  "legal_extra_types = [''default'', ''key'', ''ignored'']"

definition is_struct :: "string \<Rightarrow> bool" where
  "is_struct t \<longleftrightarrow> prefix ''struct'' t"

text \<open>\<open>xs[i]\<close> of a list, and \<open>s.split(a)[1].split(b)[0]\<close>, the text between two marks.\<close>

definition nth_res :: "pyerr \<Rightarrow> 'a list \<Rightarrow> nat \<Rightarrow> 'a res" where
  "nth_res e xs i = (if i < length xs then Inr (xs ! i) else Inl e)"

definition between :: "char \<Rightarrow> char \<Rightarrow> string \<Rightarrow> string res" where
  "between a b s = rbind (nth_res IndexError (split_on a s) 1) (\<lambda>t. Inr (hd (split_on b t)))"

lemma nth_res_Inr: "nth_res e xs i = Inr x \<longleftrightarrow> i < length xs \<and> xs ! i = x"
  by (auto simp: nth_res_def)

lemma split_on_length: "p \<in> set (split_on c s) \<Longrightarrow> length p \<le> length s"
  by (induction s arbitrary: p) (auto split: list.splits if_splits intro: le_SucI)

lemma split_on_second: "1 < length (split_on c s) \<Longrightarrow> length (split_on c s ! 1) < length s"
proof (induction s)
  case (Cons x s)
  show ?case
  proof (cases "x = c")
    case True
    then show ?thesis using split_on_length [of "split_on c s ! 0" c s] nth_mem [of 0 "split_on c s"]
      by simp
  next
    case False
    then show ?thesis using Cons by (cases "split_on c s") (auto simp: less_Suc_eq)
  qed
qed simp

lemma between_length: "between a b s = Inr t \<Longrightarrow> length t < length s"
proof -
  assume "between a b s = Inr t"
  then have i: "1 < length (split_on a s)" "t = hd (split_on b (split_on a s ! 1))"
    by (auto simp: between_def nth_res_Inr)
  have "length t \<le> length (split_on a s ! 1)"
    unfolding i(2) by (rule split_on_length [OF hd_in_set [OF split_on_not_Nil]])
  with split_on_second [OF i(1)] show ?thesis by simp
qed

section \<open>A cell\<close>

text \<open>
  One element of a \<open>struct\<close> template: \<open>type[name]\<close> is stored under the name, any other under its
  position.
\<close>

definition template_key :: "nat \<Rightarrow> string \<Rightarrow> (pykey \<times> string) res" where
  "template_key i j =
     (if CHR ''['' \<in> set j \<and> CHR '']'' \<in> set j then
        rbind (between (CHR ''['') (CHR '']'') j) (\<lambda>key. Inr (KUni key, hd (split_on (CHR ''['') j)))
      else Inr (KInt (int i + 1), j))"

lemma template_key_length: "template_key i j = Inr (k, t) \<Longrightarrow> length t \<le> length j"
  using split_on_length [OF hd_in_set [OF split_on_not_Nil], of "CHR ''[''" j]
  by (auto simp: template_key_def split: if_splits)

text \<open>The conversions of the basic types and of an enumeration.\<close>

definition base_value :: "eval_fun \<Rightarrow> string \<Rightarrow> pyval \<Rightarrow> pyval res" where
  "base_value ev col_type value =
     (if col_type = ''int'' then
        (case to_int value of
           Inr i \<Rightarrow> Inr (PInt i)
         | Inl _ \<Rightarrow> (case value of
                       PUni s \<Rightarrow> rbind (rbind (ev s) to_int) (\<lambda>i. Inr (PInt i))
                     | _ \<Rightarrow> Inl TypeError))
      else if col_type = ''float'' then
        (case to_float value of
           Inr r \<Rightarrow> Inr (PFloat r)
         | Inl e \<Rightarrow> (case value of
                       PUni s \<Rightarrow> if e = Unsupported then Inl e else ev s
                     | _ \<Rightarrow> Inl TypeError))
      else if col_type = ''string'' then
        (let value = (case to_int value of
                        Inr i \<Rightarrow> if py_eq (PInt i) value then PInt i else value
                      | Inl _ \<Rightarrow> value)
         in rbind (unicode_of value) (\<lambda>s. Inr (PUni s)))
      else rbind (unicode_of value) (\<lambda>s. Inr (PUni s)))"

definition enum_value :: "enum_table \<Rightarrow> string \<Rightarrow> pyval \<Rightarrow> pyval res" where
  "enum_value enum_tbl col_type value =
     (let value = (case to_int value of Inr i \<Rightarrow> PUni (str_of_int i) | Inl _ \<Rightarrow> value) in
      rbind (of_option KeyError (aget enum_tbl col_type)) (\<lambda>enum_name_tbl.
      rbind (key_of value) (\<lambda>key.
      case dget enum_name_tbl key of
        Some i \<Rightarrow> Inr (PInt i)
      | None \<Rightarrow>
          (case to_int value of
             Inl _ \<Rightarrow> Inl AssertionError
           | Inr i \<Rightarrow> rbind (assertx (i \<in> snd ` set enum_name_tbl)) (\<lambda>_. Inr (PInt i))))))"

function cell_to_value :: "eval_fun \<Rightarrow> enum_table \<Rightarrow> string \<Rightarrow> pyval \<Rightarrow> pyval res" where
  "cell_to_value ev enum_tbl col_type value =
     (if is_struct col_type then
        rbind (between (CHR ''('') (CHR '')'') col_type) (\<lambda>templates.
        rbind (unicode_of value) (\<lambda>text.
        rbind (rmap (\<lambda>(i, j, v).
                  rbind (template_key i j) (\<lambda>(key, sub_col_type).
                  rbind (cell_to_value ev enum_tbl sub_col_type (PUni v)) (\<lambda>x. Inr (key, x))))
                (zip [0..<length (split_on (CHR ''|'') templates)]
                   (zip (split_on (CHR ''|'') templates) (split_on (CHR ''|'') (ustrip text)))))
          (\<lambda>kvs. Inr (PDict (fold (\<lambda>(k, x) d. dput d k x) kvs [])))))
      else if col_type \<in> set type_tbl then base_value ev col_type value
      else enum_value enum_tbl col_type value)"
  by pat_completeness auto
termination
proof (relation "measure (\<lambda>(ev, enum_tbl, col_type, value). length col_type)", goal_cases)
  case (2 ev enum_tbl col_type w templates s p i q j v r key sub)
  then have "(i, j, v) \<in> set (zip [0..<length (split_on (CHR ''|'') templates)]
      (zip (split_on (CHR ''|'') templates) (split_on (CHR ''|'') (ustrip s))))" by simp
  then have "j \<in> set (split_on (CHR ''|'') templates)" by (meson set_zip_leftD set_zip_rightD)
  then have "length j \<le> length templates" by (rule split_on_length)
  moreover have "between (CHR ''('') (CHR '')'') col_type = Inr templates" "template_key i j = Inr (key, sub)"
    using 2 by simp_all
  ultimately have "length sub < length col_type" by (meson between_length template_key_length le_less_trans)
  with 2 show ?case by simp
qed simp

declare cell_to_value.simps [simp del]

section \<open>The head of a sheet\<close>

type_synonym sheet = "pyval list list"

text \<open>
  What the first rows say: every column's text and type up to the first empty one, the name of the
  key column, the names of the ignored ones.
\<close>

record header =
  h_cols :: "(string \<times> string) list"
  row_key :: "pyval option"
  ignored_names :: "pyval list"

definition cell_str :: "pyval \<Rightarrow> string res" where
  "cell_str v = (case v of PUni s \<Rightarrow> Inr s | _ \<Rightarrow> Inl AttributeError)"

definition known_type :: "enum_table \<Rightarrow> string \<Rightarrow> bool" where
  "known_type enum_tbl t \<longleftrightarrow> t \<in> set type_tbl \<or> is_struct t \<or> aget enum_tbl t \<noteq> None"

definition col_kind :: "enum_table \<Rightarrow> string \<Rightarrow> string res" where
  "col_kind enum_tbl col_type =
     (if prefix ''list'' col_type then
        rbind (between (CHR ''<'') (CHR ''>'') col_type) (\<lambda>val_type.
        rbind (assertx (known_type enum_tbl val_type)) (\<lambda>_. Inr ''list''))
      else if prefix ''dict'' col_type then
        rbind (between (CHR ''<'') (CHR ''>'') col_type) (\<lambda>val_type.
        rbind (assertx (known_type enum_tbl val_type)) (\<lambda>_. Inr ''dict''))
      else rbind (assertx (known_type enum_tbl col_type)) (\<lambda>_. Inr col_type))"

definition col_suffix :: "pyval list \<Rightarrow> nat \<Rightarrow> string \<Rightarrow> header \<Rightarrow> (string \<times> header) res" where
  "col_suffix name_row i column h =
     (if CHR ''@'' \<in> set column then
        (case split_on (CHR ''@'') column of
           [col_type, extra_type] \<Rightarrow>
             rbind (assertx (extra_type \<in> set legal_extra_types)) (\<lambda>_.
             if extra_type = ''ignored'' then
               rbind (nth_res IndexError name_row i) (\<lambda>n.
               Inr (col_type, h\<lparr>ignored_names := ignored_names h @ [n]\<rparr>))
             else if extra_type = ''key'' then
               rbind (nth_res IndexError name_row i) (\<lambda>n. Inr (col_type, h\<lparr>row_key := Some n\<rparr>))
             else Inr (col_type, h))
         | _ \<Rightarrow> Inl ValueError)
      else Inr (column, h))"

definition header_col :: "enum_table \<Rightarrow> pyval list \<Rightarrow> nat \<Rightarrow> pyval \<Rightarrow> header \<Rightarrow> header res" where
  "header_col enum_tbl name_row i cell h =
     rbind (cell_str cell) (\<lambda>column.
     rbind (col_suffix name_row i column h) (\<lambda>(col_type, h).
     rbind (col_kind enum_tbl col_type) (\<lambda>kind. Inr (h\<lparr>h_cols := h_cols h @ [(column, kind)]\<rparr>))))"

fun header_loop :: "enum_table \<Rightarrow> pyval list \<Rightarrow> nat \<Rightarrow> pyval list \<Rightarrow> header \<Rightarrow> header res" where
  "header_loop enum_tbl name_row i [] h = Inr h"
| "header_loop enum_tbl name_row i (cell # type_row) h =
     (if \<not> truthy cell then Inr h
      else rbind (header_col enum_tbl name_row i cell h) (header_loop enum_tbl name_row (Suc i) type_row))"

text \<open>
  The names: a name \<open>group|name\<close> may be that of several columns, which become one list; of any
  other the last column counts.
\<close>

type_synonym normal_names = "(string \<times> nat) list"
type_synonym list_names = "(string \<times> nat list) list"

definition name_col :: "nat \<times> pyval \<Rightarrow> normal_names \<times> list_names \<Rightarrow> (normal_names \<times> list_names) res" where
  "name_col = (\<lambda>(i, cell) (normal, lists).
     rbind (cell_str cell) (\<lambda>name.
     if CHR ''|'' \<in> set name then
       Inr (normal, aput lists name ((case aget lists name of None \<Rightarrow> [] | Some is \<Rightarrow> is) @ [i]))
     else Inr (aput normal name i, lists)))"

record sheet_head =
  s_header :: header
  normal_name_tbl :: normal_names
  list_name_tbl :: list_names
  name_row :: "pyval list"
  title_row :: "pyval list"

definition read_head :: "enum_table \<Rightarrow> sheet \<Rightarrow> sheet_head res" where
  "read_head enum_tbl sheet =
     rbind (nth_res IndexError sheet 0) (\<lambda>type_row.
     rbind (nth_res IndexError sheet 1) (\<lambda>name_row.
     rbind (header_loop enum_tbl name_row 0 type_row \<lparr>h_cols = [], row_key = None, ignored_names = []\<rparr>) (\<lambda>h.
     rbind (rfold name_col (enumerate 0 name_row) ([], [])) (\<lambda>(normal, lists).
     rbind (nth_res IndexError sheet 2) (\<lambda>title_row.
     Inr \<lparr>s_header = h, normal_name_tbl = normal, list_name_tbl = lists,
          name_row = name_row, title_row = title_row\<rparr>)))))"

section \<open>A row\<close>

type_synonym row_data = "(string \<times> pyval) list"

definition list_values :: "eval_fun \<Rightarrow> enum_table \<Rightarrow> string \<Rightarrow> pyval \<Rightarrow> pyval list res" where
  "list_values ev enum_tbl column cell =
     rbind (unicode_of cell) (\<lambda>text.
     rbind (between (CHR ''<'') (CHR ''>'') column) (\<lambda>val_type.
     rmap (\<lambda>val. cell_to_value ev enum_tbl val_type (PUni (ustrip val))) (split_on (CHR '','') text)))"

definition by_id :: "pyval \<Rightarrow> (pykey \<times> pyval) list \<Rightarrow> (pykey \<times> pyval) list res" where
  "by_id val d = rbind (getitem val (KUni ''id'')) (\<lambda>k. rbind (key_of k) (\<lambda>k. Inr (dput d k val)))"

definition empty_cell :: pyval where
  "empty_cell = PUni []"

definition default_value :: "string \<Rightarrow> pyval" where
  "default_value col_type =
     (if col_type \<in> set type_tbl then default_tbl col_type
      else if is_struct col_type then PDict [] else PInt 0)"

text \<open>
  One cell. The keys of the rows so far are compared as Python compares keys; the messages of the
  assertions read the title row.
\<close>

definition col_value ::
  "eval_fun \<Rightarrow> enum_table \<Rightarrow> sheet_head \<Rightarrow> nat \<Rightarrow> string \<times> string \<Rightarrow> pyval \<Rightarrow> nkey list \<Rightarrow> (pyval \<times> nkey list) res" where
  "col_value ev enum_tbl g i = (\<lambda>(column, col_type) cell keys.
     if col_type = ''list'' then
       if cell = empty_cell then Inr (PList [], keys)
       else rbind (list_values ev enum_tbl column cell) (\<lambda>vs. Inr (PList vs, keys))
     else if col_type = ''dict'' then
       if cell = empty_cell then Inr (PDict [], keys)
       else rbind (list_values ev enum_tbl column cell) (\<lambda>lsts.
            rbind (rfold by_id lsts []) (\<lambda>d. Inr (PDict d, keys)))
     else if cell = empty_cell \<and> (suffix ''@default'' column \<or> suffix ''@ignored'' column) then
       Inr (default_value col_type, keys)
     else
       rbind (nth_res IndexError (title_row g) i) (\<lambda>_.
       rbind (assertx (cell \<noteq> empty_cell)) (\<lambda>_.
       rbind (cell_to_value ev enum_tbl col_type cell) (\<lambda>v.
       rbind (nth_res IndexError (name_row g) i) (\<lambda>name.
       if row_key (s_header g) = Some name then
         rbind (key_of v) (\<lambda>k.
         rbind (assertx (knorm k \<notin> set keys)) (\<lambda>_. Inr (v, knorm k # keys)))
       else Inr (v, keys))))))"

record row_state =
  cells :: "pyval list"
  null_index_tbl :: "bool list"
  seen_keys :: "nkey list"

definition row_col ::
  "eval_fun \<Rightarrow> enum_table \<Rightarrow> sheet_head \<Rightarrow> nat \<times> string \<times> string \<Rightarrow> row_state \<Rightarrow> row_state res" where
  "row_col ev enum_tbl g = (\<lambda>(i, col) st.
     rbind (nth_res IndexError (cells st) i) (\<lambda>cell.
     rbind (col_value ev enum_tbl g i col cell (seen_keys st)) (\<lambda>(v, keys).
     Inr \<lparr>cells = (cells st)[i := v], null_index_tbl = null_index_tbl st @ [cell = empty_cell], seen_keys = keys\<rparr>)))"

text \<open>The columns of a list, without the empty ones at the end.\<close>

fun choose_from :: "bool list \<Rightarrow> nat list \<Rightarrow> nat list res" where
  "choose_from nulls [] = Inr []"
| "choose_from nulls (i # is) =
     rbind (nth_res KeyError nulls i) (\<lambda>b. if b then choose_from nulls is else Inr (i # is))"

definition choosed_indexs :: "bool list \<Rightarrow> nat list \<Rightarrow> nat list res" where
  "choosed_indexs nulls indexes = rbind (choose_from nulls (rev indexes)) (\<lambda>is. Inr (rev is))"

definition normal_col ::
  "pyval list \<Rightarrow> pyval list \<Rightarrow> string \<times> nat \<Rightarrow> row_data \<Rightarrow> row_data res" where
  "normal_col ignored row = (\<lambda>(name, index) data.
     if name = [] then Inr data
     else if PUni name \<in> set ignored then Inr data
     else rbind (nth_res IndexError row index) (\<lambda>v. Inr (aput data name v)))"

definition list_col ::
  "pyval list \<Rightarrow> bool list \<Rightarrow> string \<times> nat list \<Rightarrow> row_data \<times> (string \<times> nat) list \<Rightarrow> (row_data \<times> (string \<times> nat) list) res" where
  "list_col row nulls = (\<lambda>(name, indexes) (data, lens).
     rbind (choosed_indexs nulls indexes) (\<lambda>choosed.
     case split_on (CHR ''|'') name of
       [name_num, name] \<Rightarrow>
         rbind (rmap (nth_res IndexError row) choosed) (\<lambda>vs.
         let data = aput data name (PList vs) in
         if name_num = [] then Inr (data, lens)
         else (case aget lens name_num of
                 None \<Rightarrow> Inr (data, aput lens name_num (length vs))
               | Some data_len \<Rightarrow>
                   if data_len = 0 then Inr (data, aput lens name_num (length vs))
                   else rbind (assertx (length vs = data_len)) (\<lambda>_. Inr (data, lens))))
     | _ \<Rightarrow> Inl ValueError))"

definition row_to_data ::
  "eval_fun \<Rightarrow> enum_table \<Rightarrow> sheet_head \<Rightarrow> pyval list \<Rightarrow> nkey list \<Rightarrow> (row_data \<times> nkey list) res" where
  "row_to_data ev enum_tbl g row keys =
     rbind (rfold (row_col ev enum_tbl g) (enumerate 0 (h_cols (s_header g)))
              \<lparr>cells = row, null_index_tbl = [], seen_keys = keys\<rparr>) (\<lambda>st.
     rbind (rfold (normal_col (ignored_names (s_header g)) (cells st)) (normal_name_tbl g) []) (\<lambda>data.
     rbind (rfold (list_col (cells st) (null_index_tbl st)) (list_name_tbl g) (data, [])) (\<lambda>(data, _).
     Inr (data, seen_keys st))))"

text \<open>
  The generator: the rows it yields, and the exception it stops with. A row of empty cells ends
  the sheet.
\<close>

definition blank_row :: "pyval list \<Rightarrow> bool" where
  "blank_row row \<longleftrightarrow> row \<noteq> [] \<and> list_all (\<lambda>c. c = empty_cell) row"

fun gen_rows ::
  "eval_fun \<Rightarrow> enum_table \<Rightarrow> sheet_head \<Rightarrow> pyval list list \<Rightarrow> nkey list \<Rightarrow> row_data list \<times> pyerr option" where
  "gen_rows ev enum_tbl g [] keys = ([], None)"
| "gen_rows ev enum_tbl g (row # rows) keys =
     (if blank_row row then ([], None)
      else case row_to_data ev enum_tbl g row keys of
             Inl e \<Rightarrow> ([], Some e)
           | Inr (data, keys) \<Rightarrow> (let (ds, e) = gen_rows ev enum_tbl g rows keys in (data # ds, e)))"

definition sheet_to_dict :: "eval_fun \<Rightarrow> enum_table \<Rightarrow> sheet \<Rightarrow> row_data list \<times> pyerr option" where
  "sheet_to_dict ev enum_tbl sheet =
     (case read_head enum_tbl sheet of
        Inl e \<Rightarrow> ([], Some e)
      | Inr g \<Rightarrow> gen_rows ev enum_tbl g (drop 3 sheet) [])"


section \<open>Writing Lua\<close>

definition quote_lua :: "string \<Rightarrow> string" where
  "quote_lua s =
     (if newline \<in> set s then ''[=['' @ s @ '']=]''
      else if CHR ''\"'' \<in> set s then
        (if CHR 0x27 \<in> set s then ''[['' @ s @ '']]'' else [CHR 0x27] @ s @ [CHR 0x27])
      else [CHR ''\"''] @ s @ [CHR ''\"''])"

definition brace :: "string list \<Rightarrow> string" where
  "brace parts = ''{'' @ join '', '' parts @ ''}''"

definition lua_entry :: "string \<Rightarrow> string \<Rightarrow> string" where
  "lua_entry k v = ''['' @ k @ ''] = '' @ v"

text \<open>\<open>format_value(k)\<close> of a key, which is no list or dictionary.\<close>

definition format_key :: "pykey \<Rightarrow> string res" where
  "format_key k =
     (case k of KUni s \<Rightarrow> Inr (quote_lua s) | KStr s \<Rightarrow> Inr (quote_lua s) | _ \<Rightarrow> unicode_of (val_of_key k))"

fun format_value :: "pyval \<Rightarrow> string res" where
  "format_value (PUni s) = Inr (quote_lua s)"
| "format_value (PStr s) = Inr (quote_lua s)"
| "format_value (PList vs) = rbind (rmap format_value vs) (\<lambda>parts. Inr (brace parts))"
| "format_value (PDict d) =
     rbind (rmap (\<lambda>(k, v). rbind (format_key k) (\<lambda>a. rbind (format_value v) (\<lambda>b. Inr (lua_entry a b)))) d)
       (\<lambda>parts. Inr (brace parts))"
| "format_value v = unicode_of v"

lemma format_key_value: "format_value (val_of_key k) = format_key k"
  by (cases k) (simp_all add: format_key_def)

text \<open>A cell of a row: as \<open>format_value\<close>, but the entries of a dictionary are sorted by key.\<close>

definition cell_text :: "pyval \<Rightarrow> string res" where
  "cell_text value =
     (case value of
        PDict d \<Rightarrow>
          rbind (rmap (\<lambda>(k, v). rbind (format_key k) (\<lambda>a. rbind (format_value v) (\<lambda>b. Inr (lua_entry a b))))
                   (sort_key (\<lambda>(k, v). knorm k) d)) (\<lambda>parts. Inr (brace parts))
      | _ \<Rightarrow> format_value value)"

definition nl :: string where "nl = [newline]"

definition begin_temple :: string where
  "begin_temple = nl @ ''return {'' @ nl"

definition row_temple :: "string \<Rightarrow> string" where
  "row_temple key = nl @ ''    ['' @ key @ ''] = {'' @ nl"

definition cell_temple :: "string \<Rightarrow> string \<Rightarrow> string" where
  "cell_temple key value = ''        '' @ key @ '' = '' @ value @ '','' @ nl"

definition row_end_temple :: string where
  "row_end_temple = ''    },'' @ nl"

definition end_temple :: string where
  "end_temple = nl @ ''}'' @ nl"

text \<open>
  One row: its key is the value of the key column, or else its number. A list or a dictionary as a
  key would be written in Python's notation; that is not modelled.
\<close>

definition row_text :: "string \<Rightarrow> nat \<Rightarrow> row_data \<Rightarrow> string res" where
  "row_text row_key_name i row =
     rbind (case aget row row_key_name of
              None \<Rightarrow> Inr (str_of_nat (Suc i))
            | Some (PList _) \<Rightarrow> Inl Unsupported
            | Some (PDict _) \<Rightarrow> Inl Unsupported
            | Some key \<Rightarrow> format_value key) (\<lambda>key.
     rbind (rmap (\<lambda>(name, value). rbind (cell_text value) (\<lambda>t. Inr (cell_temple name t))) (sort_key fst row)) (\<lambda>cols.
     Inr (row_temple key @ concat cols @ row_end_temple)))"

fun rows_text :: "string \<Rightarrow> nat \<Rightarrow> row_data list \<Rightarrow> string \<times> pyerr option" where
  "rows_text row_key_name i [] = ([], None)"
| "rows_text row_key_name i (row # rows) =
     (case row_text row_key_name i row of
        Inl e \<Rightarrow> ([], Some e)
      | Inr t \<Rightarrow> (let (ts, e) = rows_text row_key_name (Suc i) rows in (t @ ts, e)))"

text \<open>
  The text of the file: when an exception stops the rows, what was written before it stays and the
  closing brace is missing.
\<close>

definition lua_text :: "string \<Rightarrow> string \<Rightarrow> row_data list \<times> pyerr option \<Rightarrow> string \<times> pyerr option" where
  "lua_text row_key_name xls_name data =
     (let head = ''-- '' @ map (\<lambda>c. if c = CHR 0x5C then CHR ''/'' else c) xls_name @ begin_temple;
          (t, e) = rows_text row_key_name 0 (fst data)
      in case (e, snd data) of
           (Some e, _) \<Rightarrow> (head @ t, Some e)
         | (None, Some e) \<Rightarrow> (head @ t, Some e)
         | (None, None) \<Rightarrow> (head @ t @ end_temple, None))"

section \<open>Workbooks\<close>

text \<open>The state of the program: the key columns noted so far and the files written.\<close>

record conv_state =
  row_keys :: "(string \<times> string) list"
  lua_files :: "(string \<times> string) list"

definition note_key :: "enum_table \<Rightarrow> string \<Rightarrow> sheet \<Rightarrow> conv_state \<Rightarrow> conv_state" where
  "note_key enum_tbl key_name sheet st =
     (case read_head enum_tbl sheet of
        Inl _ \<Rightarrow> st
      | Inr g \<Rightarrow> (case row_key (s_header g) of
                    Some (PUni name) \<Rightarrow> st\<lparr>row_keys := aput (row_keys st) key_name name\<rparr>
                  | _ \<Rightarrow> st))"

definition to_lua ::
  "string \<Rightarrow> row_data list \<times> pyerr option \<Rightarrow> string \<Rightarrow> string \<Rightarrow> conv_state \<Rightarrow> conv_state \<times> pyerr option" where
  "to_lua name data xls_name output st =
     (let row_key_name = (case aget (row_keys st) (xls_name @ name) of None \<Rightarrow> ''id'' | Some n \<Rightarrow> n);
          (t, e) = lua_text row_key_name xls_name data
      in (st\<lparr>lua_files := aput (lua_files st) (path_join output [name @ ''.lua'']) t\<rparr>, e))"

type_synonym workbook = "(string \<times> sheet) list"

definition convert_sheet ::
  "eval_fun \<Rightarrow> enum_table \<Rightarrow> string \<Rightarrow> string \<Rightarrow> string \<times> sheet \<Rightarrow> conv_state \<Rightarrow> conv_state \<times> pyerr option" where
  "convert_sheet ev enum_tbl xls_name output = (\<lambda>(name, sheet) st.
     if sheet = [] then (st, None)
     else if prefix ''_'' name then (st, None)
     else to_lua name (sheet_to_dict ev enum_tbl sheet) xls_name output
            (note_key enum_tbl (xls_name @ name) sheet st))"

text \<open>Running a list of jobs up to the first exception.\<close>

fun run_jobs :: "('j \<Rightarrow> 's \<Rightarrow> 's \<times> pyerr option) \<Rightarrow> 'j list \<Rightarrow> 's \<Rightarrow> 's \<times> pyerr option" where
  "run_jobs f [] s = (s, None)"
| "run_jobs f (j # js) s = (case f j s of (s, Some e) \<Rightarrow> (s, Some e) | (s, None) \<Rightarrow> run_jobs f js s)"

lemma run_jobs_cong [fundef_cong]:
  "js = ks \<Longrightarrow> s = t \<Longrightarrow> (\<And>j s. j \<in> set ks \<Longrightarrow> f j s = g j s) \<Longrightarrow> run_jobs f js s = run_jobs g ks t"
proof (induction ks arbitrary: js s t)
  case (Cons k ks)
  then have "f k t = g k t" "\<And>u. run_jobs f ks u = run_jobs g ks u" by auto
  with Cons.prems show ?case by (simp split: prod.split option.split)
qed simp

text \<open>Opening a workbook is \<open>xlrd\<close>'s part: a parameter.\<close>

type_synonym open_fun = "string \<Rightarrow> workbook res"

definition convet ::
  "open_fun \<Rightarrow> eval_fun \<Rightarrow> enum_table \<Rightarrow> string \<Rightarrow> string \<Rightarrow> conv_state \<Rightarrow> conv_state \<times> pyerr option" where
  "convet open_workbook ev enum_tbl xls_name output st =
     (case open_workbook xls_name of
        Inl e \<Rightarrow> (st, Some e)
      | Inr sheets \<Rightarrow> run_jobs (convert_sheet ev enum_tbl xls_name output) sheets st)"

definition convet_xls_file ::
  "open_fun \<Rightarrow> eval_fun \<Rightarrow> enum_table \<Rightarrow> string \<Rightarrow> string \<Rightarrow> conv_state \<Rightarrow> conv_state \<times> pyerr option" where
  "convet_xls_file open_workbook ev enum_tbl path output st =
     (let ext = snd (splitext path); head = basename path in
      if ext \<noteq> ''.xlsx'' \<and> ext \<noteq> ''.xls'' then (st, None)
      else if prefix ''_'' head then (st, None)
      else convet open_workbook ev enum_tbl path output st)"

text \<open>The directory of the workbooks, and the walk over it.\<close>

datatype dir_tree = FileLeaf | DirTree "(string \<times> dir_tree) list"

function recu ::
  "open_fun \<Rightarrow> eval_fun \<Rightarrow> enum_table \<Rightarrow> string \<Rightarrow> string \<Rightarrow> (string \<times> dir_tree) list \<Rightarrow> conv_state \<Rightarrow> conv_state \<times> pyerr option" where
  "recu open_workbook ev enum_tbl pth output entries st =
     run_jobs (\<lambda>(name, node) st.
       let p = path_join pth [name] in
       if prefix ''~'' name then (st, None)
       else case node of
              DirTree sub \<Rightarrow> recu open_workbook ev enum_tbl p (path_join output [name]) sub st
            | FileLeaf \<Rightarrow> convet_xls_file open_workbook ev enum_tbl p output st) entries st"
  by pat_completeness auto
termination
proof (relation "measure (\<lambda>(w, ev, t, p, out, entries, st). size_list (size_prod (\<lambda>_. 0) size) entries)", goal_cases)
  case (2 w ev t p out entries st j s name node q sub)
  then have "(name, node) \<in> set entries" by simp
  then have "size node < Suc (size_list (size_prod (\<lambda>_. 0) size) entries)"
    by (induction entries) auto
  with 2 show ?case by simp
qed simp

declare recu.simps [simp del]

section \<open>Enumerations\<close>

text \<open>
  The names of an enumeration: a name that is a number is entered as the text of the integer. The
  tests for a repeated name compare the cell as it is.
\<close>

record enum_state =
  name_to_id :: "(pykey \<times> int) list"
  idx_ids :: "nkey list"

definition enum_row ::
  "(pykey \<times> int) list \<Rightarrow> pyval \<Rightarrow> pyval \<Rightarrow> enum_state \<Rightarrow> enum_state res" where
  "enum_row pre name idx st =
     rbind (key_of name) (\<lambda>name_key.
     rbind (assertx (\<not> dhas (name_to_id st) name_key)) (\<lambda>_.
     rbind (key_of idx) (\<lambda>idx_key.
     rbind (assertx (knorm idx_key \<notin> set (idx_ids st))) (\<lambda>_.
     rbind (assertx (pre = [] \<or> \<not> dhas pre name_key)) (\<lambda>_.
     rbind (assertx (pre = [] \<or> knorm idx_key \<notin> (\<lambda>(_, i). NNum (of_int i)) ` set pre)) (\<lambda>_.
     rbind (case to_int name of Inr i \<Rightarrow> Inr (KUni (str_of_int i)) | Inl _ \<Rightarrow> Inr name_key) (\<lambda>name_key.
     rbind (to_int idx) (\<lambda>i.
     Inr \<lparr>name_to_id = dput (name_to_id st) name_key i, idx_ids = knorm idx_key # idx_ids st\<rparr>))))))))"

fun enum_rows ::
  "(pykey \<times> int) list \<Rightarrow> nat \<Rightarrow> nat \<Rightarrow> sheet \<Rightarrow> enum_state \<Rightarrow> enum_state res" where
  "enum_rows pre id_index name_index [] st = Inr st"
| "enum_rows pre id_index name_index (row # rows) st =
     rbind (nth_res IndexError row id_index) (\<lambda>idx.
     if idx = empty_cell then Inr st
     else rbind (nth_res IndexError row name_index) (\<lambda>name.
          rbind (enum_row pre name idx st) (enum_rows pre id_index name_index rows)))"

fun index_of :: "pyval \<Rightarrow> pyval list \<Rightarrow> nat res" where
  "index_of v [] = Inl ValueError"
| "index_of v (x # xs) = (if py_eq x v then Inr 0 else rbind (index_of v xs) (\<lambda>i. Inr (Suc i)))"

definition read_enum :: "(pykey \<times> int) list \<Rightarrow> sheet \<Rightarrow> (pykey \<times> int) list res" where
  "read_enum pre sheet =
     rbind (nth_res IndexError sheet 1) (\<lambda>name_row.
     rbind (index_of (PUni ''id'') name_row) (\<lambda>id_index.
     rbind (index_of (PUni ''name'') name_row) (\<lambda>name_index.
     rbind (enum_rows pre id_index name_index (drop 3 sheet) \<lparr>name_to_id = [], idx_ids = []\<rparr>) (\<lambda>st.
     Inr (fold (\<lambda>(k, i) d. dput d k i) (name_to_id st) pre)))))"

definition field :: "row_data \<Rightarrow> string \<Rightarrow> pyval res" where
  "field row name = of_option KeyError (aget row name)"

text \<open>One line of the list of enumerations; its name would have to be a text to be used as a type.\<close>

definition add_enum :: "open_fun \<Rightarrow> string \<Rightarrow> row_data \<Rightarrow> enum_table \<Rightarrow> enum_table res" where
  "add_enum open_workbook path row enum_tbl =
     rbind (field row ''enum_name'') (\<lambda>enum_name.
     rbind (field row ''file_name'') (\<lambda>file_name.
     rbind (case file_name of PUni f \<Rightarrow> Inr f | _ \<Rightarrow> Inl TypeError) (\<lambda>file_name.
     rbind (open_workbook (path @ file_name)) (\<lambda>workbook.
     rbind (field row ''sheet_name'') (\<lambda>sheet_name.
     rbind (case sheet_name of PUni s \<Rightarrow> of_option XLRDError (aget workbook s) | _ \<Rightarrow> Inl XLRDError) (\<lambda>sheet.
     rbind (case enum_name of PUni n \<Rightarrow> Inr n | _ \<Rightarrow> Inl Unsupported) (\<lambda>enum_name.
     rbind (read_enum (case aget enum_tbl enum_name of None \<Rightarrow> [] | Some pre \<Rightarrow> pre) sheet) (\<lambda>names.
     Inr (aput enum_tbl enum_name names)))))))))"

text \<open>
  The generator over the list of enumerations is run in step with the table it fills: a row is
  converted with the enumerations of the rows before it.
\<close>

fun enum_loop ::
  "open_fun \<Rightarrow> eval_fun \<Rightarrow> string \<Rightarrow> sheet_head \<Rightarrow> sheet \<Rightarrow> nkey list \<Rightarrow> enum_table \<Rightarrow> enum_table res" where
  "enum_loop open_workbook ev path g [] keys enum_tbl = Inr enum_tbl"
| "enum_loop open_workbook ev path g (row # rows) keys enum_tbl =
     (if blank_row row then Inr enum_tbl
      else rbind (row_to_data ev enum_tbl g row keys) (\<lambda>(data, keys).
           rbind (add_enum open_workbook path data enum_tbl) (enum_loop open_workbook ev path g rows keys)))"

definition convet_enumerate :: "open_fun \<Rightarrow> eval_fun \<Rightarrow> string \<Rightarrow> string \<Rightarrow> enum_table res" where
  "convet_enumerate open_workbook ev xls_name path =
     rbind (open_workbook xls_name) (\<lambda>workbook.
     rbind (assertx (length workbook = 1)) (\<lambda>_.
     let sheet = snd (hd workbook) in
     rbind (read_head [] sheet) (\<lambda>g. enum_loop open_workbook ev path g (drop 3 sheet) [] [])))"

definition convert_all ::
  "open_fun \<Rightarrow> eval_fun \<Rightarrow> (string \<times> dir_tree) list \<Rightarrow> conv_state \<times> pyerr option" where
  "convert_all open_workbook ev entries =
     (let st = \<lparr>row_keys = [], lua_files = []\<rparr> in
      case convet_enumerate open_workbook ev (path_join ''./excel/'' [''enumerate.xlsx'']) ''./excel/'' of
        Inl e \<Rightarrow> (st, Some e)
      | Inr enum_tbl \<Rightarrow> recu open_workbook ev enum_tbl ''./excel/'' ''luadata/'' entries st)"

section \<open>Sheets as text\<close>

text \<open>
  \<open>csv_from_excel\<close>: one file per sheet. The writer of rows is a package outside the repository's own code, the
  parameter \<open>writerow\<close>; a row it fails on leaves the rows before it in the file.
\<close>

definition csv_row :: "(pyval list \<Rightarrow> string res) \<Rightarrow> string \<Rightarrow> pyval list \<Rightarrow> (string \<times> string) list \<Rightarrow> (string \<times> string) list \<times> pyerr option" where
  "csv_row writerow csv_file row files =
     (case writerow row of
        Inl e \<Rightarrow> (files, Some e)
      | Inr t \<Rightarrow> (aput files csv_file ((case aget files csv_file of None \<Rightarrow> [] | Some s \<Rightarrow> s) @ t), None))"

definition csv_sheet :: "(pyval list \<Rightarrow> string res) \<Rightarrow> string \<times> sheet \<Rightarrow> (string \<times> string) list \<Rightarrow> (string \<times> string) list \<times> pyerr option" where
  "csv_sheet writerow = (\<lambda>(name, rows) files.
     let csv_file = name @ ''.csv'' in run_jobs (csv_row writerow csv_file) rows (aput files csv_file []))"

definition csv_from_excel ::
  "open_fun \<Rightarrow> (pyval list \<Rightarrow> string res) \<Rightarrow> string \<Rightarrow> (string \<times> string) list \<Rightarrow> (string \<times> string) list \<times> pyerr option" where
  "csv_from_excel open_workbook writerow xls_name files =
     (case open_workbook xls_name of
        Inl e \<Rightarrow> (files, Some e)
      | Inr sheets \<Rightarrow> run_jobs (csv_sheet writerow) sheets files)"

lemma csv_rows_text:
  assumes "\<And>row. row \<in> set rows \<Longrightarrow> writerow row = Inr (enc row)" and "aget files csv_file = Some s"
  shows "\<exists>files'. run_jobs (csv_row writerow csv_file) rows files = (files', None) \<and>
    aget files' csv_file = Some (s @ concat (map enc rows)) \<and> (\<forall>f. f \<noteq> csv_file \<longrightarrow> aget files' f = aget files f)"
  using assms
proof (induction rows arbitrary: files s)
  case (Cons row rows)
  let ?files = "aput files csv_file (s @ enc row)"
  have "csv_row writerow csv_file row files = (?files, None)" using Cons.prems by (simp add: csv_row_def)
  moreover obtain files' where "run_jobs (csv_row writerow csv_file) rows ?files = (files', None)"
    "aget files' csv_file = Some ((s @ enc row) @ concat (map enc rows))" "\<forall>f. f \<noteq> csv_file \<longrightarrow> aget files' f = aget ?files f"
    using Cons.IH [of ?files "s @ enc row"] Cons.prems(1) by auto
  ultimately show ?case by auto
qed simp

text \<open>A sheet whose rows can all be written becomes the texts of its rows, whatever its file held before.\<close>

lemma csv_sheet_text:
  assumes "\<And>row. row \<in> set rows \<Longrightarrow> writerow row = Inr (enc row)"
  shows "\<exists>files'. csv_sheet writerow (name, rows) files = (files', None) \<and>
    aget files' (name @ ''.csv'') = Some (concat (map enc rows)) \<and> (\<forall>f. f \<noteq> name @ ''.csv'' \<longrightarrow> aget files' f = aget files f)"
  using csv_rows_text [of rows writerow enc "aput files (name @ ''.csv'') []" "name @ ''.csv''" "[]"] assms
  by (simp add: csv_sheet_def Let_def)

end
