(* ===== verification/Xls2LuaProps.thy ===== *)
theory Xls2LuaProps
  imports Xls2Lua
begin

text \<open>
  What the conversion of the designers' sheets guarantees: the type of a converted cell, different
  keys for the rows of a sheet, literals that Lua reads as the text they were made of, and a test
  of the enumerations that does not see repeated numbers.
\<close>

section \<open>The type of a converted cell\<close>

text \<open>
  What a column type promises of a converted cell. A number column holds the number of its text when
  the text is one; for any other text it holds whatever \<open>eval\<close> makes of it, a number or not. A \<open>struct\<close>
  is a dictionary: each entry comes from one place of the template and the piece of the text at that
  place, and each place that has a piece has an entry.
\<close>

definition not_float :: "string \<Rightarrow> bool" where
  "not_float s \<longleftrightarrow> (\<exists>e. to_float (PUni s) = Inl e)"

inductive typed :: "eval_fun \<Rightarrow> enum_table \<Rightarrow> string \<Rightarrow> pyval \<Rightarrow> pyval \<Rightarrow> bool" for ev enum_tbl where
  t_int: "typed ev enum_tbl ''int'' v (PInt i)"
| t_float: "to_float v = Inr r \<Longrightarrow> typed ev enum_tbl ''float'' v (PFloat r)"
| t_float_eval: "not_float s \<Longrightarrow> ev s = Inr x \<Longrightarrow> typed ev enum_tbl ''float'' (PUni s) x"
| t_string: "typed ev enum_tbl ''string'' v (PUni s)"
| t_formula: "typed ev enum_tbl ''formula'' v (PUni s)"
| t_enum: "\<not> is_struct t \<Longrightarrow> t \<notin> set type_tbl \<Longrightarrow> aget enum_tbl t = Some tbl \<Longrightarrow> i \<in> snd ` set tbl \<Longrightarrow>
    typed ev enum_tbl t v (PInt i)"
| t_struct: "is_struct t \<Longrightarrow> between (CHR ''('') (CHR '')'') t = Inr templates \<Longrightarrow> unicode_of v = Inr text \<Longrightarrow>
    ts = split_on (CHR ''|'') templates \<Longrightarrow> ps = split_on (CHR ''|'') (ustrip text) \<Longrightarrow> distinct (dkeys d) \<Longrightarrow>
    \<forall>(k, x) \<in> set d. \<exists>i < min (length ts) (length ps). \<exists>k' sub. template_key i (ts ! i) = Inr (k', sub)
      \<and> knorm k' = knorm k \<and> typed ev enum_tbl sub (PUni (ps ! i)) x \<Longrightarrow>
    \<forall>i < min (length ts) (length ps). \<exists>k' sub. template_key i (ts ! i) = Inr (k', sub) \<and> dhas d k' \<Longrightarrow>
    typed ev enum_tbl t v (PDict d)"

lemma base_typed:
  assumes "t \<in> set type_tbl" and "base_value ev t v = Inr x"
  shows "typed ev enum_tbl t v x"
  using assms
  by (auto simp: base_value_def type_tbl_def Let_def not_float_def simp del: num_of.simps
      split: sum.splits pyval.splits if_splits intro: typed.intros)

lemma dget_value: "dget d k = Some i \<Longrightarrow> i \<in> snd ` set d"
  by (induction d) (auto split: if_splits)

lemma enum_typed:
  assumes "\<not> is_struct t" and "t \<notin> set type_tbl" and "enum_value enum_tbl t v = Inr x"
  shows "typed ev enum_tbl t v x"
  using assms(3)
  by (auto simp: enum_value_def Let_def split: sum.splits option.splits
      intro: t_enum [OF assms(1,2)] t_enum [OF assms(1,2) _ dget_value])

lemma dput_value_mem: "(k', x') \<in> set (dput d k x) \<Longrightarrow> (k', x') \<in> set d \<or> knorm k' = knorm k \<and> x' = x"
  by (induction d k x rule: dput.induct) (auto split: if_splits)

lemma dput_fold_mem:
  "(k, x) \<in> set (fold (\<lambda>(k, x) d. dput d k x) kvs d) \<Longrightarrow> (k, x) \<in> set d \<or> (\<exists>k'. knorm k' = knorm k \<and> (k', x) \<in> set kvs)"
proof (induction kvs arbitrary: d)
  case (Cons kv kvs)
  then show ?case using dput_value_mem [of k x d "fst kv" "snd kv"] by (cases kv) (fastforce dest!: Cons.IH)
qed simp

lemma dput_fold_distinct:
  "distinct (dkeys d) \<Longrightarrow> distinct (dkeys (fold (\<lambda>(k, x) d. dput d k x) kvs d))"
  by (induction kvs arbitrary: d) (auto simp: distinct_dput)

lemma dput_fold_mono: "dhas d k \<Longrightarrow> dhas (fold (\<lambda>(k, x) d. dput d k x) kvs d) k"
  by (induction kvs arbitrary: d) (auto simp: dhas_def)

lemma dput_fold_dhas: "(k, x) \<in> set kvs \<Longrightarrow> dhas (fold (\<lambda>(k, x) d. dput d k x) kvs d) k"
proof (induction kvs arbitrary: d)
  case (Cons kv kvs)
  then show ?case using dput_fold_mono [of "dput d k x" k kvs] by (cases kv) (auto simp: dhas_def)
qed simp

lemma rmap_nth: "rmap f xs = Inr ys \<Longrightarrow> length ys = length xs \<and> (\<forall>i < length xs. f (xs ! i) = Inr (ys ! i))"
  by (induction xs arbitrary: ys) (auto simp: nth_Cons split: nat.splits)

text \<open>The dictionary of a \<open>struct\<close>, when the entries of its places are converted to their types.\<close>

definition place_value :: "eval_fun \<Rightarrow> enum_table \<Rightarrow> nat \<times> string \<times> string \<Rightarrow> (pykey \<times> pyval) res" where
  "place_value ev enum_tbl = (\<lambda>(i, j, v). rbind (template_key i j) (\<lambda>(key, sub_col_type).
     rbind (cell_to_value ev enum_tbl sub_col_type (PUni v)) (\<lambda>x. Inr (key, x))))"

lemma struct_typed:
  assumes t: "is_struct t" "between (CHR ''('') (CHR '')'') t = Inr templates" "unicode_of v = Inr w"
    and r: "rmap (place_value ev enum_tbl) (zip [0..<length (split_on (CHR ''|'') templates)]
       (zip (split_on (CHR ''|'') templates) (split_on (CHR ''|'') (ustrip w)))) = Inr kvs"
    and hyps: "\<And>sub u y. length sub < length t \<Longrightarrow> cell_to_value ev enum_tbl sub u = Inr y \<Longrightarrow> typed ev enum_tbl sub u y"
  shows "typed ev enum_tbl t v (PDict (fold (\<lambda>(k, x) d. dput d k x) kvs []))"
proof -
  define ts where "ts = split_on (CHR ''|'') templates"
  define ps where "ps = split_on (CHR ''|'') (ustrip w)"
  have len: "length kvs = min (length ts) (length ps)"
    using rmap_nth [OF r] by (simp add: ts_def ps_def)
  have at: "\<exists>sub. template_key i (ts ! i) = Inr (fst (kvs ! i), sub)
      \<and> typed ev enum_tbl sub (PUni (ps ! i)) (snd (kvs ! i))" if i: "i < min (length ts) (length ps)" for i
  proof -
    from rmap_nth [OF r] i have "place_value ev enum_tbl (i, ts ! i, ps ! i) = Inr (kvs ! i)" by (simp add: ts_def ps_def)
    then obtain k sub y where sub: "template_key i (ts ! i) = Inr (k, sub)"
      "cell_to_value ev enum_tbl sub (PUni (ps ! i)) = Inr y" "kvs ! i = (k, y)"
      by (auto simp: place_value_def)
    have "ts ! i \<in> set (split_on (CHR ''|'') templates)" using i by (simp add: ts_def)
    then have "length sub < length t"
      using split_on_length template_key_length [OF sub(1)] between_length [OF t(2)] by (meson le_less_trans)
    from hyps [OF this sub(2)] sub show ?thesis by simp
  qed
  have from_place: "\<exists>i < min (length ts) (length ps). \<exists>k' sub. template_key i (ts ! i) = Inr (k', sub)
      \<and> knorm k' = knorm k \<and> typed ev enum_tbl sub (PUni (ps ! i)) y"
    if "(k, y) \<in> set (fold (\<lambda>(k, x) d. dput d k x) kvs [])" for k y
  proof -
    from dput_fold_mem [OF that] obtain i where "i < length kvs" "knorm (fst (kvs ! i)) = knorm k" "snd (kvs ! i) = y"
      by (auto simp: in_set_conv_nth)
    with at [of i] len show ?thesis by metis
  qed
  have "\<exists>k' sub. template_key i (ts ! i) = Inr (k', sub) \<and> dhas (fold (\<lambda>(k, x) d. dput d k x) kvs []) k'"
    if "i < min (length ts) (length ps)" for i
  proof -
    from that len have "kvs ! i \<in> set kvs" by simp
    then have "dhas (fold (\<lambda>(k, x) d. dput d k x) kvs []) (fst (kvs ! i))"
      by (intro dput_fold_dhas [of _ "snd (kvs ! i)"]) simp
    with at [OF that] show ?thesis by blast
  qed
  with t from_place show ?thesis
    by (intro t_struct [of _ templates _ w ts ps]) (auto simp: ts_def ps_def dput_fold_distinct)
qed

text \<open>
  C20: a cell is converted to a value of the type its column declares: an integer, a number, a text,
  the id of an entry of the enumeration, or a dictionary made after the template, with one entry for
  each place that has a piece of text, converted from that piece to the type the place names. The one
  value that need not be of its type is that of a \<open>float\<close> column whose text is no number: it is what
  \<open>eval\<close> returns for that text. Nothing is assumed of \<open>eval\<close>.
\<close>

theorem cell_to_value_typed:
  "cell_to_value ev enum_tbl t v = Inr x \<Longrightarrow> typed ev enum_tbl t v x"
proof (induction "length t" arbitrary: t v x rule: less_induct)
  case less
  consider "is_struct t" | "\<not> is_struct t" "t \<in> set type_tbl" | "\<not> is_struct t" "t \<notin> set type_tbl" by blast
  then show ?case
  proof cases
    case 1
    with less.prems obtain templates w kvs where "between (CHR ''('') (CHR '')'') t = Inr templates" "unicode_of v = Inr w"
      "rmap (place_value ev enum_tbl) (zip [0..<length (split_on (CHR ''|'') templates)]
           (zip (split_on (CHR ''|'') templates) (split_on (CHR ''|'') (ustrip w)))) = Inr kvs"
      and x: "x = PDict (fold (\<lambda>(k, x) d. dput d k x) kvs [])"
      by (subst (asm) cell_to_value.simps) (auto simp: place_value_def)
    from struct_typed [OF 1 this(1-3) less.hyps] show ?thesis unfolding x by blast
  next
    case 2
    with less.prems show ?thesis by (subst (asm) cell_to_value.simps) (simp add: base_typed)
  next
    case 3
    with less.prems show ?thesis by (subst (asm) cell_to_value.simps) (simp add: enum_typed)
  qed
qed

lemma int_text_ab: "int_text ''ab'' = None"
proof -
  have "ustrip ''ab'' = ''ab''" by (rule ustrip_id) (simp_all add: visible_def)
  moreover have "ulstrip ''ab'' = ''ab''" by (rule ulstrip_visible) (simp_all add: visible_def)
  ultimately show ?thesis by (simp add: int_text_def sign_of_def is_digit_def)
qed

text \<open>An \<open>eval\<close> that divides: Python 2 gives the integer 0 for \<open>1/2\<close>, and the number column holds it.\<close>

definition half_eval :: eval_fun where
  "half_eval s = (if s = ''1/2'' then Inr (PInt 0) else Inl NameError)"

lemma float_text_half: "to_float (PUni ''1/2'') = Inl ValueError"
proof -
  have "ustrip ''1/2'' = ''1/2''" by (rule ustrip_id) (simp_all add: visible_def)
  then show ?thesis
    by (simp add: float_text_def sign_of_def special_float_def exp_part_def is_digit_def is_alpha_def)
qed

lemma struct_example:
  "cell_to_value half_eval [] ''struct(int[hp]|string|float)'' (PUni ''7|ab|1/2'')
     = Inr (PDict [(KUni ''hp'', PInt 7), (KInt 2, PUni ''ab''), (KInt 3, PInt 0)])"
proof -
  let ?c = "cell_to_value half_eval []"
  have 7: "int_text ''7'' = Some 7"
    using int_text_digits [of "''7''"] by (simp add: is_digit_def digit_val_def)
  have 1: "?c ''int'' (PUni ''7'') = Inr (PInt 7)"
    by (subst cell_to_value.simps) (simp add: is_struct_def type_tbl_def base_value_def 7)
  have 2: "?c ''string'' (PUni ''ab'') = Inr (PUni ''ab'')"
    by (subst cell_to_value.simps) (simp add: is_struct_def type_tbl_def base_value_def int_text_ab)
  have 3: "?c ''float'' (PUni ''1/2'') = Inr (PInt 0)"
    by (subst cell_to_value.simps)
      (simp add: is_struct_def type_tbl_def base_value_def float_text_half half_eval_def del: to_float.simps)
  have "ustrip ''7|ab|1/2'' = ''7|ab|1/2''" by (rule ustrip_id) (simp_all add: visible_def)
  with 1 2 3 show ?thesis
    by (subst cell_to_value.simps)
      (simp add: is_struct_def between_def nth_res_def template_key_def upt_rec del: rbind_eq_Inr)
qed

lemma cell_to_value_typed_witness:
  "typed half_eval [] ''struct(int[hp]|string|float)'' (PUni ''7|ab|1/2'')
     (PDict [(KUni ''hp'', PInt 7), (KInt 2, PUni ''ab''), (KInt 3, PInt 0)])"
  by (rule cell_to_value_typed [OF struct_example])

section \<open>The key column\<close>

text \<open>
  A column that is a key: its name stands in the name row, is the last column of that name and no
  list takes it, and its type is one that is tested.
\<close>

definition key_column :: "sheet_head \<Rightarrow> string \<Rightarrow> nat \<Rightarrow> bool" where
  "key_column g k j \<longleftrightarrow>
     row_key (s_header g) = Some (PUni k) \<and> k \<noteq> [] \<and> PUni k \<notin> set (ignored_names (s_header g))
     \<and> j < length (h_cols (s_header g)) \<and> j < length (name_row g) \<and> name_row g ! j = PUni k
     \<and> snd (h_cols (s_header g) ! j) \<notin> {''list'', ''dict''}
     \<and> \<not> suffix ''@default'' (fst (h_cols (s_header g) ! j)) \<and> \<not> suffix ''@ignored'' (fst (h_cols (s_header g) ! j))
     \<and> distinct (map fst (normal_name_tbl g)) \<and> aget (normal_name_tbl g) k = Some j
     \<and> list_all (\<lambda>(n, _). \<forall>p. split_on (CHR ''|'') n \<noteq> [p, k]) (list_name_tbl g)"

lemma col_value_keys:
  assumes "col_value ev enum_tbl g i col cell keys = Inr (v, keys')"
  shows "\<exists>new. keys' = new @ keys \<and> set new \<inter> set keys = {}"
  using assms by (auto simp: col_value_def split: if_splits prod.splits intro: exI [of _ "[_]"])

lemma col_value_key:
  assumes "key_column g k j" and "col_value ev enum_tbl g j (h_cols (s_header g) ! j) cell keys = Inr (v, keys')"
  shows "\<exists>kv. key_of v = Inr kv \<and> knorm kv \<notin> set keys \<and> knorm kv \<in> set keys'"
  using assms by (auto simp: col_value_def key_column_def nth_res_def split: if_splits prod.splits)

text \<open>After the columns before \<open>n\<close>: the cells from \<open>n\<close> on are untouched, and the key is noted.\<close>

lemma row_cols_keys:
  assumes "rfold (row_col ev enum_tbl g) (enumerate n cols) st = Inr st'"
  shows "\<exists>new. seen_keys st' = new @ seen_keys st \<and> set new \<inter> set (seen_keys st) = {}"
  using assms
proof (induction cols arbitrary: n st)
  case (Cons c cols)
  then obtain s1 where 1: "row_col ev enum_tbl g (n, c) st = Inr s1"
    "rfold (row_col ev enum_tbl g) (enumerate (Suc n) cols) s1 = Inr st'" by auto
  from 1(1) obtain a where a: "seen_keys s1 = a @ seen_keys st" "set a \<inter> set (seen_keys st) = {}"
    by (auto simp: row_col_def dest!: col_value_keys)
  from Cons.IH [OF 1(2)] obtain b where b: "seen_keys st' = b @ seen_keys s1" "set b \<inter> set (seen_keys s1) = {}"
    by blast
  from a b show ?case by (intro exI [of _ "b @ a"]) auto
qed simp

lemma row_cols_cells:
  assumes "rfold (row_col ev enum_tbl g) (enumerate n cols) st = Inr st'" and "i < n"
  shows "cells st' ! i = cells st ! i"
  using assms
proof (induction cols arbitrary: n st)
  case (Cons c cols)
  then obtain s1 where 1: "row_col ev enum_tbl g (n, c) st = Inr s1"
    "rfold (row_col ev enum_tbl g) (enumerate (Suc n) cols) s1 = Inr st'" by auto
  from 1(1) obtain v where "cells s1 = (cells st)[n := v]" by (auto simp: row_col_def)
  with Cons.IH [OF 1(2)] Cons.prems(2) show ?case by simp
qed simp

lemma enumerate_split:
  "j < length cs \<Longrightarrow> enumerate n cs = enumerate n (take j cs) @ (n + j, cs ! j) # enumerate (n + Suc j) (drop (Suc j) cs)"
proof (induction cs arbitrary: n j)
  case (Cons c cs)
  then show ?case by (cases j) auto
qed simp

lemma row_cols_key:
  assumes "key_column g k j"
    and "rfold (row_col ev enum_tbl g) (enumerate 0 (h_cols (s_header g))) st = Inr st'"
  shows "\<exists>kv. j < length (cells st') \<and> key_of (cells st' ! j) = Inr kv \<and> knorm kv \<notin> set (seen_keys st) \<and> knorm kv \<in> set (seen_keys st')"
proof -
  let ?cs = "h_cols (s_header g)" and ?f = "row_col ev enum_tbl g"
  have j: "j < length ?cs" using assms(1) by (simp add: key_column_def)
  from assms(2) obtain s1 s2 where
    1: "rfold ?f (enumerate 0 (take j ?cs)) st = Inr s1"
    and 2: "?f (j, ?cs ! j) s1 = Inr s2"
    and 3: "rfold ?f (enumerate (Suc j) (drop (Suc j) ?cs)) s2 = Inr st'"
    by (subst (asm) enumerate_split [OF j]) (auto simp: rfold_append)
  from 2 obtain cell v keys where v: "j < length (cells s1)" "col_value ev enum_tbl g j (?cs ! j) cell (seen_keys s1) = Inr (v, keys)"
    "s2 = \<lparr>cells = (cells s1)[j := v], null_index_tbl = null_index_tbl s1 @ [cell = empty_cell], seen_keys = keys\<rparr>"
    by (auto simp: row_col_def nth_res_Inr)
  from col_value_key [OF assms(1) v(2)] obtain kv where
    kv: "key_of v = Inr kv" "knorm kv \<notin> set (seen_keys s1)" "knorm kv \<in> set keys" by blast
  from row_cols_keys [OF 1] kv(2) have new: "knorm kv \<notin> set (seen_keys st)" by auto
  from row_cols_keys [OF 3] kv(3) v(3) have old: "knorm kv \<in> set (seen_keys st')" by auto
  have len: "length (cells t) = length (cells s)" if "rfold ?f xs s = Inr t" for xs s t
    using that by (rule rfold_invariant) (auto simp: row_col_def split: prod.splits)
  have "cells st' ! j = v" using row_cols_cells [OF 3, of j] v by simp
  with kv(1) new old len [OF 3] v show ?thesis by auto
qed

lemma normal_cols_get:
  assumes "rfold (normal_col ign row) nt d = Inr d'" and "distinct (map fst nt)" and "k \<noteq> []" and "PUni k \<notin> set ign"
  shows "aget d' k = (case aget nt k of Some j \<Rightarrow> Some (row ! j) | None \<Rightarrow> aget d k)"
  using assms(1,2)
proof (induction nt arbitrary: d)
  case (Cons p nt)
  obtain n i where p: "p = (n, i)" by (cases p)
  from Cons.prems(1) p obtain d1 where d1: "normal_col ign row (n, i) d = Inr d1" "rfold (normal_col ign row) nt d1 = Inr d'"
    by auto
  have "aget d1 k = (if n = k then Some (row ! i) else aget d k)"
    using d1(1) assms(3,4) by (auto simp: normal_col_def nth_res_Inr split: if_splits)
  moreover have "n = k \<Longrightarrow> aget nt k = None" using Cons.prems(2) p by (auto simp: aget_None_iff)
  ultimately show ?case using Cons.IH [OF d1(2)] Cons.prems(2) p by (auto split: option.splits)
qed simp

lemma list_col_shape:
  "list_col row nulls (n, js) (d, l) = Inr (d1, l1) \<Longrightarrow>
     \<exists>num nm vs. split_on (CHR ''|'') n = [num, nm] \<and> d1 = aput d nm (PList vs)"
  unfolding list_col_def prod.case
  by (erule rbind_InrE) (auto simp: Let_def split: list.split_asm if_split_asm option.split_asm)

lemma list_cols_get:
  assumes "rfold (list_col row nulls) lt (d, l) = Inr (d', l')"
    and "list_all (\<lambda>(n, _). \<forall>p. split_on (CHR ''|'') n \<noteq> [p, k]) lt"
  shows "aget d' k = aget d k"
  using assms
proof (induction lt arbitrary: d l)
  case (Cons p lt)
  obtain n js where p: "p = (n, js)" by (cases p)
  from Cons.prems(1) p obtain d1 l1 where d1: "list_col row nulls (n, js) (d, l) = Inr (d1, l1)"
    "rfold (list_col row nulls) lt (d1, l1) = Inr (d', l')" by auto
  have "aget d1 k = aget d k"
    using list_col_shape [OF d1(1)] Cons.prems(2) p by auto
  with Cons.IH [OF d1(2)] Cons.prems(2) show ?case by simp
qed simp

text \<open>The key of a row of data.\<close>

definition key_value :: "string \<Rightarrow> row_data \<Rightarrow> nkey option" where
  "key_value k d = (case aget d k of None \<Rightarrow> None
     | Some v \<Rightarrow> (case key_of v of Inl _ \<Rightarrow> None | Inr kv \<Rightarrow> Some (knorm kv)))"

lemma row_to_data_key:
  assumes "key_column g k j" and "row_to_data ev enum_tbl g row keys = Inr (d, keys')"
  shows "\<exists>n. key_value k d = Some n \<and> n \<notin> set keys \<and> n \<in> set keys' \<and> set keys \<subseteq> set keys'"
proof -
  from assms(2) obtain st d1 l where
    s: "rfold (row_col ev enum_tbl g) (enumerate 0 (h_cols (s_header g)))
          \<lparr>cells = row, null_index_tbl = [], seen_keys = keys\<rparr> = Inr st"
    "rfold (normal_col (ignored_names (s_header g)) (cells st)) (normal_name_tbl g) [] = Inr d1"
    "rfold (list_col (cells st) (null_index_tbl st)) (list_name_tbl g) (d1, []) = Inr (d, l)"
    "keys' = seen_keys st"
    by (auto simp: row_to_data_def)
  have g: "distinct (map fst (normal_name_tbl g))" "k \<noteq> []" "PUni k \<notin> set (ignored_names (s_header g))"
    "aget (normal_name_tbl g) k = Some j" "list_all (\<lambda>(n, _). \<forall>p. split_on (CHR ''|'') n \<noteq> [p, k]) (list_name_tbl g)"
    using assms(1) by (simp_all add: key_column_def)
  from row_cols_key [OF assms(1) s(1)] obtain kv where
    kv: "key_of (cells st ! j) = Inr kv" "knorm kv \<notin> set keys" "knorm kv \<in> set keys'" by (auto simp: s(4))
  have "aget d k = Some (cells st ! j)"
    using list_cols_get [OF s(3) g(5)] normal_cols_get [OF s(2) g(1,2,3)] g(4) by simp
  with kv row_cols_keys [OF s(1)] show ?thesis by (auto simp: key_value_def s(4))
qed

lemma gen_rows_keys:
  assumes "key_column g k j" and "gen_rows ev enum_tbl g rows keys = (ds, e)"
  shows "distinct (map (key_value k) ds) \<and> (\<forall>d \<in> set ds. \<exists>n. key_value k d = Some n \<and> n \<notin> set keys)"
  using assms(2)
proof (induction rows arbitrary: keys ds e)
  case (Cons row rows)
  show ?case
  proof (cases "blank_row row")
    case False
    show ?thesis
    proof (cases "row_to_data ev enum_tbl g row keys")
      case (Inr p)
      obtain d keys' where p: "p = (d, keys')" by (cases p)
      from Cons.prems Inr False p obtain ds' where ds: "ds = d # ds'" "gen_rows ev enum_tbl g rows keys' = (ds', e)"
        by (auto split: prod.splits)
      from row_to_data_key [OF assms(1) Inr [unfolded p]] obtain n where
        n: "key_value k d = Some n" "n \<notin> set keys" "n \<in> set keys'" "set keys \<subseteq> set keys'" by blast
      from Cons.IH [OF ds(2)] n show ?thesis unfolding ds(1) by fastforce
    qed (use Cons.prems False in auto)
  qed (use Cons.prems in auto)
qed simp

text \<open>
  C19: the rows a sheet yields have different keys. Where the head names a key column that is
  tested, every row yielded has a value in it that can be a key, and no two rows have equal ones
  (as Python compares keys), however the sheet ends.
\<close>

theorem sheet_keys_distinct:
  assumes "read_head enum_tbl sheet = Inr g" and "key_column g k j"
  shows "distinct (map (key_value k) (fst (sheet_to_dict ev enum_tbl sheet)))
    \<and> (\<forall>d \<in> set (fst (sheet_to_dict ev enum_tbl sheet)). key_value k d \<noteq> None)"
  using gen_rows_keys [OF assms(2), of ev enum_tbl "drop 3 sheet" "[]"] assms(1)
  by (cases "gen_rows ev enum_tbl g (drop 3 sheet) []") (auto simp: sheet_to_dict_def)


definition example_sheet :: sheet where
  "example_sheet =
     [[PUni ''int@key'', PUni ''string''], [PUni ''id'', PUni ''name''], [PUni ''id'', PUni ''name''],
      [PFloat 1, PUni ''a''], [PFloat 2, PUni ''b'']]"

definition example_head :: sheet_head where
  "example_head = \<lparr>s_header = \<lparr>h_cols = [(''int@key'', ''int''), (''string'', ''string'')],
       row_key = Some (PUni ''id''), ignored_names = []\<rparr>,
     normal_name_tbl = [(''id'', 0), (''name'', 1)], list_name_tbl = [],
     name_row = [PUni ''id'', PUni ''name''], title_row = [PUni ''id'', PUni ''name'']\<rparr>"

lemma example_read: "read_head [] example_sheet = Inr example_head"
  by (simp add: read_head_def example_sheet_def example_head_def nth_res_def header_col_def cell_str_def
      col_suffix_def col_kind_def known_type_def type_tbl_def legal_extra_types_def is_struct_def name_col_def
      del: rbind_eq_Inr)

lemma example_key: "key_column example_head ''id'' 0"
  by (simp add: key_column_def example_head_def suffix_def)

lemma sheet_keys_distinct_witness:
  "distinct (map (key_value ''id'') (fst (sheet_to_dict (\<lambda>s. Inl NameError) [] example_sheet)))
    \<and> list_all (\<lambda>d. key_value ''id'' d \<noteq> None) (fst (sheet_to_dict (\<lambda>s. Inl NameError) [] example_sheet))"
  unfolding list_all_iff by (rule sheet_keys_distinct [OF example_read example_key])

section \<open>Texts in Lua\<close>

text \<open>
  The literals of texts as the lexer of the repository's Lua reads them (\<open>read_string\<close> and
  \<open>read_long_string\<close> of \<open>skynet/3rd/lua/llex.c\<close>). The result is the text and what follows the literal,
  or nothing where the lexer raises an error. A newline is a line feed or a carriage return, or one of
  each in either order (\<open>inclinenumber\<close>).
\<close>

abbreviation carriage_return :: char where
  "carriage_return \<equiv> CHR 0x0D"

definition line_end :: "char \<Rightarrow> bool" where
  "line_end c \<longleftrightarrow> c = newline \<or> c = carriage_return"

text \<open>What follows a newline that begins with the character \<open>c\<close>.\<close>

definition after_newline :: "char \<Rightarrow> string \<Rightarrow> string" where
  "after_newline c s = (case s of d # t \<Rightarrow> if line_end d \<and> d \<noteq> c then t else s | [] \<Rightarrow> [])"

lemma after_newline_length [termination_simp]: "length (after_newline c s) < Suc (length s)"
  by (auto simp: after_newline_def split: list.splits)

text \<open>The bytes of a character number, \<open>luaO_utf8esc\<close>: \<open>mfb\<close> is the most that fits in the first one.\<close>

function lua_utf8_first :: "nat \<Rightarrow> nat \<Rightarrow> string \<Rightarrow> string" where
  "lua_utf8_first mfb x acc =
     (if x > mfb then lua_utf8_first (mfb div 2) (x div 64) (char_of (0x80 + x mod 64) # acc)
      else char_of (254 - 2 * mfb + x) # acc)"
  by pat_completeness auto
termination by (relation "measure (\<lambda>(mfb, x, acc). x)") auto

declare lua_utf8_first.simps [simp del]

definition lua_utf8 :: "nat \<Rightarrow> string" where
  "lua_utf8 x = (if x < 0x80 then [char_of x] else lua_utf8_first 0x1F (x div 64) [char_of (0x80 + x mod 64)])"

text \<open>A hexadecimal digit, \<open>luaO_hexavalue\<close>.\<close>

definition lua_hex :: "char \<Rightarrow> nat option" where
  "lua_hex c =
     (let n = of_char c in
      if is_digit c then Some (n - 48)
      else if 97 \<le> n \<and> n \<le> 102 then Some (n - 87)
      else if 65 \<le> n \<and> n \<le> 70 then Some (n - 55) else None)"

text \<open>An escape sequence, after its backslash: the characters it stands for and what follows it.\<close>

definition lua_escape :: "string \<Rightarrow> (string \<times> string) option" where
  "lua_escape s =
     (case s of
        [] \<Rightarrow> None
      | c # t \<Rightarrow>
          (case map_of [(CHR ''a'', CHR 0x07), (CHR ''b'', CHR 0x08), (CHR ''f'', CHR 0x0C),
                 (CHR ''n'', CHR 0x0A), (CHR ''r'', CHR 0x0D), (CHR ''t'', CHR 0x09), (CHR ''v'', CHR 0x0B),
                 (CHR 0x5C, CHR 0x5C), (CHR 0x22, CHR 0x22), (CHR 0x27, CHR 0x27)] c of
             Some e \<Rightarrow> Some ([e], t)
           | None \<Rightarrow>
               if line_end c then Some ([newline], after_newline c t)
               else if c = CHR ''x'' then
                 (case t of a # b # u \<Rightarrow> 
                   (case (lua_hex a, lua_hex b) of (Some m, Some n) \<Rightarrow> Some ([char_of (16 * m + n)], u) | _ \<Rightarrow> None) | _ \<Rightarrow> None)
               else if c = CHR ''u'' then
                 (let ds = takeWhile (\<lambda>a. lua_hex a \<noteq> None) (drop 1 t); u = drop (1 + length ds) t;
                      n = foldl (\<lambda>n a. 16 * n + the (lua_hex a)) 0 ds in
                  if take 1 t = ''{'' \<and> ds \<noteq> [] \<and> n \<le> 0x10FFFF \<and> take 1 u = ''}''
                  then Some (lua_utf8 n, drop 1 u) else None)
               else if c = CHR ''z'' then Some ([], dropWhile is_space t)
               else if is_digit c then
                 (let ds = takeWhile is_digit (take 3 s); n = nat_of_digits ds in
                  if n \<le> 255 then Some ([char_of n], drop (length ds) s) else None)
               else None))"

lemma lua_escape_length: "lua_escape s = Some (e, t) \<Longrightarrow> length t < length s"
proof -
  have "length (dropWhile is_space u) < Suc (length u)" for u
    by (simp add: length_dropWhile_le le_imp_less_Suc)
  moreover have "length u - length (takeWhile is_digit (take 3 u)) < length u" if "u \<noteq> []" "is_digit (hd u)" for u
    using that by (cases u) (simp_all add: numeral_3_eq_3)
  ultimately show "lua_escape s = Some (e, t) \<Longrightarrow> length t < length s"
    by (cases s)
      (force simp: lua_escape_def Let_def after_newline_length 
        split: option.splits if_splits list.splits)+
qed

text \<open>The rest of a literal that ends with the quote \<open>q\<close>.\<close>

function lua_quoted :: "char \<Rightarrow> string \<Rightarrow> (string \<times> string) option" where
  "lua_quoted q [] = None"
| "lua_quoted q (c # s) =
     (if c = q then Some ([], s)
      else if line_end c then None
      else if c = CHR 0x5C then
        (case lua_escape s of
           None \<Rightarrow> None
         | Some (e, t) \<Rightarrow> map_option (\<lambda>(r, rest). (e @ r, rest)) (lua_quoted q t))
      else map_option (\<lambda>(r, rest). (c # r, rest)) (lua_quoted q s))"
  by pat_completeness auto
termination by (relation "measure (\<lambda>(q, s). length s)") (auto dest: lua_escape_length)

text \<open>The rest of a literal in long brackets that ends with the bracket \<open>close\<close>: no escapes, and a newline of any
  form is a line feed. The first newline is left out.\<close>

fun lua_until :: "string \<Rightarrow> string \<Rightarrow> (string \<times> string) option" where
  "lua_until close [] = None"
| "lua_until close (c # s) =
     (if prefix close (c # s) then Some ([], drop (length close) (c # s))
      else if line_end c then map_option (\<lambda>(r, rest). (newline # r, rest)) (lua_until close (after_newline c s))
      else map_option (\<lambda>(r, rest). (c # r, rest)) (lua_until close s))"

definition lua_long :: "nat \<Rightarrow> string \<Rightarrow> (string \<times> string) option" where
  "lua_long sep s =
     lua_until ('']'' @ replicate sep (CHR ''='') @ '']'')
       (case s of c # t \<Rightarrow> if line_end c then after_newline c t else s | [] \<Rightarrow> [])"

text \<open>A literal: an opening bracket of some level (\<open>skip_sep\<close>), or a quote.\<close>

definition lua_literal :: "string \<Rightarrow> (string \<times> string) option" where
  "lua_literal s =
     (case s of
        [] \<Rightarrow> None
      | c # t \<Rightarrow>
          if c = CHR ''['' then
            (let sep = length (takeWhile ((=) (CHR ''='')) t) in
             if take 1 (drop sep t) = ''['' then lua_long sep (drop (sep + 1) t) else None)
          else if c = CHR 0x22 \<or> c = CHR 0x27 then lua_quoted c t else None)"

text \<open>The texts the quoting is right for.\<close>

definition quotable :: "string \<Rightarrow> bool" where
  "quotable s \<longleftrightarrow> carriage_return \<notin> set s \<and>
     (if newline \<in> set s then hd s \<noteq> newline \<and> \<not> sublist '']=]'' (s @ '']='')
      else if CHR 0x22 \<in> set s \<and> CHR 0x27 \<in> set s then \<not> sublist '']]'' (s @ '']'')
      else CHR 0x5C \<notin> set s)"

lemma after_newline_id: "hd s \<noteq> carriage_return \<Longrightarrow> after_newline newline s = s"
  by (cases s) (simp_all add: after_newline_def line_end_def)

lemma lua_until_found:
  "close \<noteq> [] \<Longrightarrow> hd close \<noteq> carriage_return \<Longrightarrow> carriage_return \<notin> set s \<Longrightarrow> \<not> sublist close (s @ butlast close) \<Longrightarrow>
   lua_until close (s @ close @ rest) = Some (s, rest)"
proof (induction s)
  case Nil
  then show ?case by (cases close) simp_all
next
  case (Cons c s)
  have "\<not> prefix close ((c # s) @ close @ rest)"
  proof
    assume p: "prefix close ((c # s) @ close @ rest)"
    have "prefix ((c # s) @ butlast close) ((c # s) @ close @ rest)"
      by (metis append_butlast_last_id append_assoc same_prefix_prefix prefix_def Cons.prems(1))
    moreover have "length close \<le> length ((c # s) @ butlast close)" using Cons.prems(1) by (cases close) simp_all
    ultimately have "prefix close ((c # s) @ butlast close)" using p prefix_length_prefix by blast
    with Cons.prems(4) show False by (meson prefix_imp_sublist)
  qed
  moreover have "\<not> sublist close (s @ butlast close)" using Cons.prems(4) by (auto simp: sublist_Cons_right)
  moreover have "after_newline newline (s @ close @ rest) = s @ close @ rest"
    using Cons.prems by (intro after_newline_id) (cases s; auto)
  moreover have "c \<noteq> carriage_return" using Cons.prems(3) by auto
  ultimately show ?case using Cons by (simp add: line_end_def)
qed

lemma lua_quoted_found:
  "q \<notin> set s \<Longrightarrow> \<forall>c \<in> set s. \<not> line_end c \<Longrightarrow> CHR 0x5C \<notin> set s \<Longrightarrow> lua_quoted q (s @ q # rest) = Some (s, rest)"
  by (induction s) auto

lemma lua_literal_quoted: "c = CHR 0x22 \<or> c = CHR 0x27 \<Longrightarrow> lua_literal (c # t) = lua_quoted c t"
  by (auto simp: lua_literal_def)

lemma lua_literal_long:
  "lua_literal (''[=['' @ t) = lua_long 1 t" "lua_literal (''[['' @ t) = lua_long 0 t"
  by (simp_all add: lua_literal_def)

lemma lua_long_found:
  assumes "s \<noteq> []" and "hd s \<noteq> newline" and "carriage_return \<notin> set s"
    and "\<not> sublist ('']'' @ replicate n (CHR ''='') @ '']'') (s @ '']'' @ replicate n (CHR ''=''))"
  shows "lua_long n (s @ ('']'' @ replicate n (CHR ''='') @ '']'') @ rest) = Some (s, rest)"
proof -
  from assms(1-3) have "\<not> line_end (hd s)" by (cases s) (auto simp: line_end_def)
  with assms(1) have "lua_long n (s @ t) = lua_until ('']'' @ replicate n (CHR ''='') @ '']'') (s @ t)" for t
    by (cases s) (simp_all add: lua_long_def)
  moreover have "butlast ('']'' @ replicate n (CHR ''='') @ '']'') = '']'' @ replicate n (CHR ''='')"
    by (simp add: butlast_append)
  ultimately show ?thesis
    using lua_until_found [of "'']'' @ replicate n (CHR ''='') @ '']''" s rest] assms(3,4) by simp
qed

text \<open>
  C21: Lua reads the literal of a quotable text as that text: the form is chosen by the characters
  of the text, and whatever follows the literal is left. Quotable are the texts without a carriage
  return and, in quotes, without a backslash; in long brackets those that neither begin with a newline nor
  reach the closing bracket early.
\<close>

theorem quote_lua_reads:
  assumes "quotable s"
  shows "lua_literal (quote_lua s @ rest) = Some (s, rest)"
proof -
  from assms have cr: "carriage_return \<notin> set s" by (simp add: quotable_def)
  consider (nl) "newline \<in> set s" | (both) "newline \<notin> set s" "CHR 0x22 \<in> set s" "CHR 0x27 \<in> set s"
    | (double) "newline \<notin> set s" "CHR 0x22 \<notin> set s" | (single) "newline \<notin> set s" "CHR 0x22 \<in> set s" "CHR 0x27 \<notin> set s"
    by blast
  then show ?thesis
  proof cases
    case nl
    with assms have "s \<noteq> []" "hd s \<noteq> newline" "\<not> sublist '']=]'' (s @ '']='')" by (auto simp: quotable_def)
    with nl cr lua_long_found [of s 1 rest] show ?thesis by (simp add: quote_lua_def lua_literal_long(1) [simplified])
  next
    case both
    with assms have "s \<noteq> []" "hd s \<noteq> newline" "\<not> sublist '']]'' (s @ '']'')" by (cases s; auto simp: quotable_def)+
    with both cr lua_long_found [of s 0 rest] show ?thesis by (simp add: quote_lua_def lua_literal_long(2) [simplified])
  next
    case double
    with cr have "\<forall>c \<in> set s. \<not> line_end c" by (auto simp: line_end_def)
    with double assms lua_quoted_found [of "CHR 0x22" s rest] show ?thesis
      by (simp add: quotable_def quote_lua_def lua_literal_quoted)
  next
    case single
    with cr have "\<forall>c \<in> set s. \<not> line_end c" by (auto simp: line_end_def)
    with single assms lua_quoted_found [of "CHR 0x27" s rest] show ?thesis
      by (simp add: quotable_def quote_lua_def lua_literal_quoted)
  qed
qed

text \<open>A text of two lines with both quotes, followed by the rest of a row.\<close>

lemma quote_lua_reads_witness:
  "lua_literal (quote_lua [CHR ''a'', CHR 0x22, newline, CHR 0x27, CHR '']''] @ '', 7}'')
     = Some ([CHR ''a'', CHR 0x22, newline, CHR 0x27, CHR '']''], '', 7}'')"
  by (rule quote_lua_reads) (simp add: quotable_def newline_char sublist_code)

text \<open>
  A text with a backslash is read as another one. So is a text of several lines that end with both a carriage
  return and a line feed; with a carriage return alone the literal is in quotes, and an error.
\<close>

lemma backslash_lost:
  "lua_literal (quote_lua [CHR ''a'', CHR 0x5C, CHR ''n'']) = Some ([CHR ''a'', CHR 0x0A], [])"
  by (simp add: quote_lua_def lua_literal_quoted newline_char line_end_def lua_escape_def)

lemma carriage_return_lost:
  "lua_literal (quote_lua [CHR ''a'', carriage_return, newline, CHR ''b'']) = Some ([CHR ''a'', newline, CHR ''b''], [])"
  by (simp add: quote_lua_def lua_literal_long(1) [simplified] lua_long_def newline_char line_end_def after_newline_def)

lemma lua_quoted_unfinished:
  "q \<notin> set s \<Longrightarrow> CHR 0x5C \<notin> set s \<Longrightarrow> \<exists>c \<in> set s. line_end c \<Longrightarrow> lua_quoted q (s @ t) = None"
  by (induction s) auto

lemma carriage_return_error:
  assumes "carriage_return \<in> set s" and "newline \<notin> set s" and "CHR 0x5C \<notin> set s"
    and "CHR 0x22 \<notin> set s \<or> CHR 0x27 \<notin> set s"
  shows "lua_literal (quote_lua s @ rest) = None"
proof -
  from assms(1) have "\<exists>c \<in> set s. line_end c" by (auto simp: line_end_def)
  with assms show ?thesis by (auto simp: quote_lua_def lua_literal_quoted lua_quoted_unfinished)
qed

section \<open>Enumerations\<close>

text \<open>
  A repeated name that is a number goes unnoticed. The test looks the number up among the
  texts entered so far, then enters the text of its integer: whatever id that text had is replaced.
\<close>

theorem enum_number_overwrites:
  assumes "\<forall>(k, i) \<in> set (name_to_id st). \<exists>s. k = KUni s" and "NNum q \<notin> set (idx_ids st)"
  shows "\<exists>st'. enum_row [] (PFloat r) (PFloat q) st = Inr st'
    \<and> dget (name_to_id st') (KUni (str_of_int (trunc r))) = Some (trunc q)"
proof -
  have "dget d (KFloat r) = None" if "\<forall>(k, i) \<in> set d. \<exists>s. k = KUni s" for d :: "(pykey \<times> int) list"
    using that by (induction d) auto
  with assms show ?thesis by (simp add: enum_row_def dhas_def del: rbind_eq_Inr)
qed

lemma enum_number_overwrites_witness:
  "\<exists>st'. enum_row [] (PFloat 5) (PFloat 2) \<lparr>name_to_id = [(KUni ''5'', 1)], idx_ids = [NNum 1]\<rparr> = Inr st'
    \<and> dget (name_to_id st') (KUni (str_of_int (trunc 5))) = Some (trunc 2)"
  by (rule enum_number_overwrites) simp_all

end
