(* ===== verification/XlDate.thy ===== *)
theory XlDate
  imports XlsValue
begin

text \<open>
  \<open>xlrd/xldate.py\<close>: dates in a workbook are numbers of days. The conversions between such a number
  and a date of the Gregorian calendar, with the faults of the 1900 system. A number is the rational
  value of the double; a product of doubles is rounded with \<open>to_double\<close>.
\<close>

section \<open>Conversions\<close>

datatype xldate_error =
  XLDateNegative | XLDateAmbiguous | XLDateTooLarge | XLDateBadDatemode | XLDateBadTuple

type_synonym date_tuple = "int \<times> int \<times> int"
type_synonym time_tuple = "int \<times> int \<times> int"

definition JDN_delta :: "int \<Rightarrow> int" where
  "JDN_delta datemode = (if datemode = 0 then 2415080 - 61 else 2416482 - 1)"

definition XLDAYS_TOO_LARGE :: "int \<Rightarrow> int" where
  "XLDAYS_TOO_LARGE datemode = (if datemode = 0 then 2958466 else 2958466 - 1462)"

text \<open>\<open>round(x)\<close>: half away from zero.\<close>

definition py_round :: "rat \<Rightarrow> int" where
  "py_round x = (if 0 \<le> x then \<lfloor>x + 1/2\<rfloor> else - \<lfloor>- x + 1/2\<rfloor>)"

text \<open>The time of the fraction of a day: whether it rounds up to the next day, and the clock.\<close>

definition split_time :: "rat \<Rightarrow> int \<times> time_tuple" where
  "split_time fraction =
     (let seconds = py_round (to_double (fraction * 86400)) in
      if seconds = 86400 then (1, 0, 0, 0)
      else let minutes = seconds div 60; second = seconds mod 60
           in (0, minutes div 60, minutes mod 60, second))"

text \<open>The date of a Julian day number.\<close>

definition jdn_date :: "int \<Rightarrow> date_tuple" where
  "jdn_date jdn =
     (let yreg = ((((jdn * 4 + 274277) div 146097) * 3 div 4) + jdn + 1363) * 4 + 3;
          mp = ((yreg mod 1461) div 4) * 535 + 333;
          d = ((mp mod 16384) div 535) + 1;
          mp = mp div 16384
      in if 10 \<le> mp then (yreg div 1461 - 4715, mp - 9, d) else (yreg div 1461 - 4716, mp + 3, d))"

definition xldate_as_tuple :: "rat \<Rightarrow> int \<Rightarrow> xldate_error + date_tuple \<times> time_tuple" where
  "xldate_as_tuple xldate datemode =
     (if datemode \<notin> {0, 1} then Inl XLDateBadDatemode
      else if xldate = 0 then Inr ((0, 0, 0), (0, 0, 0))
      else if xldate < 0 then Inl XLDateNegative
      else
        let xldays = trunc xldate; (carry, time) = split_time (xldate - of_int xldays);
            xldays = xldays + carry
        in if XLDAYS_TOO_LARGE datemode \<le> xldays then Inl XLDateTooLarge
           else if xldays = 0 then Inr ((0, 0, 0), time)
           else if xldays < 61 \<and> datemode = 0 then Inl XLDateAmbiguous
           else Inr (jdn_date (xldays + JDN_delta datemode), time))"

text \<open>
  \<open>xldate_as_datetime\<close>: a \<open>datetime\<close> is the number of its milliseconds since the first day of the
  year 1; the three epochs are those of 1904-01-01, 1899-12-31 and 1899-12-30. Outside the years 1
  to 9999 \<open>datetime\<close> raises an error.
\<close>

definition ms_per_day :: int where "ms_per_day = 86400000"

definition epoch_1904 :: int where "epoch_1904 = 695055"
definition epoch_1900 :: int where "epoch_1900 = 693594"
definition epoch_1900_minus_1 :: int where "epoch_1900_minus_1 = 693593"

definition xldate_as_datetime :: "rat \<Rightarrow> int \<Rightarrow> int option" where
  "xldate_as_datetime xldate datemode =
     (let epoch = (if datemode \<noteq> 0 then epoch_1904
                   else if xldate < 60 then epoch_1900 else epoch_1900_minus_1);
          days = trunc xldate;
          fraction = xldate - of_int days;
          seconds = py_round (to_double (fraction * 86400000));
          milliseconds = seconds mod 1000;
          seconds = seconds div 1000;
          t = (epoch + days) * ms_per_day + seconds * 1000 + milliseconds
      in if 0 \<le> t \<and> t < 3652059 * ms_per_day then Some t else None)"

definition leap :: "int \<Rightarrow> bool" where
  "leap y = (if y mod 4 \<noteq> 0 then False else if y mod 100 \<noteq> 0 then True else if y mod 400 \<noteq> 0 then False else True)"

definition days_in_month :: "int \<Rightarrow> int" where
  "days_in_month m = [31, 28, 31, 30, 31, 30, 31, 31, 30, 31, 30, 31] ! nat (m - 1)"

definition date_jdn :: "int \<Rightarrow> int \<Rightarrow> int \<Rightarrow> int" where
  "date_jdn year month day =
     (let Yp = year + 4716; M = month;
          (Yp, Mp) = (if M \<le> 2 then (Yp - 1, M + 9) else (Yp, M - 3))
      in (1461 * Yp div 4) + ((979 * Mp + 16) div 32) + day - 1364 - (((Yp + 184) div 100) * 3 div 4))"

definition xldate_from_date_tuple :: "date_tuple \<Rightarrow> int \<Rightarrow> xldate_error + rat" where
  "xldate_from_date_tuple = (\<lambda>(year, month, day) datemode.
     if datemode \<notin> {0, 1} then Inl XLDateBadDatemode
     else if year = 0 \<and> month = 0 \<and> day = 0 then Inr 0
     else if \<not> (1900 \<le> year \<and> year \<le> 9999) then Inl XLDateBadTuple
     else if \<not> (1 \<le> month \<and> month \<le> 12) then Inl XLDateBadTuple
     else if day < 1 \<or> (days_in_month month < day \<and> \<not> (day = 29 \<and> month = 2 \<and> leap year)) then Inl XLDateBadTuple
     else
       let xldays = date_jdn year month day - JDN_delta datemode
       in if xldays \<le> 0 then Inl XLDateBadTuple
          else if xldays < 61 \<and> datemode = 0 then Inl XLDateAmbiguous
          else Inr (of_int xldays))"

definition xldate_from_time_tuple :: "time_tuple \<Rightarrow> xldate_error + rat" where
  "xldate_from_time_tuple = (\<lambda>(hour, minute, second).
     if 0 \<le> hour \<and> hour < 24 \<and> 0 \<le> minute \<and> minute < 60 \<and> 0 \<le> second \<and> second < 60 then
       Inr (to_double (to_double (to_double (to_double (to_double (of_int second / 60) + of_int minute) / 60) + of_int hour) / 24))
     else Inl XLDateBadTuple)"

definition xldate_from_datetime_tuple :: "date_tuple \<times> time_tuple \<Rightarrow> int \<Rightarrow> xldate_error + rat" where
  "xldate_from_datetime_tuple = (\<lambda>(date, time) datemode.
     case xldate_from_date_tuple date datemode of
       Inl e \<Rightarrow> Inl e
     | Inr d \<Rightarrow> (case xldate_from_time_tuple time of Inl e \<Rightarrow> Inl e | Inr t \<Rightarrow> Inr (to_double (d + t))))"

section \<open>The calendar\<close>

text \<open>
  The reference: a day's number is that of the days of the years before, of the months before in
  its year, and of its month. \<open>valid_date\<close> is a date of the Gregorian calendar.
\<close>

definition valid_date :: "int \<Rightarrow> int \<Rightarrow> int \<Rightarrow> bool" where
  "valid_date y m d \<longleftrightarrow> 1900 \<le> y \<and> y \<le> 9999 \<and> 1 \<le> m \<and> m \<le> 12 \<and> 1 \<le> d
     \<and> d \<le> days_in_month m + (if m = 2 \<and> leap y then 1 else 0)"

definition days_before_month :: "int \<Rightarrow> int \<Rightarrow> int" where
  "days_before_month y m = sum_list (map days_in_month [1..m - 1]) + (if 2 < m \<and> leap y then 1 else 0)"

definition ordinal :: "int \<Rightarrow> int \<Rightarrow> int \<Rightarrow> int" where
  "ordinal y m d = 365 * (y - 1) + (y - 1) div 4 - (y - 1) div 100 + (y - 1) div 400 + days_before_month y m + d"

lemma months: "1 \<le> m \<Longrightarrow> m \<le> 12 \<Longrightarrow> m \<in> {1, 2, 3, 4, 5, 6, 7, 8, 9, 10, 11, 12}" for m :: int
  unfolding insert_iff empty_iff by presburger

lemma upto_12: "[1..11] = [1,2,3,4,5,6,7,8,9,10,11 :: int]" "[1..10] = [1,2,3,4,5,6,7,8,9,10 :: int]"
  "[1..9] = [1,2,3,4,5,6,7,8,9 :: int]" "[1..8] = [1,2,3,4,5,6,7,8 :: int]" "[1..7] = [1,2,3,4,5,6,7 :: int]"
  "[1..6] = [1,2,3,4,5,6 :: int]" "[1..5] = [1,2,3,4,5 :: int]" "[1..4] = [1,2,3,4 :: int]"
  "[1..3] = [1,2,3 :: int]" "[1..2] = [1,2 :: int]" "[1..1] = [1 :: int]" "[1..0] = ([] :: int list)"
  by (simp_all add: upto.simps)

lemma div_pred: "0 < k \<Longrightarrow> y div k = (y - 1) div k + (if y mod k = 0 then 1 else 0)" for y k :: int
proof -
  assume k: "0 < k"
  have y: "y = k * (y div k) + y mod k" "0 \<le> y mod k" "y mod k < k" using k by simp_all
  show ?thesis
  proof (cases "y mod k = 0")
    case True
    then have "y - 1 = k * (y div k - 1) + (k - 1)" using y(1) by (simp add: algebra_simps)
    then have "(y - 1) div k = y div k - 1" by (rule int_div_pos_eq) (use k in simp_all)
    with True show ?thesis by simp
  next
    case False
    have "y - 1 = k * (y div k) + (y mod k - 1)" using y(1) by simp
    then have "(y - 1) div k = y div k" by (rule int_div_pos_eq) (use y False in simp_all)
    with False show ?thesis by simp
  qed
qed

text \<open>The days of the years up to one.\<close>

definition elapsed :: "int \<Rightarrow> int" where
  "elapsed y = 365 * y + y div 4 - y div 100 + y div 400"

lemma leap_count:
  fixes y a b c :: int
  assumes "c400 \<Longrightarrow> c100" and "c100 \<Longrightarrow> c4"
    and "p4 = a + (if c4 then 1 else 0)" and "p100 = b + (if c100 then 1 else 0)" and "p400 = c + (if c400 then 1 else 0)"
  shows "365 * y + p4 - p100 + p400
    = 365 * (y - 1) + a - b + c + 365 + (if if \<not> c4 then False else if \<not> c100 then True else if \<not> c400 then False else True then 1 else 0)"
  using assms by auto

lemma elapsed_step: "elapsed y = elapsed (y - 1) + 365 + (if leap y then 1 else 0)"
  unfolding elapsed_def leap_def
proof (rule leap_count)
  show "y mod 400 = 0 \<Longrightarrow> y mod 100 = 0"
    using dvd_trans [of 100 400 y] by (simp add: mod_eq_0_iff_dvd)
  show "y mod 100 = 0 \<Longrightarrow> y mod 4 = 0"
    using dvd_trans [of 4 100 y] by (simp add: mod_eq_0_iff_dvd)
qed (rule div_pred, simp)+

lemma ordinal_elapsed: "ordinal y m d = elapsed (y - 1) + days_before_month y m + d"
  by (simp only: ordinal_def elapsed_def)

text \<open>The years of the formula, which begin in March.\<close>

lemma quarter: "(4 * k + w) div 4 = k + w div 4" for k w :: int
  using div_mult_self2 [of 4 w k] by simp

lemma three_quarters: "(a + 49) * 3 div 4 = a - a div 4 + 36" for a :: int
proof -
  have "(a + 49) * 3 = 4 * (a + 36) + (3 - a)" by simp
  then have "(a + 49) * 3 div 4 = a + 36 + (3 - a) div 4" by (simp only: quarter)
  moreover have "(3 - a) div 4 = - (a div 4)" by presburger
  ultimately show ?thesis by simp
qed

lemma march_years: "1461 * (z + 4716) div 4 - (z + 4716 + 184) div 100 * 3 div 4 = elapsed z + 1722483"
proof -
  have "1461 * (z + 4716) = 4 * (365 * z + 1722519) + z" by simp
  then have 1: "1461 * (z + 4716) div 4 = 365 * z + 1722519 + z div 4" by (simp only: quarter)
  have "z + 4716 + 184 = z + 49 * 100" by simp
  then have 2: "(z + 4716 + 184) div 100 = z div 100 + 49" by (simp only: div_mult_self1)
  have 3: "z div 400 = z div 100 div 4" using zdiv_zmult2_eq [of 4 z 100] by simp
  show ?thesis unfolding elapsed_def 1 2 3 three_quarters by (simp only: algebra_simps)
qed

text \<open>The Julian day number of a date counts days as the calendar does.\<close>

lemma date_jdn_ordinal:
  assumes "1 \<le> m" and "m \<le> 12"
  shows "date_jdn y m d = ordinal y m d + 1721425"
proof (cases "m \<le> 2")
  case True
  then have "date_jdn y m d = elapsed (y - 1) + 1722483 + (979 * (m + 9) + 16) div 32 + d - 1364"
    using march_years [of "y - 1"] by (simp add: date_jdn_def)
  moreover have "m = 1 \<or> m = 2" using assms True by auto
  ultimately show ?thesis
    by (auto simp: ordinal_elapsed days_before_month_def upto_12 days_in_month_def)
next
  case False
  then have "date_jdn y m d = elapsed y + 1722483 + (979 * (m - 3) + 16) div 32 + d - 1364"
    using march_years [of y] by (simp add: date_jdn_def)
  then show ?thesis using months [OF assms] False unfolding elapsed_step [of y]
    by (auto simp: ordinal_elapsed days_before_month_def upto_12 days_in_month_def)
qed

section \<open>From a date to its number and back\<close>

text \<open>
  The day of a year that begins in March: \<open>Mp\<close> months, then \<open>d\<close> days. \<open>year_end\<close> says that only a
  leap year has a 366th day.
\<close>

definition year_end :: "int \<Rightarrow> int \<Rightarrow> bool" where
  "year_end Yp D \<longleftrightarrow> 1 \<le> D \<and> D \<le> 366 \<and> (D = 366 \<longrightarrow> leap (Yp - 4715))"

text \<open>The century correction is the same read from the date and from the day number.\<close>

lemma century_bound:
  assumes "year_end Yp D" and "Yp + 184 = 100 * (4 * q + s) + r" and "0 \<le> s" "s < 4" "0 \<le> r" "r < 100"
  defines "E \<equiv> 3 * s mod 4 + 4 * (1461 * r div 4) + 4 * D - 3"
  shows "0 \<le> E" and "E < 146097 \<or> s = 0 \<and> E = 146097"
proof -
  have D: "1 \<le> D" "D \<le> 366" using assms(1) by (simp_all add: year_end_def)
  have t: "0 \<le> 3 * s mod 4" "3 * s mod 4 \<le> 3" by simp_all
  have r0: "0 \<le> 1461 * r div 4" using assms(5) by simp
  show "0 \<le> E" using D t r0 by (simp add: E_def)
  show "E < 146097 \<or> s = 0 \<and> E = 146097"
  proof (cases "r = 99")
    case False
    then have "1461 * r div 4 \<le> 1461 * 98 div 4" using assms(6) by (intro zdiv_mono1) simp_all
    then show ?thesis using D t by (simp add: E_def)
  next
    case True
    have "s = 0" if "D = 366"
    proof -
      have e: "Yp - 4715 = 400 * (q - 12) + 100 * s" using assms(2) True by simp
      have "Yp - 4715 = 100 * (4 * (q - 12) + s)" unfolding e by simp
      then have "(Yp - 4715) mod 100 = 0" by (simp only: mod_mult_self1_is_0)
      moreover have "leap (Yp - 4715)" using assms(1) that by (simp add: year_end_def)
      ultimately have "(Yp - 4715) mod 400 = 0" unfolding leap_def by (simp only: split: if_splits)
      then have "400 dvd (400 * (q - 12) + 100 * s)" unfolding e by (simp only: mod_eq_0_iff_dvd)
      then have "400 dvd 100 * s" by (simp only: dvd_add_right_iff dvd_triv_left)
      with assms(3,4) show "s = 0" by (auto dest!: zdvd_imp_le)
    qed
    moreover have "s = 0 \<Longrightarrow> 3 * s mod 4 = 0" by simp
    ultimately show ?thesis using True D t by (cases "D = 366") (auto simp: E_def)
  qed
qed

lemma century_correction:
  assumes "year_end Yp D" and "jdn = 1461 * Yp div 4 - (Yp + 184) div 100 * 3 div 4 + D - 1364"
  shows "(jdn * 4 + 274277) div 146097 * 3 div 4 = (Yp + 184) div 100 * 3 div 4"
proof -
  define C where "C = (Yp + 184) div 100"
  define q where "q = C div 4"
  define s where "s = C mod 4"
  define r where "r = (Yp + 184) mod 100"
  have C: "C = 4 * q + s" by (simp add: q_def s_def)
  have Yp: "Yp + 184 = 100 * (4 * q + s) + r" unfolding C [symmetric] by (simp add: C_def r_def)
  have b: "0 \<le> s" "s < 4" "0 \<le> r" "r < 100" by (simp_all add: s_def r_def)
  let ?E = "3 * s mod 4 + 4 * (1461 * r div 4) + 4 * D - 3"
  have "1461 * Yp = 4 * (1461 * (100 * q + 25 * s - 46)) + 1461 * r" using Yp by simp
  then have 1: "1461 * Yp div 4 = 1461 * (100 * q + 25 * s - 46) + 1461 * r div 4" by (simp only: quarter)
  have "C * 3 = 4 * (3 * q) + 3 * s" by (simp add: C)
  then have 2: "C * 3 div 4 = 3 * q + 3 * s div 4" by (simp only: quarter)
  have jdn: "3 * s = 4 * t + u \<Longrightarrow> (1461 * (100 * q + 25 * s - 46) + k - (3 * q + t) + D - 1364) * 4 + 274277
      = 146097 * (4 * q + s) + (u + 4 * k + 4 * D - 3)" for t u k by simp
  have E: "jdn * 4 + 274277 = 146097 * (4 * q + s) + ?E"
    unfolding assms(2) C_def [symmetric] 1 2 by (rule jdn) simp
  note bound = century_bound [OF assms(1) Yp b]
  show ?thesis
  proof (cases "?E < 146097")
    case True
    have "(jdn * 4 + 274277) div 146097 = 4 * q + s" by (rule int_div_pos_eq [OF E bound(1) True])
    then show ?thesis unfolding C_def [symmetric] C by simp
  next
    case False
    with bound(2) have "s = 0" "?E = 146097" by blast+
    with E have "jdn * 4 + 274277 = 146097 * (4 * q + 1) + 0" by simp
    then have "(jdn * 4 + 274277) div 146097 = 4 * q + 1" by (rule int_div_pos_eq) simp_all
    then show ?thesis using \<open>s = 0\<close> unfolding C_def [symmetric] C by simp
  qed
qed

lemma jdn_year:
  assumes "year_end Yp D" and "jdn = 1461 * Yp div 4 - (Yp + 184) div 100 * 3 div 4 + D - 1364"
  defines "yreg \<equiv> (((jdn * 4 + 274277) div 146097) * 3 div 4 + jdn + 1363) * 4 + 3"
  shows "yreg div 1461 = Yp" and "yreg mod 1461 div 4 = D - 1"
proof -
  have D: "1 \<le> D" "D \<le> 366" using assms(1) by (simp_all add: year_end_def)
  define k where "k = Yp div 4"
  define e where "e = Yp mod 4"
  have Yp: "Yp = 4 * k + e" and e: "0 \<le> e" "e < 4" by (simp_all add: k_def e_def)
  have Yp4: "4 * k = Yp - e" using Yp by simp
  have "1461 * Yp = 4 * (365 * Yp) + Yp" by simp
  then have d: "1461 * Yp div 4 = 365 * Yp + k" by (simp only: quarter k_def)
  have y: "yreg = 1461 * Yp + (4 * (D - 1) + 3 - e)"
    unfolding yreg_def century_correction [OF assms(1,2)] unfolding assms(2) d using Yp4 by (simp add: algebra_simps)
  have "e = 3" if "D = 366"
  proof -
    have "(Yp - 4715) mod 4 = 0" using assms(1) that by (simp add: year_end_def leap_def split: if_splits)
    then show ?thesis unfolding e_def by presburger
  qed
  then have r: "0 \<le> 4 * (D - 1) + 3 - e" "4 * (D - 1) + 3 - e < 1461" using D e by (cases "D = 366"; simp)+
  show "yreg div 1461 = Yp" by (rule int_div_pos_eq [OF y r])
  have m: "yreg mod 1461 = 4 * (D - 1) + (3 - e)" using int_mod_pos_eq [OF y r] by simp
  have "(3 - e) div 4 = 0" using e by (intro div_pos_pos_trivial) simp_all
  then show "yreg mod 1461 div 4 = D - 1" unfolding m quarter by simp
qed

text \<open>The month of a day of the year: twelve cases, each linear in the day of the month.\<close>

lemma month_of_day:
  fixes m n d :: int
  assumes "1 \<le> d" and "(m, n) \<in> set (zip [0, 1, 2, 3, 4, 5, 6, 7, 8, 9, 10, 11] [31, 30, 31, 30, 31, 31, 30, 31, 30, 31, 31, 29])" and "d \<le> n"
  defines "mp \<equiv> ((979 * m + 16) div 32 + d - 1) * 535 + 333"
  shows "mp div 16384 = m" and "mp mod 16384 div 535 + 1 = d"
proof -
  define c where "c = (979 * m + 16) div 32 * 535 + 333 - 16384 * m"
  have "0 \<le> c \<and> c < 535 \<and> (n - 1) * 535 + c < 16384"
    using assms(2) by (auto simp: c_def)
  moreover have "(d - 1) * 535 \<le> (n - 1) * 535" using assms(3) by simp
  ultimately have c: "0 \<le> c" "c < 535" "(d - 1) * 535 + c < 16384" by linarith+
  have mp: "mp = 16384 * m + ((d - 1) * 535 + c)" by (simp add: mp_def c_def algebra_simps)
  have pos: "0 \<le> (d - 1) * 535 + c" using c(1) assms(1) by simp
  show "mp div 16384 = m" by (rule int_div_pos_eq [OF mp pos c(3)])
  have "mp mod 16384 = 535 * (d - 1) + c" using int_mod_pos_eq [OF mp pos c(3)] by simp
  then have "mp mod 16384 div 535 = d - 1" by (rule int_div_pos_eq) (use c in simp_all)
  then show "mp mod 16384 div 535 + 1 = d" by simp
qed

text \<open>The year, counted from March, and the day of it that a date falls on.\<close>

definition march_year :: "int \<Rightarrow> int \<Rightarrow> int" where
  "march_year y m = (if m \<le> 2 then y + 4715 else y + 4716)"

definition march_month :: "int \<Rightarrow> int" where
  "march_month m = (if m \<le> 2 then m + 9 else m - 3)"

lemma march_parts:
  assumes "valid_date y m d"
  shows "year_end (march_year y m) ((979 * march_month m + 16) div 32 + d)"
    and "\<exists>n. (march_month m, n) \<in> set (zip [0, 1, 2, 3, 4, 5, 6, 7, 8, 9, 10, 11]
           [31, 30, 31, 30, 31, 31, 30, 31, 30, 31, 31, 29]) \<and> d \<le> n"
    and "march_month m \<ge> 10 \<longleftrightarrow> m \<le> 2"
proof -
  have m: "1 \<le> m" "m \<le> 12" and d: "1 \<le> d" "d \<le> days_in_month m + (if m = 2 \<and> leap y then 1 else 0)"
    using assms by (simp_all add: valid_date_def)
  note cases12 = months [OF m]
  show "year_end (march_year y m) ((979 * march_month m + 16) div 32 + d)"
    using cases12 d by (auto simp: year_end_def march_year_def march_month_def days_in_month_def split: if_splits)
  show "\<exists>n. (march_month m, n) \<in> set (zip [0, 1, 2, 3, 4, 5, 6, 7, 8, 9, 10, 11]
           [31, 30, 31, 30, 31, 31, 30, 31, 30, 31, 31, 29]) \<and> d \<le> n"
  proof (intro exI [of _ "days_in_month m + (if m = 2 then 1 else 0)"] conjI)
    show "(march_month m, days_in_month m + (if m = 2 then 1 else 0)) \<in> set (zip [0, 1, 2, 3, 4, 5, 6, 7, 8, 9, 10, 11]
           [31, 30, 31, 30, 31, 31, 30, 31, 30, 31, 31, 29])"
      using cases12 unfolding insert_iff empty_iff
      by (elim disjE) (simp_all add: march_month_def days_in_month_def)
    show "d \<le> days_in_month m + (if m = 2 then 1 else 0)" using d(2) by (auto split: if_splits)
  qed
  show "march_month m \<ge> 10 \<longleftrightarrow> m \<le> 2" using m by (auto simp: march_month_def)
qed

lemma date_jdn_march:
  "date_jdn y m d = 1461 * march_year y m div 4 - (march_year y m + 184) div 100 * 3 div 4
     + ((979 * march_month m + 16) div 32 + d) - 1364"
  by (cases "m \<le> 2") (simp_all add: date_jdn_def march_year_def march_month_def algebra_simps)

lemma jdn_date_jdn:
  assumes "valid_date y m d"
  shows "jdn_date (date_jdn y m d) = (y, m, d)"
proof -
  obtain n where n: "(march_month m, n) \<in> set (zip [0, 1, 2, 3, 4, 5, 6, 7, 8, 9, 10, 11]
           [31, 30, 31, 30, 31, 31, 30, 31, 30, 31, 31, 29])" "d \<le> n" using march_parts(2) [OF assms] by blast
  have d: "1 \<le> d" using assms by (simp add: valid_date_def)
  note Y = jdn_year [OF march_parts(1) [OF assms] date_jdn_march]
  note M = month_of_day [OF d n]
  show ?thesis
    unfolding jdn_date_def Let_def Y M
    using march_parts(3) [OF assms] by (auto simp: march_year_def march_month_def)
qed

lemma elapsed_mono: "a \<le> b \<Longrightarrow> elapsed a \<le> elapsed b"
proof (induction "nat (b - a)" arbitrary: b)
  case (Suc n)
  then have "elapsed a \<le> elapsed (b - 1)" by simp
  with elapsed_step [of b] show ?case by (simp split: if_splits)
qed simp

lemma day_of_year:
  assumes "valid_date y m d"
  shows "days_before_month y m + d \<le> 365 + (if leap y then 1 else 0)"
proof -
  have m: "1 \<le> m" "m \<le> 12" and d: "d \<le> days_in_month m + (if m = 2 \<and> leap y then 1 else 0)"
    using assms by (simp_all add: valid_date_def)
  show ?thesis using months [OF m] d unfolding insert_iff empty_iff
    by (elim disjE) (simp_all add: days_before_month_def upto_12 days_in_month_def split: if_splits)
qed

lemma ordinal_max:
  assumes "valid_date y m d"
  shows "ordinal y m d \<le> 3652059"
proof -
  have "ordinal y m d \<le> elapsed y"
    using day_of_year [OF assms] elapsed_step [of y] by (simp add: ordinal_elapsed)
  also have "\<dots> \<le> elapsed 9999" using assms by (intro elapsed_mono) (simp add: valid_date_def)
  finally show ?thesis by (simp add: elapsed_def)
qed

text \<open>The number of the day before the first one of each system.\<close>

definition day_zero :: "int \<Rightarrow> int" where
  "day_zero datemode = (if datemode = 0 then 693594 else 695056)"

lemma from_date_run:
  assumes "valid_date y m d" and "datemode \<in> {0, 1}"
  defines "n \<equiv> ordinal y m d - day_zero datemode"
  shows "xldate_from_date_tuple (y, m, d) datemode =
    (if n \<le> 0 then Inl XLDateBadTuple else if n < 61 \<and> datemode = 0 then Inl XLDateAmbiguous else Inr (of_int n))"
proof -
  have v: "1 \<le> m" "m \<le> 12" "1900 \<le> y" "y \<le> 9999" "1 \<le> d"
    "\<not> (days_in_month m < d \<and> \<not> (d = 29 \<and> m = 2 \<and> leap y))"
    using assms(1) by (auto simp: valid_date_def days_in_month_def split: if_splits)
  have jdn: "date_jdn y m d - JDN_delta datemode = n"
    using date_jdn_ordinal [OF v(1,2)] assms(2) by (auto simp: n_def JDN_delta_def day_zero_def)
  have c: "\<not> datemode \<notin> {0, 1}" "\<not> (y = 0 \<and> m = 0 \<and> d = 0)" "\<not> \<not> (1900 \<le> y \<and> y \<le> 9999)"
    "\<not> \<not> (1 \<le> m \<and> m \<le> 12)" using v assms(2) by auto
  have "\<not> d < 1" using v(5) by simp
  with v(6) have c5: "\<not> (d < 1 \<or> (days_in_month m < d \<and> \<not> (d = 29 \<and> m = 2 \<and> leap y)))" by blast
  show ?thesis
    unfolding xldate_from_date_tuple_def prod.case Let_def jdn
    by (simp only: c c5 if_False)
qed

lemma from_date_Inr:
  assumes "valid_date y m d" and "datemode \<in> {0, 1}" and "xldate_from_date_tuple (y, m, d) datemode = Inr x"
  shows "x = of_int (ordinal y m d - day_zero datemode)" and "0 < ordinal y m d - day_zero datemode"
    and "datemode = 0 \<Longrightarrow> 61 \<le> ordinal y m d - day_zero datemode"
  using assms(3) unfolding from_date_run [OF assms(1,2)] by (auto split: if_splits)

lemma to_double_0 [simp]: "to_double 0 = 0"
  by (simp add: to_double_def)

lemma floor_half: "\<lfloor>1 / 2 :: rat\<rfloor> = 0"
  by (simp add: floor_eq_iff)

lemma whole_day [simp]: "trunc (of_int n) = n" "split_time 0 = (0, 0, 0, 0)" "py_round 0 = 0"
  by (simp_all add: trunc_def split_time_def py_round_def floor_half)

text \<open>
  C22: a date written to a sheet is read back: when \<open>xldate_from_date_tuple\<close> accepts a date of the
  calendar, in either of the two systems, \<open>xldate_as_tuple\<close> returns that date, at midnight.
\<close>

theorem xldate_roundtrip:
  assumes "valid_date y m d" and "datemode \<in> {0, 1}" and "xldate_from_date_tuple (y, m, d) datemode = Inr x"
  shows "xldate_as_tuple x datemode = Inr ((y, m, d), (0, 0, 0))"
proof -
  define n where "n = ordinal y m d - day_zero datemode"
  note r = from_date_Inr [OF assms, folded n_def]
  have m: "1 \<le> m" "m \<le> 12" using assms(1) by (simp_all add: valid_date_def)
  have jdn: "n + JDN_delta datemode = date_jdn y m d"
    using date_jdn_ordinal [OF m, of y d] assms(2) by (auto simp: n_def JDN_delta_def day_zero_def)
  have "n < XLDAYS_TOO_LARGE datemode"
    using ordinal_max [OF assms(1)] assms(2) by (auto simp: n_def XLDAYS_TOO_LARGE_def day_zero_def)
  with r assms(2) jdn_date_jdn [OF assms(1)] show ?thesis
    unfolding r(1) by (auto simp: xldate_as_tuple_def jdn)
qed

lemma xldate_roundtrip_witness: "xldate_as_tuple 42369 0 = Inr ((2015, 12, 31), (0, 0, 0))"
proof (rule xldate_roundtrip)
  show "valid_date 2015 12 31" by (simp add: valid_date_def days_in_month_def)
  show "xldate_from_date_tuple (2015, 12, 31) 0 = Inr 42369"
    by (simp add: xldate_from_date_tuple_def days_in_month_def date_jdn_def JDN_delta_def)
qed simp

text \<open>
  C23: the arithmetic of \<open>xldate.py\<close> is the calendar's. For every date of the years 1900 to 9999 the
  number computed is the count of its days from the epoch (years, leap days and months counted one
  by one), refused exactly when it is not positive or, in the 1900 system, below 61; and
  \<open>xldate_as_datetime\<close>, which computes with an epoch instead, returns the same day.
\<close>

theorem xldate_counts_days:
  assumes "valid_date y m d" and "datemode \<in> {0, 1}"
  shows "case xldate_from_date_tuple (y, m, d) datemode of
      Inl e \<Rightarrow> ordinal y m d - day_zero datemode < (if datemode = 0 then 61 else 1)
    | Inr x \<Rightarrow> x = of_int (ordinal y m d - day_zero datemode)
        \<and> xldate_as_datetime x datemode = Some ((ordinal y m d - 1) * ms_per_day)"
proof (cases "xldate_from_date_tuple (y, m, d) datemode")
  case (Inl e)
  then show ?thesis unfolding from_date_run [OF assms] using assms(2) by (auto split: if_splits)
next
  case (Inr x)
  define n where "n = ordinal y m d - day_zero datemode"
  note r = from_date_Inr [OF assms Inr, folded n_def]
  have e: "(if datemode \<noteq> 0 then epoch_1904 else if x < 60 then epoch_1900 else epoch_1900_minus_1) + n = ordinal y m d - 1"
    using r assms(2) by (auto simp: n_def day_zero_def epoch_1904_def epoch_1900_minus_1_def)
  have "1 \<le> ordinal y m d" using r(2) assms(2) by (auto simp: n_def day_zero_def split: if_splits)
  then have "0 \<le> (ordinal y m d - 1) * ms_per_day" "(ordinal y m d - 1) * ms_per_day < 3652059 * ms_per_day"
    using ordinal_max [OF assms(1)] by (simp_all add: ms_per_day_def)
  then have "xldate_as_datetime x datemode = Some ((ordinal y m d - 1) * ms_per_day)"
    unfolding xldate_as_datetime_def Let_def using e by (simp add: r(1))
  with Inr r(1) show ?thesis by (simp add: n_def)
qed

lemma xldate_counts_days_witness:
  "case xldate_from_date_tuple (2015, 12, 31) 0 of
      Inl e \<Rightarrow> ordinal 2015 12 31 - day_zero 0 < (if (0 :: int) = 0 then 61 else 1)
    | Inr x \<Rightarrow> x = of_int (ordinal 2015 12 31 - day_zero 0)
        \<and> xldate_as_datetime x 0 = Some ((ordinal 2015 12 31 - 1) * ms_per_day)"
  by (rule xldate_counts_days) (simp_all add: valid_date_def days_in_month_def)

end
