(* ===== verification/PyStruct.thy ===== *)
theory PyStruct
  imports Prelude "HOL-Library.Word"
begin

text \<open>
  Bytes as the readers of xlrd take them apart: slices, little-endian integers (the formats \<open>H\<close>, \<open>I\<close> and
  \<open>i\<close> of \<open>struct.unpack\<close>), and texts in UTF-16 and Latin-1.
\<close>

section \<open>Bytes\<close>

type_synonym bytes = "8 word list"

text \<open>\<open>mem[a:b]\<close>, with Python's reading of negative bounds.\<close>

definition slice_bound :: "nat \<Rightarrow> int \<Rightarrow> nat" where
  "slice_bound n i = (if i < 0 then nat (i + int n) else min (nat i) n)"

definition py_slice :: "'a list \<Rightarrow> int \<Rightarrow> int \<Rightarrow> 'a list" where
  "py_slice xs a b = (let i = slice_bound (length xs) a in take (slice_bound (length xs) b - i) (drop i xs))"

lemma py_slice_nonneg:
  assumes "0 \<le> a" and "a \<le> b"
  shows "py_slice xs a b = take (nat (b - a)) (drop (nat a) xs)"
proof -
  from assms obtain n m where n: "a = int n" "b = int (n + m)"
    by (metis add_diff_cancel_left' le_add_diff_inverse nonneg_int_cases of_nat_add diff_ge_0_iff_ge)
  show ?thesis
  proof (cases "n \<le> length xs")
    case True
    then have "min (n + m) (length xs) - n = min m (length xs - n)" by simp
    moreover have "nat (int (n + m) - int n) = m" by simp
    moreover have "take (min m (length xs - n)) (drop n xs) = take m (drop n xs)"
      by (cases "m \<le> length xs - n") (simp_all add: min_def)
    ultimately show ?thesis using True unfolding n by (simp add: py_slice_def slice_bound_def min_absorb1 flip: of_nat_add)
  qed (simp add: n py_slice_def slice_bound_def flip: of_nat_add)
qed

text \<open>\<open>xs[i]\<close> with Python's negative indices, and \<open>xs[a:]\<close>.\<close>

definition py_nth :: "'a list \<Rightarrow> int \<Rightarrow> 'a res" where
  "py_nth xs i =
     (if 0 \<le> i \<and> nat i < length xs then Inr (xs ! nat i)
      else if i < 0 \<and> nat (- i) \<le> length xs then Inr (xs ! (length xs - nat (- i)))
      else Inl IndexError)"

definition slice_opt :: "'a list \<Rightarrow> int \<Rightarrow> int option \<Rightarrow> 'a list" where
  "slice_opt xs a b = (case b of None \<Rightarrow> drop (slice_bound (length xs) a) xs | Some b \<Rightarrow> py_slice xs a b)"

text \<open>The formats of \<open>struct.unpack\<close> in use: \<open>B\<close>, \<open>H\<close>, \<open>I\<close> and \<open>i\<close>, little-endian.\<close>

fun le_nat :: "bytes \<Rightarrow> int" where
  "le_nat [] = 0"
| "le_nat (b # bs) = uint b + 256 * le_nat bs"

definition i32 :: "bytes \<Rightarrow> int" where
  "i32 bs = (let n = le_nat bs in if n < 2 ^ 31 then n else n - 2 ^ 32)"

fun chunks :: "nat \<Rightarrow> nat \<Rightarrow> 'a list \<Rightarrow> 'a list list" where
  "chunks k 0 xs = []"
| "chunks k (Suc n) xs = take k xs # chunks k n (drop k xs)"

definition unpack_ints :: "nat \<Rightarrow> bytes \<Rightarrow> int list res" where
  "unpack_ints n bs = (if length bs = 4 * n then Inr (map i32 (chunks 4 n bs)) else Inl StructError)"

definition unpack_H :: "nat \<Rightarrow> bytes \<Rightarrow> int list res" where
  "unpack_H n bs = (if length bs = 2 * n then Inr (map le_nat (chunks 2 n bs)) else Inl StructError)"

text \<open>Mixed formats: the codes \<open>B\<close>, \<open>H\<close>, \<open>I\<close>, \<open>i\<close> and the pad byte \<open>x\<close>.\<close>

datatype field_code = FB | FH | FI | FSI | FX

fun field_width :: "field_code \<Rightarrow> nat" where
  "field_width FB = 1"
| "field_width FH = 2"
| "field_width FI = 4"
| "field_width FSI = 4"
| "field_width FX = 1"

fun unpack_codes :: "field_code list \<Rightarrow> bytes \<Rightarrow> int list" where
  "unpack_codes [] bs = []"
| "unpack_codes (c # cs) bs =
     (let x = take (field_width c) bs in
      (case c of FX \<Rightarrow> [] | FSI \<Rightarrow> [i32 x] | _ \<Rightarrow> [le_nat x]) @ unpack_codes cs (drop (field_width c) bs))"

definition unpack_fmt :: "field_code list \<Rightarrow> bytes \<Rightarrow> int list res" where
  "unpack_fmt cs bs =
     (if length bs = sum_list (map field_width cs) then Inr (unpack_codes cs bs) else Inl StructError)"

text \<open>A \<open>unicode\<close> text is the list of its UTF-16 code units.\<close>

type_synonym uname = "int list"

fun utf16_ok :: "uname \<Rightarrow> bool" where
  "utf16_ok [] \<longleftrightarrow> True"
| "utf16_ok (u # us) \<longleftrightarrow>
     (if 0xD800 \<le> u \<and> u < 0xDC00 then
        (case us of [] \<Rightarrow> False | v # vs \<Rightarrow> 0xDC00 \<le> v \<and> v < 0xE000 \<and> utf16_ok vs)
      else \<not> (0xDC00 \<le> u \<and> u < 0xE000) \<and> utf16_ok us)"

definition utf16_name :: "bytes \<Rightarrow> uname res" where
  "utf16_name bs =
     (if odd (length bs) then Inl ValueError
      else let us = map le_nat (chunks 2 (length bs div 2) bs)
           in if utf16_ok us then Inr us else Inl ValueError)"

end
