(* ===== verification/CompDoc.thy ===== *)
theory CompDoc
  imports PyStruct
begin

text \<open>
  \<open>xlrd/compdoc.py\<close>: the file system inside an \<open>.xls\<close> file. The file is divided into sectors; the
  sector allocation table (\<open>SAT\<close>) holds for every sector the next one of its stream, so that a
  stream is a chain of sectors that ends in \<open>EOCSID\<close>. The array \<open>seen\<close> notes the sectors met, which
  must not be met twice. A file is a list of bytes; sector numbers are signed 32-bit integers of the
  file, \<open>int\<close> here. Warnings and debug output are not modelled.
\<close>

section \<open>Constants\<close>

definition SIGNATURE :: bytes where
  "SIGNATURE = [0xD0, 0xCF, 0x11, 0xE0, 0xA1, 0xB1, 0x1A, 0xE1]"

definition EOCSID :: int where "EOCSID = - 2"
definition FREESID :: int where "FREESID = - 1"

section \<open>Directory entries\<close>

record dirnode =
  DID :: nat
  etype :: int
  left_DID :: int
  right_DID :: int
  root_DID :: int
  first_SID :: int
  tot_size :: int
  node_name :: uname
  children :: "int list"
  parent :: int

definition make_dirnode :: "nat \<Rightarrow> bytes \<Rightarrow> dirnode res" where
  "make_dirnode did dent =
     (let a = py_slice dent 64 80; b = py_slice dent 116 124; c = py_slice dent 100 116 in
      if length a \<noteq> 16 then Inl StructError
      else rbind (unpack_ints 2 b) (\<lambda>sids.
        let cbufsize = le_nat (take 2 a); dids = map i32 (chunks 4 3 (drop 4 a)) in
        rbind (if cbufsize = 0 then Inr [] else utf16_name (py_slice dent 0 (cbufsize - 2))) (\<lambda>name.
        rbind (unpack_ints 4 c) (\<lambda>tsinfo.
        Inr \<lparr>DID = did, etype = uint (a ! 2), left_DID = dids ! 0, right_DID = dids ! 1, root_DID = dids ! 2,
             first_SID = sids ! 0, tot_size = sids ! 1, node_name = name, children = [], parent = - 1\<rparr>))))"

text \<open>
  \<open>_build_family_tree\<close>: an in-order walk of the tree of siblings. The recursion is bounded by the
  interpreter's limit, the first argument; an index that is too large is an \<open>IndexError\<close>.
\<close>

definition node_at :: "dirnode list \<Rightarrow> int \<Rightarrow> dirnode res" where
  "node_at dl i = (if 0 \<le> i \<and> nat i < length dl then Inr (dl ! nat i) else Inl IndexError)"

definition add_child :: "int \<Rightarrow> int \<Rightarrow> dirnode list \<Rightarrow> dirnode list res" where
  "add_child parent_DID child_DID dl =
     rbind (node_at dl parent_DID) (\<lambda>p.
     let dl = dl[nat parent_DID := p\<lparr>children := children p @ [child_DID]\<rparr>] in
     rbind (node_at dl child_DID) (\<lambda>c. Inr (dl[nat child_DID := c\<lparr>parent := parent_DID\<rparr>])))"

fun build_family_tree :: "nat \<Rightarrow> int \<Rightarrow> int \<Rightarrow> dirnode list \<Rightarrow> dirnode list res" where
  "build_family_tree 0 parent_DID child_DID dl = Inl RuntimeError"
| "build_family_tree (Suc depth) parent_DID child_DID dl =
     (if child_DID < 0 then Inr dl
      else
        rbind (node_at dl child_DID) (\<lambda>c.
        rbind (build_family_tree depth parent_DID (left_DID c) dl) (\<lambda>dl.
        rbind (add_child parent_DID child_DID dl) (\<lambda>dl.
        rbind (build_family_tree depth parent_DID (right_DID c) dl) (\<lambda>dl.
        if etype c = 1 then build_family_tree depth child_DID (root_DID c) dl else Inr dl)))))"

section \<open>Streams\<close>

text \<open>
  The array \<open>seen\<close> holds one byte per sector: storing a number above 255 is an \<open>OverflowError\<close>.
\<close>

type_synonym seen_array = "int list"

definition nth_int :: "pyerr \<Rightarrow> 'a list \<Rightarrow> int \<Rightarrow> 'a res" where
  "nth_int e xs i = (if 0 \<le> i \<and> nat i < length xs then Inr (xs ! nat i) else Inl e)"

definition mark_seen :: "int \<Rightarrow> int \<Rightarrow> seen_array \<Rightarrow> seen_array res" where
  "mark_seen s seen_id seen =
     rbind (nth_int IndexError seen s) (\<lambda>v.
     if v \<noteq> 0 then Inl CompDocError
     else if seen_id < 0 \<or> 255 < seen_id then Inl OverflowError
     else Inr (seen[nat s := seen_id]))"

text \<open>
  The loop of \<open>_get_stream\<close>. Without a size a sector is taken whole, with a size no more than is
  left of it. With \<open>seen_id = None\<close> nothing stops a chain that runs in a circle: the function then
  has no value, \<open>None\<close>.
\<close>

record stream_env =
  base :: int
  sat :: "int list"
  sec_size :: int
  seen_id :: "int option"

partial_function (option) stream_loop ::
  "bytes \<Rightarrow> stream_env \<Rightarrow> int \<Rightarrow> int option \<Rightarrow> seen_array \<Rightarrow> bytes \<Rightarrow> (bytes \<times> seen_array) res option" where
  "stream_loop mem env s todo seen acc =
     (if s < 0 then Some (if s = EOCSID then Inr (acc, seen) else Inl AssertionError)
      else
        (case (case seen_id env of None \<Rightarrow> Inr seen | Some k \<Rightarrow> mark_seen s k seen) of
           Inl e \<Rightarrow> Some (Inl e)
         | Inr seen \<Rightarrow>
             let start_pos = base env + s * sec_size env;
                 grab = (case todo of None \<Rightarrow> sec_size env | Some t \<Rightarrow> min (sec_size env) t);
                 acc = acc @ py_slice mem start_pos (start_pos + grab) in
             (case nth_int CompDocError (sat env) s of
                Inl e \<Rightarrow> Some (Inl e)
              | Inr s \<Rightarrow> stream_loop mem env s (map_option (\<lambda>t. t - grab) todo) seen acc)))"

definition get_stream ::
  "bytes \<Rightarrow> stream_env \<Rightarrow> int \<Rightarrow> int option \<Rightarrow> seen_array \<Rightarrow> (bytes \<times> seen_array) res option" where
  "get_stream mem env start_sid todo seen = stream_loop mem env start_sid todo seen []"

text \<open>
  \<open>_locate_stream\<close>: as long as the sectors follow one another in the file, the stream is a slice of
  it. The result is a text, the offset of the stream in it and its length.
\<close>

record locate_state =
  prev :: int
  start_pos :: int
  end_pos :: int
  slices :: "(int \<times> int) list"
  tot_found :: int

definition locate_step :: "stream_env \<Rightarrow> int \<Rightarrow> locate_state \<Rightarrow> locate_state" where
  "locate_step env s st =
     (if s = prev st + 1 then st\<lparr>end_pos := end_pos st + sec_size env, prev := s\<rparr>
      else
        let sl = (if 0 \<le> prev st then slices st @ [(start_pos st, end_pos st)] else slices st);
            a = base env + s * sec_size env
        in st\<lparr>slices := sl, start_pos := a, end_pos := a + sec_size env, prev := s\<rparr>)"

function locate_loop ::
  "stream_env \<Rightarrow> int \<Rightarrow> int \<Rightarrow> int \<Rightarrow> locate_state \<Rightarrow> seen_array \<Rightarrow> (locate_state \<times> int \<times> seen_array) res" where
  "locate_loop env k found_limit s st seen =
     (if s < 0 then Inr (st, s, seen)
      else
        rbind (mark_seen s k seen) (\<lambda>seen.
        if found_limit < tot_found st + 1 then Inl CompDocError
        else
          let st = locate_step env s (st\<lparr>tot_found := tot_found st + 1\<rparr>) in
          rbind (nth_int IndexError (sat env) s) (\<lambda>s. locate_loop env k found_limit s st seen)))"
  by pat_completeness auto
termination
proof (relation "measure (\<lambda>(env, k, limit, s, st, seen). nat (limit - tot_found st))", goal_cases)
  case (2 env k limit s st seen seen' st' s')
  then show ?case by (auto simp: locate_step_def Let_def)
qed simp

declare locate_loop.simps [simp del]

definition locate_stream ::
  "bytes \<Rightarrow> stream_env \<Rightarrow> int \<Rightarrow> int \<Rightarrow> int \<Rightarrow> seen_array \<Rightarrow> ((bytes \<times> int \<times> int) \<times> seen_array) res" where
  "locate_stream mem env start_sid expected_stream_size k seen =
     (if start_sid < 0 then Inl CompDocError
      else
        let found_limit = (expected_stream_size + sec_size env - 1) div sec_size env in
        rbind (locate_loop env k found_limit start_sid
                 \<lparr>prev = - 99, start_pos = - 9999, end_pos = - 8888, slices = [], tot_found = 0\<rparr> seen) (\<lambda>(st, s, seen).
        if s \<noteq> EOCSID then Inl AssertionError
        else if tot_found st \<noteq> found_limit then Inl AssertionError
        else if slices st = [] then Inr ((mem, start_pos st, expected_stream_size), seen)
        else Inr ((concat (map (\<lambda>(a, b). py_slice mem a b) (slices st @ [(start_pos st, end_pos st)])),
                   0, expected_stream_size), seen)))"

section \<open>Opening a file\<close>

text \<open>The fields of the header that are used, and what the opening computes from them.\<close>

record cd_header =
  h_ssz :: int
  h_sssz :: int
  SAT_tot_secs :: int
  dir_first_sec_sid :: int
  min_size_std_stream :: int
  SSAT_first_sec_sid :: int
  SSAT_tot_secs :: int
  MSATX_first_sec_sid :: int
  MSATX_tot_secs :: int

definition read_cd_header :: "bytes \<Rightarrow> cd_header res" where
  "read_cd_header mem =
     (if py_slice mem 0 8 \<noteq> SIGNATURE then Inl CompDocError
      else if py_slice mem 28 30 \<noteq> [0xFE, 0xFF] then Inl CompDocError
      else
        rbind (unpack_H 2 (py_slice mem 24 28)) (\<lambda>_.
        rbind (unpack_H 2 (py_slice mem 30 34)) (\<lambda>sizes.
        let ssz = (if 20 < sizes ! 0 then 9 else sizes ! 0);
            sssz = (if ssz < sizes ! 1 then 6 else sizes ! 1) in
        rbind (unpack_ints 8 (py_slice mem 44 76)) (\<lambda>f.
        Inr \<lparr>h_ssz = ssz, h_sssz = sssz, SAT_tot_secs = f ! 0, dir_first_sec_sid = f ! 1,
             min_size_std_stream = f ! 3, SSAT_first_sec_sid = f ! 4, SSAT_tot_secs = f ! 5,
             MSATX_first_sec_sid = f ! 6, MSATX_tot_secs = f ! 7\<rparr>))))"

text \<open>The number of sectors, an incomplete last one counted.\<close>

definition data_secs :: "int \<Rightarrow> int \<Rightarrow> int" where
  "data_secs mem_data_len sec =
     (if mem_data_len mod sec \<noteq> 0 then mem_data_len div sec + 1 else mem_data_len div sec)"

definition read_sector :: "bytes \<Rightarrow> int \<Rightarrow> int \<Rightarrow> int list res" where
  "read_sector mem sec sid =
     (let offset = 512 + sec * sid in unpack_ints (nat (sec div 4)) (py_slice mem offset (offset + sec)))"

text \<open>
  The extension of the master table: a chain of sectors the last entry of which is the next sector.
  It ends because every sector is marked.
\<close>

definition unseen :: "seen_array \<Rightarrow> nat" where
  "unseen seen = length (filter (\<lambda>v. v = 0) seen)"

lemma unseen_split: "unseen (xs @ v # ys) = unseen xs + (if v = 0 then 1 else 0) + unseen ys"
  by (simp add: unseen_def)

lemma mark_seen_unseen: "mark_seen s k seen = Inr seen' \<Longrightarrow> k \<noteq> 0 \<Longrightarrow> unseen seen' < unseen seen"
proof -
  assume m: "mark_seen s k seen = Inr seen'" and k: "k \<noteq> 0"
  then have s: "nat s < length seen" "seen ! nat s = 0" "seen' = seen[nat s := k]"
    by (auto simp: mark_seen_def nth_int_def split: if_splits)
  have "unseen seen = unseen (take (nat s) seen @ 0 # drop (Suc (nat s)) seen)"
    using id_take_nth_drop [OF s(1)] unfolding s(2) by (rule arg_cong)
  moreover have "unseen seen' = unseen (take (nat s) seen @ k # drop (Suc (nat s)) seen)"
    using s by (simp add: upd_conv_take_nth_drop)
  ultimately show ?thesis using k by (simp only: unseen_split) simp
qed

function msatx_loop ::
  "bytes \<Rightarrow> int \<Rightarrow> int \<Rightarrow> int \<Rightarrow> int list \<Rightarrow> seen_array \<Rightarrow> (int list \<times> seen_array) res" where
  "msatx_loop mem sec mem_data_secs sid MSAT seen =
     (if sid = EOCSID \<or> sid = FREESID then Inr (MSAT, seen)
      else if mem_data_secs \<le> sid then Inl CompDocError
      else if sid < 0 then Inl CompDocError
      else
        rbind (mark_seen sid 1 seen) (\<lambda>seen.
        rbind (read_sector mem sec sid) (\<lambda>ents.
        let MSAT = MSAT @ ents in
        if MSAT = [] then Inl IndexError
        else msatx_loop mem sec mem_data_secs (last MSAT) (butlast MSAT) seen)))"
  by pat_completeness auto
termination
  by (relation "measure (\<lambda>(mem, sec, secs, sid, m, seen). unseen seen)") (auto dest: mark_seen_unseen)

declare msatx_loop.simps [simp del]

text \<open>
  The sector allocation table: the sectors the master table names. A number that lies beyond the
  file is skipped with a warning.
\<close>

fun sat_loop ::
  "bytes \<Rightarrow> int \<Rightarrow> int \<Rightarrow> int list \<Rightarrow> int list \<Rightarrow> seen_array \<Rightarrow> (int list \<times> seen_array) res" where
  "sat_loop mem sec mem_data_secs [] SAT seen = Inr (SAT, seen)"
| "sat_loop mem sec mem_data_secs (msid # MSAT) SAT seen =
     (if msid = FREESID \<or> msid = EOCSID then sat_loop mem sec mem_data_secs MSAT SAT seen
      else if mem_data_secs \<le> msid then sat_loop mem sec mem_data_secs MSAT SAT seen
      else if msid < - 2 then Inl CompDocError
      else
        rbind (mark_seen msid 2 seen) (\<lambda>seen.
        rbind (read_sector mem sec msid) (\<lambda>ents. sat_loop mem sec mem_data_secs MSAT (SAT @ ents) seen)))"

function ssat_loop ::
  "bytes \<Rightarrow> int \<Rightarrow> int list \<Rightarrow> int \<Rightarrow> int \<Rightarrow> int list \<Rightarrow> seen_array \<Rightarrow> (int \<times> int \<times> int list \<times> seen_array) res" where
  "ssat_loop mem sec SAT sid nsecs SSAT seen =
     (if 0 \<le> sid \<and> 0 < nsecs then
        rbind (mark_seen sid 5 seen) (\<lambda>seen.
        rbind (read_sector mem sec sid) (\<lambda>news.
        rbind (nth_int IndexError SAT sid) (\<lambda>sid. ssat_loop mem sec SAT sid (nsecs - 1) (SSAT @ news) seen)))
      else Inr (sid, nsecs, SSAT, seen))"
  by pat_completeness auto
termination
  by (relation "measure (\<lambda>(mem, sec, SAT, sid, nsecs, SSAT, seen). nat nsecs)") auto

declare ssat_loop.simps [simp del]

record compdoc =
  cd_mem :: bytes
  cd_sec_size :: int
  cd_short_sec_size :: int
  cd_mem_data_len :: int
  cd_min_size :: int
  cd_SAT :: "int list"
  cd_SSAT :: "int list"
  cd_SSCS :: bytes
  cd_dirlist :: "dirnode list"
  cd_seen :: seen_array

text \<open>
  The array \<open>seen\<close> has an entry per sector; a sector of less than eight bytes makes the counts divide
  by zero.
\<close>

definition read_tables :: "bytes \<Rightarrow> cd_header \<Rightarrow> (int list \<times> seen_array) res" where
  "read_tables mem h =
     (let sec = 2 ^ nat (h_ssz h); nent = sec div 4;
          mem_data_secs = data_secs (int (length mem) - 512) sec;
          seen = replicate (nat mem_data_secs) 0 in
      rbind (unpack_ints 109 (py_slice mem 76 512)) (\<lambda>MSAT.
      if nent = 0 \<or> nent = 1 then Inl ZeroDivisionError
      else
        rbind (if MSATX_tot_secs h = 0 \<and> MSATX_first_sec_sid h \<in> {EOCSID, FREESID, 0} then Inr (MSAT, seen)
               else msatx_loop mem sec mem_data_secs (MSATX_first_sec_sid h) MSAT seen) (\<lambda>(MSAT, seen).
        sat_loop mem sec mem_data_secs MSAT [] seen)))"

fun dir_nodes :: "nat \<Rightarrow> nat \<Rightarrow> bytes \<Rightarrow> dirnode list res" where
  "dir_nodes 0 did dbytes = Inr []"
| "dir_nodes (Suc n) did dbytes =
     rbind (make_dirnode did (take 128 dbytes)) (\<lambda>d. rbind (dir_nodes n (Suc did) (drop 128 dbytes)) (\<lambda>ds. Inr (d # ds)))"

text \<open>The reading of a chain inside the opening: no value when the loop does not end.\<close>

definition stream_res :: "'a res option \<Rightarrow> ('a \<Rightarrow> 'b res option) \<Rightarrow> 'b res option" where
  "stream_res m f = (case m of None \<Rightarrow> None | Some (Inl e) \<Rightarrow> Some (Inl e) | Some (Inr x) \<Rightarrow> f x)"

definition read_directory ::
  "nat \<Rightarrow> bytes \<Rightarrow> cd_header \<Rightarrow> int list \<Rightarrow> seen_array \<Rightarrow> (dirnode list \<times> seen_array) res option" where
  "read_directory depth mem h SAT seen =
     (let sec = 2 ^ nat (h_ssz h) in
      stream_res (get_stream mem \<lparr>base = 512, sat = SAT, sec_size = sec, seen_id = Some 3\<rparr> (dir_first_sec_sid h) None seen)
        (\<lambda>(dbytes, seen). Some (
          rbind (dir_nodes ((length dbytes + 127) div 128) 0 dbytes) (\<lambda>dl.
          rbind (node_at dl 0) (\<lambda>root.
          rbind (build_family_tree depth 0 (root_DID root) dl) (\<lambda>dl. Inr (dl, seen)))))))"

definition read_sscs ::
  "bytes \<Rightarrow> cd_header \<Rightarrow> int list \<Rightarrow> dirnode \<Rightarrow> seen_array \<Rightarrow> (bytes \<times> seen_array) res option" where
  "read_sscs mem h SAT root seen =
     (let sec = 2 ^ nat (h_ssz h) in
      if etype root \<noteq> 5 then Some (Inl AssertionError)
      else if first_SID root < 0 \<or> tot_size root = 0 then Some (Inr ([], seen))
      else get_stream mem \<lparr>base = 512, sat = SAT, sec_size = sec, seen_id = Some 4\<rparr> (first_SID root)
             (Some (tot_size root)) seen)"

definition read_ssat ::
  "bytes \<Rightarrow> cd_header \<Rightarrow> int list \<Rightarrow> dirnode \<Rightarrow> seen_array \<Rightarrow> (int list \<times> seen_array) res" where
  "read_ssat mem h SAT root seen =
     (let sec = 2 ^ nat (h_ssz h) in
      if 0 < tot_size root then
        rbind (ssat_loop mem sec SAT (SSAT_first_sec_sid h) (SSAT_tot_secs h) [] seen) (\<lambda>(sid, nsecs, SSAT, seen).
        if nsecs = 0 \<and> sid = EOCSID then Inr (SSAT, seen) else Inl AssertionError)
      else Inr ([], seen))"

definition open_compdoc :: "nat \<Rightarrow> bytes \<Rightarrow> compdoc res option" where
  "open_compdoc depth mem =
     (case read_cd_header mem of
        Inl e \<Rightarrow> Some (Inl e)
      | Inr h \<Rightarrow>
          stream_res (Some (read_tables mem h)) (\<lambda>(SAT, seen).
          stream_res (read_directory depth mem h SAT seen) (\<lambda>(dl, seen).
          stream_res (read_sscs mem h SAT (dl ! 0) seen) (\<lambda>(SSCS, seen).
          stream_res (Some (read_ssat mem h SAT (dl ! 0) seen)) (\<lambda>(SSAT, seen).
          Some (Inr \<lparr>cd_mem = mem, cd_sec_size = 2 ^ nat (h_ssz h), cd_short_sec_size = 2 ^ nat (h_sssz h),
                     cd_mem_data_len = int (length mem) - 512, cd_min_size = min_size_std_stream h,
                     cd_SAT = SAT, cd_SSAT = SSAT, cd_SSCS = SSCS, cd_dirlist = dl, cd_seen = seen\<rparr>))))))"

section \<open>Finding a stream\<close>

text \<open>
  The search along a path of names; upper and lower case are the same, by the parameter \<open>lower\<close>, the
  lower-casing of Unicode text. \<open>None\<close> is a name that is not found.
\<close>

primrec find_child :: "(uname \<Rightarrow> uname) \<Rightarrow> dirnode list \<Rightarrow> uname \<Rightarrow> int list \<Rightarrow> int option res" where
  "find_child lower dl head [] = Inr None"
| "find_child lower dl head (child # kids) =
     rbind (node_at dl child) (\<lambda>d. if lower (node_name d) = lower head then Inr (Some child) else find_child lower dl head kids)"

fun dir_search :: "(uname \<Rightarrow> uname) \<Rightarrow> dirnode list \<Rightarrow> uname list \<Rightarrow> int \<Rightarrow> dirnode option res" where
  "dir_search lower dl [] storage_DID = Inl IndexError"
| "dir_search lower dl (head # tail) storage_DID =
     rbind (node_at dl storage_DID) (\<lambda>storage.
     rbind (find_child lower dl head (children storage)) (\<lambda>found.
     case found of
       None \<Rightarrow> Inr None
     | Some child \<Rightarrow>
         rbind (node_at dl child) (\<lambda>d.
         if etype d = 2 then Inr (Some d)
         else if etype d = 1 then
           (if tail = [] then Inl CompDocError else dir_search lower dl tail child)
         else Inl CompDocError)))"

fun split_path :: "uname \<Rightarrow> uname list" where
  "split_path [] = [[]]"
| "split_path (u # us) =
     (if u = 47 then [] # split_path us
      else case split_path us of [] \<Rightarrow> [[u]] | p # ps \<Rightarrow> (u # p) # ps)"

definition std_env :: "compdoc \<Rightarrow> int option \<Rightarrow> stream_env" where
  "std_env cd k = \<lparr>base = 512, sat = cd_SAT cd, sec_size = cd_sec_size cd, seen_id = k\<rparr>"

definition short_env :: "compdoc \<Rightarrow> stream_env" where
  "short_env cd = \<lparr>base = 0, sat = cd_SSAT cd, sec_size = cd_short_sec_size cd, seen_id = None\<rparr>"

definition get_named_stream ::
  "(uname \<Rightarrow> uname) \<Rightarrow> compdoc \<Rightarrow> uname \<Rightarrow> (bytes option \<times> compdoc) res option" where
  "get_named_stream lower cd qname =
     stream_res (Some (dir_search lower (cd_dirlist cd) (split_path qname) 0)) (\<lambda>found.
     case found of
       None \<Rightarrow> Some (Inr (None, cd))
     | Some d \<Rightarrow>
         if cd_min_size cd \<le> tot_size d then
           stream_res (get_stream (cd_mem cd) (std_env cd (Some (int (DID d) + 6))) (first_SID d) (Some (tot_size d)) (cd_seen cd))
             (\<lambda>(bs, seen). Some (Inr (Some bs, cd\<lparr>cd_seen := seen\<rparr>)))
         else
           stream_res (get_stream (cd_SSCS cd) (short_env cd) (first_SID d) (Some (tot_size d)) (cd_seen cd))
             (\<lambda>(bs, seen). Some (Inr (Some bs, cd\<lparr>cd_seen := seen\<rparr>))))"

definition locate_named_stream ::
  "(uname \<Rightarrow> uname) \<Rightarrow> compdoc \<Rightarrow> uname \<Rightarrow> ((bytes option \<times> int \<times> int) \<times> compdoc) res option" where
  "locate_named_stream lower cd qname =
     stream_res (Some (dir_search lower (cd_dirlist cd) (split_path qname) 0)) (\<lambda>found.
     case found of
       None \<Rightarrow> Some (Inr ((None, 0, 0), cd))
     | Some d \<Rightarrow>
         if cd_mem_data_len cd < tot_size d then Some (Inl CompDocError)
         else if cd_min_size cd \<le> tot_size d then
           stream_res (Some (locate_stream (cd_mem cd) (std_env cd None) (first_SID d) (tot_size d) (int (DID d) + 6) (cd_seen cd)))
             (\<lambda>((bs, off, len), seen). Some (Inr ((Some bs, off, len), cd\<lparr>cd_seen := seen\<rparr>)))
         else
           stream_res (get_stream (cd_SSCS cd) (short_env cd) (first_SID d) (Some (tot_size d)) (cd_seen cd))
             (\<lambda>(bs, seen). Some (Inr ((Some bs, 0, tot_size d), cd\<lparr>cd_seen := seen\<rparr>))))"

end
