(* ===== verification/CompDocProps.thy ===== *)
theory CompDocProps
  imports CompDoc
begin

text \<open>
  What the reading of a compound document guarantees. A stream is specified as the bytes of the
  sectors of its chain; both routines that read it implement this, so they agree. Opening ends for
  every file, because the sectors are marked; the streams of the short sectors are not marked, and a
  circle in their table is never left.
\<close>

section \<open>The specification of a stream\<close>

text \<open>The sectors of a chain, from its first one to \<open>EOCSID\<close>.\<close>

inductive chain :: "int list \<Rightarrow> int \<Rightarrow> int list \<Rightarrow> bool" for table where
  chain_end: "chain table EOCSID []"
| chain_step: "0 \<le> s \<Longrightarrow> nat s < length table \<Longrightarrow> chain table (table ! nat s) ss \<Longrightarrow> chain table s (s # ss)"

inductive_cases chain_NilE: "chain table s []"
inductive_cases chain_ConsE: "chain table s (x # ss)"
inductive_simps chain_Cons: "chain table s (x # ss)"

definition sector :: "bytes \<Rightarrow> stream_env \<Rightarrow> int \<Rightarrow> bytes" where
  "sector mem env s = py_slice mem (base env + s * sec_size env) (base env + s * sec_size env + sec_size env)"

definition stream_bytes :: "bytes \<Rightarrow> stream_env \<Rightarrow> int list \<Rightarrow> bytes" where
  "stream_bytes mem env ss = concat (map (sector mem env) ss)"

definition mark_all :: "int \<Rightarrow> int list \<Rightarrow> seen_array \<Rightarrow> seen_array" where
  "mark_all k ss seen = fold (\<lambda>s a. a[nat s := k]) ss seen"

lemma py_slice_append:
  assumes "0 \<le> a" and "a \<le> b" and "b \<le> c"
  shows "py_slice xs a b @ py_slice xs b c = py_slice xs a c"
proof -
  have "nat (c - a) = nat (b - a) + nat (c - b)" "nat b = nat a + nat (b - a)" using assms by simp_all
  then show ?thesis using assms by (simp add: py_slice_nonneg take_add add.commute)
qed

text \<open>The sectors lie in the file, none is met twice and none was met before.\<close>

definition sectors_ok :: "bytes \<Rightarrow> stream_env \<Rightarrow> int \<Rightarrow> seen_array \<Rightarrow> int list \<Rightarrow> bool" where
  "sectors_ok mem env k seen ss \<longleftrightarrow>
     0 \<le> base env \<and> 0 < sec_size env \<and> 0 < k \<and> k \<le> 255 \<and> distinct ss
     \<and> list_all (\<lambda>s. 0 \<le> s \<and> nat s < length seen \<and> seen ! nat s = 0
                     \<and> base env + s * sec_size env + sec_size env \<le> int (length mem)) ss"

lemma whole_sector: "0 \<le> a \<Longrightarrow> 0 < k \<Longrightarrow> a + k \<le> int n \<Longrightarrow> nat k \<le> n - nat a" for a k :: int
  by linarith

lemma sectors_ok_Cons:
  assumes "sectors_ok mem env k seen (s # ss)"
  shows "mark_seen s k seen = Inr (seen[nat s := k])" and "sectors_ok mem env k (seen[nat s := k]) ss"
    and "0 \<le> s" and "0 \<le> base env + s * sec_size env" and "length (sector mem env s) = nat (sec_size env)"
proof -
  have s: "0 \<le> s" "nat s < length seen" "seen ! nat s = 0" "0 < sec_size env" "0 < k" "k \<le> 255" "0 \<le> base env"
    "base env + s * sec_size env + sec_size env \<le> int (length mem)"
    and ss: "distinct ss" "s \<notin> set ss" "\<forall>x \<in> set ss. 0 \<le> x \<and> nat x < length seen \<and> seen ! nat x = 0
       \<and> base env + x * sec_size env + sec_size env \<le> int (length mem)"
    using assms by (auto simp: sectors_ok_def list_all_iff)
  show "mark_seen s k seen = Inr (seen[nat s := k])" using s by (simp add: mark_seen_def nth_int_def)
  have "nat s \<noteq> nat x" if "x \<in> set ss" for x using ss that s(1) by (metis eq_nat_nat_iff)
  then show "sectors_ok mem env k (seen[nat s := k]) ss"
    using s ss by (auto simp: sectors_ok_def list_all_iff)
  show "0 \<le> s" by (rule s)
  show b: "0 \<le> base env + s * sec_size env" using s by simp
  show "length (sector mem env s) = nat (sec_size env)"
    using s(4) b whole_sector [OF b s(4,8)] by (simp add: sector_def py_slice_nonneg min_absorb2)
qed

section \<open>Reading implements the specification\<close>

lemma part_of_sector:
  assumes "sectors_ok mem env k seen (s # ss)" and "0 \<le> t"
  shows "py_slice mem (base env + s * sec_size env) (base env + s * sec_size env + min (sec_size env) t)
    = take (nat t) (sector mem env s)"
proof -
  have "0 < sec_size env" using assms(1) by (simp add: sectors_ok_def)
  moreover have "sec_size env \<le> t \<Longrightarrow> nat (sec_size env) \<le> nat t" "t \<le> sec_size env \<Longrightarrow> nat t \<le> nat (sec_size env)"
    by (simp_all add: nat_mono)
  ultimately show ?thesis using sectors_ok_Cons(4) [OF assms(1)] assms(2)
    by (cases "sec_size env \<le> t") (simp_all add: sector_def py_slice_nonneg min_absorb1 min_absorb2)
qed

lemma stream_loop_chain:
  assumes "chain (sat env) s ss" and "sectors_ok mem env k seen ss" and "seen_id env = Some k" and "0 \<le> t"
  shows "stream_loop mem env s (Some t) seen acc
    = Some (Inr (acc @ take (nat t) (stream_bytes mem env ss), mark_all k ss seen))"
  using assms
proof (induction arbitrary: t seen acc)
  case chain_end
  then show ?case by (subst stream_loop.simps) (simp add: EOCSID_def stream_bytes_def mark_all_def)
next
  case (chain_step s ss)
  note c = sectors_ok_Cons [OF chain_step.prems(1)]
  let ?g = "min (sec_size env) t"
  have g: "0 \<le> t - ?g" using chain_step.prems(3) by simp
  have "take (nat t) (sector mem env s) @ take (nat (t - ?g)) (stream_bytes mem env ss)
      = take (nat t) (stream_bytes mem env (s # ss))"
    using c(5) chain_step.prems(1,3) by (auto simp: sectors_ok_def stream_bytes_def min_def nat_diff_distrib)
  with chain_step.IH [OF c(2) chain_step.prems(2) g] part_of_sector [OF chain_step.prems(1,3)] c(1,3) chain_step.hyps(2) chain_step.prems(2)
  show ?case
    by (subst stream_loop.simps) (simp add: Let_def nth_int_def mark_all_def)
qed

text \<open>
  The state of \<open>_locate_stream\<close> after the sectors \<open>xs\<close>: its slices are their bytes, and as long as
  there is only one slice it is as long as they are.
\<close>

definition slice_at :: "bytes \<Rightarrow> int \<times> int \<Rightarrow> bytes" where
  "slice_at mem = (\<lambda>(a, b). py_slice mem a b)"

definition located :: "bytes \<Rightarrow> stream_env \<Rightarrow> int list \<Rightarrow> locate_state \<Rightarrow> bool" where
  "located mem env xs st \<longleftrightarrow>
     xs \<noteq> [] \<and> prev st = last xs \<and> 0 \<le> prev st \<and> 0 \<le> start_pos st \<and> start_pos st \<le> end_pos st
     \<and> end_pos st = base env + (prev st + 1) * sec_size env
     \<and> concat (map (slice_at mem) (slices st @ [(start_pos st, end_pos st)])) = stream_bytes mem env xs
     \<and> tot_found st = int (length xs)
     \<and> (slices st = [] \<longrightarrow> end_pos st = start_pos st + int (length xs) * sec_size env)"

lemma locatedD:
  assumes "located mem env xs st"
  shows "0 \<le> start_pos st" and "start_pos st \<le> end_pos st" and "tot_found st = int (length xs)"
    and "concat (map (slice_at mem) (slices st @ [(start_pos st, end_pos st)])) = stream_bytes mem env xs"
  using assms unfolding located_def by blast+

lemma sector_env [simp]: "sector mem (env\<lparr>seen_id := k\<rparr>) = sector mem env"
  by (simp add: sector_def fun_eq_iff)

lemma stream_bytes_snoc: "stream_bytes mem env (xs @ [s]) = stream_bytes mem env xs @ sector mem env s"
  by (simp add: stream_bytes_def)

lemma located_step:
  assumes "located mem env xs st" and "0 \<le> s" and "0 \<le> base env" and "0 < sec_size env"
  shows "located mem env (xs @ [s]) (locate_step env s (st\<lparr>tot_found := tot_found st + 1\<rparr>))"
proof (cases "s = prev st + 1")
  case True
  have e: "end_pos st = base env + s * sec_size env" using assms(1) True by (simp add: located_def)
  have "0 \<le> start_pos st" "start_pos st \<le> end_pos st" "end_pos st \<le> end_pos st + sec_size env"
    using locatedD(1,2) [OF assms(1)] assms(4) by simp_all
  then have "slice_at mem (start_pos st, end_pos st) @ sector mem env s = slice_at mem (start_pos st, end_pos st + sec_size env)"
    unfolding sector_def e [symmetric] slice_at_def prod.case by (rule py_slice_append)
  then have "concat (map (slice_at mem) (slices st @ [(start_pos st, end_pos st + sec_size env)])) = stream_bytes mem env (xs @ [s])"
    unfolding stream_bytes_snoc locatedD(4) [OF assms(1), symmetric] by simp
  moreover have "start_pos st \<le> base env + s * sec_size env + sec_size env"
    using locatedD(2) [OF assms(1)] assms(4) unfolding e by simp
  ultimately show ?thesis using True assms e by (auto simp: located_def locate_step_def algebra_simps)
next
  case False
  have pos: "0 \<le> base env + s * sec_size env" using assms(2-4) by simp
  have "slice_at mem (base env + s * sec_size env, base env + s * sec_size env + sec_size env) = sector mem env s"
    by (simp add: slice_at_def sector_def)
  with False assms pos show ?thesis
    by (auto simp: located_def locate_step_def stream_bytes_snoc algebra_simps)
qed

lemma located_first:
  assumes "0 \<le> s" and "0 \<le> base env" and "0 < sec_size env" and "prev st = - 99" and "slices st = []" and "tot_found st = 0"
  shows "located mem env [s] (locate_step env s (st\<lparr>tot_found := tot_found st + 1\<rparr>))"
  using assms by (auto simp: located_def locate_step_def stream_bytes_def sector_def slice_at_def algebra_simps)

lemma sectors_ok_env: "sectors_ok mem env k seen ss \<Longrightarrow> 0 \<le> base env \<and> 0 < sec_size env"
  by (simp add: sectors_ok_def)

lemma locate_loop_chain:
  assumes "chain (sat env) s ss" and "sectors_ok mem env k seen ss" and "located mem env xs st"
    and "int (length xs + length ss) \<le> limit"
  shows "\<exists>st'. locate_loop env k limit s st seen = Inr (st', EOCSID, mark_all k ss seen) \<and> located mem env (xs @ ss) st'"
  using assms
proof (induction arbitrary: xs st seen)
  case chain_end
  then show ?case by (subst locate_loop.simps) (simp add: EOCSID_def mark_all_def)
next
  case (chain_step s ss)
  note c = sectors_ok_Cons [OF chain_step.prems(1)]
  have env: "0 \<le> base env" "0 < sec_size env" using sectors_ok_env [OF chain_step.prems(1)] by simp_all
  let ?st = "locate_step env s (st\<lparr>tot_found := tot_found st + 1\<rparr>)"
  have "\<not> limit < tot_found st + 1" using chain_step.prems(2,3) by (simp add: located_def)
  moreover from chain_step.IH [OF c(2) located_step [OF chain_step.prems(2) c(3) env]] chain_step.prems(3)
  obtain st' where "locate_loop env k limit (sat env ! nat s) ?st (seen[nat s := k]) = Inr (st', EOCSID, mark_all k ss (seen[nat s := k]))"
    "located mem env ((xs @ [s]) @ ss) st'" by auto
  ultimately show ?case using c(1,3) chain_step.hyps(2)
    by (subst locate_loop.simps) (simp add: Let_def nth_int_def mark_all_def del: rbind_eq_Inr)
qed

lemma locate_loop_first:
  assumes "chain (sat env) s ss" and "ss \<noteq> []" and "sectors_ok mem env k seen ss" and "int (length ss) \<le> limit"
    and "prev st = - 99" and "slices st = []" and "tot_found st = 0"
  shows "\<exists>st'. locate_loop env k limit s st seen = Inr (st', EOCSID, mark_all k ss seen) \<and> located mem env ss st'"
  using assms(1)
proof cases
  case (chain_step ts)
  note c = sectors_ok_Cons [OF assms(3) [unfolded chain_step(1)]]
  have env: "0 \<le> base env" "0 < sec_size env" using sectors_ok_env [OF assms(3)] by simp_all
  have "\<not> limit < tot_found st + 1" using assms(4,7) chain_step(1) by simp
  moreover from locate_loop_chain [OF chain_step(4) c(2) located_first [OF c(3) env assms(5-7)], of limit] assms(4) chain_step(1)
  obtain st' where "locate_loop env k limit (sat env ! nat s) (locate_step env s (st\<lparr>tot_found := tot_found st + 1\<rparr>)) (seen[nat s := k])
      = Inr (st', EOCSID, mark_all k ts (seen[nat s := k]))" "located mem env ([s] @ ts) st'" by auto
  ultimately show ?thesis using c(1,3) chain_step(1,3)
    by (subst locate_loop.simps) (simp add: Let_def nth_int_def mark_all_def del: rbind_eq_Inr)
qed (use assms(2) in simp)

lemma stream_bytes_length:
  "sectors_ok mem env k seen ss \<Longrightarrow> length (stream_bytes mem env ss) = length ss * nat (sec_size env)"
proof (induction ss arbitrary: seen)
  case (Cons s ss)
  from sectors_ok_Cons [OF Cons.prems] Cons.IH show ?case by (simp add: stream_bytes_def)
qed (simp add: stream_bytes_def)

text \<open>A stream of the directory: its chain has as many sectors as its size asks for.\<close>

definition stream_ok :: "bytes \<Rightarrow> stream_env \<Rightarrow> int \<Rightarrow> seen_array \<Rightarrow> int \<Rightarrow> int list \<Rightarrow> int \<Rightarrow> bool" where
  "stream_ok mem env k seen s ss n \<longleftrightarrow>
     chain (sat env) s ss \<and> sectors_ok mem env k seen ss \<and> 0 < n \<and> int (length ss) = (n + sec_size env - 1) div sec_size env"

lemma stream_ok_size:
  assumes "stream_ok mem env k seen s ss n"
  shows "ss \<noteq> []" and "0 \<le> s" and "n \<le> int (length ss) * sec_size env"
proof -
  have n: "0 < n" "0 < sec_size env" "int (length ss) = (n + sec_size env - 1) div sec_size env"
    using assms by (simp_all add: stream_ok_def sectors_ok_def)
  have "(n + sec_size env - 1) mod sec_size env < sec_size env" using n(2) by simp
  then show le: "n \<le> int (length ss) * sec_size env"
    unfolding n(3) using div_mult_mod_eq [of "n + sec_size env - 1" "sec_size env"] by linarith
  then show ne: "ss \<noteq> []" using n(1) by auto
  have "chain (sat env) s ss" using assms by (simp add: stream_ok_def)
  then show "0 \<le> s" using ne by cases auto
qed

text \<open>
  C25: \<open>_get_stream\<close> implements the specification of a stream: for a stream whose chain lies in the
  file and is as long as its size asks for, it returns the bytes of the chain's sectors, cut to the
  size, and marks exactly these sectors.
\<close>

theorem get_stream_refines:
  assumes "stream_ok mem env k seen s ss n"
  shows "get_stream mem (env\<lparr>seen_id := Some k\<rparr>) s (Some n) seen
    = Some (Inr (take (nat n) (stream_bytes mem env ss), mark_all k ss seen))"
proof -
  let ?env = "env\<lparr>seen_id := Some k\<rparr>"
  have same: "stream_bytes mem ?env ss = stream_bytes mem env ss" by (simp add: stream_bytes_def)
  have "chain (sat ?env) s ss" "sectors_ok mem ?env k seen ss" "seen_id ?env = Some k" "0 \<le> n"
    using assms by (simp_all add: stream_ok_def sectors_ok_def)
  from stream_loop_chain [OF this, of "[]"] show ?thesis by (simp add: get_stream_def same)
qed

text \<open>
  C24: the two ways to read a stream agree. \<open>_locate_stream\<close> returns a text, an offset and a length;
  the slice they name, whether it is a piece of the file or was put together from fragments, is
  what \<open>_get_stream\<close> returns, and both mark the same sectors.
\<close>

theorem locate_equals_get:
  assumes "stream_ok mem env k seen s ss n"
  shows "\<exists>m off marks. locate_stream mem env s n k seen = Inr ((m, off, n), marks)
    \<and> get_stream mem (env\<lparr>seen_id := Some k\<rparr>) s (Some n) seen = Some (Inr (py_slice m off (off + n), marks))"
proof -
  have ok: "chain (sat env) s ss" "sectors_ok mem env k seen ss" "0 < n"
    "(n + sec_size env - 1) div sec_size env = int (length ss)"
    using assms by (simp_all add: stream_ok_def)
  note le = stream_ok_size [OF assms]
  have get: "get_stream mem (env\<lparr>seen_id := Some k\<rparr>) s (Some n) seen
    = Some (Inr (take (nat n) (stream_bytes mem env ss), mark_all k ss seen))"
    using stream_loop_chain [of "env\<lparr>seen_id := Some k\<rparr>" s ss mem k seen n "[]"] ok
    by (simp add: get_stream_def stream_bytes_def sectors_ok_def)
  obtain st where st: "locate_loop env k (int (length ss)) s
      \<lparr>prev = - 99, start_pos = - 9999, end_pos = - 8888, slices = [], tot_found = 0\<rparr> seen = Inr (st, EOCSID, mark_all k ss seen)"
    "located mem env ss st" using locate_loop_first [OF ok(1) le(1) ok(2)] by force
  have found: "tot_found st = int (length ss)" using st(2) by (simp add: located_def)
  show ?thesis
  proof (cases "slices st = []")
    case True
    have l: "0 \<le> start_pos st" "start_pos st \<le> end_pos st" "end_pos st = start_pos st + int (length ss) * sec_size env"
      "py_slice mem (start_pos st) (end_pos st) = stream_bytes mem env ss"
      using st(2) True by (auto simp: located_def slice_at_def)
    have "n \<le> end_pos st - start_pos st" using le(3) l(3) by simp
    then have "py_slice mem (start_pos st) (start_pos st + n) = take (nat n) (py_slice mem (start_pos st) (end_pos st))"
      using l(1,2) ok(3) by (simp add: py_slice_nonneg min_absorb1 nat_mono)
    then show ?thesis using True st(1) found le(2) ok(4) unfolding get l(4)
      by (auto simp: locate_stream_def Let_def simp del: rbind_eq_Inr)
  next
    case False
    let ?m = "concat (map (slice_at mem) (slices st @ [(start_pos st, end_pos st)]))"
    have "?m = stream_bytes mem env ss" by (rule locatedD(4) [OF st(2)])
    moreover have "py_slice ?m 0 (0 + n) = take (nat n) ?m" using ok(3) by (simp only: py_slice_nonneg) simp
    moreover have "locate_stream mem env s n k seen = Inr ((?m, 0, n), mark_all k ss seen)"
      using False st(1) found le(2) ok(4) by (simp add: locate_stream_def slice_at_def del: rbind_eq_Inr)
    ultimately show ?thesis unfolding get by metis
  qed
qed


text \<open>A stream in three sectors, out of order in the file.\<close>

definition example_env :: stream_env where
  "example_env = \<lparr>base = 0, sat = [2, -2, 1], sec_size = 4, seen_id = None\<rparr>"

definition example_mem :: bytes where
  "example_mem = [1, 2, 3, 4, 9, 10, 11, 12, 5, 6, 7, 8]"

lemma example_stream: "stream_ok example_mem example_env 6 [0, 0, 0] 0 [0, 2, 1] 10"
proof -
  have "chain [2, -2, 1] 0 [0, 2, 1]" using chain_end [of "[2, -2, 1]"] by (simp add: chain_Cons EOCSID_def)
  then show ?thesis by (simp add: stream_ok_def sectors_ok_def example_env_def example_mem_def)
qed

lemma get_stream_refines_witness:
  "get_stream example_mem (example_env\<lparr>seen_id := Some 6\<rparr>) 0 (Some 10) [0, 0, 0]
    = Some (Inr (take (nat 10) (stream_bytes example_mem example_env [0, 2, 1]), mark_all 6 [0, 2, 1] [0, 0, 0]))"
  by (rule get_stream_refines [OF example_stream])

lemma locate_equals_get_witness:
  "\<exists>m off marks. locate_stream example_mem example_env 0 10 6 [0, 0, 0] = Inr ((m, off, 10), marks)
    \<and> get_stream example_mem (example_env\<lparr>seen_id := Some 6\<rparr>) 0 (Some 10) [0, 0, 0]
      = Some (Inr (py_slice m off (off + 10), marks))"
  by (rule locate_equals_get [OF example_stream])

section \<open>Which loops end\<close>

lemma stream_loop_ends:
  assumes "seen_id env = Some k" and "k \<noteq> 0"
  shows "\<exists>r. stream_loop mem env s todo seen acc = Some r"
proof (induction "unseen seen" arbitrary: s todo seen acc rule: less_induct)
  case less
  show ?case
  proof (cases "mark_seen s k seen")
    case (Inl e)
    then show ?thesis using assms(1) by (subst stream_loop.simps) (simp add: Let_def)
  next
    case (Inr seen')
    have IH: "\<exists>r. stream_loop mem env s' todo' seen' acc' = Some r" for s' todo' acc'
      by (rule less [OF mark_seen_unseen [OF Inr assms(2)]])
    show ?thesis
    proof (cases "nth_int CompDocError (sat env) s")
      case (Inr s')
      with assms(1) \<open>mark_seen s k seen = Inr seen'\<close> IH show ?thesis
        by (subst stream_loop.simps) (simp add: Let_def)
    qed (use assms(1) Inr in \<open>subst stream_loop.simps, simp add: Let_def\<close>)
  qed
qed

lemma get_stream_ends: "seen_id env = Some k \<Longrightarrow> k \<noteq> 0 \<Longrightarrow> \<exists>r. get_stream mem env s todo seen = Some r"
  unfolding get_stream_def by (rule stream_loop_ends)

lemma stream_res_ends:
  "\<exists>r. m = Some r \<Longrightarrow> (\<And>x. \<exists>r. f x = Some r) \<Longrightarrow> \<exists>r. stream_res m f = Some r"
  by (auto simp: stream_res_def split: sum.split)

lemma read_directory_ends: "\<exists>r. read_directory depth mem h SAT seen = Some r"
  unfolding read_directory_def Let_def by (rule stream_res_ends) (auto intro: get_stream_ends)

lemma read_sscs_ends: "\<exists>r. read_sscs mem h SAT root seen = Some r"
  using get_stream_ends [of "\<lparr>base = 512, sat = SAT, sec_size = 2 ^ nat (h_ssz h), seen_id = Some 4\<rparr>" 4]
  by (simp add: read_sscs_def)

text \<open>
  C32: opening a file ends. Whatever bytes the file consists of, with chains of sectors that break
  off, leave the file or run in circles, reading its tables, its directory and its short sectors
  stops with a document or an exception.
\<close>

theorem open_compdoc_ends: "\<exists>r. open_compdoc depth mem = Some r"
  unfolding open_compdoc_def
  by (cases "read_cd_header mem")
    (auto intro!: stream_res_ends read_directory_ends read_sscs_ends split: prod.split)

text \<open>A set of sectors that the table never leaves.\<close>

definition closed_sids :: "int list \<Rightarrow> int set \<Rightarrow> bool" where
  "closed_sids table S \<longleftrightarrow> (\<forall>s \<in> S. 0 \<le> s \<and> nat s < length table \<and> table ! nat s \<in> S)"

lemma stream_loop_circle:
  assumes "seen_id env = None" and "closed_sids (sat env) S" and "s \<in> S"
  shows "stream_loop mem env s todo seen acc = None"
proof -
  have "e = env \<longrightarrow> s \<notin> S" if "stream_loop mem e s todo seen acc = Some r" for mem e s todo seen acc r
    using that
  proof (rule stream_loop.raw_induct [of "\<lambda>mem e s todo seen acc r. e = env \<longrightarrow> s \<notin> S", rotated], goal_cases)
    case (1 f mem e s todo seen acc r)
    show ?case
    proof (intro impI notI)
      assume e: "e = env" and s: "s \<in> S"
      then have "0 \<le> s" "nat s < length (sat env)" "sat env ! nat s \<in> S" using assms(2) by (auto simp: closed_sids_def)
      with 1 e assms(1) show False by (auto simp: Let_def nth_int_def)
    qed
  qed
  with assms(3) show ?thesis by (cases "stream_loop mem env s todo seen acc") auto
qed

text \<open>
  C33: a stream of short sectors whose chain runs in a circle is read for ever. Its sectors are not
  marked, so as soon as the chain enters sectors that lead to one another only, the loop does not
  end, whatever size the directory gives the stream.
\<close>

theorem short_stream_circle:
  assumes "dir_search lower (cd_dirlist cd) (split_path qname) 0 = Inr (Some d)" and "tot_size d < cd_min_size cd"
    and "closed_sids (cd_SSAT cd) S" and "first_SID d \<in> S"
  shows "get_named_stream lower cd qname = None"
proof -
  have "stream_loop (cd_SSCS cd) (short_env cd) (first_SID d) todo seen acc = None" for todo seen acc
    by (rule stream_loop_circle [of _ S]) (use assms(3,4) in \<open>simp_all add: short_env_def\<close>)
  with assms(1,2) show ?thesis by (simp add: get_named_stream_def get_stream_def stream_res_def)
qed

text \<open>
  C34: a document with many entries cannot be read. A stream of full sectors is marked with the number
  of its entry plus six, and a byte of \<open>seen\<close> holds no more than 255: from entry 250 on, reading the
  stream is an \<open>OverflowError\<close>.
\<close>

theorem large_directory_overflow:
  assumes "dir_search lower (cd_dirlist cd) (split_path qname) 0 = Inr (Some d)" and "250 \<le> DID d"
    and "cd_min_size cd \<le> tot_size d" and "0 \<le> first_SID d" and "nat (first_SID d) < length (cd_seen cd)"
    and "cd_seen cd ! nat (first_SID d) = 0"
  shows "get_named_stream lower cd qname = Some (Inl OverflowError)"
proof -
  have "mark_seen (first_SID d) (int (DID d) + 6) (cd_seen cd) = Inl OverflowError"
    using assms by (simp add: mark_seen_def nth_int_def)
  then have "stream_loop (cd_mem cd) (std_env cd (Some (int (DID d) + 6))) (first_SID d) todo (cd_seen cd) acc = Some (Inl OverflowError)" for todo acc
    using assms(4) by (subst stream_loop.simps) (simp add: std_env_def)
  with assms(1,3) show ?thesis by (simp add: get_named_stream_def get_stream_def stream_res_def)
qed

text \<open>Documents with one stream.\<close>

definition example_node :: "nat \<Rightarrow> int \<Rightarrow> dirnode" where
  "example_node did bytes_n = \<lparr>DID = did, etype = 2, left_DID = - 1, right_DID = - 1, root_DID = - 1, first_SID = 0,
     tot_size = bytes_n, node_name = [66], children = [], parent = 0\<rparr>"

definition example_root :: "int \<Rightarrow> dirnode" where
  "example_root child = \<lparr>DID = 0, etype = 5, left_DID = - 1, right_DID = - 1, root_DID = child, first_SID = - 2,
     tot_size = 0, node_name = [82], children = [child], parent = - 1\<rparr>"

definition example_doc :: "dirnode list \<Rightarrow> compdoc" where
  "example_doc dl = \<lparr>cd_mem = [], cd_sec_size = 512, cd_short_sec_size = 64, cd_mem_data_len = 0, cd_min_size = 4096,
     cd_SAT = [- 2], cd_SSAT = [1, 0], cd_SSCS = [], cd_dirlist = dl, cd_seen = [0]\<rparr>"

lemma short_stream_circle_witness:
  "get_named_stream (\<lambda>x. x) (example_doc [example_root 1, example_node 1 100]) [66] = None"
  by (rule short_stream_circle [of _ _ _ "example_node 1 100" "{0, 1}"])
    (simp_all add: example_doc_def example_root_def example_node_def node_at_def closed_sids_def del: rbind_eq_Inr)

lemma large_directory_overflow_witness:
  "get_named_stream (\<lambda>x. x) (example_doc (example_root 1 # replicate 300 (example_node 250 5000))) [66] = Some (Inl OverflowError)"
  by (rule large_directory_overflow [of _ _ _ "example_node 250 5000"])
    (simp_all add: example_doc_def example_root_def example_node_def node_at_def del: rbind_eq_Inr)

end
