(* ===== verification/CalPay.thy ===== *)
theory CalPay
  imports DbData Mongo
begin

text \<open>
  \<open>shell/cal_pay.py\<close>: what every account of every channel has paid, from the documents of the
  collection \<open>pay\<close>. The result is one entry per channel and account; it is inserted into a
  collection and appended to a text file.
\<close>

section \<open>Prices\<close>

definition PRODUCT_MAP :: "(pykey \<times> int) list" where
  "PRODUCT_MAP = map (\<lambda>(p, v). (KStr p, v))
     [(''com.kaopu.ylq.6'', 6), (''com.kaopu.ylq.12'', 12), (''com.kaopu.ylq.30'', 30),
      (''com.kaopu.ylq.68'', 68), (''com.kaopu.ylq.128'', 128), (''com.kaopu.ylq.328'', 328),
      (''com.kaopu.ylq.648'', 648), (''com.kaopu.ylq.yk'', 30), (''com.kaopu.ylq.zsk'', 98),
      (''com.kaopu.ylq.czjj'', 98), (''com.kaopu.ylq.lb.1'', 1), (''com.kaopu.ylq.lb.6'', 6),
      (''com.kaopu.ylq.lb.12'', 12), (''com.kaopu.ylq.lb.30'', 30), (''com.kaopu.ylq.lb.68'', 68),
      (''com.kaopu.ylq.lb.128'', 128), (''com.kaopu.ylq.lb.328'', 328),
      (''com.cilu.n1_gold_6'', 6), (''com.cilu.n1_gold_12'', 12), (''com.cilu.n1_gold_30'', 30),
      (''com.cilu.n1_gold_68'', 68), (''com.cilu.n1_gold_128'', 128), (''com.cilu.n1_gold_328'', 328),
      (''com.cilu.n1_gold_648'', 648), (''com.cilu.n1_yk'', 30), (''com.cilu.n1_zsk'', 98),
      (''com.cilu.n1_czjj'', 98)]"

section \<open>Counting\<close>

text \<open>
  \<open>%s\<close> of a value: its text and whether that is a \<open>unicode\<close> one, which makes the whole text one and
  asks the other parts to be ASCII.
\<close>

definition format_part :: "pyval \<Rightarrow> (bool \<times> string) res" where
  "format_part v = (case v of PUni s \<Rightarrow> Inr (True, s) | PStr s \<Rightarrow> Inr (False, s) | _ \<Rightarrow> rbind (unicode_of v) (\<lambda>s. Inr (False, s)))"

definition gen_key :: "pyval \<Rightarrow> pyval \<Rightarrow> pykey res" where
  "gen_key account channel =
     rbind (format_part channel) (\<lambda>(u, c).
     rbind (format_part account) (\<lambda>(v, a).
     if u \<or> v then
       (if \<not> u \<and> \<not> is_ascii c \<or> \<not> v \<and> \<not> is_ascii a then Inl ValueError else Inr (KUni (c @ ''-'' @ a)))
     else Inr (KStr (c @ ''-'' @ a))))"

record pay_entry =
  account :: pyval
  channel :: pyval
  paycount :: int

type_synonym pay_result = "(pykey \<times> pay_entry) list"

text \<open>\<open>price * amount\<close>, to be added to a number: a fraction is outside the model.\<close>

definition pay_amount :: "int \<Rightarrow> pyval \<Rightarrow> int res" where
  "pay_amount price amount =
     (case int_of amount of
        Some n \<Rightarrow> Inr (price * n)
      | None \<Rightarrow> (case amount of PFloat _ \<Rightarrow> Inl Unsupported | POther _ \<Rightarrow> Inl Unsupported | _ \<Rightarrow> Inl TypeError))"

definition pay_step :: "pyval \<Rightarrow> pay_result \<Rightarrow> pay_result res" where
  "pay_step data m_mResult =
     rbind (AfterLoad data) (\<lambda>data.
     rbind (getitem data (KStr ''account'')) (\<lambda>acc.
     rbind (getitem data (KStr ''demi_channel'')) (\<lambda>chan.
     rbind (getitem data (KStr ''product_key'')) (\<lambda>productId.
     rbind (getitem data (KStr ''product_amount'')) (\<lambda>amount.
     rbind (gen_key acc chan) (\<lambda>sKey.
     let m = (case dget m_mResult sKey of
                Some m \<Rightarrow> m
              | None \<Rightarrow> \<lparr>account = acc, channel = chan, paycount = 0\<rparr>);
         m_mResult = dput m_mResult sKey m in
     rbind (key_of productId) (\<lambda>product.
     case dget PRODUCT_MAP product of
       None \<Rightarrow> Inr m_mResult
     | Some price \<Rightarrow>
         rbind (pay_amount price amount) (\<lambda>n.
         Inr (dput m_mResult sKey (m\<lparr>paycount := paycount m + n\<rparr>))))))))))"

definition pay_count :: "pyval list \<Rightarrow> pay_result res" where
  "pay_count docs = rfold pay_step docs []"

section \<open>Writing\<close>

definition insert_info :: "pay_entry \<Rightarrow> pyval" where
  "insert_info m = BeforeSave (PDict [(KStr ''account'', account m), (KStr ''channel'', channel m),
     (KStr ''paycount'', PInt (paycount m))])"

definition write_mongo :: "pay_result \<Rightarrow> mongo_cmd list" where
  "write_mongo res = map (\<lambda>(key, m). InsertOne ''game'' ''cbt_pay'' (insert_info m)) res"

text \<open>A \<open>unicode\<close> line is encoded as ASCII when it is written.\<close>

definition pay_line :: "pay_entry \<Rightarrow> string res" where
  "pay_line m =
     rbind (format_part (account m)) (\<lambda>(u, a).
     rbind (format_part (channel m)) (\<lambda>(v, c).
     if (u \<or> v) \<and> \<not> (is_ascii a \<and> is_ascii c) then Inl ValueError
     else Inr (a @ '' '' @ c @ '' '' @ str_of_int (paycount m) @ '' '' @ [newline])))"

definition write_pay_file :: "pay_result \<Rightarrow> string \<Rightarrow> string res" where
  "write_pay_file res old = rbind (rmap (\<lambda>(key, m). pay_line m) res) (\<lambda>ls. Inr (old @ concat ls))"

text \<open>The program: the commands sent, and the new text of the file.\<close>

definition pay_main :: "pyval list \<Rightarrow> string \<Rightarrow> (mongo_cmd list \<times> string res) res" where
  "pay_main docs old =
     rbind (pay_count docs) (\<lambda>res. Inr (write_mongo res, write_pay_file res old))"

section \<open>The totals\<close>

record payment =
  p_account :: string
  p_channel :: string
  p_product :: string
  p_amount :: int

definition pay_doc :: "payment \<Rightarrow> pyval" where
  "pay_doc p = PDict [(KUni ''account'', PUni (p_account p)), (KUni ''demi_channel'', PUni (p_channel p)),
     (KUni ''product_key'', PUni (p_product p)), (KUni ''product_amount'', PInt (p_amount p))]"

definition pay_value :: "payment \<Rightarrow> int" where
  "pay_value p = (case dget PRODUCT_MAP (KUni (p_product p)) of None \<Rightarrow> 0 | Some price \<Rightarrow> price * p_amount p)"

definition paid_key :: "payment \<Rightarrow> string" where
  "paid_key p = p_channel p @ ''-'' @ p_account p"

lemma AfterLoad_pay_doc: "AfterLoad (pay_doc p) = Inr (pay_doc p)"
  by (simp add: pay_doc_def AfterLoad.simps meta_key_def is_ascii_def)

definition entry_of :: "payment \<Rightarrow> pay_entry" where
  "entry_of p = \<lparr>account = PUni (p_account p), channel = PUni (p_channel p), paycount = 0\<rparr>"

lemma pay_step_doc:
  "pay_step (pay_doc p) res =
     (let k = KUni (paid_key p); m = (case dget res k of Some m \<Rightarrow> m | None \<Rightarrow> entry_of p) in
      Inr (if dget PRODUCT_MAP (KUni (p_product p)) = None then dput res k m
           else dput (dput res k m) k (m\<lparr>paycount := paycount m + pay_value p\<rparr>)))"
  unfolding pay_step_def AfterLoad_pay_doc
  by (simp add: pay_doc_def is_ascii_def gen_key_def format_part_def paid_key_def Let_def entry_of_def pay_amount_def
      pay_value_def del: rbind_eq_Inr split: option.splits)

lemma paid_key_eq:
  assumes "CHR ''-'' \<notin> set (p_channel p)" and "CHR ''-'' \<notin> set (p_channel q)"
  shows "paid_key p = paid_key q \<longleftrightarrow> p_channel p = p_channel q \<and> p_account p = p_account q"
proof -
  have "hd (split_on CHR ''-'' (paid_key r)) = p_channel r" if "CHR ''-'' \<notin> set (p_channel r)" for r
    using that by (simp add: paid_key_def split_on_append)
  then have "p_channel p = p_channel q" if "paid_key p = paid_key q"
    using assms that by metis
  then show ?thesis by (auto simp: paid_key_def)
qed

text \<open>What the counting keeps: one entry per key seen, of the first payment with the key, with the sum.\<close>

definition total_of :: "payment list \<Rightarrow> string \<Rightarrow> int" where
  "total_of ps k = (\<Sum>q\<leftarrow>filter (\<lambda>q. paid_key q = k) ps. pay_value q)"

definition counted :: "payment list \<Rightarrow> pay_result \<Rightarrow> bool" where
  "counted ps res \<longleftrightarrow> distinct (dkeys res) \<and>
     (\<forall>k. dget res (KUni k) =
        map_option (\<lambda>p. (entry_of p)\<lparr>paycount := total_of ps k\<rparr>) (find (\<lambda>p. paid_key p = k) ps))"

lemma find_snoc: "find P (xs @ [x]) = (case find P xs of Some y \<Rightarrow> Some y | None \<Rightarrow> if P x then Some x else None)"
  by (induction xs) auto

lemma total_snoc: "total_of (ps @ [p]) k = total_of ps k + (if paid_key p = k then pay_value p else 0)"
  by (simp add: total_of_def)

lemma pay_value_unknown: "dget PRODUCT_MAP (KUni (p_product p)) = None \<Longrightarrow> pay_value p = 0"
  by (simp add: pay_value_def)

lemma total_unseen: "find (\<lambda>p. paid_key p = k) ps = None \<Longrightarrow> total_of ps k = 0"
  by (induction ps) (auto simp: total_of_def split: if_splits)

lemma pay_count_counted: "\<exists>res. pay_count (map pay_doc ps) = Inr res \<and> counted ps res"
proof (induction ps rule: rev_induct)
  case Nil
  show ?case by (simp add: pay_count_def counted_def)
next
  case (snoc p ps)
  then obtain res where 1: "pay_count (map pay_doc ps) = Inr res" and 2: "counted ps res" by blast
  let ?k = "KUni (paid_key p)"
  let ?m = "case dget res ?k of Some m \<Rightarrow> m | None \<Rightarrow> entry_of p"
  let ?r = "if dget PRODUCT_MAP (KUni (p_product p)) = None then dput res ?k ?m
           else dput (dput res ?k ?m) ?k (?m\<lparr>paycount := paycount ?m + pay_value p\<rparr>)"
  have 3: "pay_count (map pay_doc (ps @ [p])) = Inr ?r"
    using 1 by (simp add: pay_count_def rfold_append pay_step_doc Let_def del: rbind_eq_Inr)
  have d: "distinct (dkeys ?r)" using 2 by (simp add: counted_def distinct_dput)
  have m: "?m = (case find (\<lambda>q. paid_key q = paid_key p) ps of None \<Rightarrow> entry_of p
      | Some q \<Rightarrow> (entry_of q)\<lparr>paycount := total_of ps (paid_key p)\<rparr>)"
    using 2 by (auto simp: counted_def split: option.splits)
  have "dget ?r (KUni k) = map_option (\<lambda>q. (entry_of q)\<lparr>paycount := total_of (ps @ [p]) k\<rparr>) (find (\<lambda>q. paid_key q = k) (ps @ [p]))" for k
  proof (cases "k = paid_key p")
    case True
    show ?thesis
      unfolding m True
      by (auto simp: find_snoc total_snoc pay_value_unknown total_unseen entry_of_def split: option.splits)
  next
    case False
    then show ?thesis using 2 by (auto simp: counted_def find_snoc total_snoc split: option.splits)
  qed
  with 3 d show ?case unfolding counted_def by blast
qed

text \<open>
  C35: for payments with channels that hold no \<open>-\<close>, the count ends with one entry per account and
  channel that paid, and its \<open>paycount\<close> is the sum of the values of exactly this account's payments
  through this channel; a product that is not in the price list counts nothing.
\<close>
theorem pay_totals:
  assumes "\<forall>p \<in> set ps. CHR ''-'' \<notin> set (p_channel p)"
  shows "\<exists>res. pay_count (map pay_doc ps) = Inr res \<and> distinct (dkeys res) \<and>
    (\<forall>p \<in> set ps. \<exists>e. dget res (KUni (paid_key p)) = Some e \<and> account e = PUni (p_account p) \<and>
       channel e = PUni (p_channel p) \<and>
       paycount e = (\<Sum>q\<leftarrow>filter (\<lambda>q. p_account q = p_account p \<and> p_channel q = p_channel p) ps. pay_value q))"
proof -
  obtain res where res: "pay_count (map pay_doc ps) = Inr res" and c: "counted ps res"
    using pay_count_counted by blast
  have "\<exists>e. dget res (KUni (paid_key p)) = Some e \<and> account e = PUni (p_account p) \<and>
       channel e = PUni (p_channel p) \<and>
       paycount e = (\<Sum>q\<leftarrow>filter (\<lambda>q. p_account q = p_account p \<and> p_channel q = p_channel p) ps. pay_value q)"
    if p: "p \<in> set ps" for p
  proof -
    obtain q where q: "find (\<lambda>q. paid_key q = paid_key p) ps = Some q"
      using p by (cases "find (\<lambda>q. paid_key q = paid_key p) ps") (auto simp: find_None_iff)
    then have "q \<in> set ps" "paid_key q = paid_key p" by (auto simp: find_Some_iff)
    then have "p_channel q = p_channel p" "p_account q = p_account p"
      using assms p by (auto simp: paid_key_eq)
    moreover have "filter (\<lambda>q. paid_key q = paid_key p) ps =
        filter (\<lambda>q. p_account q = p_account p \<and> p_channel q = p_channel p) ps"
      using assms p by (intro filter_cong) (auto simp: paid_key_eq)
    ultimately show ?thesis using c q by (simp add: counted_def entry_of_def total_of_def)
  qed
  with res c show ?thesis unfolding counted_def by blast
qed

lemma pay_totals_witness:
  "\<exists>res e. pay_count (map pay_doc
       [\<lparr>p_account = ''a'', p_channel = ''x'', p_product = ''com.cilu.n1_yk'', p_amount = 2\<rparr>,
        \<lparr>p_account = ''b'', p_channel = ''x'', p_product = ''com.cilu.n1_yk'', p_amount = 1\<rparr>,
        \<lparr>p_account = ''a'', p_channel = ''x'', p_product = ''com.cilu.n1_gold_6'', p_amount = 1\<rparr>]) = Inr res
     \<and> dget res (KUni ''x-a'') = Some e \<and> paycount e = 66"
proof -
  define ps where "ps = [\<lparr>p_account = ''a'', p_channel = ''x'', p_product = ''com.cilu.n1_yk'', p_amount = 2\<rparr>,
        \<lparr>p_account = ''b'', p_channel = ''x'', p_product = ''com.cilu.n1_yk'', p_amount = 1\<rparr>,
        \<lparr>p_account = ''a'', p_channel = ''x'', p_product = ''com.cilu.n1_gold_6'', p_amount = 1\<rparr>]"
  have "\<forall>p \<in> set ps. CHR ''-'' \<notin> set (p_channel p)" by (simp add: ps_def)
  from pay_totals [OF this] obtain res where r: "pay_count (map pay_doc ps) = Inr res"
    and t: "\<And>p. p \<in> set ps \<Longrightarrow> \<exists>e. dget res (KUni (paid_key p)) = Some e \<and>
       paycount e = (\<Sum>q\<leftarrow>filter (\<lambda>q. p_account q = p_account p \<and> p_channel q = p_channel p) ps. pay_value q)"
    by blast
  have "hd ps \<in> set ps" by (simp add: ps_def)
  from t [OF this] obtain e where "dget res (KUni ''x-a'') = Some e \<and> paycount e = 66"
    by (auto simp: ps_def paid_key_def pay_value_def PRODUCT_MAP_def is_ascii_def)
  with r show ?thesis unfolding ps_def by blast
qed

end
