(* ===== verification/Trace.thy ===== *)
theory Trace
  imports Prelude
begin

text \<open>
  Scripts that run commands one after the other and may stop in between: a run is the list of the
  commands given so far together with the value it ends with, or the error it stops at.
\<close>

type_synonym ('c, 'a) run = "'c list \<times> 'a res"

definition emit :: "'c \<Rightarrow> ('c, unit) run" where
  "emit c = ([c], Inr ())"

definition of_res :: "'a res \<Rightarrow> ('c, 'a) run" where
  "of_res r = ([], r)"

definition tbind :: "('c, 'a) run \<Rightarrow> ('a \<Rightarrow> ('c, 'b) run) \<Rightarrow> ('c, 'b) run" where
  "tbind m f = (case m of (cs, Inl e) \<Rightarrow> (cs, Inl e) | (cs, Inr x) \<Rightarrow> (cs @ fst (f x), snd (f x)))"

definition done_run :: "('c, unit) run" where
  "done_run = ([], Inr ())"

text \<open>\<open>for x in xs: f(x)\<close>.\<close>

fun tfor :: "('a \<Rightarrow> ('c, unit) run) \<Rightarrow> 'a list \<Rightarrow> ('c, unit) run" where
  "tfor f [] = done_run"
| "tfor f (x # xs) = tbind (f x) (\<lambda>_. tfor f xs)"

definition commands :: "('c, 'a) run \<Rightarrow> 'c list" where
  "commands m = fst m"

definition outcome :: "('c, 'a) run \<Rightarrow> 'a res" where
  "outcome m = snd m"

named_theorems run_simps \<open>commands and outcome of a run\<close>

lemma emit_simps [simp, run_simps]: "commands (emit c) = [c]" "outcome (emit c) = Inr ()"
  by (simp_all add: emit_def commands_def outcome_def)

lemma of_res_simps [simp, run_simps]: "commands (of_res r) = []" "outcome (of_res r) = r"
  by (simp_all add: of_res_def commands_def outcome_def)

lemma done_run_simps [simp, run_simps]: "commands done_run = []" "outcome done_run = Inr ()"
  by (simp_all add: done_run_def commands_def outcome_def)

lemma commands_tbind [simp, run_simps]:
  "commands (tbind m f) = commands m @ (case outcome m of Inl e \<Rightarrow> [] | Inr x \<Rightarrow> commands (f x))"
  by (auto simp: tbind_def commands_def outcome_def split: prod.splits sum.splits)

lemma outcome_tbind [simp, run_simps]:
  "outcome (tbind m f) = rbind (outcome m) (\<lambda>x. outcome (f x))"
  by (auto simp: tbind_def outcome_def split: prod.splits sum.splits)

lemma run_eqI: "commands m = commands n \<Longrightarrow> outcome m = outcome n \<Longrightarrow> m = n"
  by (simp add: commands_def outcome_def prod_eq_iff)

lemma tbind_assoc: "tbind (tbind m f) g = tbind m (\<lambda>x. tbind (f x) g)"
  by (rule run_eqI) (auto split: sum.splits simp: rbind_assoc)

text \<open>A loop whose body never fails gives the commands of all its turns.\<close>

lemma tfor_total:
  assumes "\<And>x. x \<in> set xs \<Longrightarrow> outcome (f x) = Inr ()"
  shows "commands (tfor f xs) = concat (map (\<lambda>x. commands (f x)) xs)" and "outcome (tfor f xs) = Inr ()"
  using assms by (induction xs) auto

text \<open>A property of single commands carries over to a loop, however it ends.\<close>

lemma tfor_commands:
  assumes "\<And>x c. x \<in> set xs \<Longrightarrow> c \<in> set (commands (f x)) \<Longrightarrow> P c"
  shows "c \<in> set (commands (tfor f xs)) \<Longrightarrow> P c"
  using assms
proof (induction xs)
  case (Cons x xs)
  show ?case
  proof (cases "c \<in> set (commands (f x))")
    case False
    with Cons.prems(1) have "c \<in> set (commands (tfor f xs))" by (auto split: sum.splits)
    then show ?thesis by (rule Cons.IH) (use Cons.prems(2) in auto)
  qed (use Cons.prems(2) [of x c] in simp)
qed simp

end
