(* ===== verification/ServerTools.thy ===== *)
theory ServerTools
  imports Mongo Tables FileSys PyRe Trace
begin

text \<open>
  The scripts that run a group of game servers: \<open>shell/chg_server.py\<close> (shortening the server keys
  in the databases), \<open>shell/generate_conf.py\<close> (the configuration file of a server),
  \<open>shell/merger_pulldata.py\<close> (dumping two servers and loading them into local databases) and
  \<open>shell/master/distribute.py\<close> (running a script on a list of servers). The database and the shell
  are not part of the repository: a script gives the list of its commands, and what a shell
  command prints is a parameter \<open>sh\<close>.
\<close>

section \<open>Changing the server keys\<close>

text \<open>\<open>s.split(c, 1)\<close>.\<close>

definition split1 :: "char \<Rightarrow> string \<Rightarrow> string list" where
  "split1 c s = (if c \<in> set s then [takeWhile (\<lambda>x. x \<noteq> c) s, tl (dropWhile (\<lambda>x. x \<noteq> c) s)] else [s])"

definition key2tag_text :: "string \<Rightarrow> string" where
  "key2tag_text sServerKey =
     (let r = split1 (CHR ''_'') sServerKey in if 2 \<le> length r then r ! 1 else r ! 0)"

definition key2tag :: "pyval \<Rightarrow> pyval res" where
  "key2tag sServerKey =
     (case sServerKey of
        PStr s \<Rightarrow> Inr (PStr (key2tag_text s))
      | PUni s \<Rightarrow> Inr (PUni (key2tag_text s))
      | _ \<Rightarrow> Inl AttributeError)"

text \<open>
  \<open>init_server\<close>: the tag of the server. \<open>world\<close> is what \<open>find_one\<close> returns; for a type that is neither
  the attribute is never set, and the \<open>print\<close> that reads it stops.
\<close>

definition init_server :: "string \<Rightarrow> pyval option \<Rightarrow> pyval res" where
  "init_server server_type world =
     (if server_type = ''cs'' then Inr (PStr ''cs'')
      else if server_type = ''gs'' then
        (case world of
           None \<Rightarrow> Inl TypeError
         | Some data \<Rightarrow> rbind (getitem data (KStr ''server_id'')) key2tag)
      else Inl AttributeError)"

definition set_fields :: "(string \<times> pyval) list \<Rightarrow> pyval" where
  "set_fields fs = PDict [(KStr ''$set'', PDict (map (\<lambda>(k, v). (KStr k, v)) fs))]"

definition role_change :: "pyval \<Rightarrow> pyval \<Rightarrow> mongo_cmd" where
  "role_change server_key server_tag =
     UpdateMany ''game'' ''roleinfo'' (PDict [(KStr ''server'', server_key)])
       (set_fields [(''server'', server_tag), (''now_server'', server_tag)])"

text \<open>\<open>groups\<close>: what the aggregation by \<open>server\<close> yields, one document per key.\<close>

definition chg_roleinfo :: "pyval list \<Rightarrow> (mongo_cmd, unit) run" where
  "chg_roleinfo groups =
     tbind (of_res (rmap (\<lambda>r. getitem r (KStr ''_id'')) groups)) (\<lambda>server_keys.
     tfor (\<lambda>server_key. tbind (of_res (key2tag server_key)) (\<lambda>server_tag.
       emit (role_change server_key server_tag))) server_keys)"

definition chg_world :: "pyval \<Rightarrow> (mongo_cmd, unit) run" where
  "chg_world server_tag = emit (Update ''game'' ''world'' (PDict []) (set_fields [(''server_id'', server_tag)]) False)"

definition chg_player :: "pyval \<Rightarrow> (mongo_cmd, unit) run" where
  "chg_player server_tag = emit (UpdateMany ''game'' ''player'' (PDict [])
     (set_fields [(''born_server'', server_tag), (''now_server'', server_tag)]))"

definition chg_profile :: "pyval \<Rightarrow> (mongo_cmd, unit) run" where
  "chg_profile server_tag = emit (UpdateMany ''game'' ''offline'' (PDict [])
     (set_fields [(''profile_info.born_server'', server_tag), (''profile_info.now_server'', server_tag)]))"

definition chg_server :: "string \<Rightarrow> pyval option \<Rightarrow> pyval list \<Rightarrow> (mongo_cmd, unit) run" where
  "chg_server server_type world groups =
     tbind (of_res (init_server server_type world)) (\<lambda>server_tag.
     if server_type = ''cs'' then chg_roleinfo groups
     else if server_type = ''gs'' then
       tbind (chg_world server_tag) (\<lambda>_. tbind (chg_player server_tag) (\<lambda>_. chg_profile server_tag))
     else done_run)"

section \<open>The configuration of a server\<close>

definition server_key_re :: "re_item list" where
  "server_key_re = [Plus Alnum, One (Lit (CHR ''_'')), Plus Alpha, Star Digit]"

definition gen_file :: "string \<Rightarrow> string \<Rightarrow> fs \<Rightarrow> fs res" where
  "gen_file name server_key fs =
     rbind (read_file fs (''./config/template/'' @ name)) (\<lambda>content.
     write_file (''./config/'' @ name)
       (str_replace ''T_SERVER_KEY'' (CHR 0x22 # server_key @ [CHR 0x22]) content) fs)"

definition gen_ks_config :: "string \<Rightarrow> fs \<Rightarrow> fs res" where
  "gen_ks_config = gen_file ''ks_config.lua''"

definition gen_bs_config :: "string \<Rightarrow> fs \<Rightarrow> fs res" where
  "gen_bs_config = gen_file ''bs_config.lua''"

definition gen_cs_config :: "string \<Rightarrow> fs \<Rightarrow> fs res" where
  "gen_cs_config = gen_file ''cs_config.lua''"

definition gen_gs_config :: "string \<Rightarrow> fs \<Rightarrow> fs res" where
  "gen_gs_config = gen_file ''gs_config.lua''"

definition gen_config :: "string \<Rightarrow> fs \<Rightarrow> fs res" where
  "gen_config server_key fs =
     (case re_match server_key_re server_key of
        None \<Rightarrow> Inr fs
      | Some ps \<Rightarrow>
          let server_type = strip (ps ! 2) in
          if server_type = ''cs'' then gen_cs_config server_key fs
          else if server_type = ''gs'' then gen_gs_config server_key fs
          else if server_type = ''bs'' then gen_bs_config server_key fs
          else if server_type = ''ks'' then gen_ks_config server_key fs
          else Inr fs)"
section \<open>Dumping and loading the databases of a merge\<close>

definition slave_db_addr :: "(string \<times> string) list" where
  "slave_db_addr = [(''cs'', ''172.18.123.208:27018''), (''gs20001'', ''172.18.123.210:27017''),
     (''gs20002'', ''172.18.14.122:27020'')]"

definition merger_info :: "(int \<times> string list) list" where
  "merger_info = [(1, [''gs20002'', ''gs20001''])]"

definition form_db_addr :: string where "form_db_addr = ''127.0.0.1:27019''"

definition to_db_addr :: string where "to_db_addr = ''127.0.0.1:27017''"

definition get_db_addr :: "string \<Rightarrow> string res" where
  "get_db_addr server = of_option KeyError (map_of slave_db_addr server)"

definition dump_cmd :: "string \<Rightarrow> string \<Rightarrow> string \<Rightarrow> string" where
  "dump_cmd addr server timestamp =
     ''mongodump -h '' @ addr @
     '' --gzip -u root -p YXTxsaj22WSJ7wTG --authenticationDatabase admin -d game --archive=/home/cilu/waifu_db/'' @
     server @ ''-'' @ timestamp @ ''.gz &>/home/cilu/waifu_db/'' @ server @ ''-'' @ timestamp @ ''.log''"

definition dump_game :: "string \<Rightarrow> string \<Rightarrow> (string, unit) run" where
  "dump_game server timestamp =
     tbind (of_res (get_db_addr server)) (\<lambda>addr. emit (dump_cmd addr server timestamp))"

definition drop_db :: "string \<Rightarrow> (string, unit) run" where
  "drop_db addr = emit (''./shell/drop_all_db.sh '' @ addr @ '' dropall'')"

definition load_cmd :: "string \<Rightarrow> string \<Rightarrow> string \<Rightarrow> string" where
  "load_cmd server timestamp db_addr =
     ''mongorestore -h '' @ db_addr @
     '' --gzip -u root -p YXTxsaj22WSJ7wTG --authenticationDatabase admin --archive=/home/cilu/waifu_db/'' @
     server @ ''-'' @ timestamp @ ''.gz''"

definition load_game :: "string \<Rightarrow> string \<Rightarrow> string \<Rightarrow> (string, unit) run" where
  "load_game server timestamp db_addr = emit (load_cmd server timestamp db_addr)"

definition dump_all_game :: "string \<Rightarrow> string \<Rightarrow> string \<Rightarrow> (string, unit) run" where
  "dump_all_game from_server to_server timestamp =
     tbind (dump_game from_server timestamp) (\<lambda>_.
     tbind (dump_game to_server timestamp) (\<lambda>_. dump_game ''cs'' timestamp))"

definition load_all_game :: "string \<Rightarrow> string \<Rightarrow> string \<Rightarrow> (string, unit) run" where
  "load_all_game from_server to_server timestamp =
     tbind (load_game from_server timestamp form_db_addr) (\<lambda>_.
     tbind (load_game to_server timestamp to_db_addr) (\<lambda>_. load_game ''cs'' timestamp to_db_addr))"

definition drop_all_db :: "(string, unit) run" where
  "drop_all_db = tbind (drop_db form_db_addr) (\<lambda>_. drop_db to_db_addr)"

text \<open>\<open>today\<close> is the date \<open>time.strftime\<close> gives.\<close>

definition start_pull_data :: "string \<Rightarrow> int \<Rightarrow> string \<Rightarrow> (string, unit) run" where
  "start_pull_data today merger_cnt timestamp =
     tbind (of_res (of_option KeyError (map_of merger_info merger_cnt))) (\<lambda>servers.
     let from_server = servers ! 0; to_server = servers ! 1;
         load = (\<lambda>timestamp. tbind drop_all_db (\<lambda>_. load_all_game from_server to_server timestamp))
     in if timestamp = '''' then
          tbind (dump_all_game from_server to_server today) (\<lambda>_. load today)
        else load timestamp)"

section \<open>Running a script on a list of servers\<close>

definition SERVER_KEY_LIST :: "string list" where
  "SERVER_KEY_LIST = [''./shell/master/rsync_conf.sh'', ''./shell/gen_config.sh'']"

definition NON_SERVER_KEY :: "string list" where
  "NON_SERVER_KEY = [''./shell/bs_close.sh'', ''./shell/bs_run.sh'', ''./shell/bs_start.sh'',
     ''./shell/cs_close.sh'', ''./shell/cs_run.sh'', ''./shell/cs_start.sh'',
     ''./shell/gs_close.sh'', ''./shell/gs_run.sh'', ''./shell/gs_start.sh'',
     ''./shell/open_gate.sh'', ''./shell/pull_data.sh'']"

definition FILTER_SERVER_TYPE :: "(string \<times> string list) list" where
  "FILTER_SERVER_TYPE = [(''./shell/bs_close.sh'', [''bs'']), (''./shell/bs_run.sh'', [''bs'']),
     (''./shell/bs_start.sh'', [''bs'']), (''./shell/cs_close.sh'', [''cs'']), (''./shell/cs_run.sh'', [''cs'']),
     (''./shell/cs_start.sh'', [''cs'']), (''./shell/gs_close.sh'', [''gs'']), (''./shell/gs_run.sh'', [''gs'']),
     (''./shell/gs_start.sh'', [''gs'']), (''./shell/open_gate.sh'', [''gs'']), (''./shell/pull_data.sh'', [''bs''])]"

text \<open>\<open>s.strip("\n")\<close>.\<close>

definition strip_newlines :: "string \<Rightarrow> string" where
  "strip_newlines s = rev (dropWhile (\<lambda>c. c = newline) (rev (dropWhile (\<lambda>c. c = newline) s)))"

definition GetServerType :: "(string \<Rightarrow> string) \<Rightarrow> string \<Rightarrow> string" where
  "GetServerType sh sServerKey = strip_newlines (sh (''./shell/master/info/get_server_type.sh '' @ sServerKey))"

definition TransServerKey :: "(string \<Rightarrow> string) \<Rightarrow> string \<Rightarrow> string \<Rightarrow> string" where
  "TransServerKey sh sServerKey sShell =
     (if sShell \<in> set NON_SERVER_KEY then ''''
      else if sShell \<in> set SERVER_KEY_LIST then sServerKey
      else GetServerType sh sServerKey)"

definition GetServerIp :: "(string \<Rightarrow> string) \<Rightarrow> string \<Rightarrow> string" where
  "GetServerIp sh sServerKey = sh (''./shell/master/info/get_ip.sh '' @ sServerKey)"

definition remote_cmd :: "string \<Rightarrow> string \<Rightarrow> string \<Rightarrow> string list \<Rightarrow> string" where
  "remote_cmd sIp sServerKey sShell lArgs =
     ''ssh -fnp 932 cilu@'' @ sIp @ '' '' @ [CHR 0x22, newline] @
     ''cd '' @ sServerKey @ '';'' @ [newline] @
     sShell @ '' '' @ join '' '' lArgs @ '';'' @ [newline, CHR 0x22, newline]"

text \<open>
  \<open>ShellExec\<close>: the command it runs and the text it returns, or nothing when the address is not
  known. It runs in a worker process on a copy of the arguments.
\<close>

definition ShellExec ::
  "(string \<Rightarrow> string) \<Rightarrow> bool \<Rightarrow> string \<Rightarrow> string \<Rightarrow> string list \<Rightarrow> (string \<times> string) option" where
  "ShellExec sh bRemote sServerKey sShell lArgs =
     (let serverarg = TransServerKey sh sServerKey sShell;
          lArgs = (if serverarg \<noteq> '''' then serverarg # lArgs else lArgs);
          sIp = GetServerIp sh sServerKey;
          result = ''['' @ sServerKey @ ''] exec ['' @ sShell @ '' '' @ join '' '' lArgs @ '']'' @
                   [CHR 0xEF, CHR 0xBC, CHR 0x9A, newline];
          sCmd = (if \<not> bRemote then sShell @ '' '' @ join '' '' lArgs
                  else remote_cmd sIp sServerKey sShell lArgs)
      in if bRemote \<and> sIp = '''' then None else Some (sCmd, result @ sh sCmd))"

record distribute =
  m_sServers :: string
  m_sShell :: string
  m_lArgs :: "string list"

definition CDistribute :: "string list \<Rightarrow> distribute res" where
  "CDistribute args =
     (if length args \<le> 3 then Inl IndexError
      else Inr \<lparr>m_sServers = args ! 2, m_sShell = args ! 3, m_lArgs = drop 4 args\<rparr>)"

definition GetServerkeysFromList :: "fs \<Rightarrow> string \<Rightarrow> string list res" where
  "GetServerkeysFromList fs sServerList =
     (let sFilePath = ''./shell/master/list/'' @ sServerList @ ''.list'' in
      if path_exists fs sFilePath then
        rbind (read_file fs sFilePath) (\<lambda>content. Inr (map strip_newlines (readlines content)))
      else Inr [])"

definition IsKnownServerKey :: "(string \<Rightarrow> string) \<Rightarrow> string \<Rightarrow> bool" where
  "IsKnownServerKey sh sServerKey \<longleftrightarrow> sh (''./shell/master/info/is_known_server_key.sh '' @ sServerKey) \<noteq> ''''"

definition FilterServer :: "(string \<Rightarrow> string) \<Rightarrow> string list \<Rightarrow> string \<Rightarrow> string list" where
  "FilterServer sh lServers sShell =
     (case map_of FILTER_SERVER_TYPE sShell of
        Some lServerType \<Rightarrow> filter (\<lambda>sServerKey. GetServerType sh sServerKey \<in> set lServerType) lServers
      | None \<Rightarrow> lServers)"

text \<open>
  The tasks given to the pool, one per server: the command each worker runs and the text printed
  for it (\<open>None\<close> for a server without an address). The pool may finish them in any order.
\<close>

definition ServerExec ::
  "(string \<Rightarrow> string) \<Rightarrow> fs \<Rightarrow> distribute \<Rightarrow> bool \<Rightarrow> (string \<times> (string \<times> string) option) list res" where
  "ServerExec sh fs self bRemote =
     rbind (GetServerkeysFromList fs (m_sServers self)) (\<lambda>lServers.
     let lServers = (if lServers \<noteq> [] then lServers
                     else if IsKnownServerKey sh (m_sServers self) then lServers @ [m_sServers self]
                     else lServers);
         lServers = FilterServer sh lServers (m_sShell self)
     in Inr (map (\<lambda>sServerKey. (sServerKey, ShellExec sh bRemote sServerKey (m_sShell self) (m_lArgs self))) lServers))"

definition distribute_main ::
  "(string \<Rightarrow> string) \<Rightarrow> fs \<Rightarrow> string list \<Rightarrow> (string \<times> (string \<times> string) option) list res" where
  "distribute_main sh fs args =
     (if length args \<le> 1 then Inl IndexError else
      rbind (CDistribute args) (\<lambda>oDistribute. ServerExec sh fs oDistribute (args ! 1 \<noteq> ''local'')))"

section \<open>What is distributed\<close>

text \<open>The listed servers: of the list file when it holds any, else the one server named.\<close>

definition listed :: "(string \<Rightarrow> string) \<Rightarrow> fs \<Rightarrow> string \<Rightarrow> string \<Rightarrow> bool" where
  "listed sh fs sServers key \<longleftrightarrow>
     (\<exists>content. aget fs (''./shell/master/list/'' @ sServers @ ''.list'') = Some (File content) \<and>
        key \<in> strip_newlines ` set (readlines content)) \<or>
     key = sServers \<and> IsKnownServerKey sh key"

lemma FilterServer_type:
  "key \<in> set (FilterServer sh ks sShell) \<longleftrightarrow>
     key \<in> set ks \<and> (\<forall>ts. map_of FILTER_SERVER_TYPE sShell = Some ts \<longrightarrow> GetServerType sh key \<in> set ts)"
  by (auto simp: FilterServer_def split: option.splits)

lemma GetServerkeysFromList_Inr:
  "GetServerkeysFromList fs s = Inr ks \<Longrightarrow> key \<in> set ks \<Longrightarrow> listed sh fs s key"
  by (auto simp: GetServerkeysFromList_def listed_def Let_def read_file_def split: if_splits option.splits node.splits)

lemma filter_shells_take_no_key: "map_of FILTER_SERVER_TYPE sShell = Some ts \<Longrightarrow> sShell \<in> set NON_SERVER_KEY"
  by (simp add: FILTER_SERVER_TYPE_def NON_SERVER_KEY_def split: if_splits)

lemma ShellExec_filtered:
  assumes "map_of FILTER_SERVER_TYPE sShell = Some ts" and "ShellExec sh True key sShell args = Some (cmd, out)"
  shows "GetServerIp sh key \<noteq> '''' \<and> cmd = remote_cmd (GetServerIp sh key) key sShell args"
  using assms filter_shells_take_no_key [OF assms(1)]
  by (auto simp: ShellExec_def Let_def TransServerKey_def split: if_splits)

text \<open>
  C37: starting, running or closing is safe: whenever the remote distribution of a script that belongs to a
  type of server runs a command, the command goes to the address of a server that is listed or
  known, that has one of the script's types, and it is exactly the script with the arguments given,
  with no server key before them.
\<close>
theorem distribute_right_servers:
  assumes "distribute_main sh fs (prog # mode # servers # sShell # args) = Inr tasks"
    and "mode \<noteq> ''local''" and "map_of FILTER_SERVER_TYPE sShell = Some types"
    and "(key, Some (cmd, out)) \<in> set tasks"
  shows "listed sh fs servers key \<and> GetServerType sh key \<in> set types \<and> GetServerIp sh key \<noteq> '''' \<and>
    cmd = remote_cmd (GetServerIp sh key) key sShell args"
proof -
  define ks where "ks = (\<lambda>lServers. if lServers \<noteq> [] then lServers
                     else if IsKnownServerKey sh servers then lServers @ [servers] else lServers)"
  from assms(1,2) obtain ls where ls: "GetServerkeysFromList fs servers = Inr ls"
    and t: "tasks = map (\<lambda>k. (k, ShellExec sh True k sShell args)) (FilterServer sh (ks ls) sShell)"
    by (auto simp: distribute_main_def CDistribute_def ServerExec_def Let_def ks_def)
  from t assms(4) have k: "key \<in> set (FilterServer sh (ks ls) sShell)" "ShellExec sh True key sShell args = Some (cmd, out)"
    by auto
  then have "key \<in> set (ks ls)" and "GetServerType sh key \<in> set types"
    using assms(3) by (auto simp: FilterServer_type)
  moreover have "listed sh fs servers key" if "key \<in> set (ks ls)"
    using that GetServerkeysFromList_Inr [OF ls] by (auto simp: ks_def listed_def split: if_splits)
  ultimately show ?thesis using ShellExec_filtered [OF assms(3) k(2)] by blast
qed

definition sample_sh :: "string \<Rightarrow> string" where
  "sample_sh cmd =
     (if prefix ''./shell/master/info/get_server_type.sh '' cmd then
        (if sublist ''_gs'' cmd then ''gs'' else ''bs'') @ [newline]
      else if prefix ''./shell/master/info/get_ip.sh '' cmd then ''10.0.0.1'' else '''')"

lemma distribute_right_servers_witness:
  "\<exists>tasks. distribute_main sample_sh [(''./shell/master/list/pro.list'', File (''pro_gs1'' @ [newline] @ ''pro_bs1'' @ [newline]))]
       [''distribute.py'', ''remote'', ''pro'', ''./shell/gs_run.sh'', ''now''] = Inr tasks \<and>
     map fst tasks = [''pro_gs1''] \<and> snd (hd tasks) \<noteq> None \<and>
     GetServerType sample_sh (fst (hd tasks)) = ''gs''"
proof -
  let ?fs = "[(''./shell/master/list/pro.list'', File (''pro_gs1'' @ [newline] @ ''pro_bs1'' @ [newline]))]"
  have r: "distribute_main sample_sh ?fs [''distribute.py'', ''remote'', ''pro'', ''./shell/gs_run.sh'', ''now'']
      = Inr [(''pro_gs1'', ShellExec sample_sh True ''pro_gs1'' ''./shell/gs_run.sh'' [''now''])]"
  proof -
    have "readlines (''pro_gs1'' @ [newline] @ ''pro_bs1'' @ [newline]) = [''pro_gs1'' @ [newline], ''pro_bs1'' @ [newline]]"
      by (simp add: newline_char)
    then have "GetServerkeysFromList ?fs ''pro'' = Inr [''pro_gs1'', ''pro_bs1'']"
      by (simp add: GetServerkeysFromList_def path_exists_def read_file_def) (simp add: strip_newlines_def newline_char)
    moreover have "GetServerType sample_sh ''pro_gs1'' = ''gs''" "GetServerType sample_sh ''pro_bs1'' = ''bs''"
      by (simp_all add: GetServerType_def sample_sh_def strip_newlines_def newline_char sublist_code)
    ultimately show ?thesis
      by (simp add: distribute_main_def CDistribute_def ServerExec_def FilterServer_def FILTER_SERVER_TYPE_def)
  qed
  have e: "\<exists>out. ShellExec sample_sh True ''pro_gs1'' ''./shell/gs_run.sh'' [''now''] =
      Some (remote_cmd ''10.0.0.1'' ''pro_gs1'' ''./shell/gs_run.sh'' [''now''], out)"
  proof -
    have "GetServerIp sample_sh ''pro_gs1'' = ''10.0.0.1''" by (simp add: GetServerIp_def sample_sh_def)
    then show ?thesis by (simp add: ShellExec_def Let_def TransServerKey_def NON_SERVER_KEY_def)
  qed
  then obtain out where e: "ShellExec sample_sh True ''pro_gs1'' ''./shell/gs_run.sh'' [''now''] =
      Some (remote_cmd ''10.0.0.1'' ''pro_gs1'' ''./shell/gs_run.sh'' [''now''], out)" by blast
  have "GetServerType sample_sh ''pro_gs1'' \<in> set [''gs'']"
    using distribute_right_servers [OF r, of "[''gs'']" "''pro_gs1''" _ out] by (simp add: FILTER_SERVER_TYPE_def e)
  with r e show ?thesis by simp
qed


section \<open>The roles after the change\<close>

text \<open>A server key as it is made: the tag of the server alone, or after the name of its cluster and an underscore.\<close>

definition whole_key :: "string option \<times> string \<Rightarrow> string" where
  "whole_key = (\<lambda>(cluster, tag). case cluster of None \<Rightarrow> tag | Some c \<Rightarrow> c @ CHR ''_'' # tag)"

definition key_parts_ok :: "string option \<times> string \<Rightarrow> bool" where
  "key_parts_ok = (\<lambda>(cluster, tag). CHR ''_'' \<notin> set tag \<and> (\<forall>c. cluster = Some c \<longrightarrow> CHR ''_'' \<notin> set c))"

lemma key2tag_whole_key: "key_parts_ok kt \<Longrightarrow> key2tag_text (whole_key kt) = snd kt"
proof -
  have "takeWhile (\<lambda>x. x \<noteq> CHR ''_'') (c @ CHR ''_'' # t) = c" "dropWhile (\<lambda>x. x \<noteq> CHR ''_'') (c @ CHR ''_'' # t) = CHR ''_'' # t"
    if "CHR ''_'' \<notin> set c" for c t
    using that by (induction c) auto
  then show "key_parts_ok kt \<Longrightarrow> key2tag_text (whole_key kt) = snd kt"
    by (cases kt) (auto simp: key_parts_ok_def whole_key_def key2tag_text_def split1_def split: option.splits)
qed

lemma whole_key_tag: "key_parts_ok kt \<Longrightarrow> key_parts_ok lu \<Longrightarrow> whole_key kt = whole_key lu \<Longrightarrow> snd kt = snd lu"
  using key2tag_whole_key by metis

lemma whole_key_is_tag: "key_parts_ok kt \<Longrightarrow> whole_key kt = t \<Longrightarrow> CHR ''_'' \<notin> set t \<Longrightarrow> snd kt = t"
  by (cases kt) (auto simp: whole_key_def split: option.splits)

text \<open>The groups of the aggregation and the commands for them.\<close>

definition key_group :: "string option \<times> string \<Rightarrow> pyval" where
  "key_group kt = PDict [(KUni ''_id'', PUni (whole_key kt))]"

definition tag_update :: "string option \<times> string \<Rightarrow> mongo_cmd" where
  "tag_update kt = UpdateMany ''game'' ''roleinfo'' (PDict [(KStr ''server'', PUni (whole_key kt))])
     (PDict [(KStr ''$set'', PDict [(KStr ''server'', PUni (snd kt)), (KStr ''now_server'', PUni (snd kt))])])"

lemma run_pair: "commands (cs, r) = cs" "outcome (cs, r) = r"
  by (simp_all add: commands_def outcome_def)

lemma chg_roleinfo_commands:
  assumes "\<forall>kt \<in> set keys. key_parts_ok kt"
  shows "chg_roleinfo (map key_group keys) = (map tag_update keys, Inr ())"
proof -
  have "rmap (\<lambda>r. getitem r (KStr ''_id'')) (map key_group keys) = Inr (map (\<lambda>kt. PUni (whole_key kt)) keys)"
    by (induction keys) (auto simp: is_ascii_def key_group_def)
  moreover have "commands (tfor (\<lambda>k. tbind (of_res (key2tag k)) (\<lambda>t. emit (role_change k t))) (map (\<lambda>kt. PUni (whole_key kt)) keys)) =
      map tag_update keys \<and>
    outcome (tfor (\<lambda>k. tbind (of_res (key2tag k)) (\<lambda>t. emit (role_change k t))) (map (\<lambda>kt. PUni (whole_key kt)) keys)) = Inr ()"
    using assms
    by (induction keys) (simp_all add: key2tag_def key2tag_whole_key tag_update_def role_change_def set_fields_def)
  ultimately show ?thesis
    by (intro run_eqI) (simp_all add: chg_roleinfo_def run_pair del: rbind_eq_Inr)
qed

text \<open>
  What an update does to one document of its collection is the database's: a function \<open>apply_cmd\<close>. Its documented
  behaviour for \<open>update_many\<close> with the equality of one text field as the filter and \<open>$set\<close> of top-level fields: a document
  with another text in that field is not changed, in one with that text the fields that are set have the values given,
  and every other field is as before.
\<close>

definition plain_field :: "string \<Rightarrow> bool" where
  "plain_field f \<longleftrightarrow> f \<noteq> [] \<and> CHR ''.'' \<notin> set f \<and> CHR ''$'' \<notin> set f"

definition sets_fields :: "(mongo_cmd \<Rightarrow> (pykey \<times> pyval) list \<Rightarrow> (pykey \<times> pyval) list) \<Rightarrow> bool" where
  "sets_fields apply_cmd \<longleftrightarrow>
     (\<forall>db coll f s fs d w k. plain_field f \<and> list_all (\<lambda>(g, x). plain_field g) fs \<and> dget d (KStr f) = Some (PUni w) \<longrightarrow>
        dget (apply_cmd (UpdateMany db coll (PDict [(KStr f, PUni s)])
               (PDict [(KStr ''$set'', PDict (map (\<lambda>(g, x). (KStr g, x)) fs))])) d) k =
          (case (if w = s then dget (map (\<lambda>(g, x). (KStr g, x)) fs) k else None) of
             Some x \<Rightarrow> Some x | None \<Rightarrow> dget d k))"

lemma tag_update_sets:
  assumes "sets_fields apply_cmd" and "dget d (KStr ''server'') = Some (PUni w)"
  shows "dget (apply_cmd (tag_update kt) d) k =
    (if w = whole_key kt \<and> knorm k \<in> knorm ` {KStr ''server'', KStr ''now_server''} then Some (PUni (snd kt)) else dget d k)"
  using assms(1) [unfolded sets_fields_def, rule_format,
      of "''server''" "[(''server'', PUni (snd kt)), (''now_server'', PUni (snd kt))]" d w "''game''" "''roleinfo''" "whole_key kt" k]
    assms(2)
  by (auto simp: tag_update_def plain_field_def)

text \<open>A role with the key \<open>kt\<close>, before its key is reached (\<open>b\<close> is false) and after.\<close>

definition role_state :: "(pykey \<times> pyval) list \<Rightarrow> string option \<times> string \<Rightarrow> bool \<Rightarrow> (pykey \<times> pyval) list \<Rightarrow> bool" where
  "role_state d kt b d' \<longleftrightarrow>
     (\<forall>k. dget d' k = (if b \<and> knorm k \<in> knorm ` {KStr ''server'', KStr ''now_server''} then Some (PUni (snd kt)) else dget d k))"

lemma role_state_fold:
  assumes upd: "sets_fields apply_cmd" and role: "dget d (KStr ''server'') = Some (PUni (whole_key kt))" "key_parts_ok kt"
    and "\<forall>lu \<in> set keys. key_parts_ok lu" and "role_state d kt b d'"
  shows "role_state d kt (b \<or> whole_key kt \<in> whole_key ` set keys) (fold apply_cmd (map tag_update keys) d')"
  using assms(4,5)
proof (induction keys arbitrary: b d')
  case (Cons lu keys)
  define w where "w = (if b then snd kt else whole_key kt)"
  have w: "dget d' (KStr ''server'') = Some (PUni w)" using Cons.prems(2) role(1) by (simp add: role_state_def w_def)
  have "snd lu = snd kt" if "w = whole_key lu"
  proof (cases b)
    case True
    with that whole_key_is_tag [of lu "snd kt"] Cons.prems(1) role(2) show ?thesis
      by (auto simp: w_def key_parts_ok_def split: prod.splits)
  next
    case False
    with that whole_key_tag [of lu kt] Cons.prems(1) role(2) show ?thesis by (simp add: w_def)
  qed
  then have "role_state d kt (b \<or> whole_key kt = whole_key lu) (apply_cmd (tag_update lu) d')"
    using Cons.prems(2) unfolding role_state_def tag_update_sets [OF upd w] by (auto simp: w_def)
  from Cons.IH [OF _ this] Cons.prems(1) show ?case by (simp add: disj_assoc)
qed simp

text \<open>
  C36: for server keys made of a tag, alone or after the name of a cluster, the change of a central database ends after
  exactly one \<open>update_many\<close> per key on \<open>game.roleinfo\<close>, in the order the aggregation gives the keys, which sets \<open>server\<close> and
  \<open>now_server\<close> of the documents with that key to the tag. Executed one after the other by a database that updates as it
  is documented, they leave every role of a listed key with the tag as \<open>server\<close> and \<open>now_server\<close> and with all other fields as
  they were, even where a tag is a key itself and is listed before or after.
\<close>
theorem chg_roleinfo_tags:
  assumes "\<forall>kt \<in> set keys. key_parts_ok kt" and "sets_fields apply_cmd"
  shows "chg_server ''cs'' world (map key_group keys) = (map tag_update keys, Inr ())
    \<and> (\<forall>d. \<forall>(cluster, tag) \<in> set keys. dget d (KStr ''server'') = Some (PUni (whole_key (cluster, tag))) \<longrightarrow>
        (\<forall>k. dget (fold apply_cmd (map tag_update keys) d) k =
          (if knorm k \<in> knorm ` {KStr ''server'', KStr ''now_server''} then Some (PUni tag) else dget d k)))"
proof -
  have "chg_server ''cs'' world (map key_group keys) = (map tag_update keys, Inr ())"
    using chg_roleinfo_commands [OF assms(1)]
    by (intro run_eqI) (simp_all add: chg_server_def init_server_def run_pair)
  moreover have "dget (fold apply_cmd (map tag_update keys) d) k =
      (if knorm k \<in> knorm ` {KStr ''server'', KStr ''now_server''} then Some (PUni (snd kt)) else dget d k)"
    if "kt \<in> set keys" "dget d (KStr ''server'') = Some (PUni (whole_key kt))" for d kt k
    using role_state_fold [OF assms(2) that(2) _ assms(1), of False d] assms(1) that(1)
    by (auto simp: role_state_def)
  ultimately show ?thesis by fastforce
qed

text \<open>A database that updates as documented, on a role whose key is listed after the tag it gets.\<close>

fun example_db :: "mongo_cmd \<Rightarrow> (pykey \<times> pyval) list \<Rightarrow> (pykey \<times> pyval) list" where
  "example_db (UpdateMany db coll (PDict [(f, x)]) (PDict [(op, PDict fs)])) d =
     (if op = KStr ''$set'' \<and> dget d f = Some x then fs @ d else d)"
| "example_db c d = d"

lemma example_db_sets: "sets_fields example_db"
  by (auto simp: sets_fields_def dget_append split: option.splits)

lemma chg_roleinfo_tags_witness:
  "\<exists>cmds. chg_server ''cs'' None [PDict [(KUni ''_id'', PUni ''gs1'')], PDict [(KUni ''_id'', PUni ''pro_gs1'')]] = (cmds, Inr ())
    \<and> cmds = [UpdateMany ''game'' ''roleinfo'' (PDict [(KStr ''server'', PUni ''gs1'')])
         (PDict [(KStr ''$set'', PDict [(KStr ''server'', PUni ''gs1''), (KStr ''now_server'', PUni ''gs1'')])]),
       UpdateMany ''game'' ''roleinfo'' (PDict [(KStr ''server'', PUni ''pro_gs1'')])
         (PDict [(KStr ''$set'', PDict [(KStr ''server'', PUni ''gs1''), (KStr ''now_server'', PUni ''gs1'')])])]
    \<and> dget (fold example_db cmds [(KUni ''pid'', PInt 7), (KUni ''server'', PUni ''pro_gs1'')]) (KStr ''server'') = Some (PUni ''gs1'')
    \<and> dget (fold example_db cmds [(KUni ''pid'', PInt 7), (KUni ''server'', PUni ''pro_gs1'')]) (KUni ''pid'') = Some (PInt 7)"
proof -
  let ?keys = "[(None, ''gs1''), (Some ''pro'', ''gs1'')]"
  let ?d = "[(KUni ''pid'', PInt 7), (KUni ''server'', PUni ''pro_gs1'')]"
  have "\<forall>kt \<in> set ?keys. key_parts_ok kt" by (simp add: key_parts_ok_def)
  note t = chg_roleinfo_tags [OF this example_db_sets, of None]
  have "dget ?d (KStr ''server'') = Some (PUni (whole_key (Some ''pro'', ''gs1'')))" by (simp add: whole_key_def is_ascii_def)
  with t have e: "dget (fold example_db (map tag_update ?keys) ?d) k =
      (if knorm k \<in> knorm ` {KStr ''server'', KStr ''now_server''} then Some (PUni ''gs1'') else dget ?d k)" for k
    by (auto simp del: fold_simps list.map)
  from t show ?thesis
    by (intro exI [of _ "map tag_update ?keys"]) (simp add: e is_ascii_def key_group_def tag_update_def whole_key_def del: fold_simps)
qed

end
