(* ===== verification/OsTree.thy ===== *)
theory OsTree
  imports FileSys
begin

text \<open>
  Directory trees: \<open>os.makedirs\<close> and \<open>os.walk\<close> of the tools' Python distribution (\<open>os.py\<close>), over the
  file system of \<open>FileSys\<close>. There are no symbolic links, and a path is the text it is looked up
  by: it has no empty, \<open>.\<close> or \<open>..\<close> parts in the middle.
\<close>

section \<open>Creating directories\<close>

text \<open>\<open>os.path.exists\<close>: the root is always there.\<close>

definition exists_path :: "fs \<Rightarrow> string \<Rightarrow> bool" where
  "exists_path fs p \<longleftrightarrow> path_exists fs p \<or> p \<noteq> [] \<and> list_all (\<lambda>c. c = slash) p"

text \<open>The two ways \<open>mkdir\<close> fails: the path exists, or its directory does not.\<close>

datatype errno = EEXIST | ENOENT

definition mkdir_errno :: "string \<Rightarrow> fs \<Rightarrow> errno option" where
  "mkdir_errno p fs =
     (if exists_path fs p then Some EEXIST else if \<not> parent_ok fs p then Some ENOENT else None)"

definition sys_mkdir :: "string \<Rightarrow> fs \<Rightarrow> fs \<times> errno option" where
  "sys_mkdir p fs = (case mkdir_errno p fs of None \<Rightarrow> (aput fs p Dir, None) | Some e \<Rightarrow> (fs, Some e))"

definition parts_of :: "string \<Rightarrow> string \<times> string" where
  "parts_of name =
     (let (head, tail) = path_split name in if tail = [] then path_split head else (head, tail))"

lemma clean_head_length: "length (clean_head h) \<le> length h"
  by (simp add: clean_head_def rstrip_char_def length_dropWhile_le [THEN order_trans])

lemma path_split_length:
  "length (fst (path_split p)) + length (snd (path_split p)) \<le> length p"
  using clean_head_length [of "take (nat (rfind slash p + 1)) p"]
  by (simp add: path_split_def Let_def) arith

lemma parts_of_shorter:
  assumes "parts_of name = (head, tail)" and "tail \<noteq> []"
  shows "length head < length name"
proof -
  have s: "length h < length p" if "path_split p = (h, t)" "t \<noteq> []" for p h t
    using path_split_length [of p] that by (cases t) auto
  obtain h t where ht: "path_split name = (h, t)" by fastforce
  show ?thesis
  proof (cases "t = []")
    case True
    with assms ht have "path_split h = (head, tail)" by (simp add: parts_of_def)
    with s [OF this assms(2)] path_split_length [of name] ht show ?thesis by simp
  next
    case False
    with assms ht s [OF ht] show ?thesis by (simp add: parts_of_def)
  qed
qed

text \<open>
  \<open>os.makedirs\<close>: the file system afterwards (directories made before an error stay) and the error,
  if any. That a part in between exists already is not an error.
\<close>

function makedirs :: "string \<Rightarrow> fs \<Rightarrow> fs \<times> errno option" where
  "makedirs name fs =
     (let (head, tail) = parts_of name in
      if head \<noteq> [] \<and> tail \<noteq> [] \<and> \<not> exists_path fs head then
        (let (fs, err) = makedirs head fs in
         if err \<noteq> None \<and> err \<noteq> Some EEXIST then (fs, err)
         else if tail = ''.'' then (fs, None)
         else sys_mkdir name fs)
      else sys_mkdir name fs)"
  by pat_completeness auto
termination
  by (relation "measure (\<lambda>(name, fs). length name)") (auto dest: parts_of_shorter [OF sym])

declare makedirs.simps [simp del]

section \<open>Walking through a tree\<close>

definition split_names :: "fs \<Rightarrow> string \<Rightarrow> string list \<times> string list" where
  "split_names fs dirpath =
     (let names = os_listdir fs dirpath in
      (filter (\<lambda>name. isdir fs (join2 dirpath name)) names, filter (\<lambda>name. \<not> isdir fs (join2 dirpath name)) names))"

definition longest :: "fs \<Rightarrow> nat" where
  "longest fs = fold max (map (\<lambda>(p, n). length p) fs) 0"

lemma fold_max_le: "x \<in> set xs \<or> x \<le> a \<Longrightarrow> x \<le> fold max xs (a :: nat)"
  by (induction xs arbitrary: a) (auto simp: max_def intro: order_trans)

lemma isdir_longest: "isdir fs p \<Longrightarrow> length p \<le> longest fs"
  unfolding longest_def by (rule fold_max_le) (force simp: isdir_def dest: aget_SomeD)

lemma listdir_name: "name \<in> set (os_listdir fs dirpath) \<Longrightarrow> name \<noteq> [] \<and> slash \<notin> set name"
  by (auto simp: os_listdir_def map_filter_def child_of_def Let_def split: if_splits)

lemma join2_name: "name \<noteq> [] \<Longrightarrow> slash \<notin> set name \<Longrightarrow> length dirpath < length (join2 dirpath name)"
  by (cases name) (auto simp: join_step_def)

function walk :: "fs \<Rightarrow> string \<Rightarrow> (string \<times> string list \<times> string list) list" where
  "walk fs dirpath =
     (if \<not> isdir fs dirpath then []
      else
        (let (dirs, nondirs) = split_names fs dirpath in
         (dirpath, dirs, nondirs) # concat (map (\<lambda>name. walk fs (join2 dirpath name)) dirs)))"
  by pat_completeness auto
termination
proof (relation "measure (\<lambda>(fs, dirpath). Suc (longest fs) - length dirpath)", goal_cases)
  case (2 fs dirpath x dirs nondirs name)
  then have n: "name \<in> set (os_listdir fs dirpath)" "isdir fs (join2 dirpath name)"
    by (auto simp: split_names_def Let_def)
  then show ?case using listdir_name [OF n(1)] join2_name [of name dirpath] isdir_longest [OF n(2)] by auto
qed simp

declare walk.simps [simp del]
section \<open>Well-formed trees\<close>

text \<open>Every path has a name of its own and lies in a directory of the tree, or at its root.\<close>

definition tree_ok :: "fs \<Rightarrow> bool" where
  "tree_ok fs \<longleftrightarrow> distinct (map fst fs) \<and>
     (\<forall>p \<in> fst ` set fs. p \<noteq> [] \<and> last p \<noteq> slash \<and> (slash \<in> set p \<longrightarrow> parent_dir p = [] \<or> isdir fs (parent_dir p)))"

definition below :: "fs \<Rightarrow> string \<Rightarrow> string set" where
  "below fs d = {p. (\<exists>c. aget fs p = Some (File c)) \<and> prefix (d @ [slash]) p}"

definition walk_paths :: "fs \<Rightarrow> string \<Rightarrow> string list" where
  "walk_paths fs d = concat (map (\<lambda>(dirpath, dirs, nondirs). map (join2 dirpath) nondirs) (walk fs d))"

lemma listdir_iff: "name \<in> set (os_listdir fs d) \<longleftrightarrow>
    name \<noteq> [] \<and> slash \<notin> set name \<and> d @ slash # name \<in> fst ` set fs"
  by (force simp: os_listdir_def map_filter_def child_of_def Let_def prefix_def split: if_splits)

lemma join2_below: "d \<noteq> [] \<Longrightarrow> last d \<noteq> slash \<Longrightarrow> slash \<notin> set name \<Longrightarrow> join2 d name = d @ slash # name"
  by (cases name) (auto simp: join_step_def suffix_def)

lemma isdir_key: "isdir fs d \<Longrightarrow> d \<in> fst ` set fs"
  by (force simp: isdir_def dest: aget_SomeD)

lemma isdir_ok: "tree_ok fs \<Longrightarrow> isdir fs d \<Longrightarrow> d \<noteq> [] \<and> last d \<noteq> slash"
  using isdir_key by (fastforce simp: tree_ok_def)

text \<open>The path of the entry through which a deeper path goes.\<close>

lemma first_step:
  assumes "prefix (d @ [slash]) p"
  obtains name rest where "slash \<notin> set name" and "p = d @ slash # name @ rest"
    and "rest = [] \<or> hd rest = slash"
proof -
  from assms obtain t where t: "p = d @ slash # t" by (auto simp: prefix_def)
  show ?thesis
  proof (rule that)
    show "slash \<notin> set (takeWhile (\<lambda>c. c \<noteq> slash) t)" by (auto dest: set_takeWhileD)
    show "p = d @ slash # takeWhile (\<lambda>c. c \<noteq> slash) t @ dropWhile (\<lambda>c. c \<noteq> slash) t" using t by simp
    show "dropWhile (\<lambda>c. c \<noteq> slash) t = [] \<or> hd (dropWhile (\<lambda>c. c \<noteq> slash) t) = slash"
      using hd_dropWhile [of "\<lambda>c. c \<noteq> slash" t] by blast
  qed
qed

lemma parent_dir_split: "slash \<in> set p \<Longrightarrow> p = parent_dir p @ slash # drop (Suc (length (parent_dir p))) p"
proof -
  assume "slash \<in> set p"
  then obtain a b where "p = a @ slash # b" "slash \<notin> set b" by (metis split_list_last)
  then show ?thesis by simp
qed

text \<open>All the directories on the way to a path are in the tree.\<close>

lemma inner_dir:
  assumes "tree_ok fs" and "d @ slash # rest \<in> fst ` set fs" and "d \<noteq> []"
  shows "isdir fs d"
  using assms(2)
proof (induction "length rest" arbitrary: rest rule: less_induct)
  case less
  let ?p = "d @ slash # rest"
  have "slash \<in> set ?p" by simp
  then have p: "parent_dir ?p = [] \<or> isdir fs (parent_dir ?p)"
    using assms(1) less.prems unfolding tree_ok_def by blast
  show ?case
  proof (cases "slash \<in> set rest")
    case False
    with p assms(3) show ?thesis by simp
  next
    case True
    then obtain a b where r: "rest = a @ slash # b" "slash \<notin> set b" by (metis split_list_last)
    then have "parent_dir ?p = d @ slash # a"
      using parent_dir_app [of b "d @ slash # a"] by simp
    with p have "isdir fs (d @ slash # a)" by simp
    with r show ?thesis by (intro less.hyps [of a]) (auto dest: isdir_key)
  qed
qed

section \<open>What a walk finds\<close>

definition subdirs :: "fs \<Rightarrow> string \<Rightarrow> string list" where
  "subdirs fs d = filter (\<lambda>name. isdir fs (d @ slash # name)) (os_listdir fs d)"

definition subfiles :: "fs \<Rightarrow> string \<Rightarrow> string list" where
  "subfiles fs d = filter (\<lambda>name. \<not> isdir fs (d @ slash # name)) (os_listdir fs d)"

lemma walk_paths_eq:
  assumes "tree_ok fs" and "isdir fs d"
  shows "walk_paths fs d = map (\<lambda>name. d @ slash # name) (subfiles fs d) @
    concat (map (\<lambda>name. walk_paths fs (d @ slash # name)) (subdirs fs d))"
proof -
  have j: "join2 d name = d @ slash # name" if "name \<in> set (os_listdir fs d)" for name
    using join2_below isdir_ok [OF assms] listdir_name [OF that] by blast
  have s: "split_names fs d = (subdirs fs d, subfiles fs d)"
    unfolding split_names_def Let_def subdirs_def subfiles_def
    using j by (auto intro!: filter_cong)
  have f: "map (join2 d) (subfiles fs d) = map (\<lambda>name. d @ slash # name) (subfiles fs d)"
    using j by (simp add: subfiles_def)
  have g: "map (\<lambda>name. F (join2 d name)) (subdirs fs d) = map (\<lambda>name. F (d @ slash # name)) (subdirs fs d)" for F
    using j by (simp add: subdirs_def)
  have c: "concat (map h (concat (map w xs))) = concat (map (\<lambda>x. concat (map h (w x))) xs)" for h w xs
    by (induction xs) auto
  show ?thesis
    unfolding walk_paths_def walk.simps [of fs d] by (simp add: assms(2) s f g c)
qed

lemma subdirs_iff: "name \<in> set (subdirs fs d) \<longleftrightarrow> name \<noteq> [] \<and> slash \<notin> set name \<and> isdir fs (d @ slash # name)"
  using isdir_key by (auto simp: subdirs_def listdir_iff)

lemma subfiles_iff:
  "name \<in> set (subfiles fs d) \<longleftrightarrow> name \<noteq> [] \<and> slash \<notin> set name \<and> (\<exists>c. aget fs (d @ slash # name) = Some (File c))"
proof -
  have "p \<in> fst ` set fs \<and> \<not> isdir fs p \<longleftrightarrow> (\<exists>c. aget fs p = Some (File c))" for p
    using aget_None_iff [of fs p] by (cases "aget fs p"; cases "the (aget fs p)") (auto simp: isdir_def)
  then show ?thesis unfolding subfiles_def set_filter listdir_iff by blast
qed

lemma walk_paths_set:
  assumes "tree_ok fs"
  shows "isdir fs d \<Longrightarrow> set (walk_paths fs d) = below fs d"
proof (induction "Suc (longest fs) - length d" arbitrary: d rule: less_induct)
  case less
  have IH: "set (walk_paths fs (d @ slash # name)) = below fs (d @ slash # name)"
    if "name \<in> set (subdirs fs d)" for name
    using that isdir_longest [of fs "d @ slash # name"] by (intro less.hyps) (auto simp: subdirs_iff)
  have "p \<in> below fs d" if "p \<in> set (walk_paths fs d)" for p
    using that IH by (auto simp: walk_paths_eq [OF assms less.prems] subfiles_iff below_def prefix_def)
  moreover have "p \<in> set (walk_paths fs d)" if p: "p \<in> below fs d" for p
  proof -
    from p obtain name rest where n: "slash \<notin> set name" "p = d @ slash # name @ rest"
      "rest = [] \<or> hd rest = slash" by (auto simp: below_def elim: first_step)
    have key: "p \<in> fst ` set fs" using p by (force simp: below_def dest: aget_SomeD)
    then have l: "last p \<noteq> slash" using assms by (auto simp: tree_ok_def)
    show ?thesis
    proof (cases rest)
      case Nil
      with n l have "name \<noteq> []" by auto
      with p n Nil have "name \<in> set (subfiles fs d)" by (auto simp: subfiles_iff below_def)
      with n Nil show ?thesis by (auto simp: walk_paths_eq [OF assms less.prems])
    next
      case (Cons c r)
      with n have c: "c = slash" by simp
      then have k: "(d @ slash # name) @ slash # r \<in> fst ` set fs" using key n Cons by simp
      have dir: "isdir fs (d @ slash # name)" by (rule inner_dir [OF assms k]) simp
      then have "name \<in> set (subdirs fs d)" using isdir_ok [OF assms dir] n by (auto simp: subdirs_iff)
      moreover have "p \<in> below fs (d @ slash # name)" using p n Cons c by (auto simp: below_def)
      ultimately show ?thesis using IH by (auto simp: walk_paths_eq [OF assms less.prems])
    qed
  qed
  ultimately show ?case by blast
qed

lemma child_of_app: "child_of d p = Some i \<Longrightarrow> p = d @ slash # i"
  by (auto simp: child_of_def Let_def prefix_def split: if_splits)

lemma listdir_distinct: "distinct (map fst fs) \<Longrightarrow> distinct (os_listdir fs d)"
proof (induction fs)
  case (Cons e fs)
  obtain p n where e: "e = (p, n)" by fastforce
  show ?case
  proof (cases "child_of d p")
    case None
    with Cons e show ?thesis by (simp add: os_listdir_def map_filter_simps)
  next
    case (Some i)
    then have p: "p = d @ slash # i" by (rule child_of_app)
    have "i \<notin> set (os_listdir fs d)" using Cons.prems e p by (auto simp: listdir_iff)
    with Cons Some e show ?thesis by (simp add: os_listdir_def map_filter_simps)
  qed
qed (simp add: os_listdir_def map_filter_simps)

lemma walk_paths_distinct:
  assumes "tree_ok fs"
  shows "isdir fs d \<Longrightarrow> distinct (walk_paths fs d)"
proof (induction "Suc (longest fs) - length d" arbitrary: d rule: less_induct)
  case less
  have IH: "distinct (walk_paths fs (d @ slash # name))" if "name \<in> set (subdirs fs d)" for name
    using that isdir_longest [of fs "d @ slash # name"] by (intro less.hyps) (auto simp: subdirs_iff)
  have sub: "set (walk_paths fs (d @ slash # name)) = below fs (d @ slash # name)" if "name \<in> set (subdirs fs d)" for name
    using that by (intro walk_paths_set [OF assms]) (simp add: subdirs_iff)
  have disj: "below fs (d @ slash # m) \<inter> below fs (d @ slash # n) = {}"
    if "slash \<notin> set m" "slash \<notin> set n" "m \<noteq> n" for m n
  proof -
    have "m = n" if "m @ slash # a = n @ slash # b" for a b
      using that \<open>slash \<notin> set m\<close> \<open>slash \<notin> set n\<close> by (metis split_on_append list.inject)
    with \<open>m \<noteq> n\<close> have "m @ slash # a \<noteq> n @ slash # b" for a b by blast
    then show ?thesis by (auto simp: below_def prefix_def)
  qed
  have n: "distinct (os_listdir fs d)" using assms by (intro listdir_distinct) (simp add: tree_ok_def)
  have "distinct (concat (map (\<lambda>name. walk_paths fs (d @ slash # name)) ns))"
    if "set ns \<subseteq> set (subdirs fs d)" "distinct ns" for ns
    using that
  proof (induction ns)
    case (Cons m ns)
    then have m: "m \<in> set (subdirs fs d)" "slash \<notin> set m" and ns: "m \<notin> set ns" "set ns \<subseteq> set (subdirs fs d)"
      and d: "distinct (concat (map (\<lambda>name. walk_paths fs (d @ slash # name)) ns))"
      by (auto simp: subdirs_iff)
    have "set (walk_paths fs (d @ slash # m)) \<inter> set (walk_paths fs (d @ slash # n)) = {}" if "n \<in> set ns" for n
    proof -
      from that ns have n: "n \<in> set (subdirs fs d)" "m \<noteq> n" by auto
      then have "slash \<notin> set n" by (simp add: subdirs_iff)
      from disj [OF m(2) this n(2)] show ?thesis by (simp add: sub m n)
    qed
    then have "set (walk_paths fs (d @ slash # m)) \<inter> set (concat (map (\<lambda>name. walk_paths fs (d @ slash # name)) ns)) = {}"
      by (simp only: set_concat set_map) blast
    with d IH [OF m(1)] show ?case by (simp only: list.map concat.simps distinct_append)
  qed simp
  then have "distinct (concat (map (\<lambda>name. walk_paths fs (d @ slash # name)) (subdirs fs d)))"
    using n by (simp add: subdirs_def)
  moreover have "distinct (map (\<lambda>name. d @ slash # name) (subfiles fs d))"
    using n by (simp add: subfiles_def distinct_map inj_on_def)
  moreover have "x \<notin> set (walk_paths fs (d @ slash # name))"
    if "x \<in> (\<lambda>name. d @ slash # name) ` set (subfiles fs d)" "name \<in> set (subdirs fs d)" for x name
    using that by (auto simp: sub below_def prefix_def subfiles_iff)
  ultimately show ?case by (auto simp: walk_paths_eq [OF assms less.prems])
qed

end
