(* ===== verification/Packaging.thy ===== *)
theory Packaging
  imports OsTree Trace
begin

text \<open>
  The scripts that build what is shipped: \<open>daobiao/md5zip.py\<close> (all Lua files below a directory in one
  package with a checksum in front), \<open>daobiao/clientzip.py\<close> (single files, each with a version in
  front) and \<open>shell/pack.py\<close> (the server's directories). The checksum \<open>md5\<close> and the ZIP writer
  are parameters: both are libraries outside the repository's own code, the latter from the entries
  (name and content) to the archive.
\<close>

section \<open>Arguments\<close>

definition isfile :: "fs \<Rightarrow> string \<Rightarrow> bool" where
  "isfile fs p = (case aget fs p of Some (File c) \<Rightarrow> True | _ \<Rightarrow> False)"

text \<open>\<open>s.replace(os.sep, "/").rstrip("/")\<close>: the separator is the slash.\<close>

definition clean_path :: "string \<Rightarrow> string" where
  "clean_path s = rstrip_char slash (str_replace [slash] [slash] s)"

section \<open>The package with a checksum\<close>

definition lua_names :: "fs \<Rightarrow> string \<Rightarrow> string list" where
  "lua_names fs src_path =
     filter (suffix ''.lua'')
       (concat (map (\<lambda>(dirpath, dirs, filenames).
          map (\<lambda>filename. join [slash] [str_replace [slash] [slash] dirpath, str_replace [slash] [slash] filename]) filenames)
        (walk fs src_path)))"

definition name_list :: "fs \<Rightarrow> string \<Rightarrow> string list option" where
  "name_list fs src_path =
     (if isfile fs src_path then Some [src_path]
      else if isdir fs src_path then Some (lua_names fs src_path)
      else None)"

text \<open>Writing the archive: it is removed first, written, read back, and written with the checksum.\<close>

definition write_package ::
  "((string \<times> string) list \<Rightarrow> string) \<Rightarrow> string \<Rightarrow> string \<Rightarrow> (string \<times> string) list \<Rightarrow> fs \<Rightarrow> fs res" where
  "write_package zip_bytes zipname checksum entries fs =
     rbind (if path_exists fs zipname then os_remove zipname fs else Inr fs) (\<lambda>fs.
     rbind (write_file zipname (zip_bytes entries) fs) (\<lambda>fs.
     rbind (read_file fs zipname) (\<lambda>zs.
     write_file zipname (checksum @ zs) fs)))"

definition md5zip ::
  "(string \<Rightarrow> string) \<Rightarrow> ((string \<times> string) list \<Rightarrow> string) \<Rightarrow> string list \<Rightarrow> fs \<Rightarrow> fs res" where
  "md5zip md5 zip_bytes argv fs =
     (if length argv < 3 then Inr fs else
      let src_path = clean_path (argv ! 1);
          dst_path = clean_path (argv ! 2);
          result_name = (if 3 < length argv then argv ! 3 else ''client-daobiao'')
      in case name_list fs src_path of
           None \<Rightarrow> Inr fs
         | Some names \<Rightarrow>
             let zipname = dst_path @ ''/'' @ result_name @ ''.package''; namelist = sort names in
             rbind (rmap (read_file fs) namelist) (\<lambda>contentlist.
             let newmd5 = md5 (concat contentlist); entries = zip namelist contentlist in
             if \<not> path_exists fs zipname then
               write_package zip_bytes zipname newmd5 entries (fst (makedirs dst_path fs))
             else
               rbind (read_file fs zipname) (\<lambda>zs.
               let oldmd5 = take 32 zs in
               if newmd5 = oldmd5 then Inr fs
               else write_package zip_bytes zipname newmd5 entries fs)))"

section \<open>Single files with a version\<close>

text \<open>\<open>chr(n)\<close>.\<close>

definition py_chr :: "int \<Rightarrow> char res" where
  "py_chr n = (if 0 \<le> n \<and> n < 256 then Inr (char_of (nat n)) else Inl ValueError)"

fun version_chars :: "nat \<Rightarrow> int \<Rightarrow> int \<Rightarrow> string res" where
  "version_chars 0 iVersion iFactor = Inr []"
| "version_chars (Suc n) iVersion iFactor =
     rbind (py_chr (iVersion div iFactor)) (\<lambda>sChar.
     rbind (version_chars n (iVersion mod iFactor) (iFactor div 256)) (\<lambda>s. Inr (sChar # s)))"

definition version_text :: "int \<Rightarrow> string res" where
  "version_text iTime = version_chars 4 iTime (256 * 256 * 256)"

text \<open>
  One file; \<open>now\<close> is the clock, read when the archive of the file is complete. The archive is
  already written when the version turns out not to fit.
\<close>

definition clientzip_file ::
  "((string \<times> string) list \<Rightarrow> string) \<Rightarrow> (string \<Rightarrow> int) \<Rightarrow> string \<Rightarrow> (string \<times> string) list \<Rightarrow> string \<Rightarrow> fs \<Rightarrow> fs res" where
  "clientzip_file zip_bytes now dst_path path2name n fs =
     rbind (read_file fs n) (\<lambda>ts.
     rbind (of_option KeyError (aget path2name n)) (\<lambda>file_name.
     let zipname = dst_path @ ''/'' @ file_name;
         fs = (if path_exists fs zipname then fs else fst (makedirs dst_path fs)) in
     rbind (if path_exists fs zipname then os_remove zipname fs else Inr fs) (\<lambda>fs.
     rbind (write_file zipname (zip_bytes [(file_name, ts)]) fs) (\<lambda>fs.
     rbind (read_file fs zipname) (\<lambda>zs.
     rbind (version_text (now n)) (\<lambda>sVersion.
     write_file zipname (sVersion @ zs) fs))))))"

definition lua_path :: "string \<Rightarrow> string \<Rightarrow> string" where
  "lua_path src_path file_name = src_path @ ''/'' @ file_name @ ''.lua''"

definition clientzip ::
  "((string \<times> string) list \<Rightarrow> string) \<Rightarrow> (string \<Rightarrow> int) \<Rightarrow> string list \<Rightarrow> fs \<Rightarrow> fs res" where
  "clientzip zip_bytes now argv fs =
     (if length argv < 4 then Inr fs else
      let src_path = clean_path (argv ! 1);
          file_list = split_on (CHR '','') (clean_path (argv ! 2));
          dst_path = clean_path (argv ! 3);
          found = filter (\<lambda>file_name. path_exists fs (lua_path src_path file_name)) file_list;
          path2name = fold (\<lambda>file_name m. aput m (lua_path src_path file_name) file_name) found [];
          namelist = sort (map (lua_path src_path) found)
      in rfold (clientzip_file zip_bytes now dst_path path2name) namelist fs)"

section \<open>Packing the server\<close>

definition cp_dirs :: "string list" where
  "cp_dirs = [''build'', ''config'', ''shell'', ''cs_common'', ''lualib'', ''service'',
     ''skynet/lualib'', ''skynet/service'', ''daobiao/gamedata'', ''tools/robot'']"

definition make_dirs :: "string \<Rightarrow> fs \<Rightarrow> fs" where
  "make_dirs dst_path fs = fold (\<lambda>i fs. fst (makedirs (path_join dst_path [i]) fs)) cp_dirs fs"

definition copy_cmd :: "string \<Rightarrow> string \<Rightarrow> string \<Rightarrow> string" where
  "copy_cmd src_path dst_path i =
     ''cp -rf '' @ path_join src_path [i] @ ''/** '' @ path_join dst_path [i]"

text \<open>\<open>system\<close> is the status of a command; the first that is not 0 stops the script.\<close>

definition pack_copy :: "(string \<Rightarrow> int) \<Rightarrow> string \<Rightarrow> string \<Rightarrow> (string, unit) run" where
  "pack_copy system src_path dst_path =
     tfor (\<lambda>i. let cmd = copy_cmd src_path dst_path i in
       tbind (emit cmd) (\<lambda>_. of_res (if system cmd = 0 then Inr () else Inl AssertionError))) cp_dirs"

definition pack :: "(string \<Rightarrow> int) \<Rightarrow> string list \<Rightarrow> fs \<Rightarrow> fs \<times> (string, unit) run" where
  "pack system argv fs =
     (if length argv \<noteq> 3 then (fs, done_run)
      else (make_dirs (argv ! 2) fs, pack_copy system (argv ! 1) (argv ! 2)))"
section \<open>The version\<close>

definition big_endian :: "string \<Rightarrow> int" where
  "big_endian s = foldl (\<lambda>a c. a * 256 + int (of_char c)) 0 s"

lemma of_char_chr: "py_chr n = Inr c \<Longrightarrow> int (of_char c) = n"
  by (auto simp: py_chr_def split: if_splits)

lemma py_chr_ok: "0 \<le> n \<Longrightarrow> n < 256 \<Longrightarrow> py_chr n = Inr (char_of (nat n))"
  by (simp add: py_chr_def)

lemma version_text_bytes:
  assumes "0 \<le> t" and "t < 4294967296"
  shows "\<exists>s. version_text t = Inr s \<and> length s = 4 \<and> big_endian s = t"
proof -
  define a where "a = t div 16777216"
  define r where "r = t mod 16777216"
  define b where "b = r div 65536"
  define r' where "r' = r mod 65536"
  define c where "c = r' div 256"
  define d where "d = r' mod 256"
  have a: "0 \<le> a" "a < 256" and r: "0 \<le> r" "r < 16777216" and t: "t = 16777216 * a + r"
    using assms by (simp_all add: a_def r_def)
  have b: "0 \<le> b" "b < 256" and r': "0 \<le> r'" "r' < 65536" and t2: "r = 65536 * b + r'"
    using r by (simp_all add: b_def r'_def)
  have c: "0 \<le> c" "c < 256" and d: "0 \<le> d" "d < 256" and t3: "r' = 256 * c + d"
    using r' by (simp_all add: c_def d_def)
  have "version_text t = Inr [char_of (nat a), char_of (nat b), char_of (nat c), char_of (nat d)]"
    using a b c d
    by (simp add: version_text_def eval_nat_numeral flip: a_def r_def b_def r'_def c_def d_def
        add: py_chr_ok del: rbind_eq_Inr)
  moreover have "big_endian [char_of (nat a), char_of (nat b), char_of (nat c), char_of (nat d)] = t"
    using a b c d by (simp add: big_endian_def t t2 t3)
  ultimately show ?thesis by simp
qed

text \<open>A clock that does not fit in four bytes stops the script.\<close>

lemma version_text_late: "4294967296 \<le> t \<Longrightarrow> version_text t = Inl ValueError"
proof -
  assume t: "4294967296 \<le> t"
  then have "256 \<le> t div 16777216" using zdiv_mono1 [of 4294967296 t 16777216] by simp
  then show ?thesis by (simp add: version_text_def eval_nat_numeral py_chr_def)
qed


section \<open>The names in the package\<close>

lemma str_replace_slash [simp]: "str_replace [slash] [slash] s = s"
  by (induction s) auto

lemma clean_path_id: "s \<noteq> [] \<Longrightarrow> last s \<noteq> slash \<Longrightarrow> clean_path s = s"
  by (cases s rule: rev_cases) (auto simp: clean_path_def rstrip_char_def)

lemma lua_names_walk:
  assumes "tree_ok fs" and "isdir fs src"
  shows "lua_names fs src = filter (suffix ''.lua'') (walk_paths fs src)"
proof -
  have "isdir fs d \<and> set ns \<subseteq> set (os_listdir fs d)" if "(d, ds, ns) \<in> set (walk fs r)" for d ds ns r
    using that
  proof (induction fs r rule: walk.induct)
    case (1 fs r)
    then show ?case
      by (subst (asm) (2) walk.simps) (fastforce simp: split_names_def Let_def split: if_splits)
  qed
  then have "map (\<lambda>f. join [slash] [d, f]) ns = map (join2 d) ns" if "(d, ds, ns) \<in> set (walk fs src)" for d ds ns
    using that join2_below isdir_ok [OF assms(1)] listdir_iff by (simp add: subset_iff)
  then have eq: "map (\<lambda>(d, ds, ns). map (\<lambda>f. d @ slash # f) ns) (walk fs src)
      = map (\<lambda>(d, ds, ns). map (join2 d) ns) (walk fs src)"
    by (intro map_cong [OF refl]) auto
  show ?thesis by (simp add: lua_names_def walk_paths_def eq)
qed

definition lua_below :: "fs \<Rightarrow> string \<Rightarrow> string set" where
  "lua_below fs src = {p \<in> below fs src. suffix ''.lua'' p}"

lemma lua_names_sorted:
  assumes "tree_ok fs" and "isdir fs src"
  shows "sort (lua_names fs src) = sorted_list_of_set (lua_below fs src)" and "finite (lua_below fs src)"
proof -
  have s: "set (lua_names fs src) = lua_below fs src"
    using walk_paths_set [OF assms] by (auto simp: lua_names_walk [OF assms] lua_below_def)
  have d: "distinct (lua_names fs src)"
    using walk_paths_distinct [OF assms] by (simp add: lua_names_walk [OF assms])
  show "finite (lua_below fs src)" using s by (metis List.finite_set)
  show "sort (lua_names fs src) = sorted_list_of_set (lua_below fs src)"
    using s d sorted_list_of_set_sort_remdups [of "lua_names fs src"] by (simp add: distinct_remdups_id)
qed

section \<open>Writing one file in a tree\<close>

definition file_text :: "fs \<Rightarrow> string \<Rightarrow> string" where
  "file_text fs p = (case aget fs p of Some (File c) \<Rightarrow> c | _ \<Rightarrow> [])"

lemma isdir_aput_file: "\<not> isdir fs p \<Longrightarrow> isdir (aput fs p (File c)) d \<longleftrightarrow> isdir fs d"
  by (simp add: isdir_def)

lemma tree_ok_write:
  assumes "tree_ok fs" and "\<not> isdir fs (d @ slash # n)" and "isdir fs d" and "n \<noteq> []" and "slash \<notin> set n"
  shows "tree_ok (aput fs (d @ slash # n) (File c))"
proof -
  let ?p = "d @ slash # n"
  have l: "last n \<noteq> slash" using assms(4,5) last_in_set by metis
  have "p \<noteq> [] \<and> last p \<noteq> slash \<and>
      (slash \<in> set p \<longrightarrow> parent_dir p = [] \<or> isdir (aput fs ?p (File c)) (parent_dir p))"
    if "p \<in> fst ` set (aput fs ?p (File c))" for p
  proof (cases "p = ?p")
    case True
    with assms l show ?thesis by (simp add: isdir_aput_file)
  next
    case False
    with that have "p \<in> fst ` set fs" by (auto simp: fst_aput)
    with assms(1,2) show ?thesis by (auto simp: tree_ok_def isdir_aput_file)
  qed
  with assms(1) show ?thesis by (simp add: tree_ok_def distinct_aput)
qed

lemma lua_below_write: "\<not> suffix ''.lua'' p \<Longrightarrow> lua_below (aput fs p (File c)) src = lua_below fs src"
  by (auto simp: lua_below_def below_def)

lemma aget_adel_aput: "aput (adel fs p) p n = aput (adel fs p) p n" by simp

text \<open>Writing the package is one assignment to the file system.\<close>

lemma write_package_result:
  assumes "isdir fs d" and "\<not> isdir fs (d @ slash # n)" and "slash \<notin> set n"
  shows "\<exists>fs'. write_package zip_bytes (d @ slash # n) checksum entries fs = Inr fs' \<and>
    (\<forall>p. aget fs' p = (if p = d @ slash # n then Some (File (checksum @ zip_bytes entries)) else aget fs p)) \<and>
    (distinct (map fst fs) \<longrightarrow> distinct (map fst fs'))"
proof -
  let ?p = "d @ slash # n"
  obtain g where g: "(if path_exists fs ?p then os_remove ?p fs else Inr fs) = Inr g"
    and a: "\<And>q. q \<noteq> ?p \<Longrightarrow> aget g q = aget fs q" and di: "distinct (map fst fs) \<longrightarrow> distinct (map fst g)"
  proof (cases "aget fs ?p")
    case None
    then show ?thesis by (intro that [of fs]) (simp_all add: path_exists_def)
  next
    case (Some x)
    with assms(2) obtain c where "aget fs ?p = Some (File c)" by (cases x) (auto simp: isdir_def)
    then show ?thesis by (intro that [of "adel fs ?p"]) (simp_all add: path_exists_def os_remove_def distinct_adel)
  qed
  have e: "(if path_exists fs ?p then os_remove ?p fs else Inr fs) = Inr g" by (rule g)
  have dne: "d \<noteq> ?p" by simp
  have gd: "isdir g d" and gp: "aget g ?p \<noteq> Some Dir"
  proof -
    show "isdir g d" using assms(1) a [OF dne] by (simp add: isdir_def)
    show "aget g ?p \<noteq> Some Dir" using g assms(2)
      by (auto simp: path_exists_def os_remove_def isdir_def split: if_splits option.splits node.splits)
  qed
  then have w: "write_file ?p c g = Inr (aput g ?p (File c))" for c
    using assms(3) by (simp add: write_file_def isdir_def parent_ok_def)
  have w2: "write_file ?p c (aput g ?p (File b)) = Inr (aput (aput g ?p (File b)) ?p (File c))" for b c
    using assms(3) gd by (simp add: write_file_def isdir_def parent_ok_def)
  show ?thesis
    unfolding write_package_def e
    using di by (simp add: w w2 read_file_def a distinct_aput del: rbind_eq_Inr)
qed

lemma tree_ok_like:
  assumes "tree_ok fs" and "distinct (map fst fs')" and "\<And>p. aget fs' p = aget (aput fs q n) p" and "tree_ok (aput fs q n)"
  shows "tree_ok fs'"
proof -
  have "p \<in> fst ` set fs' \<longleftrightarrow> p \<in> fst ` set (aput fs q n)" for p
    using aget_None_iff [of fs' p] aget_None_iff [of "aput fs q n" p] assms(3) [of p] by simp
  then have k: "fst ` set fs' = fst ` set (aput fs q n)" by (rule set_eqI)
  have d: "isdir fs' d = isdir (aput fs q n) d" for d using assms(3) by (simp only: isdir_def)
  show ?thesis using assms(2,4) unfolding tree_ok_def k d by blast
qed

section \<open>The package\<close>

lemma read_all:
  "(\<And>p. p \<in> set ps \<Longrightarrow> \<exists>c. aget fs p = Some (File c)) \<Longrightarrow> rmap (read_file fs) ps = Inr (map (file_text fs) ps)"
  by (rule rmap_total) (fastforce simp: read_file_def file_text_def)

lemma lua_below_file: "p \<in> lua_below fs src \<Longrightarrow> \<exists>c. aget fs p = Some (File c)"
  by (simp add: lua_below_def below_def)

lemma not_lua: "\<not> suffix ''.lua'' (d @ slash # n @ ''.package'')"
  by (simp add: suffix_def append_eq_append_conv2 append_eq_Cons_conv Cons_eq_append_conv) 

lemma path_split_app:
  assumes "slash \<notin> set n"
  shows "path_split (d @ slash # n) = (clean_head (d @ [slash]), n)"
proof -
  have "rfind slash (d @ slash # n) = int (length d)"
    using assms by (auto simp: rfind_def dropWhile_append3)
  then show ?thesis by (simp add: path_split_def Let_def nat_add_distrib)
qed

lemma clean_head_dir: "d \<noteq> [] \<Longrightarrow> last d \<noteq> slash \<Longrightarrow> clean_head (d @ [slash]) = d"
  by (cases d rule: rev_cases) (auto simp: clean_head_def rstrip_char_def replicate_append_same [symmetric])

lemma makedirs_there:
  assumes "isdir fs d" and "tree_ok fs"
  shows "fst (makedirs d fs) = fs"
proof -
  have "mkdir_errno d fs = Some EEXIST"
    using assms(1) by (simp add: mkdir_errno_def exists_path_def path_exists_def isdir_def)
  then have m: "sys_mkdir d fs = (fs, Some EEXIST)" by (simp add: sys_mkdir_def)
  have "h = [] \<or> exists_path fs h" if "parts_of d = (h, t)" for h t
  proof (cases "slash \<in> set d")
    case False
    then have "rfind slash d = - 1" by (auto simp: rfind_def dropWhile_eq_Nil_conv)
    with isdir_ok [OF assms(2,1)] that show ?thesis by (auto simp: parts_of_def path_split_def clean_head_def)
  next
    case True
    then obtain a b where d: "d = a @ slash # b" "slash \<notin> set b" by (metis split_list_last)
    have b: "b \<noteq> []" using isdir_ok [OF assms(2,1)] d by auto
    then have h: "h = clean_head (a @ [slash])" using that d by (simp add: parts_of_def path_split_app)
    have "parent_dir d = a" using d by simp
    then have "a = [] \<or> isdir fs a"
      using assms(2) isdir_key [OF assms(1)] True unfolding tree_ok_def by blast
    then show ?thesis
    proof
      assume "a = []"
      with h show ?thesis by (simp add: clean_head_def exists_path_def)
    next
      assume a: "isdir fs a"
      with isdir_ok [OF assms(2) a] h show ?thesis
        by (simp add: clean_head_dir exists_path_def path_exists_def isdir_def)
    qed
  qed
  then show ?thesis
    by (subst makedirs.simps) (auto simp: m split: prod.splits)
qed

lemma md5zip_run:
  assumes "clean_path src = src" and "clean_path dst = dst" and "name_list fs src = Some ns"
    and "rmap (read_file fs) (sort ns) = Inr cs"
  shows "md5zip md5 zip_bytes [prog, src, dst, name] fs =
    (let package = dst @ slash # name @ ''.package''; new = md5 (concat cs); entries = zip (sort ns) cs in
     if \<not> path_exists fs package then write_package zip_bytes package new entries (fst (makedirs dst fs))
     else rbind (read_file fs package) (\<lambda>zs.
       if new = take 32 zs then Inr fs else write_package zip_bytes package new entries fs))"
  unfolding md5zip_def by (simp add: assms Let_def del: rbind_eq_Inr)

text \<open>
  A run in a tree \<open>g\<close> that differs from \<open>fs\<close> in the package only: the names and texts are those of \<open>fs\<close>,
  and the package is written unless it begins with their checksum.
\<close>

lemma md5zip_step:
  assumes names: "names = sorted_list_of_set (lua_below fs src)"
    and package: "package = dst @ slash # name @ ''.package''"
    and new: "new = md5 (concat (map (file_text fs) names))"
    and fs: "tree_ok fs" "isdir fs src" "isdir fs dst"
    and g: "tree_ok g" "isdir g src" "isdir g dst" "\<not> isdir g package" "\<And>p. p \<noteq> package \<Longrightarrow> aget g p = aget fs p"
  shows "md5zip md5 zip_bytes [prog, src, dst, name] g =
      (if path_exists g package \<and> take 32 (file_text g package) = new then Inr g
       else write_package zip_bytes package new (map (\<lambda>n. (n, file_text fs n)) names) g)"
proof -
  have n: "set names = lua_below fs src" using lua_names_sorted(2) [OF fs(1,2)] by (simp add: names)
  have arg: "clean_path src = src" "clean_path dst = dst"
    using isdir_ok [OF fs(1)] fs(2,3) clean_path_id by auto
  have lb: "lua_below g src = lua_below fs src"
    using g(5) not_lua [of dst name] by (auto simp: lua_below_def below_def package)
  have sn: "sort (lua_names g src) = names"
    using lua_names_sorted(1) [OF g(1,2)] by (simp add: lb names)
  have "p \<noteq> package" if "p \<in> set names" for p
    using that n not_lua [of dst name] by (auto simp: lua_below_def package)
  then have ft: "map (file_text g) names = map (file_text fs) names"
    using g(5) by (auto simp: file_text_def)
  have "rmap (read_file g) names = Inr (map (file_text fs) names)"
    using read_all [of names g] lua_below_file [of _ g src] n lb ft by simp
  then have ra: "rmap (read_file g) (sort (lua_names g src)) = Inr (map (file_text fs) names)" by (simp only: sn)
  have zm: "zip names (map (file_text fs) names) = map (\<lambda>n. (n, file_text fs n)) names"
    by (simp add: zip_map2 zip_same_conv_map o_def)
  have nl: "name_list g src = Some (lua_names g src)"
    using g(2) by (auto simp: name_list_def isfile_def isdir_def split: option.splits node.splits)
  have rd: "read_file g package = Inr (file_text g package)" if "path_exists g package"
    using that g(4) by (auto simp: read_file_def file_text_def path_exists_def isdir_def split: option.splits node.splits)
  note r = md5zip_run [OF arg nl ra, of md5 zip_bytes prog name,
      unfolded sn zm Let_def, folded new package, unfolded makedirs_there [OF g(3,1)]]
  show ?thesis
  proof (cases "path_exists g package")
    case True
    show ?thesis unfolding r rd [OF True] using True by (cases "new = take 32 (file_text g package)") simp_all
  qed (simp add: r)
qed

text \<open>
  C38: a package built from a directory: exactly the Lua files below it, each once and in order, with the
  checksum of their joined contents in front. When the package that is there already starts with
  that checksum nothing is written; in every case no other file changes, and building it again
  right after does nothing.
\<close>
theorem md5zip_package:
  assumes "tree_ok fs" and "isdir fs src" and "isdir fs dst" and "slash \<notin> set name"
    and "\<forall>s. length (md5 s) = 32" and "\<not> isdir fs (dst @ slash # name @ ''.package'')"
  shows "\<exists>fs' names. md5zip md5 zip_bytes [prog, src, dst, name] fs = Inr fs' \<and>
    sorted names \<and> distinct names \<and> set names = lua_below fs src \<and>
    (let package = dst @ slash # name @ ''.package'';
         new = md5 (concat (map (file_text fs) names)) in
     (\<forall>p. p \<noteq> package \<longrightarrow> aget fs' p = aget fs p) \<and>
     (if path_exists fs package \<and> take 32 (file_text fs package) = new then fs' = fs
      else aget fs' package = Some (File (new @ zip_bytes (map (\<lambda>n. (n, file_text fs n)) names)))) \<and>
     md5zip md5 zip_bytes [prog, src, dst, name] fs' = Inr fs')"
proof -
  define names where "names = sorted_list_of_set (lua_below fs src)"
  define package where "package = dst @ slash # name @ ''.package''"
  define new where "new = md5 (concat (map (file_text fs) names))"
  have n: "sorted names" "distinct names" "set names = lua_below fs src"
    using lua_names_sorted(2) [OF assms(1,2)] by (simp_all add: names_def)
  have pname: "slash \<notin> set (name @ ''.package'')" using assms(4) by simp
  note step = md5zip_step [of names fs src package dst name new md5, OF names_def package_def new_def assms(1-3)]
  have np: "\<not> isdir fs package" using assms(6) by (simp add: package_def)
  note first = step [OF assms(1-3) np refl]
  show ?thesis
  proof (cases "path_exists fs package \<and> take 32 (file_text fs package) = new")
    case True
    then have "md5zip md5 zip_bytes [prog, src, dst, name] fs = Inr fs"
      unfolding first by simp
    with True n show ?thesis by (intro exI [of _ fs] exI [of _ names]) (simp add: Let_def package_def new_def)
  next
    case False
    have "distinct (map fst fs)" using assms(1) by (simp add: tree_ok_def)
    then obtain fs' where w: "write_package zip_bytes package new (map (\<lambda>n. (n, file_text fs n)) names) fs = Inr fs'"
      and a: "\<And>p. aget fs' p = (if p = package then Some (File (new @ zip_bytes (map (\<lambda>n. (n, file_text fs n)) names))) else aget fs p)"
      and di: "distinct (map fst fs')"
      using write_package_result [OF assms(3,6) pname, folded package_def, of zip_bytes new] by metis
    have t: "tree_ok (aput fs package (File c))" for c
      unfolding package_def using assms(4) by (intro tree_ok_write assms(1,3,6)) simp_all
    have t': "tree_ok fs'" by (rule tree_ok_like [OF assms(1) di _ t]) (simp add: a)
    have d: "isdir fs' src" "isdir fs' dst" "\<not> isdir fs' package"
      using assms(2,3) np by (auto simp: isdir_def a)
    have "md5zip md5 zip_bytes [prog, src, dst, name] fs' = Inr fs'"
    proof -
      have "path_exists fs' package" "take 32 (file_text fs' package) = new"
        using assms(5) by (simp_all add: path_exists_def file_text_def a new_def)
      then show ?thesis using step [OF t' d] a by simp
    qed
    moreover have "md5zip md5 zip_bytes [prog, src, dst, name] fs = Inr fs'"
      unfolding first if_not_P [OF False] w ..
    ultimately show ?thesis using n a False
      by (intro exI [of _ fs'] exI [of _ names]) (auto simp: Let_def package_def new_def)
  qed
qed

definition sample_tree :: fs where
  "sample_tree = [(''s'', Dir), (''s/b.txt'', File ''y''), (''s/a.lua'', File ''x''), (''d'', Dir)]"

lemma sample_tree_ok: "tree_ok sample_tree"
proof -
  have "parent_dir ''s/b.txt'' = ''s''" "parent_dir ''s/a.lua'' = ''s''" by (simp_all add: parent_dir_def)
  then show ?thesis by (simp add: tree_ok_def sample_tree_def isdir_def)
qed

lemma sample_lua: "lua_below sample_tree ''s'' = {''s/a.lua''}"
  by (auto simp: lua_below_def below_def sample_tree_def suffix_def split: if_splits)

lemma md5zip_package_witness:
  "\<exists>fs'. md5zip (\<lambda>s. replicate 32 (CHR ''m'')) (\<lambda>es. concat (map snd es)) [''md5zip.py'', ''s'', ''d'', ''p''] sample_tree = Inr fs' \<and>
     aget fs' ''d/p.package'' = Some (File (replicate 32 (CHR ''m'') @ ''x''))"
proof -
  have p: "\<not> isdir sample_tree (''d'' @ slash # ''p'' @ ''.package'')" "isdir sample_tree ''s''" "isdir sample_tree ''d''"
    "\<not> path_exists sample_tree ''d/p.package''" and x: "file_text sample_tree ''s/a.lua'' = ''x''"
    by (simp_all add: sample_tree_def isdir_def path_exists_def file_text_def)
  have s: "slash \<notin> set ''p''" "\<forall>s :: string. length (replicate 32 (CHR ''m'')) = 32" by simp_all
  obtain fs' names where "md5zip (\<lambda>s. replicate 32 (CHR ''m'')) (\<lambda>es. concat (map snd es)) [''md5zip.py'', ''s'', ''d'', ''p''] sample_tree = Inr fs'"
    and n: "distinct names" "set names = {''s/a.lua''}"
    and a: "aget fs' ''d/p.package'' = Some (File (replicate 32 (CHR ''m'') @ concat (map snd (map (\<lambda>n. (n, file_text sample_tree n)) names))))"
    using md5zip_package [OF sample_tree_ok p(2,3) s p(1), of "\<lambda>es. concat (map snd es)" "''md5zip.py''"] p(4)
    by (auto simp: Let_def sample_lua)
  moreover have "names = [''s/a.lua'']" using n by (cases names; cases "tl names") auto
  ultimately show ?thesis using x by simp
qed

end
