(* ===== verification/UrlQuote.thy ===== *)
theory UrlQuote
  imports PyRe "HOL-Library.Char_ord"
begin

text \<open>
  Texts in URLs, as the tools' Python distribution writes and reads them (\<open>urllib.py\<close>): quoting,
  unquoting, query strings, and the functions that split a URL into its parts. Texts are byte
  strings.
\<close>

section \<open>Quoting\<close>

definition always_safe :: string where
  "always_safe = ''ABCDEFGHIJKLMNOPQRSTUVWXYZ'' @ ''abcdefghijklmnopqrstuvwxyz'' @ ''0123456789'' @ ''_.-''"

text \<open>A hexadecimal digit, and \<open>'%{:02X}'\<close> of a byte.\<close>

definition hex_upper :: "nat \<Rightarrow> char" where
  "hex_upper n = (if n < 10 then digit_char n else char_of (55 + n))"

definition percent :: "char \<Rightarrow> string" where
  "percent c = [CHR ''%'', hex_upper (of_char c div 16), hex_upper (of_char c mod 16)]"

definition safe_map :: "string \<Rightarrow> char \<Rightarrow> string" where
  "safe_map safe c =
     (if c \<in> set safe then [c]
      else if (of_char c :: nat) < 128 \<and> c \<in> set always_safe then [c] else percent c)"

text \<open>\<open>s.rstrip(safe)\<close>.\<close>

definition rstrip_chars :: "string \<Rightarrow> string \<Rightarrow> string" where
  "rstrip_chars safe s = rev (dropWhile (\<lambda>c. c \<in> set safe) (rev s))"

definition quote :: "string \<Rightarrow> string \<Rightarrow> string" where
  "quote s safe =
     (if s = [] then s
      else if rstrip_chars (always_safe @ safe) s = [] then s
      else concat (map (safe_map safe) s))"

definition quote_plus :: "string \<Rightarrow> string \<Rightarrow> string" where
  "quote_plus s safe =
     (if CHR '' '' \<in> set s then str_replace '' '' ''+'' (quote s (safe @ '' '')) else quote s safe)"

section \<open>Unquoting\<close>

definition hex_val :: "char \<Rightarrow> nat option" where
  "hex_val c =
     (let n = of_char c in
      if 48 \<le> n \<and> n \<le> 57 then Some (n - 48)
      else if 65 \<le> n \<and> n \<le> 70 then Some (n - 55)
      else if 97 \<le> n \<and> n \<le> 102 then Some (n - 87)
      else None)"

definition hextochr :: "char \<Rightarrow> char \<Rightarrow> char option" where
  "hextochr a b = (case (hex_val a, hex_val b) of (Some m, Some n) \<Rightarrow> Some (char_of (16 * m + n)) | _ \<Rightarrow> None)"

text \<open>A piece after a percent sign.\<close>

definition unquote_item :: "string \<Rightarrow> string" where
  "unquote_item item =
     (case item of
        a # b # rest \<Rightarrow> (case hextochr a b of Some c \<Rightarrow> c # rest | None \<Rightarrow> CHR ''%'' # item)
      | _ \<Rightarrow> CHR ''%'' # item)"

definition unquote :: "string \<Rightarrow> string" where
  "unquote s =
     (let bits = split_on (CHR ''%'') s in
      if length bits = 1 then s else hd bits @ concat (map unquote_item (tl bits)))"

definition unquote_plus :: "string \<Rightarrow> string" where
  "unquote_plus s = unquote (str_replace ''+'' '' '' s)"

text \<open>\<open>urlencode\<close> of pairs of texts.\<close>

definition urlencode :: "(string \<times> string) list \<Rightarrow> string" where
  "urlencode query = join ''&'' (map (\<lambda>(k, v). quote_plus k [] @ ''='' @ quote_plus v []) query)"

section \<open>Parts of a URL\<close>

definition lower_char :: "char \<Rightarrow> char" where
  "lower_char c = (let n = of_char c in if 65 \<le> n \<and> n \<le> (90 :: nat) then char_of (n + 32) else c)"

definition lower :: "string \<Rightarrow> string" where
  "lower s = map lower_char s"

definition unwrap :: "string \<Rightarrow> string" where
  "unwrap url =
     (let url = strip url;
          url = (if take 1 url = ''<'' \<and> drop (length url - 1) url = ''>'' then strip (drop 1 (butlast url)) else url)
      in if take 4 url = ''URL:'' then strip (drop 4 url) else url)"

definition splittype :: "string \<Rightarrow> string option \<times> string" where
  "splittype url =
     (case re_match [Plus (NoneOf ''/:''), One (Lit (CHR '':''))] url of
        Some [scheme, colon] \<Rightarrow> (Some (lower scheme), drop (length scheme + 1) url)
      | _ \<Rightarrow> (None, url))"

definition splithost :: "string \<Rightarrow> string option \<times> string" where
  "splithost url =
     (case re_match_end [One (Lit (CHR ''/'')), One (Lit (CHR ''/'')), Star (NoneOf ''/?''), Star AnyChar] url of
        Some [a, b, host_port, path] \<Rightarrow>
          (Some host_port, if path \<noteq> [] \<and> \<not> prefix ''/'' path then CHR ''/'' # path else path)
      | _ \<Rightarrow> (None, url))"

definition splituser :: "string \<Rightarrow> string option \<times> string" where
  "splituser host =
     (case re_match_end [Star AnyChar, One (Lit (CHR ''@'')), Star AnyChar] host of
        Some [user, sep, rest] \<Rightarrow> (Some user, rest)
      | _ \<Rightarrow> (None, host))"

definition splitpasswd :: "string \<Rightarrow> string \<times> string option" where
  "splitpasswd user =
     (case re_match_end [Star (NoneOf '':''), One (Lit (CHR '':'')), Star AllChar] user of
        Some [name, sep, passwd] \<Rightarrow> (name, Some passwd)
      | _ \<Rightarrow> (user, None))"

definition splitport :: "string \<Rightarrow> string \<times> string option" where
  "splitport host =
     (case re_match_end [Star AnyChar, One (Lit (CHR '':'')), Star Digit] host of
        Some [h, sep, port] \<Rightarrow> if port \<noteq> [] then (h, Some port) else (h, None)
      | _ \<Rightarrow> (host, None))"

definition splitquery :: "string \<Rightarrow> string \<times> string option" where
  "splitquery url =
     (case re_match_end [Star AnyChar, One (Lit (CHR ''?'')), Star (NoneOf ''?'')] url of
        Some [path, sep, query] \<Rightarrow> (path, Some query)
      | _ \<Rightarrow> (url, None))"

definition splittag :: "string \<Rightarrow> string \<times> string option" where
  "splittag url =
     (case re_match_end [Star AnyChar, One (Lit (CHR ''#'')), Star (NoneOf ''#'')] url of
        Some [path, sep, tag] \<Rightarrow> (path, Some tag)
      | _ \<Rightarrow> (url, None))"

definition splitattr :: "string \<Rightarrow> string \<times> string list" where
  "splitattr url = (let words = split_on (CHR '';'') url in (words ! 0, drop 1 words))"

definition splitvalue :: "string \<Rightarrow> string \<times> string option" where
  "splitvalue attr =
     (case re_match_end [Star (NoneOf ''=''), One (Lit (CHR ''='')), Star AnyChar] attr of
        Some [name, sep, val] \<Rightarrow> (name, Some val)
      | _ \<Rightarrow> (attr, None))"
section \<open>Reading a quoted text back\<close>

lemma hex_upper_code: "n < 16 \<Longrightarrow> (of_char (hex_upper n) :: nat) = (if n < 10 then 48 + n else 55 + n)"
  by (simp add: hex_upper_def of_char_digit_char)

lemma hex_val_upper: "n < 16 \<Longrightarrow> hex_val (hex_upper n) = Some n"
  by (auto simp: hex_val_def Let_def hex_upper_code)

lemma lower_char_code:
  "(of_char (lower_char c) :: nat) = (if 65 \<le> (of_char c :: nat) \<and> (of_char c :: nat) \<le> 90 then of_char c + 32 else of_char c)"
  by (simp add: lower_char_def Let_def)

lemma hex_val_lower: "n < 16 \<Longrightarrow> hex_val (lower_char (hex_upper n)) = Some n"
  by (auto simp: hex_val_def Let_def lower_char_code hex_upper_code)

lemma byte_parts: "char_of (16 * (of_char c div 16) + of_char c mod 16 :: nat) = c"
  by (simp add: mult.commute[of 16] div_mult_mod_eq)

lemma byte_small: "(of_char c :: nat) div 16 < 16" "(of_char c :: nat) mod 16 < 16"
proof -
  have "(of_char c :: nat) < 256" by simp
  then show "(of_char c :: nat) div 16 < 16" by (simp add: less_mult_imp_div_less)
qed simp

lemma split_on_one: "split_on c s = [b] \<Longrightarrow> s = b"
  by (induction s arbitrary: b) (auto split: if_splits list.splits)

lemma unquote_plain: "c \<noteq> CHR ''%'' \<Longrightarrow> unquote (c # t) = c # unquote t"
proof -
  assume c: "c \<noteq> CHR ''%''"
  obtain b bs where s: "split_on (CHR ''%'') t = b # bs" by (cases "split_on (CHR ''%'') t") auto
  have "t = b" if "bs = []"
    using split_on_one s that by simp
  with c s show ?thesis by (auto simp: unquote_def Let_def)
qed

lemma unquote_percent:
  assumes "hextochr a b = Some c" and "a \<noteq> CHR ''%''" and "b \<noteq> CHR ''%''"
  shows "unquote (CHR ''%'' # a # b # t) = c # unquote t"
proof -
  obtain p ps where s: "split_on (CHR ''%'') t = p # ps" by (cases "split_on (CHR ''%'') t") auto
  have "t = p" if "ps = []"
    using split_on_one s that by simp
  with assms s show ?thesis by (auto simp: unquote_def Let_def unquote_item_def)
qed

lemma unquote_Nil [simp]: "unquote [] = []"
  by (simp add: unquote_def)

text \<open>A change of letters that keeps the percent sign and the hexadecimal digits.\<close>

definition keeps_hex :: "(char \<Rightarrow> char) \<Rightarrow> bool" where
  "keeps_hex f \<longleftrightarrow> (\<forall>c. f c = CHR ''%'' \<longleftrightarrow> c = CHR ''%'') \<and>
     (\<forall>n. n < 16 \<longrightarrow> hex_val (f (hex_upper n)) = Some n) \<and>
     (\<forall>c. c \<notin> set always_safe \<longrightarrow> f c = c)"

lemma percent_sign: "hex_val c = Some n \<Longrightarrow> c \<noteq> CHR ''%''"
  by (auto simp: hex_val_def)

lemma unquote_mapped:
  assumes "keeps_hex f" and "CHR ''%'' \<notin> set safe"
  shows "unquote (map f (concat (map (safe_map safe) s))) = map f s"
proof (induction s)
  case (Cons c s)
  show ?case
  proof (cases "c \<in> set safe \<or> (of_char c :: nat) < 128 \<and> c \<in> set always_safe")
    case True
    then have "c \<noteq> CHR ''%''" using assms(2) by (auto simp: always_safe_def)
    with assms(1) have "f c \<noteq> CHR ''%''" by (simp add: keeps_hex_def)
    with True Cons show ?thesis by (auto simp: safe_map_def unquote_plain)
  next
    case False
    let ?a = "f (hex_upper (of_char c div 16))" and ?b = "f (hex_upper (of_char c mod 16))"
    have f: "f c = c"
    proof -
      have "\<forall>c \<in> set always_safe. (of_char c :: nat) < 128" by (simp add: always_safe_def)
      with False have "c \<notin> set always_safe" by blast
      with assms(1) show ?thesis by (simp add: keeps_hex_def)
    qed
    have h: "hex_val ?a = Some (of_char c div 16)" "hex_val ?b = Some (of_char c mod 16)"
      using assms(1) byte_small [of c] by (simp_all add: keeps_hex_def)
    then have "hextochr ?a ?b = Some c" by (simp add: hextochr_def byte_parts)
    moreover have "f CHR ''%'' = CHR ''%''" using assms(1) by (simp add: keeps_hex_def)
    moreover have "safe_map safe c = percent c" using False by (auto simp: safe_map_def)
    ultimately show ?thesis
      using f Cons percent_sign [OF h(1)] percent_sign [OF h(2)]
      by (simp add: percent_def unquote_percent)
  qed
qed simp

lemma safe_map_safe: "(\<forall>c \<in> set s. c \<in> set always_safe \<or> c \<in> set safe) \<Longrightarrow> concat (map (safe_map safe) s) = s"
proof (induction s)
  case (Cons c s)
  have "\<forall>c \<in> set always_safe. (of_char c :: nat) < 128" by (simp add: always_safe_def)
  with Cons show ?case by (auto simp: safe_map_def)
qed simp

lemma quote_map: "quote s safe = concat (map (safe_map safe) s)"
  by (auto simp: quote_def rstrip_chars_def dropWhile_eq_Nil_conv intro: safe_map_safe [symmetric])

lemma keeps_hex_id: "keeps_hex (\<lambda>c. c)"
  by (simp add: keeps_hex_def hex_val_upper)

lemma safe_code: "c \<in> set always_safe \<longleftrightarrow> of_char c \<in> set (map of_char always_safe :: nat list)"
  by auto

lemma safe_codes: "map of_char always_safe = [65..<91] @ [97..<123] @ [48..<58] @ [95, 46, 45 :: nat]"
  by (simp add: always_safe_def upt_rec)

lemma safe_range: "c \<in> set always_safe \<longleftrightarrow>
    of_char c \<in> {65..<91} \<union> ({97..<123} \<union> ({48..<58} \<union> set [95, 46, 45 :: nat]))"
  unfolding safe_code safe_codes set_append set_upt ..

lemma lower_safe: "lower_char c \<noteq> c \<Longrightarrow> c \<in> set always_safe"
proof -
  assume "lower_char c \<noteq> c"
  then have b: "65 \<le> (of_char c :: nat)" "(of_char c :: nat) \<le> 90" by (auto simp: lower_char_def Let_def split: if_splits)
  then show ?thesis by (simp add: safe_range)
qed

lemma keeps_hex_lower: "keeps_hex lower_char"
proof -
  have "lower_char c = CHR ''%'' \<longleftrightarrow> c = CHR ''%''" for c
  proof -
    have "of_char (lower_char c) = (37 :: nat) \<longleftrightarrow> of_char c = (37 :: nat)" by (simp add: lower_char_code)
    moreover have "of_char d = (37 :: nat) \<longleftrightarrow> d = CHR ''%''" for d
    proof -
      have "(of_char d :: nat) = of_char (CHR ''%'') \<longleftrightarrow> d = CHR ''%''" by (rule of_char_eq_iff)
      then show ?thesis by simp
    qed
    ultimately show ?thesis by simp
  qed
  then show ?thesis using lower_safe by (auto simp: keeps_hex_def hex_val_lower)
qed

lemma unquote_quote: "CHR ''%'' \<notin> set safe \<Longrightarrow> unquote (quote s safe) = s"
  using unquote_mapped [OF keeps_hex_id] by (simp add: quote_map)

lemma unquote_lower_quote: "CHR ''%'' \<notin> set safe \<Longrightarrow> unquote (lower (quote s safe)) = lower s"
  using unquote_mapped [OF keeps_hex_lower] by (simp add: quote_map lower_def)

text \<open>A quoted text holds no character that separates the parts of a query.\<close>

lemma safe_map_chars: "d \<in> set (safe_map safe c) \<Longrightarrow> d \<in> set safe \<or> d \<in> set always_safe \<or> d = CHR ''%''"
proof -
  have "n < 16 \<Longrightarrow> hex_upper n \<in> set always_safe" for n
    by (auto simp: safe_range hex_upper_code)
  then show "d \<in> set (safe_map safe c) \<Longrightarrow> d \<in> set safe \<or> d \<in> set always_safe \<or> d = CHR ''%''"
    using byte_small [of c] by (auto simp: safe_map_def percent_def split: if_splits)
qed

end
