(* ===== verification/RandomSample.thy ===== *)
theory RandomSample
  imports Prelude "HOL-Library.Multiset"
begin

text \<open>
  \<open>random.py\<close>: what the module makes of its core generator. The core is compiled code; \<open>below\<close> stands for
  \<open>int(self.random() * n)\<close> and \<open>self._randbelow(n)\<close>: a number drawn below \<open>n\<close> and the state after
  it. The documentation of \<open>random()\<close> promises a number in the range from 0 to 1, without 1.
\<close>

type_synonym 's below = "'s \<Rightarrow> nat \<Rightarrow> nat \<times> 's"

definition draws_below :: "'s below \<Rightarrow> bool" where
  "draws_below below \<longleftrightarrow> (\<forall>s n. 0 < n \<longrightarrow> fst (below s n) < n)"

section \<open>Numbers\<close>

definition draw_int :: "'s below \<Rightarrow> 's \<Rightarrow> int \<Rightarrow> int \<times> 's" where
  "draw_int below s n = (let (j, s) = below s (nat n) in (int j, s))"

definition randrange :: "'s below \<Rightarrow> 's \<Rightarrow> int \<Rightarrow> int option \<Rightarrow> int \<Rightarrow> (int \<times> 's) res" where
  "randrange below s istart stop istep =
     (case stop of
        None \<Rightarrow> if 0 < istart then Inr (draw_int below s istart) else Inl ValueError
      | Some istop \<Rightarrow>
          let width = istop - istart in
          if istep = 1 \<and> 0 < width then (let (j, s) = draw_int below s width in Inr (istart + j, s))
          else if istep = 1 then Inl ValueError
          else if istep = 0 then Inl ValueError
          else
            let n = (if 0 < istep then (width + istep - 1) div istep else (width + istep + 1) div istep) in
            if n \<le> 0 then Inl ValueError
            else (let (j, s) = draw_int below s n in Inr (istart + istep * j, s)))"

definition randint :: "'s below \<Rightarrow> 's \<Rightarrow> int \<Rightarrow> int \<Rightarrow> (int \<times> 's) res" where
  "randint below s a b = randrange below s a (Some (b + 1)) 1"

section \<open>Sequences\<close>

definition choice :: "'s below \<Rightarrow> 's \<Rightarrow> 'a list \<Rightarrow> ('a \<times> 's) res" where
  "choice below s seq = (if seq = [] then Inl IndexError else let (j, s) = below s (length seq) in Inr (seq ! j, s))"

text \<open>The loop of \<open>shuffle\<close>, from the end down to index 1.\<close>

fun shuffle_loop :: "'s below \<Rightarrow> nat \<Rightarrow> 's \<Rightarrow> 'a list \<Rightarrow> 'a list \<times> 's" where
  "shuffle_loop below 0 s x = (x, s)"
| "shuffle_loop below (Suc i) s x =
     (let (j, s) = below s (Suc i + 1) in shuffle_loop below i s (x[Suc i := x ! j, j := x ! Suc i]))"

definition shuffle :: "'s below \<Rightarrow> 's \<Rightarrow> 'a list \<Rightarrow> 'a list \<times> 's" where
  "shuffle below s x = shuffle_loop below (length x - 1) s x"

text \<open>\<open>4 ** ceil(log(m, 4))\<close>: the least power of 4 from \<open>m\<close> on.\<close>

function pow4_from :: "nat \<Rightarrow> nat \<Rightarrow> nat" where
  "pow4_from p m = (if m \<le> p \<or> p = 0 then p else pow4_from (4 * p) m)"
  by pat_completeness auto
termination by (relation "measure (\<lambda>(p, m). m - p)") auto

declare pow4_from.simps [simp del]

definition setsize :: "nat \<Rightarrow> nat" where
  "setsize k = (if 5 < k then 21 + pow4_from 1 (k * 3) else 21)"

text \<open>The pool: the first \<open>p\<close> places hold what has not been selected.\<close>

fun sample_pool :: "'s below \<Rightarrow> nat \<Rightarrow> nat \<Rightarrow> 's \<Rightarrow> 'a list \<Rightarrow> 'a list \<times> 's" where
  "sample_pool below 0 p s pool = ([], s)"
| "sample_pool below (Suc m) p s pool =
     (let (j, s) = below s p;
          (result, s) = sample_pool below m (p - 1) s (pool[j := pool ! (p - 1)])
      in (pool ! j # result, s))"

text \<open>The other way, for a few of many: drawing an index again while it is one that was selected.\<close>

partial_function (option) redraw :: "'s below \<Rightarrow> nat \<Rightarrow> nat list \<Rightarrow> 's \<Rightarrow> (nat \<times> 's) option" where
  "redraw below n selected s =
     (let (j, s) = below s n in if j \<in> set selected then redraw below n selected s else Some (j, s))"

declare redraw.simps [code]

fun sample_set :: "'s below \<Rightarrow> nat \<Rightarrow> nat list \<Rightarrow> 's \<Rightarrow> 'a list \<Rightarrow> ('a list \<times> 's) option" where
  "sample_set below 0 selected s population = Some ([], s)"
| "sample_set below (Suc m) selected s population =
     (case redraw below (length population) selected s of
        None \<Rightarrow> None
      | Some (j, s) \<Rightarrow>
          map_option (\<lambda>(result, s). (population ! j # result, s)) (sample_set below m (j # selected) s population))"

text \<open>\<open>None\<close>: the drawing goes on for ever.\<close>

definition rand_sample :: "'s below \<Rightarrow> 's \<Rightarrow> 'a list \<Rightarrow> int \<Rightarrow> ('a list \<times> 's) option res" where
  "rand_sample below s population k =
     (let n = length population in
      if \<not> (0 \<le> k \<and> k \<le> int n) then Inl ValueError
      else if n \<le> setsize (nat k) then Inr (Some (sample_pool below (nat k) n s population))
      else Inr (sample_set below (nat k) [] s population))"

section \<open>What the callers rely on\<close>

lemma draw_int_bounds:
  assumes "draws_below below" and "0 < n" and "draw_int below s n = (j, s')"
  shows "0 \<le> j \<and> j < n"
proof -
  obtain i t where d: "below s (nat n) = (i, t)" by (cases "below s (nat n)")
  have "fst (below s (nat n)) < nat n" using assms(1,2) by (simp add: draws_below_def)
  then show ?thesis using assms(2,3) d by (auto simp: draw_int_def)
qed

text \<open>\<open>randrange\<close> gives a member of the range, and an error exactly when the range is empty or its step is 0.\<close>

lemma randrange_member:
  assumes "draws_below below" and "randrange below s a (Some b) istep = Inr (r, s')"
  shows "(\<exists>i\<ge>0. r = a + istep * i) \<and> (if 0 < istep then a \<le> r \<and> r < b else b < r \<and> r \<le> a)"
proof (cases "istep = 1")
  case True
  then show ?thesis using assms draw_int_bounds [OF assms(1), of "b - a" s]
    by (fastforce simp: randrange_def Let_def split: if_splits prod.splits)
next
  case False
  define n where "n = (if 0 < istep then (b - a + istep - 1) div istep else (b - a + istep + 1) div istep)"
  obtain j t where j: "draw_int below s n = (j, t)" by (cases "draw_int below s n")
  from assms(2) False have n: "istep \<noteq> 0" "0 < n" "r = a + istep * j"
    by (auto simp: randrange_def Let_def n_def [symmetric] j split: if_splits)
  from draw_int_bounds [OF assms(1) n(2) j] have b: "0 \<le> j" "j + 1 \<le> n" by simp_all
  show ?thesis
  proof (cases "0 < istep")
    case True
    then have "istep * (j + 1) \<le> istep * n" using b(2) by (intro mult_left_mono) simp_all
    also have "\<dots> = (b - a + istep - 1) - (b - a + istep - 1) mod istep"
      using True by (simp add: n_def minus_mod_eq_mult_div)
    also have "\<dots> \<le> b - a + istep - 1" using pos_mod_sign [OF True, of "b - a + istep - 1"] by linarith
    finally have "istep * j < b - a" by (simp add: algebra_simps)
    moreover have "0 \<le> istep * j" using True b(1) by simp
    ultimately show ?thesis using True n(3) b(1) by auto
  next
    case False
    then have neg: "istep < 0" using n(1) by simp
    then have "istep * n \<le> istep * (j + 1)" using b(2) by (intro mult_left_mono_neg) simp_all
    moreover have "b - a + istep + 1 \<le> istep * n"
    proof -
      have "istep * n = (b - a + istep + 1) - (b - a + istep + 1) mod istep"
        using False by (simp add: n_def minus_mod_eq_mult_div)
      moreover have "(b - a + istep + 1) mod istep \<le> 0" using neg by (simp add: neg_mod_sign)
      ultimately show ?thesis by simp
    qed
    ultimately have "b - a < istep * j" by (simp add: algebra_simps)
    moreover have "istep * j \<le> 0" using neg b(1) by (simp add: mult_nonpos_nonneg)
    ultimately show ?thesis using False n(3) b(1) by auto
  qed
qed

lemma mset_swap: "i < length x \<Longrightarrow> j < length x \<Longrightarrow> mset (x[i := x ! j, j := x ! i]) = mset x"
  by (rule mset_swap)

lemma shuffle_loop_mset:
  assumes "draws_below below" and "i < length x"
  shows "mset (fst (shuffle_loop below i s x)) = mset x"
  using assms(2)
proof (induction i arbitrary: s x)
  case (Suc i)
  obtain j t where j: "below s (Suc i + 1) = (j, t)" by (cases "below s (Suc i + 1)")
  have "fst (below s (Suc i + 1)) < Suc i + 1" using assms(1) unfolding draws_below_def by simp
  then have "j < length x" using j Suc.prems by simp
  with Suc j show ?case by (simp add: mset_swap)
qed simp

lemma shuffle_mset: "draws_below below \<Longrightarrow> mset (fst (shuffle below s x)) = mset x"
  by (cases x) (simp_all add: shuffle_def shuffle_loop_mset)

lemma choice_member: "draws_below below \<Longrightarrow> choice below s seq = Inr (v, s') \<Longrightarrow> v \<in> set seq"
  by (auto simp: choice_def draws_below_def split: if_splits prod.splits) (metis fst_conv length_greater_0_conv nth_mem)

text \<open>The pool without what was selected.\<close>

lemma pool_step:
  assumes "j < p" and "p \<le> length pool"
  shows "add_mset (pool ! j) (mset (take (p - 1) (pool[j := pool ! (p - 1)]))) = mset (take p pool)"
proof -
  obtain q where q: "p = Suc q" using assms(1) by (cases p) auto
  from assms have t: "take p pool = take q pool @ [pool ! q]" by (simp add: q take_Suc_conv_app_nth)
  show ?thesis
  proof (cases "j = q")
    case True
    have "mset (take p pool) = add_mset (pool ! q) (mset (take q pool))" by (simp add: t)
    then show ?thesis using True by (simp add: q)
  next
    case False
    then have j: "j < q" using assms(1) q by simp
    then have "mset ((take q pool)[j := pool ! q]) = add_mset (pool ! q) (mset (take q pool) - {#pool ! j#})"
      using assms(2) q by (subst mset_update) simp_all
    moreover have "pool ! j \<in># mset (take q pool)" using j assms(2) q by (auto simp: in_set_conv_nth intro!: exI [of _ j])
    moreover have "mset (take p pool) = add_mset (pool ! q) (mset (take q pool))" by (simp add: t)
    ultimately show ?thesis using j by (simp add: q take_update_swap add_mset_commute)
  qed
qed

lemma sample_pool_mset:
  assumes "draws_below below" and "m \<le> p" and "p \<le> length pool"
  shows "length (fst (sample_pool below m p s pool)) = m
    \<and> mset (fst (sample_pool below m p s pool)) \<subseteq># mset (take p pool)"
  using assms(2,3)
proof (induction m arbitrary: p s pool)
  case (Suc m)
  obtain j t where j: "below s p = (j, t)" by (cases "below s p")
  have "0 < p" using Suc.prems by simp
  then have "fst (below s p) < p" using assms(1) by (simp add: draws_below_def)
  then have p: "j < p" using j by simp
  let ?pool = "pool[j := pool ! (p - 1)]"
  have "length (fst (sample_pool below m (p - 1) t ?pool)) = m
    \<and> mset (fst (sample_pool below m (p - 1) t ?pool)) \<subseteq># mset (take (p - 1) ?pool)"
    using Suc.prems by (intro Suc.IH) simp_all
  moreover have "fst (sample_pool below (Suc m) p s pool) = pool ! j # fst (sample_pool below m (p - 1) t ?pool)"
    by (simp add: j split: prod.splits)
  ultimately show ?case using pool_step [OF p Suc.prems(2)] by (metis length_Cons mset.simps(2) mset_subset_eq_add_mset_cancel)
qed simp

lemma pow4_from_ge: "0 < p \<Longrightarrow> m \<le> pow4_from p m"
proof (induction p m rule: pow4_from.induct)
  case (1 p m)
  then show ?case by (cases "m \<le> p") (simp_all add: pow4_from.simps [of p m])
qed

text \<open>Up to 21 members, or for enough of them up to the size of a set: as many different members as asked for.\<close>

lemma sample_distinct:
  assumes "draws_below below" and "distinct population" and "k \<le> length population"
    and "length population \<le> setsize k"
  obtains result s' where "rand_sample below s population (int k) = Inr (Some (result, s'))" and "length result = k"
    and "distinct result" and "set result \<subseteq> set population"
proof -
  obtain result s' where r: "sample_pool below k (length population) s population = (result, s')"
    by (cases "sample_pool below k (length population) s population")
  have m: "length result = k" "mset result \<subseteq># mset population"
    using sample_pool_mset [OF assms(1,3) order.refl, of s] r by simp_all
  then obtain others where "mset population = mset result + mset others"
    by (metis ex_mset mset_subset_eq_exists_conv)
  then have p: "mset population = mset (result @ others)" by simp
  have "distinct (result @ others)" using assms(2) mset_eq_imp_distinct_iff [OF p] by simp
  then have "distinct result" by simp
  moreover have "set result \<subseteq> set population" using mset_eq_setD [OF p] by simp
  ultimately show thesis using that m(1) r assms(3,4) by (simp add: rand_sample_def Let_def)
qed

end
