(* ===== verification/Codes.thy ===== *)
theory Codes
  imports UrlQuote PyValue RandomSample
begin

text \<open>
  \<open>shell/des_encode.py\<close> (texts encrypted for a command line) and \<open>daobiao/create_invitecode.py\<close>
  (invitation codes in a sheet). The cipher and the core of the random generator are parameters: the
  package \<open>Crypto\<close> is not part of the repository, and the core generator is compiled code.
\<close>

section \<open>Hexadecimal texts\<close>

definition upper_char :: "char \<Rightarrow> char" where
  "upper_char c = (let n = of_char c in if 97 \<le> n \<and> n \<le> (122 :: nat) then char_of (n - 32) else c)"

text \<open>\<open>s.encode('hex_codec')\<close> and \<open>s.decode('hex_codec')\<close>.\<close>

definition hex_encode :: "string \<Rightarrow> string" where
  "hex_encode s = concat (map (\<lambda>c. [lower_char (hex_upper (of_char c div 16)), lower_char (hex_upper (of_char c mod 16))]) s)"

fun hex_decode :: "string \<Rightarrow> string res" where
  "hex_decode [] = Inr []"
| "hex_decode [a] = Inl TypeError"
| "hex_decode (a # b # s) =
     (case hextochr a b of None \<Rightarrow> Inl TypeError | Some c \<Rightarrow> rbind (hex_decode s) (\<lambda>t. Inr (c # t)))"

section \<open>Encrypting and decrypting\<close>

text \<open>\<open>try: return x; except: return ""\<close>.\<close>

definition or_empty :: "string res \<Rightarrow> string" where
  "or_empty r = (case r of Inl e \<Rightarrow> [] | Inr s \<Rightarrow> s)"

definition padded :: "string \<Rightarrow> string" where
  "padded s = (let pad = 8 - length s mod 8 in s @ replicate pad (char_of pad))"

definition ecrypt :: "(string \<Rightarrow> string res) \<Rightarrow> string \<Rightarrow> string" where
  "ecrypt encrypt ecryptText =
     or_empty (rbind (encrypt (padded (lower (quote ecryptText ''/'')))) (\<lambda>x. Inr (map upper_char (hex_encode x))))"

text \<open>\<open>y[0:ord(y[len(y)-1])*-1]\<close>.\<close>

definition unpad :: "string \<Rightarrow> string res" where
  "unpad y =
     (if y = [] then Inl IndexError
      else let n = of_char (last y) in Inr (if n = 0 then [] else take (length y - n) y))"

definition decrypt :: "(string \<Rightarrow> string res) \<Rightarrow> string \<Rightarrow> string" where
  "decrypt dec decryptText = or_empty (rbind (hex_decode decryptText) (\<lambda>str. rbind (dec str) unpad))"

section \<open>Round trips\<close>

lemma upper_hex: "n < 16 \<Longrightarrow> upper_char (lower_char (hex_upper n)) = hex_upper n"
proof -
  assume n: "n < 16"
  then have "(of_char (upper_char (lower_char (hex_upper n))) :: nat) = of_char (hex_upper n)"
    by (simp add: upper_char_def Let_def lower_char_code hex_upper_code)
  then show ?thesis by (simp only: of_char_eq_iff)
qed

lemma hex_round: "hex_decode (map upper_char (hex_encode s)) = Inr s"
proof (induction s)
  case (Cons c s)
  have "hextochr (hex_upper (of_char c div 16)) (hex_upper (of_char c mod 16)) = Some c"
    using byte_small [of c] by (simp add: hextochr_def hex_val_upper byte_parts)
  with Cons show ?case using byte_small [of c] by (simp add: hex_encode_def upper_hex)
qed (simp add: hex_encode_def)

lemma padded_length: "8 dvd length (padded s)" "length (padded s) = length s + (8 - length s mod 8)"
proof -
  show l: "length (padded s) = length s + (8 - length s mod 8)" by (simp add: padded_def Let_def)
  have "length s + (8 - length s mod 8) = 8 * (length s div 8) + 8"
    using mult_div_mod_eq [of 8 "length s"] mod_less_divisor [of 8 "length s"] by linarith
  with l show "8 dvd length (padded s)" by simp
qed

lemma unpad_padded: "unpad (padded s) = Inr s"
proof -
  define pad where "pad = 8 - length s mod 8"
  have p: "0 < pad" "pad \<le> 8" by (simp_all add: pad_def)
  then have "last (padded s) = char_of pad" "padded s \<noteq> []"
    by (simp_all add: padded_def Let_def last_append flip: pad_def)
  moreover have "(of_char (char_of pad :: char) :: nat) = pad" using p by simp
  ultimately show ?thesis using p
    by (simp add: unpad_def Let_def) (simp add: padded_def Let_def flip: pad_def)
qed

text \<open>
  C39: when the cipher undoes its own encryption of texts of whole blocks, decrypting an encrypted text
  and unquoting the result gives the text in lower case. In particular padding, hexadecimal digits
  and quoting lose nothing else, although the quoted text is turned to lower case too.
\<close>
theorem decrypt_ecrypt:
  assumes "\<And>x. 8 dvd length x \<Longrightarrow> \<exists>y. encrypt x = Inr y \<and> dec y = Inr x"
  shows "unquote (decrypt dec (ecrypt encrypt t)) = lower t"
proof -
  let ?q = "lower (quote t ''/'')"
  obtain y where "encrypt (padded ?q) = Inr y" "dec y = Inr (padded ?q)"
    using assms [OF padded_length(1)] by blast
  then have "decrypt dec (ecrypt encrypt t) = ?q"
    by (simp add: decrypt_def ecrypt_def or_empty_def hex_round unpad_padded del: rbind_eq_Inr)
  then show ?thesis by (simp add: unquote_lower_quote)
qed

lemma decrypt_ecrypt_witness:
  "unquote (decrypt (\<lambda>y. Inr (rev y)) (ecrypt (\<lambda>x. Inr (rev x)) ''Pay 5'')) = ''pay 5''"
proof -
  have "unquote (decrypt (\<lambda>y. Inr (rev y)) (ecrypt (\<lambda>x. Inr (rev x)) ''Pay 5'')) = lower ''Pay 5''"
    by (rule decrypt_ecrypt) simp
  moreover have "lower_char (CHR ''P'') = CHR ''p''"
  proof -
    have "(of_char (lower_char (CHR ''P'')) :: nat) = of_char (CHR ''p'')" by (simp add: lower_char_code)
    then show ?thesis by (simp only: of_char_eq_iff)
  qed
  ultimately show ?thesis by (simp add: lower_def) (simp add: lower_char_def)
qed

section \<open>Invitation codes\<close>










section \<open>The new codes\<close>







definition known :: "(pykey \<times> pyval) list \<Rightarrow> string set" where
  "known m = {c. dhas m (KStr c)}"

lemma known_dput [simp]: "known (dput m (KStr c) v) = insert c (known m)"
  by (auto simp: known_def dhas_def)













end
