(* ===== verification/Reports.thy ===== *)
theory Reports
  imports OsTree PyOps
begin

text \<open>
  The scripts that carry data to a file or to a person: \<open>shell/pull_data.py\<close> (a table of the backend
  into a file), \<open>shell/scrapy_mem.py\<close> (the server's memory into a log) and \<open>shell/sendmail.py\<close> (an
  error report). The network, the shell and the JSON writer are parameters.
\<close>

section \<open>Pulling a table\<close>

record mg_dump =
  tablename :: string
  dump_args :: "(string \<times> string) list"
  dump_module :: string
  bs_ip :: string

definition CMgDump :: "string \<Rightarrow> string \<Rightarrow> string \<Rightarrow> mg_dump" where
  "CMgDump serverkey dbname tname =
     \<lparr>tablename = tname,
      dump_args = [(''serverkey'', serverkey), (''dbname'', dbname), (''tablename'', tname)],
      dump_module = ''query'', bs_ip = ''127.0.0.1''\<rparr>"

definition text_dict :: "(string \<times> string) list \<Rightarrow> pyval" where
  "text_dict kvs = PDict (map (\<lambda>(k, v). (KStr k, PStr v)) kvs)"

text \<open>The value sent, and the address, method and path it is sent to.\<close>

definition pull_body :: "mg_dump \<Rightarrow> pyval" where
  "pull_body self = PDict [(KStr ''module'', PStr (dump_module self)), (KStr ''cmd'', PStr ''PullData''),
     (KStr ''args'', text_dict (dump_args self))]"

definition pull_request :: "(pyval \<Rightarrow> string) \<Rightarrow> mg_dump \<Rightarrow> string \<times> nat \<times> string \<times> string \<times> string" where
  "pull_request dumps self = (bs_ip self, 20003, ''POST'', ''/backend'', dumps (pull_body self))"

text \<open>\<open>ret\<close> is the answer, read from JSON. The file is emptied first, then grows line by line.\<close>

definition request_data :: "(pyval \<Rightarrow> string res) \<Rightarrow> pyval \<Rightarrow> mg_dump \<Rightarrow> fs \<Rightarrow> fs res" where
  "request_data dumps ret self fs =
     rbind (getitem ret (KStr ''errcode'')) (\<lambda>errcode.
     if \<not> py_eq errcode (PInt 0) then Inr fs else
     let filename = concat [''pulldata/'', tablename self, ''.json''] in
     rbind (if exists_path fs ''pulldata'' then Inr fs
            else case makedirs ''pulldata'' fs of (fs, None) \<Rightarrow> Inr fs | (fs, Some e) \<Rightarrow> Inl OSError) (\<lambda>fs.
     rbind (write_file filename [] fs) (\<lambda>fs.
     rbind (getitem ret (KStr ''data'')) (\<lambda>d.
     rbind (iter_of d) (\<lambda>infos.
     rbind (rmap (\<lambda>info. rbind (dumps info) (\<lambda>content. Inr (content @ [newline]))) infos) (\<lambda>ls.
     write_file filename (concat ls) fs))))))"

definition pull_main :: "(pyval \<Rightarrow> string res) \<Rightarrow> pyval \<Rightarrow> string list \<Rightarrow> fs \<Rightarrow> fs res" where
  "pull_main dumps ret argv fs =
     (if length argv = 4 then request_data dumps ret (CMgDump (argv ! 1) (argv ! 2) (argv ! 3)) fs else Inr fs)"

section \<open>The memory of the server\<close>

definition append_file :: "string \<Rightarrow> string \<Rightarrow> fs \<Rightarrow> fs res" where
  "append_file p c fs =
     (case aget fs p of
        Some (File old) \<Rightarrow> write_file p (old @ c) fs
      | _ \<Rightarrow> write_file p c fs)"

text \<open>\<open>run\<close> gives the output of a shell command, \<open>now\<close> the time, read after the first command.\<close>

definition top_cmd :: string where
  "top_cmd = ''top -b -n 1 |grep skynet''"

definition mem_cmd :: string where
  "mem_cmd = ''echo '' @ [CHR 0x27] @ ''mem'' @ [CHR 0x27] @ '' | nc -q 1 localhost 7001 |grep -E '' @
     [CHR 0x27] @ ''world|TOTAL'' @ [CHR 0x27]"

definition scrapy :: "(string \<Rightarrow> string) \<Rightarrow> string \<Rightarrow> fs \<Rightarrow> fs res" where
  "scrapy run now fs =
     (let lresult = split_on newline (run top_cmd) in
      rbind (if 0 < length lresult
             then append_file ''top-action-5500.log'' (now @ ''  '' @ lresult ! 0 @ [newline]) fs else Inr fs) (\<lambda>fs.
      let lresult = split_on newline (run mem_cmd) in
      if 1 < length lresult
      then append_file ''top-action-mem-5500.log'' (now @ ''  '' @ join '' '' lresult @ [newline]) fs else Inr fs))"

section \<open>Error reports\<close>

record my_email =
  mail_user :: string
  to_list :: "string list"
  cc_list :: "string list"
  mail_tag :: string
  mail_title :: string
  mail_content :: string
  wechat_url :: string
  wechat_ip :: string

definition CMyEmail :: my_email where
  "CMyEmail =
     \<lparr>mail_user = ''n1@cilugame.com'',
      to_list = [''guitian.xie@cilugame.com'', ''yonghao.gu@cilugame.com'', ''lijian.zhan@cilugame.com'',
        ''wei.liu@cilugame.com'', ''cheng.huang@cilugame.com'', ''cilugamedebug@163.com''],
      cc_list = [], mail_tag = ''n1-server-error'', mail_title = [], mail_content = [],
      wechat_url = ''https://172.18.123.209:80/logsend/weixin/5'', wechat_ip = ''172.18.123.209''\<rparr>"

text \<open>The headers set, in order, and the body attached; the writer of the message is a library.\<close>

definition get_attach :: "my_email \<Rightarrow> (string \<times> string) list \<times> string option" where
  "get_attach self =
     ((if mail_tag self \<noteq> [] then [(''Subject'', mail_tag self)] else []) @
      (if mail_user self \<noteq> [] then [(''From'', mail_user self)] else []) @
      (if to_list self \<noteq> [] then [(''To'', join '';'' (to_list self))] else []) @
      (if cc_list self \<noteq> [] then [(''Cc'', join '';'' (cc_list self))] else []),
      if mail_content self \<noteq> [] then Some (mail_content self) else None)"

text \<open>The request of \<open>send_wechat\<close>: host, method, URL, body and headers.\<close>

definition send_wechat ::
  "(pyval \<Rightarrow> string) \<Rightarrow> my_email \<Rightarrow> string \<times> string \<times> string \<times> string \<times> (string \<times> string) list" where
  "send_wechat dumps self =
     (wechat_ip self, ''POST'', wechat_url self,
      dumps (text_dict [(''message'', mail_content self), (''title'', mail_title self)]),
      [(''Host'', wechat_ip self), (''Content-type'', ''application/json'')])"

text \<open>The program: only the second way of sending is used.\<close>

definition mail_main ::
  "(pyval \<Rightarrow> string) \<Rightarrow> string list \<Rightarrow> (string \<times> string \<times> string \<times> string \<times> (string \<times> string) list) option" where
  "mail_main dumps argv =
     (if length argv = 3 \<and> argv ! 2 \<noteq> [] \<and> argv ! 1 \<noteq> []
      then Some (send_wechat dumps (CMyEmail\<lparr>mail_title := argv ! 1, mail_content := argv ! 2\<rparr>)) else None)"

section \<open>What is written\<close>

lemma append_file_File: "parent_ok fs p \<Longrightarrow> \<not> isdir fs p \<Longrightarrow>
  append_file p c fs = Inr (aput fs p (File ((case aget fs p of Some (File old) \<Rightarrow> old | _ \<Rightarrow> []) @ c)))"
  by (auto simp: append_file_def write_file_def split: option.splits node.splits)

text \<open>A run of the log adds a line to the first log, and a line to the second when the server answers.\<close>

lemma scrapy_logs:
  assumes "\<not> isdir fs ''top-action-5500.log''" and "\<not> isdir fs ''top-action-mem-5500.log''"
  shows "\<exists>fs'. scrapy run now fs = Inr fs' \<and>
    (\<forall>p. p \<noteq> ''top-action-5500.log'' \<and> p \<noteq> ''top-action-mem-5500.log'' \<longrightarrow> aget fs' p = aget fs p) \<and>
    (newline \<notin> set (run mem_cmd) \<longrightarrow> aget fs' ''top-action-mem-5500.log'' = aget fs ''top-action-mem-5500.log'')"
proof -
  have p: "parent_ok g ''top-action-5500.log''" "parent_ok g ''top-action-mem-5500.log''" for g
    by (simp_all add: parent_ok_def parent_dir_def)
  have d: "\<not> isdir (aput fs ''top-action-5500.log'' (File c)) ''top-action-mem-5500.log''" for c
    using assms(2) by (simp add: isdir_def)
  show ?thesis
    by (auto simp: scrapy_def Let_def append_file_File [OF p(1) assms(1)] append_file_File [OF p(2) d] split_on_simple
        simp del: rbind_eq_Inr)
qed

end
