(* ===== verification/XlNames.thy ===== *)
theory XlNames
  imports XlsValue
begin

text \<open>
  The names of cells and ranges in xlrd: writing them (\<open>formula.py\<close> and \<open>book.py\<close>) and reading
  them (\<open>xlsx.py\<close>). Rows and columns count from 0 and are integers: in a relative reference they
  are offsets and can be negative.
\<close>

section \<open>Columns\<close>

definition alphabet :: string where
  "alphabet = ''ABCDEFGHIJKLMNOPQRSTUVWXYZ''"

text \<open>\<open>alphabet[i]\<close> with Python's negative indices.\<close>

definition letter :: "int \<Rightarrow> char res" where
  "letter i =
     (if 0 \<le> i \<and> i < 26 then Inr (alphabet ! nat i)
      else if - 26 \<le> i \<and> i < 0 then Inr (alphabet ! nat (26 + i))
      else Inl IndexError)"

text \<open>\<open>formula.colname\<close>: one or two letters.\<close>

definition colname :: "int \<Rightarrow> string res" where
  "colname colx =
     (if colx \<le> 25 then rbind (letter colx) (\<lambda>c. Inr [c])
      else
        let xdiv26 = colx div 26; xmod26 = colx mod 26 in
        rbind (letter (xdiv26 - 1)) (\<lambda>a. rbind (letter xmod26) (\<lambda>b. Inr [a, b])))"

text \<open>\<open>book.colname\<close>: as many letters as needed.\<close>

function colname_loop :: "int \<Rightarrow> string \<Rightarrow> string" where
  "colname_loop colx name =
     (let quot = colx div 26; rem = colx mod 26; name = alphabet ! nat rem # name in
      if quot \<le> 0 then name else colname_loop (quot - 1) name)"
  by pat_completeness auto
termination
proof (relation "measure (\<lambda>(c, n). nat c)", goal_cases)
  case (2 colx name quot rem name')
  moreover have "0 \<le> colx mod 26" and "26 * (colx div 26) + colx mod 26 = colx" by simp_all
  ultimately have "0 < colx div 26" "colx div 26 - 1 < colx" by simp_all
  with 2 show ?case by simp
qed simp

declare colname_loop.simps [simp del]

definition book_colname :: "int \<Rightarrow> string res" where
  "book_colname colx = (if 0 \<le> colx then Inr (colname_loop colx []) else Inl AssertionError)"

section \<open>Cells\<close>

definition rownamerel :: "int \<Rightarrow> bool \<Rightarrow> int option \<Rightarrow> bool \<Rightarrow> string" where
  "rownamerel rowx rowxrel browx r1c1 =
     (let r1c1 = (r1c1 \<or> browx = None) in
      if \<not> rowxrel then (if r1c1 then ''R'' @ str_of_int (rowx + 1) else ''$'' @ str_of_int (rowx + 1))
      else if r1c1 then (if rowx \<noteq> 0 then ''R['' @ str_of_int rowx @ '']'' else ''R'')
      else str_of_int ((the browx + rowx) mod 65536 + 1))"

definition colnamerel :: "int \<Rightarrow> bool \<Rightarrow> int option \<Rightarrow> bool \<Rightarrow> string res" where
  "colnamerel colx colxrel bcolx r1c1 =
     (let r1c1 = (r1c1 \<or> bcolx = None) in
      if \<not> colxrel then
        (if r1c1 then Inr (''C'' @ str_of_int (colx + 1)) else rbind (colname colx) (\<lambda>c. Inr (''$'' @ c)))
      else if r1c1 then Inr (if colx \<noteq> 0 then ''C['' @ str_of_int colx @ '']'' else ''C'')
      else colname ((the bcolx + colx) mod 256))"

definition cellname :: "int \<Rightarrow> int \<Rightarrow> string res" where
  "cellname rowx colx = rbind (colname colx) (\<lambda>c. Inr (c @ str_of_int (rowx + 1)))"

definition cellnameabs :: "int \<Rightarrow> int \<Rightarrow> bool \<Rightarrow> string res" where
  "cellnameabs rowx colx r1c1 =
     (if r1c1 then Inr (''R'' @ str_of_int (rowx + 1) @ ''C'' @ str_of_int (colx + 1))
      else rbind (colname colx) (\<lambda>c. Inr (''$'' @ c @ ''$'' @ str_of_int (rowx + 1))))"

definition cellnamerel :: "int \<Rightarrow> int \<Rightarrow> bool \<Rightarrow> bool \<Rightarrow> int option \<Rightarrow> int option \<Rightarrow> bool \<Rightarrow> string res" where
  "cellnamerel rowx colx rowxrel colxrel browx bcolx r1c1 =
     (if \<not> rowxrel \<and> \<not> colxrel then cellnameabs rowx colx r1c1
      else
        let r1c1 = (r1c1 \<or> rowxrel \<and> browx = None \<or> colxrel \<and> bcolx = None) in
        rbind (colnamerel colx colxrel bcolx r1c1) (\<lambda>c.
        let r = rownamerel rowx rowxrel browx r1c1 in Inr (if r1c1 then r @ c else c @ r)))"

text \<open>\<open>None\<close> in the R1C1 form, which the function does not write.\<close>

definition rangename2d :: "int \<Rightarrow> int \<Rightarrow> int \<Rightarrow> int \<Rightarrow> bool \<Rightarrow> string option res" where
  "rangename2d rlo rhi clo chi r1c1 =
     (if r1c1 then Inr None
      else if rhi = rlo + 1 \<and> chi = clo + 1 then rbind (cellnameabs rlo clo r1c1) (\<lambda>s. Inr (Some s))
      else
        rbind (cellnameabs rlo clo r1c1) (\<lambda>a.
        rbind (cellnameabs (rhi - 1) (chi - 1) r1c1) (\<lambda>b. Inr (Some (a @ '':'' @ b)))))"

definition rangename2drel ::
  "int \<times> int \<times> int \<times> int \<Rightarrow> bool \<times> bool \<times> bool \<times> bool \<Rightarrow> int option \<Rightarrow> int option \<Rightarrow> bool \<Rightarrow> string res" where
  "rangename2drel rng rel browx bcolx r1c1 =
     (let (rlo, rhi, clo, chi) = rng; (rlorel, rhirel, clorel, chirel) = rel;
          r1c1 = (r1c1 \<or> (rlorel \<or> rhirel) \<and> browx = None \<or> (clorel \<or> chirel) \<and> bcolx = None) in
      rbind (cellnamerel rlo clo rlorel clorel browx bcolx r1c1) (\<lambda>a.
      rbind (cellnamerel (rhi - 1) (chi - 1) rhirel chirel browx bcolx r1c1) (\<lambda>b. Inr (a @ '':'' @ b))))"

section \<open>Sheets and ranges of sheets\<close>

definition special_sheets :: "(int \<times> string) list" where
  "special_sheets = [(- 1, ''?internal; any sheet?''), (- 2, ''internal; deleted sheet''),
     (- 3, ''internal; macro sheet''), (- 4, ''<<external>>'')]"

definition quotedsheetname :: "string list \<Rightarrow> int \<Rightarrow> string res" where
  "quotedsheetname shnames shx =
     rbind (if 0 \<le> shx then (if nat shx < length shnames then Inr (shnames ! nat shx) else Inl IndexError)
            else Inr (case map_of special_sheets shx of Some s \<Rightarrow> s | None \<Rightarrow> ''?error '' @ str_of_int shx @ ''?'')) (\<lambda>shname.
     let q = [CHR 0x27] in
     Inr (if CHR 0x27 \<in> set shname then q @ str_replace q (q @ q) shname @ q
          else if CHR '' '' \<in> set shname then q @ shname @ q
          else shname))"

definition sheetrange :: "string list \<Rightarrow> int \<Rightarrow> int \<Rightarrow> string res" where
  "sheetrange shnames slo shi =
     rbind (quotedsheetname shnames slo) (\<lambda>shdesc.
     if slo \<noteq> shi - 1 then rbind (quotedsheetname shnames (shi - 1)) (\<lambda>t. Inr (shdesc @ '':'' @ t))
     else Inr shdesc)"

definition sheetrangerel :: "string list \<Rightarrow> int \<times> int \<Rightarrow> bool \<times> bool \<Rightarrow> string res" where
  "sheetrangerel shnames srange srangerel =
     (let (slo, shi) = srange; (slorel, shirel) = srangerel in
      if \<not> slorel \<and> \<not> shirel then sheetrange shnames slo shi
      else if slo = 0 \<and> 0 = shi - 1 \<and> slorel \<and> shirel then Inr []
      else Inl AssertionError)"

type_synonym ref3d = "(int \<times> int) \<times> int \<times> int \<times> int \<times> int"

definition rangename3d :: "string list \<Rightarrow> ref3d \<Rightarrow> string res" where
  "rangename3d shnames coords =
     (let ((slo, shi), rlo, rhi, clo, chi) = coords in
      rbind (sheetrange shnames slo shi) (\<lambda>s.
      rbind (rangename2d rlo rhi clo chi False) (\<lambda>r. Inr (s @ ''!'' @ the r))))"

definition rangename3drel ::
  "string list \<Rightarrow> ref3d \<Rightarrow> (bool \<times> bool) \<times> bool \<times> bool \<times> bool \<times> bool \<Rightarrow> int option \<Rightarrow> int option \<Rightarrow> bool \<Rightarrow> string res" where
  "rangename3drel shnames coords relflags browx bcolx r1c1 =
     rbind (sheetrangerel shnames (fst coords) (fst relflags)) (\<lambda>shdesc.
     rbind (rangename2drel (snd coords) (snd relflags) browx bcolx r1c1) (\<lambda>rngdesc.
     Inr (if shdesc = [] then rngdesc else shdesc @ ''!'' @ rngdesc)))"

section \<open>Reading a cell name\<close>

text \<open>The value of a character: a letter, a digit that ends the letters, or neither.\<close>

definition letter_value :: "char \<Rightarrow> int option" where
  "letter_value c =
     (case find (\<lambda>i. alphabet ! i = c) [0..<26] of
        Some i \<Rightarrow> Some (int i + 1)
      | None \<Rightarrow> if c \<in> set ''123456789'' then Some 0 else None)"

definition X12_MAX_COLS :: int where "X12_MAX_COLS = 2 ^ 14"

text \<open>The loop: the column and the text from the character it stopped at.\<close>

fun name_loop :: "int \<Rightarrow> string \<Rightarrow> (int \<times> string) res" where
  "name_loop colx [] = Inr (colx, [])"
| "name_loop colx (c # s) =
     (case letter_value c of
        None \<Rightarrow> Inl AnyException
      | Some lv \<Rightarrow>
          if lv \<noteq> 0 then
            (if s = [] then Inr (colx * 26 + lv, [c]) else name_loop (colx * 26 + lv) s)
          else
            let colx = colx - 1 in
            if 0 \<le> colx \<and> colx < X12_MAX_COLS then Inr (colx, c # s) else Inl AssertionError)"

text \<open>\<open>int(s)\<close>, which unlike the conversion of the \<open>future\<close> package takes no \<open>L\<close> at the end.\<close>

definition builtin_int :: "string \<Rightarrow> int res" where
  "builtin_int s = (if CHR ''L'' \<in> set s \<or> CHR ''l'' \<in> set s then Inl ValueError else of_option ValueError (int_text s))"

definition cell_name_to_rowx_colx :: "string \<Rightarrow> (int \<times> int) res" where
  "cell_name_to_rowx_colx cell_name =
     rbind (name_loop 0 cell_name) (\<lambda>(colx, rest).
     rbind (builtin_int rest) (\<lambda>n. Inr (n - 1, colx)))"
section \<open>Names read back\<close>

lemma alphabet_value: "i < 26 \<Longrightarrow> letter_value (alphabet ! i) = Some (int i + 1)"
proof -
  have "list_all (\<lambda>i. letter_value (alphabet ! i) = Some (int i + 1)) [0..<26]"
    by (simp add: upt_rec letter_value_def alphabet_def)
  then show "i < 26 \<Longrightarrow> ?thesis" by (simp add: list_all_iff)
qed

definition is_letter :: "char \<Rightarrow> bool" where
  "is_letter c \<longleftrightarrow> (\<exists>i<26. c = alphabet ! i)"

text \<open>What the letters say, with \<open>a\<close> in front.\<close>

fun col_value_of :: "int \<Rightarrow> string \<Rightarrow> int" where
  "col_value_of a [] = a"
| "col_value_of a (c # s) = col_value_of (a * 26 + the (letter_value c)) s"

lemma colname_loop_value: "0 \<le> colx \<Longrightarrow> col_value_of 0 (colname_loop colx name) = col_value_of (colx + 1) name"
proof (induction colx name rule: colname_loop.induct)
  case (1 colx name)
  have l: "letter_value (alphabet ! nat (colx mod 26)) = Some (colx mod 26 + 1)"
    using alphabet_value [of "nat (colx mod 26)"] by simp
  have d: "26 * (colx div 26) + colx mod 26 = colx" by simp
  show ?case
  proof (cases "colx div 26 \<le> 0")
    case True
    moreover have "0 \<le> colx div 26" using 1(2) by (simp add: pos_imp_zdiv_nonneg_iff)
    ultimately show ?thesis using d l by (subst colname_loop.simps) (simp add: Let_def)
  next
    case False
    with 1(1) [OF refl refl refl False] l d show ?thesis
      by (subst colname_loop.simps) (simp add: Let_def mult.commute [of _ 26] add.assoc [symmetric])
  qed
qed

lemma colname_loop_letters: "0 \<le> colx \<Longrightarrow> list_all is_letter name \<Longrightarrow>
  list_all is_letter (colname_loop colx name) \<and> colname_loop colx name \<noteq> []"
proof (induction colx name rule: colname_loop.induct)
  case (1 colx name)
  have l: "is_letter (alphabet ! nat (colx mod 26))" unfolding is_letter_def by (rule exI [of _ "nat (colx mod 26)"]) auto
  show ?case
  proof (cases "colx div 26 \<le> 0")
    case True
    with l 1 show ?thesis by (subst (1 2) colname_loop.simps) (simp add: Let_def)
  next
    case False
    with 1(1) [OF refl refl refl False] l 1(2,3) show ?thesis
      by (subst (1 2) colname_loop.simps) (simp add: Let_def)
  qed
qed

lemma name_loop_letters:
  assumes "list_all is_letter s" and "letter_value d = Some 0"
    and "0 < col_value_of a s" and "col_value_of a s \<le> X12_MAX_COLS"
  shows "name_loop a (s @ d # ds) = Inr (col_value_of a s - 1, d # ds)"
  using assms
proof (induction s arbitrary: a)
  case (Cons c s)
  then obtain i where "i < 26" "letter_value c = Some (int i + 1)" by (auto simp: is_letter_def alphabet_value)
  with Cons show ?case by simp
qed (simp add: Let_def)

lemma first_digit: "0 < n \<Longrightarrow> \<exists>d ds. str_of_int n = d # ds \<and> letter_value d = Some 0"
proof -
  assume n: "0 < n"
  obtain d ds where s: "str_of_int n = d # ds" by (cases "str_of_int n") auto
  then have sn: "str_of_nat (nat n) = d # ds" using n by (simp add: str_of_int_def)
  then have "is_digit d" using str_of_nat_digits [of "nat n"] by simp
  moreover have "d \<noteq> CHR ''0''" using str_of_nat_hd [of "nat n"] sn n by simp
  moreover have "is_digit d \<longleftrightarrow> (\<exists>k<10. d = digit_char k)" using digit_char_val [of d] digit_val_less [of d] by (metis is_digit_char)
  ultimately obtain k where k: "d = digit_char k" "k < 10" "k \<noteq> 0" by (metis digit_char_0)
  have "list_all (\<lambda>k. letter_value (digit_char k) = Some 0) [1..<10]"
    by (simp add: upt_rec digit_char_def letter_value_def alphabet_def)
  then have "letter_value d = Some 0" using k by (simp add: list_all_iff)
  with s show ?thesis by blast
qed

lemma int_text_no_suffix: "0 \<le> n \<Longrightarrow> CHR ''L'' \<notin> set (str_of_int n) \<and> CHR ''l'' \<notin> set (str_of_int n)"
  using str_of_nat_digits [of "nat n"] by (auto simp: str_of_int_def list_all_iff is_digit_def)

lemma book_name_read:
  assumes "0 \<le> rowx" and "0 \<le> colx" and "colx < X12_MAX_COLS"
  shows "cell_name_to_rowx_colx (colname_loop colx [] @ str_of_int (rowx + 1)) = Inr (rowx, colx)"
proof -
  obtain d ds where d: "str_of_int (rowx + 1) = d # ds" "letter_value d = Some 0" using first_digit [of "rowx + 1"] assms(1) by auto
  have v: "col_value_of 0 (colname_loop colx []) = colx + 1" using colname_loop_value [OF assms(2), of "[]"] by simp
  have "name_loop 0 (colname_loop colx [] @ str_of_int (rowx + 1)) = Inr (colx, str_of_int (rowx + 1))"
    unfolding d(1) using name_loop_letters [OF _ d(2), of "colname_loop colx []" 0 ds] colname_loop_letters [OF assms(2), of "[]"] v assms(2,3) by simp
  then show ?thesis using int_text_no_suffix [of "rowx + 1"] assms(1)
    by (simp add: cell_name_to_rowx_colx_def builtin_int_def)
qed

lemma colname_book:
  assumes "0 \<le> colx"
  shows "colname colx = (if colx < 702 then Inr (colname_loop colx []) else Inl IndexError)"
proof -
  have d: "26 * (colx div 26) + colx mod 26 = colx" "0 \<le> colx mod 26" "colx mod 26 < 26" by simp_all
  consider "colx \<le> 25" | "25 < colx" "colx < 702" | "702 \<le> colx" by linarith
  then show ?thesis
  proof cases
    case 1
    with assms have "colx div 26 = 0" "colx mod 26 = colx" by simp_all
    with 1 assms show ?thesis by (subst colname_loop.simps) (simp add: colname_def letter_def Let_def)
  next
    case 2
    with d have q: "0 < colx div 26" "colx div 26 - 1 \<le> 25" by linarith+
    then have "(colx div 26 - 1) div 26 = 0" "(colx div 26 - 1) mod 26 = colx div 26 - 1" by simp_all
    note dd = this and h = 2(2) 2(1) [THEN not_le [THEN iffD2]]
    show ?thesis
      by (subst colname_loop.simps, subst colname_loop.simps)
        (use q in \<open>simp add: colname_def letter_def Let_def h dd\<close>)
  next
    case 3
    with d have "26 \<le> colx div 26 - 1" by linarith
    with 3 show ?thesis by (simp add: colname_def letter_def Let_def)
  qed
qed

text \<open>
  C30: the name \<open>formula.cellname\<close> gives a cell is read back by the reader of the other file format as
  the same row and column, for the columns up to \<open>ZZ\<close>; beyond them it stops with an \<open>IndexError\<close>.
  The column names of \<open>book.py\<close> are read back for every column a sheet can have, and are the
  same names where both exist.
\<close>
theorem cellname_roundtrip:
  assumes "0 \<le> rowx" and "0 \<le> colx"
  shows "(colx < 702 \<longrightarrow> (\<exists>s. cellname rowx colx = Inr s \<and> cell_name_to_rowx_colx s = Inr (rowx, colx) \<and>
      rbind (book_colname colx) (\<lambda>c. Inr (c @ str_of_int (rowx + 1))) = Inr s)) \<and>
    (702 \<le> colx \<longrightarrow> cellname rowx colx = Inl IndexError) \<and>
    (colx < X12_MAX_COLS \<longrightarrow> (\<exists>c. book_colname colx = Inr c \<and>
      cell_name_to_rowx_colx (c @ str_of_int (rowx + 1)) = Inr (rowx, colx)))"
proof -
  have m: "702 < X12_MAX_COLS" by (simp add: X12_MAX_COLS_def)
  have "book_colname colx = Inr (colname_loop colx [])" using assms(2) by (simp add: book_colname_def)
  then show ?thesis
    using book_name_read [OF assms] colname_book [OF assms(2)] m by (auto simp: cellname_def)
qed

lemma cellname_roundtrip_witness:
  "\<exists>s. cellname 5 27 = Inr s \<and> cell_name_to_rowx_colx s = Inr (5, 27)"
  using cellname_roundtrip [of 5 27] by auto

end
