(* ===== verification/XlGrid.thy ===== *)
theory XlGrid
  imports PyOps PyStruct
begin

text \<open>
  The cells of a sheet in xlrd (\<open>sheet.py\<close>): three tables of rows (types, values, format indexes)
  that grow as cells are put in, in whatever order the records of the file give them, and the
  functions that read rows and columns back. Rows and columns come from unsigned fields of the
  records, so they are natural numbers.
\<close>

section \<open>The state\<close>

record sheet_conf =
  formatting_info :: bool
  utter_max_rows :: nat
  utter_max_cols :: nat
  xf_index_to_type :: "int \<Rightarrow> nat option"

record grid =
  nrows :: nat
  ncols :: nat
  first_full_rowx :: int
  cell_types :: "nat list list"
  cell_values :: "pyval list list"
  cell_xf_indexes :: "int list list"

definition XL_CELL_EMPTY :: nat where "XL_CELL_EMPTY = 0"

definition empty_grid :: grid where
  "empty_grid = \<lparr>nrows = 0, ncols = 0, first_full_rowx = - 1, cell_types = [], cell_values = [], cell_xf_indexes = []\<rparr>"

definition no_value :: pyval where "no_value = PStr []"

section \<open>Putting a cell\<close>

text \<open>\<open>table[rowx][colx] = x\<close>.\<close>

definition table_set :: "nat \<Rightarrow> nat \<Rightarrow> 'a \<Rightarrow> 'a list list \<Rightarrow> 'a list list res" where
  "table_set rowx colx x t =
     (if rowx < length t \<and> colx < length (t ! rowx) then Inr (t[rowx := (t ! rowx)[colx := x]]) else Inl IndexError)"

text \<open>\<open>row.extend([x] * n)\<close> for one row, and new rows of one length.\<close>

definition widen_row :: "nat \<Rightarrow> nat \<Rightarrow> 'a \<Rightarrow> 'a list list \<Rightarrow> 'a list list" where
  "widen_row rowx n x t = t[rowx := t ! rowx @ replicate n x]"

definition add_rows :: "nat \<Rightarrow> nat \<Rightarrow> 'a \<Rightarrow> 'a list list \<Rightarrow> 'a list list" where
  "add_rows n nc x t = t @ replicate n (replicate nc x)"

definition store_cell :: "sheet_conf \<Rightarrow> nat \<Rightarrow> nat \<Rightarrow> nat \<Rightarrow> pyval \<Rightarrow> int \<Rightarrow> grid \<Rightarrow> grid res" where
  "store_cell cf rowx colx ctype val xf_index s =
     rbind (table_set rowx colx ctype (cell_types s)) (\<lambda>ts.
     rbind (table_set rowx colx val (cell_values s)) (\<lambda>vs.
     rbind (if formatting_info cf then table_set rowx colx xf_index (cell_xf_indexes s) else Inr (cell_xf_indexes s)) (\<lambda>xs.
     Inr (s\<lparr>cell_types := ts, cell_values := vs, cell_xf_indexes := xs\<rparr>))))"

text \<open>The extension of a grid to a cell it does not have.\<close>

definition bump_cols :: "nat \<Rightarrow> nat \<Rightarrow> grid \<Rightarrow> grid" where
  "bump_cols rowx colx s =
     (let nr = rowx + 1; nc = colx + 1 in
      if ncols s < nc then
        let s = s\<lparr>ncols := nc\<rparr> in
        if nr < nrows s then s\<lparr>first_full_rowx := - 2\<rparr>
        else if first_full_rowx s < int rowx \<and> - 2 < first_full_rowx s then s\<lparr>first_full_rowx := int rowx\<rparr>
        else s
      else s)"

definition extend_cells :: "sheet_conf \<Rightarrow> nat \<Rightarrow> nat \<Rightarrow> grid \<Rightarrow> grid res" where
  "extend_cells cf rowx colx s =
     (let nr = rowx + 1; nc = colx + 1 in
      if \<not> nc \<le> utter_max_cols cf then Inl AssertionError
      else if \<not> nr \<le> utter_max_rows cf then Inl AssertionError
      else
        let s = bump_cols rowx colx s in
        if nr \<le> nrows s then
          let nextra = ncols s - length (cell_types s ! rowx) in
          Inr (s\<lparr>cell_types := widen_row rowx nextra XL_CELL_EMPTY (cell_types s),
                 cell_xf_indexes := (if formatting_info cf then widen_row rowx nextra (- 1) (cell_xf_indexes s) else cell_xf_indexes s),
                 cell_values := widen_row rowx nextra no_value (cell_values s)\<rparr>)
        else
          let n = nr - nrows s in
          Inr (s\<lparr>cell_types := add_rows n (ncols s) XL_CELL_EMPTY (cell_types s),
                 cell_values := add_rows n (ncols s) no_value (cell_values s),
                 cell_xf_indexes := (if formatting_info cf then add_rows n (ncols s) (- 1) (cell_xf_indexes s) else cell_xf_indexes s),
                 nrows := nr\<rparr>))"

definition cell_type_of :: "sheet_conf \<Rightarrow> nat option \<Rightarrow> int \<Rightarrow> nat res" where
  "cell_type_of cf ctype xf_index =
     (case ctype of Some t \<Rightarrow> Inr t | None \<Rightarrow> of_option KeyError (xf_index_to_type cf xf_index))"

definition put_cell_unragged :: "sheet_conf \<Rightarrow> nat \<Rightarrow> nat \<Rightarrow> nat option \<Rightarrow> pyval \<Rightarrow> int \<Rightarrow> grid \<Rightarrow> grid res" where
  "put_cell_unragged cf rowx colx ctype val xf_index s =
     rbind (cell_type_of cf ctype xf_index) (\<lambda>ctype.
     case store_cell cf rowx colx ctype val xf_index s of
       Inr s' \<Rightarrow> Inr s'
     | Inl e \<Rightarrow> rbind (extend_cells cf rowx colx s) (store_cell cf rowx colx ctype val xf_index))"

text \<open>With \<open>ragged_rows\<close> a row ends with its last cell.\<close>

definition ragged_rows :: "sheet_conf \<Rightarrow> nat \<Rightarrow> grid \<Rightarrow> grid" where
  "ragged_rows cf nr s =
     (if nrows s < nr then
        let n = nr - nrows s in
        s\<lparr>cell_types := add_rows n 0 XL_CELL_EMPTY (cell_types s), cell_values := add_rows n 0 no_value (cell_values s),
          cell_xf_indexes := (if formatting_info cf then add_rows n 0 (- 1) (cell_xf_indexes s) else cell_xf_indexes s),
          nrows := nr\<rparr>
      else s)"

definition put_cell_ragged :: "sheet_conf \<Rightarrow> nat \<Rightarrow> nat \<Rightarrow> nat option \<Rightarrow> pyval \<Rightarrow> int \<Rightarrow> grid \<Rightarrow> grid res" where
  "put_cell_ragged cf rowx colx ctype val xf_index s =
     rbind (cell_type_of cf ctype xf_index) (\<lambda>ctype.
     if \<not> colx < utter_max_cols cf then Inl AssertionError
     else if \<not> rowx < utter_max_rows cf then Inl AssertionError
     else
       let s = ragged_rows cf (rowx + 1) s;
           ltr = length (cell_types s ! rowx);
           s = s\<lparr>ncols := max (ncols s) (colx + 1)\<rparr> in
       if colx = ltr then
         Inr (s\<lparr>cell_types := widen_row rowx 1 ctype (cell_types s), cell_values := widen_row rowx 1 val (cell_values s),
                cell_xf_indexes := (if formatting_info cf then widen_row rowx 1 xf_index (cell_xf_indexes s) else cell_xf_indexes s)\<rparr>)
       else
         let n = (if ltr < colx then colx - ltr + 1 else 0);
             s = s\<lparr>cell_types := widen_row rowx n XL_CELL_EMPTY (cell_types s), cell_values := widen_row rowx n no_value (cell_values s),
                   cell_xf_indexes := (if formatting_info cf then widen_row rowx n (- 1) (cell_xf_indexes s) else cell_xf_indexes s)\<rparr>
         in store_cell cf rowx colx ctype val xf_index s)"

section \<open>The end of the sheet\<close>

type_synonym crange = "nat \<times> nat \<times> nat \<times> nat"

text \<open>The last row and column of the merged ranges, and a cell there when there is none.\<close>

definition merged_extent :: "crange list \<Rightarrow> nat \<times> nat" where
  "merged_extent ranges = fold (\<lambda>(rlo, rhi, clo, chi) (nr, nc). (max nr rhi, max nc chi)) ranges (0, 0)"

definition fit_merged :: "(nat \<Rightarrow> nat \<Rightarrow> nat option \<Rightarrow> pyval \<Rightarrow> int \<Rightarrow> grid \<Rightarrow> grid res) \<Rightarrow> crange list \<Rightarrow> grid \<Rightarrow> grid res" where
  "fit_merged put ranges s =
     (if ranges = [] then Inr s
      else
        let (nr, nc) = merged_extent ranges;
            s = (if ncols s < nc then s\<lparr>ncols := nc\<rparr> else s) in
        if nrows s < nr then put (nr - 1) 0 (Some XL_CELL_EMPTY) no_value (- 1) s else Inr s)"

definition pad_rows :: "nat \<Rightarrow> nat \<Rightarrow> 'a \<Rightarrow> 'a list list \<Rightarrow> 'a list list" where
  "pad_rows ubound nc x t =
     map (\<lambda>row. row @ replicate (nc - length row) x) (take ubound t) @ drop ubound t"

definition tidy_dimensions :: "sheet_conf \<Rightarrow> bool \<Rightarrow> crange list \<Rightarrow> grid \<Rightarrow> grid res" where
  "tidy_dimensions cf ragged ranges s =
     rbind (fit_merged (if ragged then put_cell_ragged cf else put_cell_unragged cf) ranges s) (\<lambda>s.
     if ragged then Inr s
     else
       let ubound = (if first_full_rowx s = - 2 then nrows s else nat (first_full_rowx s)) in
       Inr (s\<lparr>cell_types := pad_rows ubound (ncols s) XL_CELL_EMPTY (cell_types s),
              cell_values := pad_rows ubound (ncols s) no_value (cell_values s),
              cell_xf_indexes := (if formatting_info cf then pad_rows ubound (ncols s) (- 1) (cell_xf_indexes s) else cell_xf_indexes s)\<rparr>))"
section \<open>Tables\<close>

text \<open>The row_lens of a table, and its entry at a place or the filler where it has none.\<close>

definition row_lens :: "'a list list \<Rightarrow> nat list" where
  "row_lens t = map length t"

definition entry :: "'a \<Rightarrow> 'a list list \<Rightarrow> nat \<Rightarrow> nat \<Rightarrow> 'a" where
  "entry x t r c = (if r < length t \<and> c < length (t ! r) then t ! r ! c else x)"

named_theorems table_simps \<open>shapes and entries of changed tables\<close>

lemma row_lens_length [simp]: "length (row_lens t) = length t"
  by (simp add: row_lens_def)

lemma row_lens_nth [simp]: "r < length t \<Longrightarrow> row_lens t ! r = length (t ! r)"
  by (simp add: row_lens_def)

lemma same_shape_length: "row_lens t = row_lens u \<Longrightarrow> length t = length u"
  by (metis row_lens_length)

lemma table_set_Inr: "table_set r c x t = (if r < length (row_lens t) \<and> c < row_lens t ! r then Inr (t[r := (t ! r)[c := x]]) else Inl IndexError)"
  by (simp add: table_set_def)

lemma row_lens_set [table_simps]: "row_lens (t[r := (t ! r)[c := x]]) = row_lens t"
  by (cases "r < length t") (simp_all add: row_lens_def map_update list_update_same_conv list_update_beyond)

lemma entry_set [table_simps]:
  "r < length t \<Longrightarrow> c < length (t ! r) \<Longrightarrow>
   entry d (t[r := (t ! r)[c := x]]) r' c' = (if r' = r \<and> c' = c then x else entry d t r' c')"
  by (auto simp: entry_def nth_list_update)

lemma length_changed [table_simps]:
  "length (widen_row r n x t) = length t" "length (add_rows n nc x t) = length t + n" "length (pad_rows u nc x t) = length t"
  by (simp_all add: widen_row_def add_rows_def pad_rows_def min_def)

lemma row_lens_widen [table_simps]: "r < length t \<Longrightarrow> row_lens (widen_row r n x t) = (row_lens t)[r := length (t ! r) + n]"
  by (simp add: row_lens_def widen_row_def map_update)

lemma entry_widen [table_simps]: "r < length t \<Longrightarrow> entry x (widen_row r n x t) r' c' = entry x t r' c'"
  by (auto simp: entry_def widen_row_def nth_list_update nth_append)

lemma row_lens_add [table_simps]: "row_lens (add_rows n nc x t) = row_lens t @ replicate n nc"
  by (simp add: row_lens_def add_rows_def)

lemma entry_add [table_simps]: "entry x (add_rows n nc x t) r c = entry x t r c"
  by (auto simp: entry_def add_rows_def nth_append)

lemma row_lens_pad [table_simps]: "row_lens (pad_rows u nc x t) = map (\<lambda>l. max l nc) (take u (row_lens t)) @ drop u (row_lens t)"
  by (auto simp: row_lens_def pad_rows_def take_map drop_map)

lemma entry_pad [table_simps]: "entry x (pad_rows u nc x t) r c = entry x t r c"
  by (auto simp: entry_def pad_rows_def nth_append)

section \<open>Well-formed grids\<close>

text \<open>
  The three tables have one row_lens, of \<open>nrows\<close> rows, none longer than \<open>ncols\<close>, and the promise of
  \<open>first_full_rowx\<close>: the row with this number and all rows after it are full.
\<close>

definition grid_ok :: "sheet_conf \<Rightarrow> grid \<Rightarrow> bool" where
  "grid_ok cf s \<longleftrightarrow> row_lens (cell_values s) = row_lens (cell_types s) \<and>
     (formatting_info cf \<longrightarrow> row_lens (cell_xf_indexes s) = row_lens (cell_types s)) \<and>
     length (cell_types s) = nrows s \<and> (\<forall>l \<in> set (row_lens (cell_types s)). l \<le> ncols s) \<and>
     - 2 \<le> first_full_rowx s \<and>
     (\<forall>r < nrows s. first_full_rowx s \<noteq> - 2 \<and> first_full_rowx s \<le> int r \<longrightarrow> row_lens (cell_types s) ! r = ncols s)"

definition value_at :: "grid \<Rightarrow> nat \<Rightarrow> nat \<Rightarrow> pyval" where
  "value_at s = entry no_value (cell_values s)"

definition type_at :: "grid \<Rightarrow> nat \<Rightarrow> nat \<Rightarrow> nat" where
  "type_at s = entry XL_CELL_EMPTY (cell_types s)"

lemma grid_lens:
  assumes "grid_ok cf s"
  shows "length (cell_values s) = nrows s" and "length (cell_types s) = nrows s"
    and "formatting_info cf \<Longrightarrow> length (cell_xf_indexes s) = nrows s"
    and "row_lens (cell_values s) = row_lens (cell_types s)"
    and "formatting_info cf \<Longrightarrow> row_lens (cell_xf_indexes s) = row_lens (cell_types s)"
    and "l \<in> set (row_lens (cell_types s)) \<Longrightarrow> l \<le> ncols s"
  using assms same_shape_length [of "cell_values s" "cell_types s"]
    same_shape_length [of "cell_xf_indexes s" "cell_types s"] by (auto simp: grid_ok_def)

lemma empty_grid_ok: "grid_ok cf empty_grid"
  by (simp add: grid_ok_def empty_grid_def row_lens_def)

text \<open>What putting a cell means.\<close>

definition cell_put :: "nat \<Rightarrow> nat \<Rightarrow> nat \<Rightarrow> pyval \<Rightarrow> grid \<Rightarrow> grid \<Rightarrow> bool" where
  "cell_put r c t v s s' \<longleftrightarrow>
     (\<forall>r' c'. value_at s' r' c' = (if r' = r \<and> c' = c then v else value_at s r' c')) \<and>
     (\<forall>r' c'. type_at s' r' c' = (if r' = r \<and> c' = c then t else type_at s r' c')) \<and>
     nrows s' = max (nrows s) (r + 1) \<and> ncols s' = max (ncols s) (c + 1)"

lemma store_cell_run:
  assumes "grid_ok cf s"
  shows "store_cell cf r c t v xf s =
    (if r < nrows s \<and> c < row_lens (cell_types s) ! r
     then Inr (s\<lparr>cell_types := (cell_types s)[r := (cell_types s ! r)[c := t]],
                 cell_values := (cell_values s)[r := (cell_values s ! r)[c := v]],
                 cell_xf_indexes := (if formatting_info cf then (cell_xf_indexes s)[r := (cell_xf_indexes s ! r)[c := xf]]
                   else cell_xf_indexes s)\<rparr>)
     else Inl IndexError)"
proof -
  note l = grid_lens(1-3) [OF assms] and sh = grid_lens(4,5) [OF assms]
  show ?thesis
    by (auto simp: store_cell_def table_set_Inr l sh simp del: rbind_eq_Inr)
qed

lemma store_cell_put:
  assumes ok: "grid_ok cf s" and i: "r < nrows s" "c < row_lens (cell_types s) ! r" and "store_cell cf r c t v xf s = Inr s'"
  shows "grid_ok cf s' \<and> cell_put r c t v s s'"
proof -
  note l = grid_lens(1,2) [OF ok]
  have c: "c < length (cell_values s ! r)" "c < length (cell_types s ! r)"
    using ok i l by (auto simp: grid_ok_def dest!: arg_cong [of _ _ "\<lambda>sh. sh ! r"])
  have "row_lens (cell_types s) ! r \<in> set (row_lens (cell_types s))" using nth_mem [of r "row_lens (cell_types s)"] i(1) l by simp
  then have "c < ncols s" using ok i unfolding grid_ok_def by fastforce
  moreover have "s' = s\<lparr>cell_types := (cell_types s)[r := (cell_types s ! r)[c := t]],
                 cell_values := (cell_values s)[r := (cell_values s ! r)[c := v]],
                 cell_xf_indexes := (if formatting_info cf then (cell_xf_indexes s)[r := (cell_xf_indexes s ! r)[c := xf]]
                   else cell_xf_indexes s)\<rparr>"
    using assms(4) i by (simp add: store_cell_run [OF ok])
  ultimately show ?thesis
    using ok i l c by (simp add: grid_ok_def cell_put_def value_at_def type_at_def table_simps)
qed

section \<open>Extending\<close>

definition same_cells :: "grid \<Rightarrow> grid \<Rightarrow> bool" where
  "same_cells s s' \<longleftrightarrow> value_at s' = value_at s \<and> type_at s' = type_at s"

lemma bump_cols_fields:
  "nrows (bump_cols r c s) = nrows s" "ncols (bump_cols r c s) = max (ncols s) (c + 1)"
  "cell_types (bump_cols r c s) = cell_types s" "cell_values (bump_cols r c s) = cell_values s"
  "cell_xf_indexes (bump_cols r c s) = cell_xf_indexes s"
  by (auto simp: bump_cols_def Let_def)

text \<open>The first full row is given up, or stays with the width, or is the row of the cell.\<close>

lemma bump_cols_full:
  fixes r c s
  defines "f \<equiv> first_full_rowx (bump_cols r c s)"
  assumes "- 2 \<le> first_full_rowx s"
  shows "- 2 \<le> f"
    and "f = - 2 \<or> f = first_full_rowx s \<and> (ncols (bump_cols r c s) = ncols s \<or> int r \<le> first_full_rowx s \<and> nrows s \<le> r + 1)
      \<or> f = int r \<and> nrows s \<le> r + 1"
  using assms(2) by (auto simp: f_def bump_cols_def Let_def)

lemma full_row:
  assumes "grid_ok cf s" and "i < nrows s" and "first_full_rowx s \<noteq> - 2" and "first_full_rowx s \<le> int i"
  shows "row_lens (cell_types s) ! i = ncols s"
  using assms unfolding grid_ok_def by blast

text \<open>A cell in a row that is there: the row is widened.\<close>

lemma extend_row_ok:
  assumes ok: "grid_ok cf s" and r: "r < nrows s" and lim: "r < utter_max_rows cf" "c < utter_max_cols cf"
  shows "\<exists>s'. extend_cells cf r c s = Inr s' \<and> grid_ok cf s' \<and> same_cells s s' \<and> nrows s' = nrows s
    \<and> ncols s' = max (ncols s) (c + 1) \<and> row_lens (cell_types s') ! r = max (ncols s) (c + 1)"
proof -
  let ?b = "bump_cols r c s"
  note b = bump_cols_fields [of r c s]
  note l = grid_lens(1-3) [OF ok] and sh = grid_lens(4,5) [OF ok] and le = grid_lens(6) [OF ok]
  have m2: "- 2 \<le> first_full_rowx s" using ok by (simp add: grid_ok_def)
  note kept = bump_cols_full [OF m2, of r c]
  define n where "n = ncols ?b - length (cell_types s ! r)"
  define s' where "s' = ?b\<lparr>cell_types := widen_row r n XL_CELL_EMPTY (cell_types s),
               cell_xf_indexes := (if formatting_info cf then widen_row r n (- 1) (cell_xf_indexes s) else cell_xf_indexes s),
               cell_values := widen_row r n no_value (cell_values s)\<rparr>"
  have e: "extend_cells cf r c s = Inr s'"
    using lim r by (simp add: extend_cells_def Let_def b s'_def n_def)
  have "row_lens (cell_types s) ! r \<le> ncols s" using le r l by (metis nth_mem row_lens_length)
  then have len: "length (cell_types s ! r) + n = ncols ?b" using r l by (simp add: n_def b)
  have lv: "length (cell_values s ! r) = length (cell_types s ! r)"
    "formatting_info cf \<Longrightarrow> length (cell_xf_indexes s ! r) = length (cell_types s ! r)"
    using sh l r by (metis row_lens_nth)+
  have sh': "row_lens (cell_types s') = (row_lens (cell_types s))[r := ncols ?b]"
    using r l by (simp add: s'_def table_simps len)
  have "row_lens (cell_types s') ! i = ncols ?b"
    if "i < nrows s" "first_full_rowx ?b \<noteq> - 2" "first_full_rowx ?b \<le> int i" for i
    using that kept(2) full_row [OF ok that(1)] l r by (cases "i = r") (auto simp: sh')
  moreover have "x \<le> ncols ?b" if "x \<in> set (row_lens (cell_types s'))" for x
    using that le b(2) by (fastforce simp: sh' dest!: set_update_subset_insert [THEN subsetD])
  ultimately have "grid_ok cf s'"
    using r l sh kept(1) by (simp add: grid_ok_def s'_def table_simps lv b(1))
  moreover have "same_cells s s'"
    using r l by (simp add: same_cells_def value_at_def type_at_def s'_def table_simps fun_eq_iff)
  moreover have "row_lens (cell_types s') ! r = ncols ?b" using r l by (simp add: sh')
  ultimately show ?thesis using e b by (intro exI [of _ s']) (simp add: s'_def)
qed

text \<open>A cell below the last row: rows of the full width are appended.\<close>

lemma extend_rows_ok:
  assumes ok: "grid_ok cf s" and r: "nrows s \<le> r" and lim: "r < utter_max_rows cf" "c < utter_max_cols cf"
  shows "\<exists>s'. extend_cells cf r c s = Inr s' \<and> grid_ok cf s' \<and> same_cells s s' \<and> nrows s' = r + 1
    \<and> ncols s' = max (ncols s) (c + 1) \<and> row_lens (cell_types s') ! r = max (ncols s) (c + 1)"
proof -
  let ?b = "bump_cols r c s"
  note b = bump_cols_fields [of r c s]
  note l = grid_lens(1-3) [OF ok] and sh = grid_lens(4,5) [OF ok] and le = grid_lens(6) [OF ok]
  have m2: "- 2 \<le> first_full_rowx s" using ok by (simp add: grid_ok_def)
  note kept = bump_cols_full [OF m2, of r c]
  define n where "n = r + 1 - nrows s"
  define s' where "s' = ?b\<lparr>cell_types := add_rows n (ncols ?b) XL_CELL_EMPTY (cell_types s),
               cell_values := add_rows n (ncols ?b) no_value (cell_values s),
               cell_xf_indexes := (if formatting_info cf then add_rows n (ncols ?b) (- 1) (cell_xf_indexes s) else cell_xf_indexes s),
               nrows := r + 1\<rparr>"
  have e: "extend_cells cf r c s = Inr s'"
    using lim r by (simp add: extend_cells_def Let_def b s'_def n_def)
  have sh': "row_lens (cell_types s') = row_lens (cell_types s) @ replicate n (ncols ?b)"
    by (simp add: s'_def table_simps)
  have nl: "nrows s + n = r + 1" using r by (simp add: n_def)
  have "row_lens (cell_types s') ! i = ncols ?b"
    if "i < r + 1" "first_full_rowx ?b \<noteq> - 2" "first_full_rowx ?b \<le> int i" for i
    using that kept(2) full_row [OF ok, of i] l r nl by (cases "i < nrows s") (auto simp: sh' nth_append)
  moreover have "x \<le> ncols ?b" if "x \<in> set (row_lens (cell_types s'))" for x
    using that le b(2) by (fastforce simp: sh')
  ultimately have "grid_ok cf s'"
    using l sh kept(1) nl by (simp add: grid_ok_def s'_def table_simps)
  moreover have "same_cells s s'" by (simp add: same_cells_def value_at_def type_at_def s'_def table_simps fun_eq_iff)
  moreover have "row_lens (cell_types s') ! r = ncols ?b" using l nl r by (simp add: sh' nth_append)
  ultimately show ?thesis using e b by (intro exI [of _ s']) (simp add: s'_def)
qed

lemma extend_cells_ok:
  assumes "grid_ok cf s" and "r < utter_max_rows cf" "c < utter_max_cols cf"
  shows "\<exists>s'. extend_cells cf r c s = Inr s' \<and> grid_ok cf s' \<and> same_cells s s' \<and>
    nrows s' = max (nrows s) (r + 1) \<and> ncols s' = max (ncols s) (c + 1) \<and>
    r < nrows s' \<and> c < row_lens (cell_types s') ! r"
proof (cases "r < nrows s")
  case True
  from extend_row_ok [OF assms(1) True assms(2,3)] True show ?thesis by auto
next
  case False
  with extend_rows_ok [OF assms(1) _ assms(2,3)] show ?thesis by fastforce
qed

section \<open>Reading the cells back\<close>

definition cell_value :: "grid \<Rightarrow> int \<Rightarrow> int \<Rightarrow> pyval res" where
  "cell_value s rowx colx = rbind (py_nth (cell_values s) rowx) (\<lambda>row. py_nth row colx)"

definition cell_type :: "grid \<Rightarrow> int \<Rightarrow> int \<Rightarrow> nat res" where
  "cell_type s rowx colx = rbind (py_nth (cell_types s) rowx) (\<lambda>row. py_nth row colx)"

definition row_len :: "grid \<Rightarrow> int \<Rightarrow> nat res" where
  "row_len s rowx = rbind (py_nth (cell_values s) rowx) (\<lambda>row. Inr (length row))"

definition row_values :: "grid \<Rightarrow> int \<Rightarrow> int \<Rightarrow> int option \<Rightarrow> pyval list res" where
  "row_values s rowx start_colx end_colx =
     rbind (py_nth (cell_values s) rowx) (\<lambda>row. Inr (slice_opt row start_colx end_colx))"

definition row_types :: "grid \<Rightarrow> int \<Rightarrow> int \<Rightarrow> int option \<Rightarrow> nat list res" where
  "row_types s rowx start_colx end_colx =
     rbind (py_nth (cell_types s) rowx) (\<lambda>row. Inr (slice_opt row start_colx end_colx))"

text \<open>The bounds of a slice of \<open>n\<close> cells, and the indices between them.\<close>

definition slice_range :: "nat \<Rightarrow> int \<Rightarrow> int option \<Rightarrow> int list" where
  "slice_range n a b =
     (let a = (if a < 0 then max (a + int n) 0 else a);
          b = (case b of None \<Rightarrow> int n | Some b \<Rightarrow> if int n < b then int n else if b < 0 then b + int n else b)
      in [a..b - 1])"

definition row_slice :: "grid \<Rightarrow> int \<Rightarrow> int \<Rightarrow> int option \<Rightarrow> (nat \<times> pyval) list res" where
  "row_slice s rowx start_colx end_colx =
     rbind (row_len s rowx) (\<lambda>nc.
     rmap (\<lambda>colx. rbind (cell_type s rowx colx) (\<lambda>t. rbind (cell_value s rowx colx) (\<lambda>v. Inr (t, v))))
       (slice_range nc start_colx end_colx))"

definition col_slice :: "grid \<Rightarrow> int \<Rightarrow> int \<Rightarrow> int option \<Rightarrow> (nat \<times> pyval) list res" where
  "col_slice s colx start_rowx end_rowx =
     rmap (\<lambda>rowx. rbind (cell_type s rowx colx) (\<lambda>t. rbind (cell_value s rowx colx) (\<lambda>v. Inr (t, v))))
       (slice_range (nrows s) start_rowx end_rowx)"

definition col_values :: "grid \<Rightarrow> int \<Rightarrow> int \<Rightarrow> int option \<Rightarrow> pyval list res" where
  "col_values s colx start_rowx end_rowx =
     rmap (\<lambda>rowx. cell_value s rowx colx) (slice_range (nrows s) start_rowx end_rowx)"

definition col_types :: "grid \<Rightarrow> int \<Rightarrow> int \<Rightarrow> int option \<Rightarrow> nat list res" where
  "col_types s colx start_rowx end_rowx =
     rmap (\<lambda>rowx. cell_type s rowx colx) (slice_range (nrows s) start_rowx end_rowx)"

section \<open>A sheet from its records\<close>

type_synonym put = "nat \<times> nat \<times> nat option \<times> pyval \<times> int"

definition put_all :: "sheet_conf \<Rightarrow> put list \<Rightarrow> grid \<Rightarrow> grid res" where
  "put_all cf puts s = rfold (\<lambda>(r, c, t, v, xf). put_cell_unragged cf r c t v xf) puts s"

text \<open>What the records say: the last cell at a place, and the extent.\<close>

definition last_value :: "put list \<Rightarrow> nat \<Rightarrow> nat \<Rightarrow> pyval" where
  "last_value puts r c =
     (case find (\<lambda>(r', c', t, v, xf). r' = r \<and> c' = c) (rev puts) of Some (r', c', t, v, xf) \<Rightarrow> v | None \<Rightarrow> no_value)"

definition rows_of :: "put list \<Rightarrow> nat" where
  "rows_of puts = foldl (\<lambda>n (r, c, t, v, xf). max n (r + 1)) 0 puts"

definition cols_of :: "put list \<Rightarrow> nat" where
  "cols_of puts = foldl (\<lambda>n (r, c, t, v, xf). max n (c + 1)) 0 puts"

definition put_ok :: "sheet_conf \<Rightarrow> put \<Rightarrow> bool" where
  "put_ok cf p \<longleftrightarrow> (case p of (r, c, t, v, xf) \<Rightarrow>
     r < utter_max_rows cf \<and> c < utter_max_cols cf \<and> (t = None \<longrightarrow> xf_index_to_type cf xf \<noteq> None))"

lemma put_cell_ok:
  assumes ok: "grid_ok cf s" and p: "put_ok cf (r, c, t, v, xf)"
  shows "\<exists>s' t'. put_cell_unragged cf r c t v xf s = Inr s' \<and> grid_ok cf s' \<and> cell_put r c t' v s s'"
proof -
  obtain t' where t: "cell_type_of cf t xf = Inr t'"
    using p by (cases t) (auto simp: put_ok_def cell_type_of_def of_option_def)
  show ?thesis
  proof (cases "r < nrows s \<and> c < row_lens (cell_types s) ! r")
    case True
    then obtain s' where s: "store_cell cf r c t' v xf s = Inr s'" by (simp add: store_cell_run [OF ok])
    with store_cell_put [OF ok _ _ s] True t show ?thesis by (auto simp: put_cell_unragged_def)
  next
    case False
    then have e: "store_cell cf r c t' v xf s = Inl IndexError" using store_cell_run [OF ok] by (simp only: if_False)
    obtain x where x: "extend_cells cf r c s = Inr x" "grid_ok cf x" "same_cells s x"
      "nrows x = max (nrows s) (r + 1)" "ncols x = max (ncols s) (c + 1)" "r < nrows x" "c < row_lens (cell_types x) ! r"
      using extend_cells_ok [OF ok, of r c] p unfolding put_ok_def by auto
    then obtain s' where s: "store_cell cf r c t' v xf x = Inr s'" by (simp add: store_cell_run [OF x(2)])
    from store_cell_put [OF x(2,6,7) s] have "grid_ok cf s'" "cell_put r c t' v x s'" by auto
    moreover from this(2) x have "cell_put r c t' v s s'"
      by (simp add: cell_put_def same_cells_def) 
    ultimately show ?thesis using t e x(1) s by (auto simp: put_cell_unragged_def)
  qed
qed

lemma put_all_ok:
  "list_all (put_ok cf) puts \<Longrightarrow>
   \<exists>s. put_all cf puts empty_grid = Inr s \<and> grid_ok cf s \<and> nrows s = rows_of puts \<and> ncols s = cols_of puts \<and>
     (\<forall>r c. value_at s r c = last_value puts r c)"
proof (induction puts rule: rev_induct)
  case Nil
  show ?case
    using empty_grid_ok by (auto simp: put_all_def rows_of_def cols_of_def last_value_def value_at_def entry_def empty_grid_def)
next
  case (snoc p puts)
  obtain r c t v xf where p: "p = (r, c, t, v, xf)" by (cases p) auto
  from snoc obtain s where s: "put_all cf puts empty_grid = Inr s" "grid_ok cf s" "nrows s = rows_of puts"
    "ncols s = cols_of puts" "\<And>r c. value_at s r c = last_value puts r c" by auto
  from snoc.prems p have "put_ok cf (r, c, t, v, xf)" by simp
  from put_cell_ok [OF s(2) this] obtain s' t' where
    s': "put_cell_unragged cf r c t v xf s = Inr s'" "grid_ok cf s'" "cell_put r c t' v s s'" by blast
  have "put_all cf (puts @ [p]) empty_grid = Inr s'"
    using s(1) s'(1) p by (simp add: put_all_def rfold_append del: rbind_eq_Inr)
  with s s' p show ?case
    by (auto simp: cell_put_def rows_of_def cols_of_def last_value_def)
qed

text \<open>
  A sheet without merged ranges: whatever the order of its records, and although only the rows before
  \<open>first_full_rowx\<close> are looked at in the end, every row comes out with exactly \<open>ncols\<close> cells, and
  every cell with the value its last record gave it, or empty.
\<close>
lemma table_of_puts:
  assumes "list_all (put_ok cf) puts"
  shows "\<exists>s s'. put_all cf puts empty_grid = Inr s \<and> tidy_dimensions cf False [] s = Inr s' \<and>
    nrows s' = rows_of puts \<and> ncols s' = cols_of puts \<and>
    cell_values s' = map (\<lambda>r. map (last_value puts r) [0..<cols_of puts]) [0..<rows_of puts]"
proof -
  obtain s where s: "put_all cf puts empty_grid = Inr s" "grid_ok cf s" "nrows s = rows_of puts"
    "ncols s = cols_of puts" "\<And>r c. value_at s r c = last_value puts r c"
    using put_all_ok [OF assms] by blast
  define u where "u = (if first_full_rowx s = - 2 then nrows s else nat (first_full_rowx s))"
  define vs where "vs = pad_rows u (ncols s) no_value (cell_values s)"
  have len: "length vs = nrows s" using grid_lens(1) [OF s(2)] by (simp add: vs_def table_simps)
  have sh: "row_lens (cell_values s) ! r \<le> ncols s" "u \<le> r \<Longrightarrow> row_lens (cell_values s) ! r = ncols s" if r: "r < nrows s" for r
  proof -
    have "row_lens (cell_types s) ! r \<in> set (row_lens (cell_types s))"
      using nth_mem [of r "row_lens (cell_types s)"] r grid_lens(2) [OF s(2)] by simp
    then show "row_lens (cell_values s) ! r \<le> ncols s" using grid_lens(4,6) [OF s(2)] by simp
    assume "u \<le> r"
    then have "first_full_rowx s \<noteq> - 2 \<and> first_full_rowx s \<le> int r"
      using r s(2) by (auto simp: u_def grid_ok_def split: if_splits)
    then have "row_lens (cell_types s) ! r = ncols s" using s(2) r unfolding grid_ok_def by blast
    then show "row_lens (cell_values s) ! r = ncols s" using grid_lens(4) [OF s(2)] by simp
  qed
  have row: "length (vs ! r) = ncols s" if r: "r < nrows s" for r
  proof -
    have "row_lens vs ! r = ncols s"
      using sh [OF r] r grid_lens(1) [OF s(2)]
      by (cases "r < u") (simp_all add: vs_def row_lens_pad nth_append min_def max_def)
    then show ?thesis using len r by simp
  qed
  have "vs ! r ! c = last_value puts r c" if "r < nrows s" "c < ncols s" for r c
  proof -
    have "entry no_value vs r c = last_value puts r c" using s(5) by (simp add: vs_def entry_pad value_at_def)
    then show ?thesis using that len row by (simp add: entry_def)
  qed
  then have "vs = map (\<lambda>r. map (last_value puts r) [0..<cols_of puts]) [0..<rows_of puts]"
    using len row s(3,4) by (auto intro!: nth_equalityI)
  then show ?thesis
    using s(1,3,4) by (auto simp: tidy_dimensions_def fit_merged_def Let_def vs_def u_def)
qed

section \<open>Merged ranges\<close>

text \<open>
  C31: a merged range that is wider than the cells widens the sheet but not its full rows: when the range
  needs no new row, the row \<open>first_full_rowx\<close> stays as short as it was, and reading its last
  cell, which the sheet has by its number of columns, is an \<open>IndexError\<close>.
\<close>
theorem merged_cells_short_row:
  assumes "grid_ok cf s" and "ranges \<noteq> []" and "merged_extent ranges = (nr, nc)" and "nr \<le> nrows s"
    and "ncols s < nc" and "first_full_rowx s = int r" and "r < nrows s"
  shows "\<exists>s'. tidy_dimensions cf False ranges s = Inr s' \<and> ncols s' = nc \<and>
    length (cell_values s' ! r) = ncols s \<and> cell_value s' (int r) (int nc - 1) = Inl IndexError"
proof -
  let ?s' = "s\<lparr>ncols := nc, cell_types := pad_rows r nc XL_CELL_EMPTY (cell_types s),
     cell_values := pad_rows r nc no_value (cell_values s),
     cell_xf_indexes := (if formatting_info cf then pad_rows r nc (- 1) (cell_xf_indexes s) else cell_xf_indexes s)\<rparr>"
  have t: "tidy_dimensions cf False ranges s = Inr ?s'"
    using assms(2-6) by (simp add: tidy_dimensions_def fit_merged_def Let_def del: rbind_eq_Inr)
  have l: "length (cell_values s) = nrows s" by (rule grid_lens(1) [OF assms(1)])
  have "first_full_rowx s \<noteq> - 2 \<and> first_full_rowx s \<le> int r" using assms(6) by simp
  then have "row_lens (cell_types s) ! r = ncols s" using assms(1,7) unfolding grid_ok_def by blast
  then have "length (cell_values s ! r) = ncols s"
    using grid_lens(4) [OF assms(1)] assms(7) l by (metis row_lens_nth)
  then have row: "length (pad_rows r nc no_value (cell_values s) ! r) = ncols s"
    using assms(7) l by (simp add: pad_rows_def nth_append)
  moreover have "cell_value ?s' (int r) (int nc - 1) = Inl IndexError"
    using row assms(5,7) l by (auto simp: cell_value_def py_nth_def table_simps nat_diff_distrib)
  ultimately show ?thesis using t by (intro exI [of _ ?s']) simp
qed

definition any_conf :: sheet_conf where
  "any_conf = \<lparr>formatting_info = True, utter_max_rows = 65536, utter_max_cols = 256, xf_index_to_type = (\<lambda>x. Some 2)\<rparr>"

lemma merged_cells_short_row_witness:
  "\<exists>s s'. put_all any_conf [(0, 0, Some 1, PUni ''title'', 15)] empty_grid = Inr s \<and>
    tidy_dimensions any_conf False [(0, 1, 0, 3)] s = Inr s' \<and> ncols s' = 3 \<and> cell_value s' 0 2 = Inl IndexError"
proof -
  let ?s = "\<lparr>nrows = 1, ncols = 1, first_full_rowx = 0, cell_types = [[1]], cell_values = [[PUni ''title'']],
    cell_xf_indexes = [[15]]\<rparr>"
  have p: "put_all any_conf [(0, 0, Some 1, PUni ''title'', 15)] empty_grid = Inr ?s"
    by (simp add: put_all_def put_cell_unragged_def cell_type_of_def store_cell_def table_set_def empty_grid_def
        extend_cells_def bump_cols_def add_rows_def any_conf_def Let_def)
  have "grid_ok any_conf ?s" by (simp add: grid_ok_def row_lens_def)
  from merged_cells_short_row [OF this, of "[(0, 1, 0, 3)]" 1 3 0]
  show ?thesis using p by (auto simp: merged_extent_def)
qed

end
