(* ===== verification/XlStrings.thy ===== *)
theory XlStrings
  imports PyStruct
begin

text \<open>
  Texts in an \<open>.xls\<close> file: the string readers of \<open>xlrd/biffh.py\<close>, the records of a workbook
  (\<open>xlrd/book.py\<close>), and the shared string table, whose strings may be split over several records.
  A text is the list of its UTF-16 code units, a record its bytes; positions are \<open>int\<close> because a
  signed field of the file is added to them. Debug output is not modelled.
\<close>

unbundle bit_operations_syntax

section \<open>Fields\<close>

definition unpack_u16 :: "bytes \<Rightarrow> int res" where
  "unpack_u16 bs = rbind (unpack_H 1 bs) (\<lambda>l. Inr (hd l))"

definition unpack_i32 :: "bytes \<Rightarrow> int res" where
  "unpack_i32 bs = rbind (unpack_ints 1 bs) (\<lambda>l. Inr (hd l))"

definition unpack_HH :: "bytes \<Rightarrow> (int \<times> int) res" where
  "unpack_HH bs = rbind (unpack_H 2 bs) (\<lambda>l. Inr (l ! 0, l ! 1))"

text \<open>A number of characters in one byte (\<open>lenlen\<close> 1) or two (\<open>lenlen\<close> 2).\<close>

definition unpack_len :: "nat \<Rightarrow> bytes \<Rightarrow> int res" where
  "unpack_len lenlen bs = (if length bs = lenlen then Inr (le_nat bs) else Inl StructError)"

definition latin_1 :: "bytes \<Rightarrow> uname" where
  "latin_1 = map uint"

section \<open>Strings of one record\<close>

text \<open>The codec of the workbook's code page is the argument \<open>decode\<close>.\<close>

definition unpack_string :: "(bytes \<Rightarrow> uname res) \<Rightarrow> bytes \<Rightarrow> int \<Rightarrow> nat \<Rightarrow> uname res" where
  "unpack_string decode data pos lenlen =
     rbind (unpack_len lenlen (py_slice data pos (pos + int lenlen))) (\<lambda>nchars.
     let pos = pos + int lenlen in decode (py_slice data pos (pos + nchars)))"

definition count_field :: "bytes \<Rightarrow> int \<Rightarrow> nat \<Rightarrow> int option \<Rightarrow> (int \<times> int) res" where
  "count_field data pos lenlen known_len =
     (case known_len of
        Some n \<Rightarrow> Inr (n, pos)
      | None \<Rightarrow> rbind (unpack_len lenlen (py_slice data pos (pos + int lenlen))) (\<lambda>n. Inr (n, pos + int lenlen)))"

definition unpack_string_update_pos ::
  "(bytes \<Rightarrow> uname res) \<Rightarrow> bytes \<Rightarrow> int \<Rightarrow> nat \<Rightarrow> int option \<Rightarrow> (uname \<times> int) res" where
  "unpack_string_update_pos decode data pos lenlen known_len =
     rbind (count_field data pos lenlen known_len) (\<lambda>(nchars, pos).
     let newpos = pos + nchars in
     rbind (decode (py_slice data pos newpos)) (\<lambda>s. Inr (s, newpos)))"

definition unpack_unicode :: "bytes \<Rightarrow> int \<Rightarrow> nat \<Rightarrow> uname res" where
  "unpack_unicode data pos lenlen =
     rbind (unpack_len lenlen (py_slice data pos (pos + int lenlen))) (\<lambda>nchars.
     if nchars = 0 then Inr []
     else let pos = pos + int lenlen in
       rbind (py_nth data pos) (\<lambda>options.
       let pos = pos + 1;
           pos = (if options AND 0x08 \<noteq> 0 then pos + 2 else pos);
           pos = (if options AND 0x04 \<noteq> 0 then pos + 4 else pos)
       in if options AND 0x01 \<noteq> 0 then utf16_name (py_slice data pos (pos + 2 * nchars))
          else Inr (latin_1 (py_slice data pos (pos + nchars)))))"

definition unpack_unicode_update_pos :: "bytes \<Rightarrow> int \<Rightarrow> nat \<Rightarrow> int option \<Rightarrow> (uname \<times> int) res" where
  "unpack_unicode_update_pos data pos lenlen known_len =
     rbind (count_field data pos lenlen known_len) (\<lambda>(nchars, pos).
     if nchars = 0 \<and> slice_opt data pos None = [] then Inr ([], pos)
     else rbind (py_nth data pos) (\<lambda>options.
       let pos = pos + 1; richtext = options AND 0x08 \<noteq> 0; phonetic = options AND 0x04 \<noteq> 0 in
       rbind (if richtext then unpack_u16 (py_slice data pos (pos + 2)) else Inr 0) (\<lambda>rt.
       let pos = (if richtext then pos + 2 else pos) in
       rbind (if phonetic then unpack_i32 (py_slice data pos (pos + 4)) else Inr 0) (\<lambda>sz.
       let pos = (if phonetic then pos + 4 else pos) in
       rbind (if options AND 0x01 \<noteq> 0
              then rbind (utf16_name (py_slice data pos (pos + 2 * nchars))) (\<lambda>s. Inr (s, pos + 2 * nchars))
              else Inr (latin_1 (py_slice data pos (pos + nchars)), pos + nchars)) (\<lambda>(strg, pos).
       let pos = (if richtext then pos + 4 * rt else pos);
           pos = (if phonetic then pos + sz else pos)
       in Inr (strg, pos))))))"

section \<open>Lists of cell ranges\<close>

definition unpack_range :: "int \<Rightarrow> bytes \<Rightarrow> (int \<times> int \<times> int \<times> int) res" where
  "unpack_range addr_size bs =
     (if int (length bs) \<noteq> addr_size then Inl StructError
      else let rows = map le_nat (chunks 2 2 bs);
               cols = (if addr_size = 6 then map uint (drop 4 bs) else map le_nat (chunks 2 2 (drop 4 bs)))
           in Inr (rows ! 0, rows ! 1 + 1, cols ! 0, cols ! 1 + 1))"

fun unpack_ranges :: "nat \<Rightarrow> int \<Rightarrow> bytes \<Rightarrow> int \<Rightarrow> (int \<times> int \<times> int \<times> int) list
    \<Rightarrow> ((int \<times> int \<times> int \<times> int) list \<times> int) res" where
  "unpack_ranges 0 addr_size data pos output_list = Inr (output_list, pos)"
| "unpack_ranges (Suc n) addr_size data pos output_list =
     rbind (unpack_range addr_size (py_slice data pos (pos + addr_size))) (\<lambda>r.
     unpack_ranges n addr_size data (pos + addr_size) (output_list @ [r]))"

definition unpack_cell_range_address_list_update_pos ::
  "(int \<times> int \<times> int \<times> int) list \<Rightarrow> bytes \<Rightarrow> int \<Rightarrow> int \<Rightarrow> ((int \<times> int \<times> int \<times> int) list \<times> int) res" where
  "unpack_cell_range_address_list_update_pos output_list data pos addr_size =
     (if addr_size \<notin> {6, 8} then Inl AssertionError
      else rbind (unpack_u16 (py_slice data pos (pos + 2))) (\<lambda>n.
        unpack_ranges (nat n) addr_size data (pos + 2) output_list))"

section \<open>Records of a workbook\<close>

text \<open>The bytes of the file are \<open>mem\<close>; \<open>_position\<close> is passed and returned.\<close>

definition XL_CONTINUE :: int where "XL_CONTINUE = 0x3c"
definition MY_EOF :: int where "MY_EOF = 0xF00BAAA"

definition get2bytes :: "bytes \<Rightarrow> int \<Rightarrow> int \<times> int" where
  "get2bytes mem pos =
     (let buff_two = py_slice mem pos (pos + 2); position = pos + int (length buff_two) in
      (case buff_two of [lo, hi] \<Rightarrow> push_bit 8 (uint hi) OR uint lo | _ \<Rightarrow> MY_EOF, position))"

definition get_record_parts :: "bytes \<Rightarrow> int \<Rightarrow> ((int \<times> int \<times> bytes) \<times> int) res" where
  "get_record_parts mem pos =
     rbind (unpack_HH (py_slice mem pos (pos + 4))) (\<lambda>(code, len).
     let pos = pos + 4 in Inr ((code, len, py_slice mem pos (pos + len)), pos + len))"

definition get_record_parts_conditional ::
  "int \<Rightarrow> bytes \<Rightarrow> int \<Rightarrow> ((int option \<times> int \<times> bytes) \<times> int) res" where
  "get_record_parts_conditional reqd_record mem pos =
     rbind (unpack_HH (py_slice mem pos (pos + 4))) (\<lambda>(code, len).
     if code \<noteq> reqd_record then Inr ((None, 0, []), pos)
     else let pos = pos + 4 in Inr ((Some code, len, py_slice mem pos (pos + len)), pos + len))"

definition read_bytes :: "bytes \<Rightarrow> int \<Rightarrow> int \<Rightarrow> bytes \<times> int" where
  "read_bytes mem pos len = (let data = py_slice mem pos (pos + len) in (data, pos + int (length data)))"

section \<open>The shared string table\<close>

text \<open>\<open>data\<close> with the position in it, and the records after it.\<close>

record sst_state =
  sst_data :: bytes
  sst_pos :: int
  sst_rest :: "bytes list"

definition next_record :: "sst_state \<Rightarrow> sst_state res" where
  "next_record st = (case sst_rest st of [] \<Rightarrow> Inl IndexError | d # ds \<Rightarrow> Inr (st\<lparr>sst_data := d, sst_rest := ds\<rparr>))"

text \<open>The loop that collects the characters of a string, going on in the next record when one is used up.\<close>

fun sst_chars :: "int \<Rightarrow> 8 word \<Rightarrow> bytes \<Rightarrow> int \<Rightarrow> bytes list \<Rightarrow> int \<Rightarrow> uname \<Rightarrow> (uname \<times> sst_state) res" where
  "sst_chars nchars options data pos rest charsgot accstrg =
     (let charsneed = nchars - charsgot;
          uncompressed = options AND 0x01 \<noteq> 0;
          charsavail = (if uncompressed then min ((int (length data) - pos) div 2) charsneed
                        else min (int (length data) - pos) charsneed);
          newpos = (if uncompressed then pos + 2 * charsavail else pos + charsavail);
          rawstrg = py_slice data pos newpos
      in rbind (if uncompressed then utf16_name rawstrg else Inr (latin_1 rawstrg)) (\<lambda>s.
         if charsgot + charsavail = nchars
         then Inr (accstrg @ s, \<lparr>sst_data = data, sst_pos = newpos, sst_rest = rest\<rparr>)
         else (case rest of
             [] \<Rightarrow> Inl IndexError
           | d # ds \<Rightarrow> rbind (py_nth d 0) (\<lambda>options.
               sst_chars nchars options d 1 ds (charsgot + charsavail) (accstrg @ s)))))"

declare sst_chars.simps [simp del]

fun sst_runs :: "nat \<Rightarrow> sst_state \<Rightarrow> ((int \<times> int) list \<times> sst_state) res" where
  "sst_runs 0 st = Inr ([], st)"
| "sst_runs (Suc rtcount) st =
     rbind (if sst_pos st = int (length (sst_data st)) then next_record (st\<lparr>sst_pos := 0\<rparr>) else Inr st) (\<lambda>st.
     rbind (unpack_HH (py_slice (sst_data st) (sst_pos st) (sst_pos st + 4))) (\<lambda>run.
     rbind (sst_runs rtcount (st\<lparr>sst_pos := sst_pos st + 4\<rparr>)) (\<lambda>(runs, st). Inr (run # runs, st))))"

text \<open>One string: its header, characters, formatting runs, and the phonetic part, which is skipped.\<close>

definition sst_string :: "sst_state \<Rightarrow> (uname \<times> (int \<times> int) list \<times> sst_state) res" where
  "sst_string st =
     (let data = sst_data st; pos = sst_pos st in
      rbind (unpack_u16 (py_slice data pos (pos + 2))) (\<lambda>nchars.
      let pos = pos + 2 in
      rbind (py_nth data pos) (\<lambda>options.
      let pos = pos + 1; richtext = options AND 0x08 \<noteq> 0; phonetic = options AND 0x04 \<noteq> 0 in
      rbind (if richtext then unpack_u16 (py_slice data pos (pos + 2)) else Inr 0) (\<lambda>rtcount.
      let pos = (if richtext then pos + 2 else pos) in
      rbind (if phonetic then unpack_i32 (py_slice data pos (pos + 4)) else Inr 0) (\<lambda>phosz.
      let pos = (if phonetic then pos + 4 else pos) in
      rbind (sst_chars nchars options data pos (sst_rest st) 0 []) (\<lambda>(accstrg, st).
      rbind (sst_runs (nat rtcount) st) (\<lambda>(runs, st).
      Inr (accstrg, runs, st\<lparr>sst_pos := sst_pos st + phosz\<rparr>))))))))"

text \<open>At the end of a record the position is carried over to the next one.\<close>

definition sst_adjust :: "bool \<Rightarrow> sst_state \<Rightarrow> sst_state res" where
  "sst_adjust is_last st =
     (if int (length (sst_data st)) \<le> sst_pos st then
        let st = st\<lparr>sst_pos := sst_pos st - int (length (sst_data st))\<rparr> in
        if sst_rest st = [] then if is_last then Inr st else Inl AssertionError
        else next_record st
      else Inr st)"

fun sst_loop :: "nat \<Rightarrow> sst_state \<Rightarrow> uname list \<Rightarrow> (nat \<times> (int \<times> int) list) list
    \<Rightarrow> (uname list \<times> (nat \<times> (int \<times> int) list) list) res" where
  "sst_loop 0 st strings richtext_runs = Inr (strings, richtext_runs)"
| "sst_loop (Suc n) st strings richtext_runs =
     rbind (sst_string st) (\<lambda>(accstrg, runs, st).
     rbind (sst_adjust (n = 0) st) (\<lambda>st.
     sst_loop n st (strings @ [accstrg])
       (if runs = [] then richtext_runs else richtext_runs @ [(length strings, runs)])))"

definition unpack_SST_table :: "bytes list \<Rightarrow> int \<Rightarrow> (uname list \<times> (nat \<times> (int \<times> int) list) list) res" where
  "unpack_SST_table datatab nstrings =
     (case datatab of
        [] \<Rightarrow> Inl IndexError
      | data # rest \<Rightarrow> sst_loop (nat nstrings) \<lparr>sst_data = data, sst_pos = 8, sst_rest = rest\<rparr> [] [])"

text \<open>
  \<open>handle_sst\<close>: the table is the record and the \<open>CONTINUE\<close> records after it; the loop stops at the
  first other record and leaves the position there.
\<close>

lemma slice_too_far:
  assumes "int (length mem) \<le> pos"
  shows "py_slice mem pos (pos + n) = []"
proof -
  have "slice_bound (length mem) pos = length mem" using assms by (auto simp: slice_bound_def min_def)
  then show ?thesis by (simp add: py_slice_def)
qed

lemma le_nat_nonneg: "0 \<le> le_nat bs"
  by (induction bs) simp_all

lemma unpack_HH_InrD:
  assumes "unpack_HH bs = Inr (a, b)"
  shows "length bs = 4 \<and> 0 \<le> a \<and> 0 \<le> b"
  using assms by (auto simp: unpack_HH_def unpack_H_def le_nat_nonneg numeral_2_eq_2 split: if_splits)

lemma conditional_moves:
  assumes "get_record_parts_conditional reqd_record mem pos = Inr ((Some code, len, data), pos')"
  shows "pos < int (length mem) \<and> pos < pos'"
proof -
  from assms have h: "unpack_HH (py_slice mem pos (pos + 4)) = Inr (reqd_record, len)" "pos' = pos + 4 + len"
    by (auto simp: get_record_parts_conditional_def Let_def split: if_splits)
  from unpack_HH_InrD [OF h(1)] have l: "length (py_slice mem pos (pos + 4)) = 4" "0 \<le> len" by auto
  have "pos < int (length mem)"
  proof (rule ccontr)
    assume "\<not> pos < int (length mem)"
    then have "py_slice mem pos (pos + 4) = []" by (intro slice_too_far) simp
    with l(1) show False by simp
  qed
  with h(2) l(2) show ?thesis by simp
qed

function sst_continued :: "bytes \<Rightarrow> int \<Rightarrow> (bytes list \<times> int) res" where
  "sst_continued mem pos =
     (case get_record_parts_conditional XL_CONTINUE mem pos of
        Inl e \<Rightarrow> Inl e
      | Inr ((None, nb, data), pos') \<Rightarrow> Inr ([], pos')
      | Inr ((Some code, nb, data), pos') \<Rightarrow>
          rbind (sst_continued mem pos') (\<lambda>(strlist, pos). Inr (data # strlist, pos)))"
  by pat_completeness auto
termination
proof (relation "measure (\<lambda>(mem, pos). nat (int (length mem) - pos))", goal_cases)
  case 1
  then show ?case by simp
next
  case 2
  then show ?case by (auto dest: conditional_moves)
qed

declare sst_continued.simps [simp del]

definition handle_sst :: "bytes \<Rightarrow> int \<Rightarrow> bytes \<Rightarrow> ((uname list \<times> (nat \<times> (int \<times> int) list) list) \<times> int) res" where
  "handle_sst mem pos data =
     rbind (unpack_i32 (py_slice data 4 8)) (\<lambda>uniquestrings.
     rbind (sst_continued mem pos) (\<lambda>(strlist, pos).
     rbind (unpack_SST_table (data # strlist) uniquestrings) (\<lambda>table. Inr (table, pos))))"

end
