(* ===== verification/XlStringsProps.thy ===== *)
theory XlStringsProps
  imports XlStrings
begin

text \<open>
  What the readers of \<open>XlStrings\<close> promise: fields written at a position are read back from it (the
  interface \<open>byte_field\<close>), and a shared string table is read back from the records a writer has laid
  it out in, wherever the writer has cut the strings.
\<close>

section \<open>Fields of fixed width\<close>

text \<open>What a reader relies on: the bytes of a value have a fixed number and decode to the value.\<close>

locale byte_field =
  fixes width :: nat
    and enc :: "'a \<Rightarrow> bytes"
    and dec :: "bytes \<Rightarrow> 'a res"
    and ok :: "'a \<Rightarrow> bool"
  assumes enc_width: "ok x \<Longrightarrow> length (enc x) = width"
    and dec_enc: "ok x \<Longrightarrow> dec (enc x) = Inr x"
begin

lemma slice_at:
  assumes "ok x" and "drop p data = enc x @ r"
  shows "py_slice data (int p) (int p + int width) = enc x"
  using assms enc_width [OF assms(1)] by (simp add: py_slice_nonneg)

lemma read_at:
  assumes "ok x" and "0 \<le> p" and "drop (nat p) data = enc x @ r"
  shows "dec (py_slice data p (p + int width)) = Inr x"
  using slice_at [OF assms(1,3)] assms(1,2) by (simp add: dec_enc)

lemma rest_at:
  assumes "ok x" and "0 \<le> p" and "drop (nat p) data = enc x @ r"
  shows "drop (nat (p + int width)) data = r"
proof -
  have "nat (p + int width) = nat p + width" using assms(2) by simp
  then have "drop (nat (p + int width)) data = drop width (drop (nat p) data)" by (simp add: add.commute)
  then show ?thesis using assms(3) enc_width [OF assms(1)] by simp
qed

end

primrec le_bytes :: "nat \<Rightarrow> int \<Rightarrow> bytes" where
  "le_bytes 0 n = []"
| "le_bytes (Suc k) n = word_of_int n # le_bytes k (n div 256)"

lemma length_le_bytes [simp]: "length (le_bytes k n) = k"
  by (induction k arbitrary: n) simp_all

lemma le_nat_le_bytes: "le_nat (le_bytes k n) = n mod 256 ^ k"
proof (induction k arbitrary: n)
  case (Suc k)
  have "n mod (256 * 256 ^ k) = 256 * (n div 256 mod 256 ^ k) + n mod 256"
    by (rule zmod_zmult2_eq) simp
  then show ?case by (simp add: Suc.IH uint_word_of_int)
qed simp

definition u16_ok :: "int \<Rightarrow> bool" where "u16_ok n \<longleftrightarrow> 0 \<le> n \<and> n < 65536"
definition i32_ok :: "int \<Rightarrow> bool" where "i32_ok n \<longleftrightarrow> - (2 ^ 31) \<le> n \<and> n < 2 ^ 31"
definition HH_ok :: "int \<times> int \<Rightarrow> bool" where "HH_ok p \<longleftrightarrow> u16_ok (fst p) \<and> u16_ok (snd p)"

definition HH_bytes :: "int \<times> int \<Rightarrow> bytes" where
  "HH_bytes p = le_bytes 2 (fst p) @ le_bytes 2 (snd p)"

lemma le_nat_u16: "u16_ok n \<Longrightarrow> le_nat (le_bytes 2 n) = n"
  by (simp add: le_nat_le_bytes u16_ok_def)

interpretation u16: byte_field 2 "le_bytes 2" unpack_u16 u16_ok
  by unfold_locales (simp_all add: unpack_u16_def unpack_H_def le_nat_u16)

lemma i32_le_bytes: "i32_ok n \<Longrightarrow> i32 (le_bytes 4 n) = n"
proof (cases "0 \<le> n")
  case False
  moreover assume n: "i32_ok n"
  ultimately have "n mod 2 ^ 32 = n + 2 ^ 32"
    by (intro mod_pos_pos_trivial [of "n + 2 ^ 32" "2 ^ 32", simplified mod_add_self2]) (simp_all add: i32_ok_def)
  with n False show ?thesis by (simp add: i32_def le_nat_le_bytes i32_ok_def Let_def)
qed (simp add: i32_def le_nat_le_bytes i32_ok_def)

interpretation i32: byte_field 4 "le_bytes 4" unpack_i32 i32_ok
  by unfold_locales (simp_all add: unpack_i32_def unpack_ints_def i32_le_bytes)

lemma chunks_2: "chunks k 2 xs = [take k xs, take k (drop k xs)]"
  by (simp add: eval_nat_numeral)

interpretation HH: byte_field 4 HH_bytes unpack_HH HH_ok
  by unfold_locales (simp_all add: unpack_HH_def unpack_H_def HH_bytes_def HH_ok_def le_nat_u16 chunks_2)

text \<open>Texts, compressed or not.\<close>

lemma chunks_concat:
  "(\<And>x. x \<in> set xs \<Longrightarrow> length (f x) = k) \<Longrightarrow> chunks k (length xs) (concat (map f xs)) = map f xs"
  by (induction xs) simp_all

definition units_bytes :: "uname \<Rightarrow> bytes" where
  "units_bytes us = concat (map (le_bytes 2) us)"

lemma length_units_bytes [simp]: "length (units_bytes us) = 2 * length us"
  by (induction us) (simp_all add: units_bytes_def)

lemma utf16_units_bytes:
  assumes "list_all u16_ok us" and "utf16_ok us"
  shows "utf16_name (units_bytes us) = Inr us"
proof -
  have "map (le_nat \<circ> le_bytes 2) us = us"
    using assms(1) by (induction us) (simp_all add: le_nat_u16)
  then have "map le_nat (chunks 2 (length us) (units_bytes us)) = us"
    by (simp add: units_bytes_def chunks_concat)
  then show ?thesis using assms(2) by (simp add: utf16_name_def Let_def)
qed

definition byte_ok :: "int \<Rightarrow> bool" where "byte_ok u \<longleftrightarrow> 0 \<le> u \<and> u < 256"

lemma latin_1_bytes: "list_all byte_ok us \<Longrightarrow> latin_1 (map word_of_int us) = us"
  by (induction us) (simp_all add: latin_1_def byte_ok_def uint_word_of_int)

section \<open>A writer of shared string tables\<close>

text \<open>
  How a writer may lay out a table: the characters in pieces, every piece but the first at the start of a
  new record and each in its own width; a formatting run in a new record; the phonetic part cut in two.
  The rest of the table is what comes after: the bytes left in the record and the records after it.
\<close>

type_synonym layout = "bytes \<times> bytes list"

record sst_entry =
  pieces :: "(bool \<times> uname) list"
  runs :: "(bool \<times> int \<times> int) list"
  phonetic :: "bytes option"
  pho_cut :: "nat option"

definition onto :: "bytes \<Rightarrow> layout \<Rightarrow> layout" where "onto b r = (b @ fst r, snd r)"
definition cut_here :: "layout \<Rightarrow> layout" where "cut_here r = ([], fst r # snd r)"

definition entry_text :: "sst_entry \<Rightarrow> uname" where "entry_text e = concat (map snd (pieces e))"
definition pho_bytes :: "sst_entry \<Rightarrow> bytes" where
  "pho_bytes e = (case phonetic e of None \<Rightarrow> [] | Some b \<Rightarrow> b)"

definition piece_bytes :: "bool \<times> uname \<Rightarrow> bytes" where
  "piece_bytes p = (if fst p then units_bytes (snd p) else map word_of_int (snd p))"

definition width_flag :: "bool \<times> uname \<Rightarrow> 8 word" where "width_flag p = (if fst p then 1 else 0)"

fun put_pieces :: "(bool \<times> uname) list \<Rightarrow> layout \<Rightarrow> layout" where
  "put_pieces [] r = r"
| "put_pieces [p] r = onto (piece_bytes p) r"
| "put_pieces (p # q # ps) r = onto (piece_bytes p) (cut_here (onto [width_flag q] (put_pieces (q # ps) r)))"

fun put_runs :: "(bool \<times> int \<times> int) list \<Rightarrow> layout \<Rightarrow> layout" where
  "put_runs [] r = r"
| "put_runs ((brk, run) # rs) r =
     (let r = onto (HH_bytes run) (put_runs rs r) in if brk then cut_here r else r)"

definition put_pho :: "sst_entry \<Rightarrow> layout \<Rightarrow> layout" where
  "put_pho e r = (case pho_cut e of
     None \<Rightarrow> onto (pho_bytes e) r
   | Some n \<Rightarrow> onto (take n (pho_bytes e)) (cut_here (onto (drop n (pho_bytes e)) r)))"

definition entry_flags :: "sst_entry \<Rightarrow> 8 word" where
  "entry_flags e = width_flag (hd (pieces e)) OR (if runs e = [] then 0 else 8)
     OR (if phonetic e = None then 0 else 4)"

definition entry_header :: "sst_entry \<Rightarrow> bytes" where
  "entry_header e = le_bytes 2 (int (length (entry_text e))) @ [entry_flags e]
     @ (if runs e = [] then [] else le_bytes 2 (int (length (runs e))))
     @ (if phonetic e = None then [] else le_bytes 4 (int (length (pho_bytes e))))"

definition put_entry :: "sst_entry \<Rightarrow> layout \<Rightarrow> layout" where
  "put_entry e r = onto (entry_header e) (put_pieces (pieces e) (put_runs (runs e) (put_pho e r)))"

definition put_entries :: "sst_entry list \<Rightarrow> layout" where
  "put_entries es = foldr put_entry es ([], [])"

text \<open>What can be written: numbers that fit their fields, and no empty piece at the end of a cut string.\<close>

definition text_piece_ok :: "bool \<times> uname \<Rightarrow> bool" where
  "text_piece_ok p \<longleftrightarrow> (if fst p then list_all u16_ok (snd p) \<and> utf16_ok (snd p) else list_all byte_ok (snd p))"

definition entry_ok :: "sst_entry \<Rightarrow> bool" where
  "entry_ok e \<longleftrightarrow> pieces e \<noteq> [] \<and> list_all text_piece_ok (pieces e) \<and> (tl (pieces e) = [] \<or> snd (last (pieces e)) \<noteq> [])
     \<and> length (entry_text e) < 65536 \<and> length (runs e) < 65536 \<and> list_all (HH_ok \<circ> snd) (runs e)
     \<and> length (pho_bytes e) < 2 ^ 31"

section \<open>Reading the table back\<close>

text \<open>The reader stands before what is left of the table.\<close>

definition stands_at :: "sst_state \<Rightarrow> layout \<Rightarrow> bool" where
  "stands_at st r \<longleftrightarrow> 0 \<le> sst_pos st \<and> sst_pos st \<le> int (length (sst_data st))
     \<and> drop (nat (sst_pos st)) (sst_data st) = fst r \<and> sst_rest st = snd r"

lemma onto_simps [simp]:
  "fst (onto b r) = b @ fst r" "snd (onto b r) = snd r" "fst (cut_here r) = []" "snd (cut_here r) = fst r # snd r"
  "onto [] r = r"
  by (simp_all add: onto_def cut_here_def)

lemma stands_room:
  assumes "stands_at st (onto b r)"
  shows "int (length (sst_data st)) - sst_pos st = int (length b) + int (length (fst r))"
proof -
  have "length (sst_data st) - nat (sst_pos st) = length b + length (fst r)"
    using assms by (metis length_append length_drop onto_simps(1) stands_at_def)
  moreover have "0 \<le> sst_pos st" "sst_pos st \<le> int (length (sst_data st))"
    using assms by (simp_all add: stands_at_def)
  ultimately show ?thesis by linarith
qed

lemma stands_move:
  assumes "stands_at st (onto b r)" and "n = int (length b)"
  shows "stands_at (st\<lparr>sst_pos := sst_pos st + n\<rparr>) r"
proof -
  from assms(1) have d: "0 \<le> sst_pos st" "drop (nat (sst_pos st)) (sst_data st) = b @ fst r"
    by (simp_all add: stands_at_def)
  have "nat (sst_pos st + n) = nat (sst_pos st) + length b" using d(1) assms(2) by simp
  then have "drop (nat (sst_pos st + n)) (sst_data st) = drop (length b) (drop (nat (sst_pos st)) (sst_data st))"
    by (simp add: add.commute)
  with assms stands_room [OF assms(1)] show ?thesis by (simp add: stands_at_def d)
qed

lemma stands_slice:
  assumes "stands_at st (onto b r)" and "n = int (length b)"
  shows "py_slice (sst_data st) (sst_pos st) (sst_pos st + n) = b"
  using assms by (simp add: stands_at_def py_slice_nonneg)

lemma stands_nth:
  assumes "stands_at st (onto [b] r)"
  shows "py_nth (sst_data st) (sst_pos st) = Inr b"
proof -
  have "nat (sst_pos st) < length (sst_data st)" using stands_room [OF assms] assms
    unfolding stands_at_def by auto
  moreover from this have "sst_data st ! nat (sst_pos st) = hd (drop (nat (sst_pos st)) (sst_data st))"
    by (simp add: hd_drop_conv_nth)
  ultimately show ?thesis using assms by (simp add: py_nth_def stands_at_def)
qed

lemma stands_cut:
  assumes "stands_at st (cut_here r)"
  shows "sst_pos st = int (length (sst_data st))" "sst_rest st = fst r # snd r"
  using assms by (auto simp: stands_at_def)

subsection \<open>The characters of a string\<close>

lemma length_piece_bytes:
  "int (length (piece_bytes p)) = (if fst p then 2 * int (length (snd p)) else int (length (snd p)))"
  by (simp add: piece_bytes_def)

lemma piece_read:
  assumes "text_piece_ok p"
  shows "(if fst p then utf16_name (piece_bytes p) else Inr (latin_1 (piece_bytes p))) = Inr (snd p)"
  using assms by (simp add: text_piece_ok_def piece_bytes_def utf16_units_bytes latin_1_bytes)

lemma width_flag_bit [simp]: "width_flag p AND 1 = 0 \<longleftrightarrow> \<not> fst p"
  by (simp add: width_flag_def)

lemma sst_chars_piece:
  fixes nchars charsgot :: int
  assumes "text_piece_ok p" and st: "stands_at st (onto (piece_bytes p) r)"
    and flag: "options AND 1 \<noteq> 0 \<longleftrightarrow> fst p"
    and need: "charsgot + int (length (snd p)) \<le> nchars" "fst r = [] \<or> charsgot + int (length (snd p)) = nchars"
  shows "sst_chars nchars options (sst_data st) (sst_pos st) (sst_rest st) charsgot accstrg =
     (if charsgot + int (length (snd p)) = nchars
      then Inr (accstrg @ snd p, st\<lparr>sst_pos := sst_pos st + int (length (piece_bytes p))\<rparr>)
      else (case sst_rest st of
          [] \<Rightarrow> Inl IndexError
        | d # ds \<Rightarrow> rbind (py_nth d 0) (\<lambda>options.
            sst_chars nchars options d 1 ds (charsgot + int (length (snd p))) (accstrg @ snd p))))"
proof -
  let ?n = "int (length (snd p))"
  have room: "int (length (sst_data st)) - sst_pos st = int (length (piece_bytes p)) + int (length (fst r))"
    by (rule stands_room [OF st])
  have avail: "(if fst p then min ((int (length (sst_data st)) - sst_pos st) div 2) (nchars - charsgot)
      else min (int (length (sst_data st)) - sst_pos st) (nchars - charsgot)) = ?n"
    unfolding room length_piece_bytes using need by (auto simp: min_def)
  have slice: "py_slice (sst_data st) (sst_pos st) (sst_pos st + int (length (piece_bytes p))) = piece_bytes p"
    by (rule stands_slice [OF st refl])
  have st': "\<lparr>sst_data = sst_data st, sst_pos = q, sst_rest = sst_rest st\<rparr> = st\<lparr>sst_pos := q\<rparr>" for q
    by simp
  have new: "(if fst p then sst_pos st + 2 * ?n else sst_pos st + ?n) = sst_pos st + int (length (piece_bytes p))"
    by (simp add: length_piece_bytes)
  show ?thesis
    by (subst sst_chars.simps)
      (simp only: Let_def flag avail new slice piece_read [OF assms(1)] rbind_Inr st')
qed

lemma sst_chars_reads:
  fixes nchars charsgot :: int
  assumes "ps \<noteq> []" and "list_all text_piece_ok ps" and "tl ps = [] \<or> snd (last ps) \<noteq> []"
    and "stands_at st (put_pieces ps r)" and "options AND 1 \<noteq> 0 \<longleftrightarrow> fst (hd ps)"
    and "nchars = charsgot + int (length (concat (map snd ps)))"
  shows "\<exists>st'. sst_chars nchars options (sst_data st) (sst_pos st) (sst_rest st) charsgot accstrg
      = Inr (accstrg @ concat (map snd ps), st') \<and> stands_at st' r"
  using assms
proof (induction ps arbitrary: st options charsgot accstrg rule: induct_list012)
  case (2 p)
  then have st: "stands_at st (onto (piece_bytes p) r)" by simp
  with 2 have "sst_chars nchars options (sst_data st) (sst_pos st) (sst_rest st) charsgot accstrg
      = Inr (accstrg @ snd p, st\<lparr>sst_pos := sst_pos st + int (length (piece_bytes p))\<rparr>)"
    by (subst sst_chars_piece [OF _ st]) simp_all
  with stands_move [OF st refl] show ?case by simp
next
  case (3 p q ps)
  let ?r = "onto [width_flag q] (put_pieces (q # ps) r)"
  from "3.prems" have st: "stands_at st (onto (piece_bytes p) (cut_here ?r))" by simp
  from stands_cut(2) [OF stands_move [OF st refl]]
  have rest: "sst_rest st = fst ?r # snd ?r" by simp
  let ?st = "\<lparr>sst_data = fst ?r, sst_pos = 0, sst_rest = snd ?r\<rparr>"
  have s0: "stands_at ?st ?r" by (simp add: stands_at_def)
  from "3.prems"(3) have last: "snd (last (q # ps)) \<noteq> []" by simp
  then have "concat (map snd (q # ps)) \<noteq> []" using last_in_set [of "q # ps"] by auto
  then have "0 < length (concat (map snd (q # ps)))" by blast
  then have "charsgot + int (length (snd p)) < nchars"
    using "3.prems"(6) by (simp only: list.map concat.simps length_append of_nat_add)
  then have more: "charsgot + int (length (snd p)) \<noteq> nchars" "charsgot + int (length (snd p)) \<le> nchars"
    by simp_all
  have "sst_chars nchars options (sst_data st) (sst_pos st) (sst_rest st) charsgot accstrg
      = sst_chars nchars (width_flag q) (fst ?r) 1 (snd ?r) (charsgot + int (length (snd p))) (accstrg @ snd p)"
    using "3.prems"(2,5) more stands_nth [OF s0] by (subst sst_chars_piece [OF _ st]) (simp_all add: rest)
  moreover have "\<exists>st'. sst_chars nchars (width_flag q) (fst ?r) 1 (snd ?r) (charsgot + int (length (snd p)))
      (accstrg @ snd p) = Inr ((accstrg @ snd p) @ concat (map snd (q # ps)), st') \<and> stands_at st' r"
    using "3.IH"(2) [OF _ _ _ stands_move [OF s0, of 1], of "width_flag q" "charsgot + int (length (snd p))"
        "accstrg @ snd p"] "3.prems" last by simp
  ultimately show ?case by simp
qed simp

subsection \<open>The rest of a string\<close>

lemma sst_runs_reads:
  assumes "list_all (HH_ok \<circ> snd) rs" and "stands_at st (put_runs rs r)"
  shows "\<exists>st'. sst_runs (length rs) st = Inr (map snd rs, st') \<and> stands_at st' r"
  using assms
proof (induction rs arbitrary: st)
  case (Cons x rs)
  obtain brk run where x: "x = (brk, run)" by (cases x)
  let ?r = "onto (HH_bytes run) (put_runs rs r)"
  let ?next = "if sst_pos st = int (length (sst_data st)) then next_record (st\<lparr>sst_pos := 0\<rparr>) else Inr st"
  have ok: "HH_ok run" using Cons.prems(1) x by simp
  have "\<exists>st1. ?next = Inr st1 \<and> stands_at st1 ?r"
  proof (cases brk)
    case True
    then have "stands_at st (cut_here ?r)" using Cons.prems(2) x by (simp add: Let_def)
    from stands_cut [OF this] show ?thesis by (simp add: next_record_def stands_at_def)
  next
    case False
    then have st: "stands_at st ?r" using Cons.prems(2) x by (simp add: Let_def)
    then show ?thesis using stands_room [OF st] HH.enc_width [OF ok] by simp
  qed
  then obtain st1 where st1: "?next = Inr st1" "stands_at st1 ?r" by blast
  have "unpack_HH (py_slice (sst_data st1) (sst_pos st1) (sst_pos st1 + 4)) = Inr run"
    using stands_slice [OF st1(2), of 4] HH.enc_width [OF ok] HH.dec_enc [OF ok] by simp
  moreover have "stands_at (st1\<lparr>sst_pos := sst_pos st1 + 4\<rparr>) (put_runs rs r)"
    using stands_move [OF st1(2), of 4] HH.enc_width [OF ok] by simp
  then obtain st' where "sst_runs (length rs) (st1\<lparr>sst_pos := sst_pos st1 + 4\<rparr>) = Inr (map snd rs, st')"
    "stands_at st' r" using Cons.IH Cons.prems(1) by auto
  ultimately show ?case using st1(1) x by simp
qed simp

lemma sst_adjust_reads:
  assumes "stands_at st (put_pho e r)" and "if is_last then r = ([], []) else fst r \<noteq> []"
  shows "\<exists>st'. sst_adjust is_last (st\<lparr>sst_pos := sst_pos st + int (length (pho_bytes e))\<rparr>) = Inr st'
    \<and> (is_last \<or> stands_at st' r)"
proof (cases "pho_cut e")
  case None
  then have st: "stands_at st (onto (pho_bytes e) r)" using assms(1) by (simp add: put_pho_def)
  then have "sst_rest st = snd r" by (simp add: stands_at_def)
  moreover have "is_last \<or> sst_pos st + int (length (pho_bytes e)) < int (length (sst_data st))"
    using stands_room [OF st] assms(2) by (cases "fst r") (auto split: if_splits)
  ultimately show ?thesis using stands_move [OF st refl] assms(2)
    by (auto simp: sst_adjust_def Let_def)
next
  case (Some n)
  let ?a = "take n (pho_bytes e)" and ?b = "drop n (pho_bytes e)"
  have st: "stands_at st (onto ?a (cut_here (onto ?b r)))" using assms(1) Some by (simp add: put_pho_def)
  from stands_cut [OF stands_move [OF st refl]]
  have c: "int (length (sst_data st)) = sst_pos st + int (length ?a)" "sst_rest st = (?b @ fst r) # snd r"
    by simp_all
  have l: "int (length (pho_bytes e)) = int (length ?a) + int (length ?b)"
    by (metis append_take_drop_id length_append of_nat_add)
  let ?st' = "\<lparr>sst_data = ?b @ fst r, sst_pos = int (length ?b), sst_rest = snd r\<rparr>"
  have "sst_adjust is_last (st\<lparr>sst_pos := sst_pos st + int (length (pho_bytes e))\<rparr>) = Inr ?st'"
    unfolding sst_adjust_def l using c by (simp add: next_record_def)
  moreover have "stands_at ?st' r" by (simp add: stands_at_def)
  ultimately show ?thesis by blast
qed

lemma byte_flags:
  "entry_flags e AND 1 \<noteq> 0 \<longleftrightarrow> fst (hd (pieces e))"
  "entry_flags e AND 8 \<noteq> 0 \<longleftrightarrow> runs e \<noteq> []"
  "entry_flags e AND 4 \<noteq> 0 \<longleftrightarrow> phonetic e \<noteq> None"
  by (cases "fst (hd (pieces e))"; cases "runs e = []"; cases "phonetic e"; simp add: entry_flags_def width_flag_def)+

lemma onto_onto: "onto (a @ b) r = onto a (onto b r)"
  by (simp add: onto_def)

text \<open>A field of the header that is there only under a condition \<open>c\<close>.\<close>

context byte_field
begin

lemma optional_field:
  assumes "ok x" and "stands_at (st\<lparr>sst_pos := p\<rparr>) (onto (if c then enc x else []) r)" and "w = int width"
  shows "(if c then dec (py_slice (sst_data st) p (p + w)) else Inr z) = Inr (if c then x else z)"
    and "stands_at (st\<lparr>sst_pos := (if c then p + w else p)\<rparr>) r"
proof -
  let ?st = "st\<lparr>sst_pos := p\<rparr>"
  show "(if c then dec (py_slice (sst_data st) p (p + w)) else Inr z) = Inr (if c then x else z)"
    using stands_slice [of ?st "enc x" r w] assms enc_width [OF assms(1)] dec_enc [OF assms(1)] by (cases c) simp_all
  show "stands_at (st\<lparr>sst_pos := (if c then p + w else p)\<rparr>) r"
    using stands_move [of ?st "enc x" r w] assms enc_width [OF assms(1)] by (cases c) simp_all
qed

end

lemma sst_string_reads:
  assumes e: "entry_ok e" and st: "stands_at st (put_entry e r)"
  shows "\<exists>st'. stands_at st' (put_pho e r) \<and>
    sst_string st = Inr (entry_text e, map snd (runs e), st'\<lparr>sst_pos := sst_pos st' + int (length (pho_bytes e))\<rparr>)"
proof -
  let ?n = "int (length (entry_text e))" and ?k = "int (length (runs e))" and ?m = "int (length (pho_bytes e))"
  let ?rich = "entry_flags e AND 8 \<noteq> 0" and ?pho = "entry_flags e AND 4 \<noteq> 0"
  let ?chars = "put_pieces (pieces e) (put_runs (runs e) (put_pho e r))"
  have ok: "u16_ok ?n" "u16_ok ?k" "i32_ok ?m"
    using e by (simp_all add: entry_ok_def u16_ok_def i32_ok_def)
  have header: "entry_header e = le_bytes 2 ?n @ [entry_flags e] @ (if ?rich then le_bytes 2 ?k else [])
      @ (if ?pho then le_bytes 4 ?m else [])"
    unfolding entry_header_def byte_flags by simp
  have s0: "stands_at st (onto (le_bytes 2 ?n) (onto [entry_flags e]
      (onto (if ?rich then le_bytes 2 ?k else []) (onto (if ?pho then le_bytes 4 ?m else []) ?chars))))"
    using st unfolding put_entry_def header onto_onto .
  let ?p0 = "sst_pos st"
  let ?p1 = "?p0 + 2" let ?p2 = "?p1 + 1"
  let ?p3 = "if ?rich then ?p2 + 2 else ?p2"
  let ?p4 = "if ?pho then ?p3 + 4 else ?p3"
  let ?at = "\<lambda>p. st\<lparr>sst_pos := p\<rparr>"
  have f0: "unpack_u16 (py_slice (sst_data st) ?p0 (?p0 + 2)) = Inr ?n"
    using stands_slice [OF s0, of 2] u16.dec_enc [OF ok(1)] by simp
  have s1: "stands_at (?at ?p1) (onto [entry_flags e]
      (onto (if ?rich then le_bytes 2 ?k else []) (onto (if ?pho then le_bytes 4 ?m else []) ?chars)))"
    by (rule stands_move [OF s0]) simp
  have f1: "py_nth (sst_data st) ?p1 = Inr (entry_flags e)" using stands_nth [OF s1] by simp
  have s2: "stands_at (?at ?p2) (onto (if ?rich then le_bytes 2 ?k else [])
      (onto (if ?pho then le_bytes 4 ?m else []) ?chars))"
    using stands_move [OF s1, of 1] by simp
  have f2: "(if ?rich then unpack_u16 (py_slice (sst_data st) ?p2 (?p2 + 2)) else Inr 0) = Inr (if ?rich then ?k else 0)"
    by (rule u16.optional_field(1) [OF ok(2) s2]) simp
  have s3: "stands_at (?at ?p3) (onto (if ?pho then le_bytes 4 ?m else []) ?chars)"
    by (rule u16.optional_field(2) [OF ok(2) s2]) simp
  have f3: "(if ?pho then unpack_i32 (py_slice (sst_data st) ?p3 (?p3 + 4)) else Inr 0) = Inr (if ?pho then ?m else 0)"
    by (rule i32.optional_field(1) [OF ok(3) s3]) simp
  have s4: "stands_at (?at ?p4) ?chars"
    by (rule i32.optional_field(2) [OF ok(3) s3]) simp
  obtain st5 where f5: "sst_chars ?n (entry_flags e) (sst_data st) ?p4 (sst_rest st) 0 [] = Inr (entry_text e, st5)"
    and s5: "stands_at st5 (put_runs (runs e) (put_pho e r))"
    using sst_chars_reads [OF _ _ _ s4 byte_flags(1), of ?n 0 "[]"] e by (auto simp: entry_ok_def entry_text_def)
  obtain st6 where f6: "sst_runs (length (runs e)) st5 = Inr (map snd (runs e), st6)"
    and s6: "stands_at st6 (put_pho e r)"
    using sst_runs_reads [OF _ s5] e by (auto simp: entry_ok_def)
  have k: "nat (if ?rich then ?k else 0) = length (runs e)" using byte_flags(2) [of e] by simp
  have m: "(if ?pho then ?m else 0) = ?m" using byte_flags(3) [of e] by (simp add: pho_bytes_def)
  have "sst_string st = Inr (entry_text e, map snd (runs e), st6\<lparr>sst_pos := sst_pos st6 + ?m\<rparr>)"
    by (simp only: sst_string_def Let_def f0 f1 f2 f3 f5 rbind_Inr prod.case k f6 m)
  with s6 show ?thesis by blast
qed

subsection \<open>The table\<close>

definition run_table :: "nat \<Rightarrow> sst_entry list \<Rightarrow> (nat \<times> (int \<times> int) list) list" where
  "run_table i es = concat (map (\<lambda>(i, e). if runs e = [] then [] else [(i, map snd (runs e))]) (enumerate i es))"

lemma put_entries_Cons: "put_entries (e # es) = put_entry e (put_entries es)"
  by (simp add: put_entries_def)

lemma put_entries_Nil: "put_entries [] = ([], [])"
  by (simp add: put_entries_def)

lemma put_entries_bytes: "es \<noteq> [] \<Longrightarrow> fst (put_entries es) \<noteq> []"
  by (cases es) (simp_all add: put_entries_Cons put_entry_def entry_header_def)

lemma sst_loop_reads:
  assumes "list_all entry_ok es" and "es = [] \<or> stands_at st (put_entries es)"
  shows "sst_loop (length es) st strings richtext_runs
    = Inr (strings @ map entry_text es, richtext_runs @ run_table (length strings) es)"
  using assms
proof (induction es arbitrary: st strings richtext_runs)
  case Nil
  show ?case by (simp add: run_table_def)
next
  case (Cons e es)
  from Cons.prems have e: "entry_ok e" "stands_at st (put_entry e (put_entries es))"
    by (simp_all add: put_entries_Cons)
  from sst_string_reads [OF this] obtain st1 where s1: "stands_at st1 (put_pho e (put_entries es))"
    "sst_string st = Inr (entry_text e, map snd (runs e), st1\<lparr>sst_pos := sst_pos st1 + int (length (pho_bytes e))\<rparr>)"
    by blast
  have "if es = [] then put_entries es = ([], []) else fst (put_entries es) \<noteq> []"
    by (simp add: put_entries_Nil put_entries_bytes)
  from sst_adjust_reads [OF s1(1) this] obtain st2 where s2: "es = [] \<or> stands_at st2 (put_entries es)"
    "sst_adjust (es = []) (st1\<lparr>sst_pos := sst_pos st1 + int (length (pho_bytes e))\<rparr>) = Inr st2"
    by blast
  show ?case using Cons.IH [OF _ s2(1)] Cons.prems(1) s1(2) s2(2)
    by (simp add: run_table_def)
qed

text \<open>The table of \<open>es\<close> behind the eight bytes that count its strings.\<close>

definition sst_layout :: "bytes \<Rightarrow> sst_entry list \<Rightarrow> layout" where
  "sst_layout used es = onto (used @ le_bytes 4 (int (length es))) (put_entries es)"

lemma unpack_SST_table_reads:
  assumes "length used = 4" and "list_all entry_ok es"
  shows "unpack_SST_table (fst (sst_layout used es) # snd (sst_layout used es)) (int (length es))
    = Inr (map entry_text es, run_table 0 es)"
proof -
  let ?st = "\<lparr>sst_data = fst (sst_layout used es), sst_pos = 8, sst_rest = snd (sst_layout used es)\<rparr>"
  have "stands_at ?st (put_entries es)"
    using assms(1) by (simp add: stands_at_def sst_layout_def)
  with sst_loop_reads [OF assms(2), of ?st "[]" "[]"] show ?thesis
    by (simp add: unpack_SST_table_def)
qed

section \<open>The table in the file\<close>

definition record_bytes :: "int \<Rightarrow> bytes \<Rightarrow> bytes" where
  "record_bytes code data = HH_bytes (code, int (length data)) @ data"

definition continued :: "bytes list \<Rightarrow> bytes" where
  "continued ds = concat (map (record_bytes XL_CONTINUE) ds)"

lemma length_record_bytes [simp]: "length (record_bytes code data) = 4 + length data"
  by (simp add: record_bytes_def HH_bytes_def)

lemma continue_conditional:
  assumes "0 \<le> pos" and "drop (nat pos) mem = record_bytes code data @ r"
    and "u16_ok code" and "length data < 65536"
  shows "get_record_parts_conditional reqd mem pos =
    (if code = reqd then Inr ((Some code, int (length data), data), pos + 4 + int (length data))
     else Inr ((None, 0, []), pos))"
proof -
  have ok: "HH_ok (code, int (length data))" using assms(3,4) by (simp add: HH_ok_def u16_ok_def)
  have h: "drop (nat pos) mem = HH_bytes (code, int (length data)) @ (data @ r)"
    using assms(2) by (simp add: record_bytes_def)
  have u: "unpack_HH (py_slice mem pos (pos + 4)) = Inr (code, int (length data))"
    using HH.read_at [OF ok assms(1) h] by simp
  have "drop (nat (pos + 4)) mem = data @ r" using HH.rest_at [OF ok assms(1) h] by simp
  then have "py_slice mem (pos + 4) (pos + 4 + int (length data)) = data"
    using assms(1) by (simp add: py_slice_nonneg)
  with u show ?thesis by (simp add: get_record_parts_conditional_def Let_def)
qed

lemma sst_continued_reads:
  assumes "0 \<le> pos" and "drop (nat pos) mem = continued ds @ record_bytes code data @ r"
    and "list_all (\<lambda>d. length d < 65536) ds" and "code \<noteq> XL_CONTINUE" and "u16_ok code" and "length data < 65536"
  shows "sst_continued mem pos = Inr (ds, pos + int (length (continued ds)))"
  using assms(1-3)
proof (induction ds arbitrary: pos)
  case Nil
  then have "drop (nat pos) mem = record_bytes code data @ r" by (simp add: continued_def)
  from continue_conditional [OF Nil.prems(1) this assms(5,6)] show ?case
    using assms(4) by (subst sst_continued.simps) (simp add: continued_def)
next
  case (Cons d ds)
  let ?pos' = "pos + 4 + int (length d)"
  have h: "drop (nat pos) mem = record_bytes XL_CONTINUE d @ (continued ds @ record_bytes code data @ r)"
    using Cons.prems(2) by (simp add: continued_def)
  have "nat ?pos' = nat pos + length (record_bytes XL_CONTINUE d)" using Cons.prems(1) by simp
  then have "drop (nat ?pos') mem = drop (length (record_bytes XL_CONTINUE d)) (drop (nat pos) mem)"
    by (simp only: drop_drop add.commute)
  then have "drop (nat ?pos') mem = continued ds @ record_bytes code data @ r" by (simp only: h append_eq_conv_conj) simp
  with Cons have "sst_continued mem ?pos' = Inr (ds, ?pos' + int (length (continued ds)))" by simp
  then show ?case
    using continue_conditional [OF Cons.prems(1) h] Cons.prems(3)
    by (subst sst_continued.simps) (simp add: continued_def u16_ok_def XL_CONTINUE_def)
qed

lemma handle_sst_reads:
  assumes "0 \<le> pos" and "length used = 4" and "list_all entry_ok es" and "length es < 2 ^ 31"
    and "list_all (\<lambda>d. length d < 65536) (snd (sst_layout used es))"
    and "code \<noteq> XL_CONTINUE" and "u16_ok code" and "length data < 65536"
    and "drop (nat pos) mem = continued (snd (sst_layout used es)) @ record_bytes code data @ r"
  shows "handle_sst mem pos (fst (sst_layout used es))
    = Inr ((map entry_text es, run_table 0 es), pos + int (length (continued (snd (sst_layout used es)))))"
proof -
  let ?data = "fst (sst_layout used es)"
  have ok: "i32_ok (int (length es))" using assms(4) by (simp add: i32_ok_def)
  have "drop 4 ?data = le_bytes 4 (int (length es)) @ fst (put_entries es)"
    using assms(2) by (simp add: sst_layout_def)
  then have "unpack_i32 (py_slice ?data 4 8) = Inr (int (length es))"
    using i32.read_at [OF ok, of 4 ?data] by simp
  then show ?thesis
    using sst_continued_reads [OF assms(1,9,5-8)] unpack_SST_table_reads [OF assms(2,3)]
    by (simp add: handle_sst_def)
qed

text \<open>
  C26: the shared string table of a workbook is read back as it was written: whatever strings the table
  holds, and wherever the writer has cut them over \<open>CONTINUE\<close> records (between characters, with a change
  of width at the cut, between formatting runs, inside the phonetic part or between strings), the
  reader returns every text and the runs of every text that has some, and stops at the next record.
\<close>
theorem shared_strings_read:
  assumes "0 \<le> pos" and "length used = 4" and "list_all entry_ok es" and "length es < 2 ^ 31"
    and "list_all (\<lambda>d. length d < 65536) (snd (sst_layout used es))"
    and "code \<noteq> XL_CONTINUE" and "u16_ok code" and "length data < 65536"
    and "drop (nat pos) mem = continued (snd (sst_layout used es)) @ record_bytes code data @ r"
  shows "handle_sst mem pos (fst (sst_layout used es))
    = Inr ((map entry_text es, run_table 0 es), pos + int (length (continued (snd (sst_layout used es)))))"
  using assms by (rule handle_sst_reads)

text \<open>The strings \<open>a\<close> with a Chinese character, cut three times, and \<open>b\<close>.\<close>

definition two_strings :: "sst_entry list" where
  "two_strings =
     [\<lparr>pieces = [(False, [0x61]), (True, [0x4E2D])], runs = [(True, 1, 5)], phonetic = Some [7, 8], pho_cut = Some 1\<rparr>,
      \<lparr>pieces = [(False, [0x62])], runs = [], phonetic = None, pho_cut = None\<rparr>]"

lemma shared_strings_read_witness:
  "handle_sst [60, 0, 3, 0, 1, 45, 78, 60, 0, 5, 0, 1, 0, 5, 0, 7, 60, 0, 5, 0, 8, 1, 0, 0, 98, 10, 0, 0, 0] 0
     [2, 0, 0, 0, 2, 0, 0, 0, 2, 0, 12, 1, 0, 2, 0, 0, 0, 97]
   = Inr (([[0x61, 0x4E2D], [0x62]], [(0, [(1, 5)])]), 25)"
proof -
  have entries: "put_entries two_strings =
      ([2, 0, 12, 1, 0, 2, 0, 0, 0, 97], [[1, 45, 78], [1, 0, 5, 0, 7], [8, 1, 0, 0, 98]])"
    by code_simp
  have l: "sst_layout [2, 0, 0, 0] two_strings =
      ([2, 0, 0, 0, 2, 0, 0, 0, 2, 0, 12, 1, 0, 2, 0, 0, 0, 97], [[1, 45, 78], [1, 0, 5, 0, 7], [8, 1, 0, 0, 98]])"
    by (simp add: sst_layout_def entries onto_def) (simp add: two_strings_def eval_nat_numeral)
  have c: "continued [[1, 45, 78], [1, 0, 5, 0, 7], [8, 1, 0, 0, 98]] =
      [60, 0, 3, 0, 1, 45, 78, 60, 0, 5, 0, 1, 0, 5, 0, 7, 60, 0, 5, 0, 8, 1, 0, 0, 98]"
    by code_simp
  have e: "record_bytes 10 [] = [10, 0, 0, 0]" by code_simp
  have ok: "list_all entry_ok two_strings"
    by (simp add: two_strings_def entry_ok_def entry_text_def pho_bytes_def text_piece_ok_def byte_ok_def u16_ok_def HH_ok_def)
  have t: "map entry_text two_strings = [[0x61, 0x4E2D], [0x62]]" "run_table 0 two_strings = [(0, [(1, 5)])]"
    by code_simp+
  have "10 \<noteq> XL_CONTINUE" "u16_ok 10" by (simp_all add: XL_CONTINUE_def u16_ok_def)
  from shared_strings_read [of 0 "[2, 0, 0, 0]" two_strings 10 "[]" _ "[]", unfolded l snd_conv fst_conv c t, OF _ _ ok _ _ this]
  show ?thesis by (simp add: e two_strings_def)
qed

section \<open>Cell ranges\<close>

definition range_ok :: "int \<Rightarrow> int \<times> int \<times> int \<times> int \<Rightarrow> bool" where
  "range_ok cols = (\<lambda>(rlo, rhi, clo, chi). u16_ok rlo \<and> u16_ok (rhi - 1) \<and> 0 \<le> clo \<and> clo < cols \<and> 1 \<le> chi \<and> chi \<le> cols)"

definition range_bytes :: "nat \<Rightarrow> int \<times> int \<times> int \<times> int \<Rightarrow> bytes" where
  "range_bytes k = (\<lambda>(rlo, rhi, clo, chi). le_bytes 2 rlo @ le_bytes 2 (rhi - 1) @ le_bytes k clo @ le_bytes k (chi - 1))"

interpretation range8: byte_field 8 "range_bytes 2" "unpack_range 8" "range_ok 65536"
  by unfold_locales
    (auto simp: range_bytes_def range_ok_def unpack_range_def chunks_2 le_nat_le_bytes u16_ok_def)

interpretation range6: byte_field 6 "range_bytes 1" "unpack_range 6" "range_ok 256"
  by unfold_locales
    (auto simp: range_bytes_def range_ok_def unpack_range_def chunks_2 le_nat_le_bytes u16_ok_def uint_word_of_int
        nth_append simp del: of_int_diff)

text \<open>A list of ranges is read field by field, whichever of the two widths it has.\<close>

context byte_field
begin

lemma read_fields:
  assumes "\<And>n data p out. step (Suc n) data p out =
      rbind (dec (py_slice data p (p + int width))) (\<lambda>x. step n data (p + int width) (out @ [x]))"
    and "\<And>data p out. step 0 data p out = Inr (out, p)"
    and "list_all ok xs" and "0 \<le> p" and "drop (nat p) data = concat (map enc xs) @ r"
  shows "step (length xs) data p out = Inr (out @ xs, p + int width * int (length xs))"
  using assms(3-5)
proof (induction xs arbitrary: p out)
  case (Cons x xs)
  then have h: "ok x" "drop (nat p) data = enc x @ (concat (map enc xs) @ r)" by simp_all
  have "step (length xs) data (p + int width) (out @ [x])
      = Inr ((out @ [x]) @ xs, (p + int width) + int width * int (length xs))"
    using Cons.prems rest_at [OF h(1) Cons.prems(2) h(2)] by (intro Cons.IH) simp_all
  then show ?case
    using read_at [OF h(1) Cons.prems(2) h(2)] by (simp add: assms(1) algebra_simps)
qed (simp add: assms(2))

end

lemma cell_ranges_read:
  assumes "addr_size = 8 \<and> k = 2 \<and> cols = 65536 \<or> addr_size = 6 \<and> k = 1 \<and> cols = 256"
    and "list_all (range_ok cols) rs" and "length rs < 65536" and "0 \<le> pos"
    and "drop (nat pos) data = le_bytes 2 (int (length rs)) @ concat (map (range_bytes k) rs) @ r"
  shows "unpack_cell_range_address_list_update_pos out data pos addr_size
    = Inr (out @ rs, pos + 2 + addr_size * int (length rs))"
proof -
  have ok: "u16_ok (int (length rs))" using assms(3) by (simp add: u16_ok_def)
  have u: "unpack_u16 (py_slice data pos (pos + 2)) = Inr (int (length rs))"
    "drop (nat (pos + 2)) data = concat (map (range_bytes k) rs) @ r"
    using u16.read_at [OF ok assms(4,5)] u16.rest_at [OF ok assms(4,5)] by simp_all
  have p: "0 \<le> pos + 2" using assms(4) by simp
  have "unpack_ranges (length rs) addr_size data (pos + 2) out = Inr (out @ rs, pos + 2 + addr_size * int (length rs))"
    using range8.read_fields [of "\<lambda>n. unpack_ranges n 8" rs "pos + 2" data r out]
      range6.read_fields [of "\<lambda>n. unpack_ranges n 6" rs "pos + 2" data r out] assms(1,2) u(2) p by auto
  then show ?thesis using u(1) assms(1) by (auto simp: unpack_cell_range_address_list_update_pos_def)
qed

section \<open>The two readers of a text agree\<close>

lemma count_field_None:
  "count_field data pos lenlen None = rbind (unpack_len lenlen (py_slice data pos (pos + int lenlen)))
     (\<lambda>n. Inr (n, pos + int lenlen))"
  by (simp add: count_field_def)

lemma empty_slice: "py_slice data p p = []"
  by (simp add: py_slice_def)

lemma empty_text: "utf16_name [] = Inr []" "latin_1 [] = []"
  by (simp_all add: utf16_name_def latin_1_def)

lemma unpack_unicode_agrees:
  assumes "unpack_unicode_update_pos data pos lenlen None = Inr (strg, newpos)"
  shows "unpack_unicode data pos lenlen = Inr strg"
proof -
  obtain n where n: "unpack_len lenlen (py_slice data pos (pos + int lenlen)) = Inr n"
    using assms unfolding unpack_unicode_update_pos_def count_field_None by auto
  show ?thesis
  proof (cases "n = 0")
    case True
    with assms n have "strg = []"
      by (auto simp: unpack_unicode_update_pos_def count_field_None Let_def empty_slice empty_text split: if_splits)
    with n True show ?thesis by (simp add: unpack_unicode_def)
  next
    case False
    let ?p = "pos + int lenlen"
    obtain options where o: "py_nth data ?p = Inr options"
      using assms n False by (auto simp: unpack_unicode_update_pos_def count_field_None simp del: unpack_len_def)
    show ?thesis using assms n False o
      unfolding unpack_unicode_def unpack_unicode_update_pos_def count_field_None Let_def
      by (cases "options AND 8 = 0"; cases "options AND 4 = 0"; cases "options AND 1 = 0") auto
  qed
qed

end
