(* ===== verification/XlFormats.thy ===== *)
theory XlFormats
  imports XlStrings PyStr
begin

text \<open>
  Number formats and cell formats of a workbook (\<open>xlrd/formatting.py\<close>): the tables of the standard
  formats and colours, the decision whether a format shows a date, and the records \<open>FORMAT\<close>,
  \<open>PALETTE\<close>, \<open>STYLE\<close> and \<open>XF\<close>, which end in the map from the format index of a cell to its type.
  An object whose attributes are set by name is the list of its attributes; an attribute that is
  not set has the default of its class, which is 0. Messages and the note of the colours in use
  (\<open>colour_indexes_used\<close>, for messages only) are not modelled.
\<close>

section \<open>Tables\<close>

definition FUN :: nat where "FUN = 0"
definition FDT :: nat where "FDT = 1"
definition FNU :: nat where "FNU = 2"
definition FGE :: nat where "FGE = 3"
definition FTX :: nat where "FTX = 4"
definition XL_CELL_NUMBER :: nat where "XL_CELL_NUMBER = 2"
definition XL_CELL_DATE :: nat where "XL_CELL_DATE = 3"

definition cellty_from_fmtty :: "(nat \<times> nat) list" where
  "cellty_from_fmtty =
     [(FNU, XL_CELL_NUMBER), (FUN, XL_CELL_NUMBER), (FGE, XL_CELL_NUMBER), (FDT, XL_CELL_DATE), (FTX, XL_CELL_NUMBER)]"

type_synonym rgb = "int \<times> int \<times> int"

definition excel_default_palette_b5 :: "rgb list" where
  "excel_default_palette_b5 =
    [(0, 0, 0), (255, 255, 255), (255, 0, 0), (0, 255, 0),
     (0, 0, 255), (255, 255, 0), (255, 0, 255), (0, 255, 255),
     (128, 0, 0), (0, 128, 0), (0, 0, 128), (128, 128, 0),
     (128, 0, 128), (0, 128, 128), (192, 192, 192), (128, 128, 128),
     (153, 153, 255), (153, 51, 102), (255, 255, 204), (204, 255, 255),
     (102, 0, 102), (255, 128, 128), (0, 102, 204), (204, 204, 255),
     (0, 0, 128), (255, 0, 255), (255, 255, 0), (0, 255, 255),
     (128, 0, 128), (128, 0, 0), (0, 128, 128), (0, 0, 255),
     (0, 204, 255), (204, 255, 255), (204, 255, 204), (255, 255, 153),
     (153, 204, 255), (255, 153, 204), (204, 153, 255), (227, 227, 227),
     (51, 102, 255), (51, 204, 204), (153, 204, 0), (255, 204, 0),
     (255, 153, 0), (255, 102, 0), (102, 102, 153), (150, 150, 150),
     (0, 51, 102), (51, 153, 102), (0, 51, 0), (51, 51, 0),
     (153, 51, 0), (153, 51, 102), (51, 51, 153), (51, 51, 51)]"

definition excel_default_palette_b2 :: "rgb list" where
  "excel_default_palette_b2 = take 16 excel_default_palette_b5"

definition excel_default_palette_b8 :: "rgb list" where
  "excel_default_palette_b8 =
    [(0, 0, 0), (255, 255, 255), (255, 0, 0), (0, 255, 0),
     (0, 0, 255), (255, 255, 0), (255, 0, 255), (0, 255, 255),
     (128, 0, 0), (0, 128, 0), (0, 0, 128), (128, 128, 0),
     (128, 0, 128), (0, 128, 128), (192, 192, 192), (128, 128, 128),
     (153, 153, 255), (153, 51, 102), (255, 255, 204), (204, 255, 255),
     (102, 0, 102), (255, 128, 128), (0, 102, 204), (204, 204, 255),
     (0, 0, 128), (255, 0, 255), (255, 255, 0), (0, 255, 255),
     (128, 0, 128), (128, 0, 0), (0, 128, 128), (0, 0, 255),
     (0, 204, 255), (204, 255, 255), (204, 255, 204), (255, 255, 153),
     (153, 204, 255), (255, 153, 204), (204, 153, 255), (255, 204, 153),
     (51, 102, 255), (51, 204, 204), (153, 204, 0), (255, 204, 0),
     (255, 153, 0), (255, 102, 0), (102, 102, 153), (150, 150, 150),
     (0, 51, 102), (51, 153, 102), (0, 51, 0), (51, 51, 0),
     (153, 51, 0), (153, 51, 102), (51, 51, 153), (51, 51, 51)]"

definition default_palette :: "(int \<times> rgb list) list" where
  "default_palette =
     [(80, excel_default_palette_b8), (70, excel_default_palette_b5), (50, excel_default_palette_b5),
      (45, excel_default_palette_b2), (40, excel_default_palette_b2), (30, excel_default_palette_b2),
      (21, excel_default_palette_b2), (20, excel_default_palette_b2)]"

definition ascii :: "string \<Rightarrow> uname" where "ascii s = map of_char s"

definition built_in_style_names :: "string list" where
  "built_in_style_names = [''Normal'', ''RowLevel_'', ''ColLevel_'', ''Comma'', ''Currency'', ''Percent'', ''Comma [0]'', ''Currency [0]'', ''Hyperlink'', ''Followed Hyperlink'']"

definition std_format_strings :: "(int \<times> string) list" where
  "std_format_strings =
    [(0x00, ''General''),
     (0x01, ''0''),
     (0x02, ''0.00''),
     (0x03, ''#,##0''),
     (0x04, ''#,##0.00''),
     (0x05, ''$#,##0_);($#,##0)''),
     (0x06, ''$#,##0_);[Red]($#,##0)''),
     (0x07, ''$#,##0.00_);($#,##0.00)''),
     (0x08, ''$#,##0.00_);[Red]($#,##0.00)''),
     (0x09, ''0%''),
     (0x0a, ''0.00%''),
     (0x0b, ''0.00E+00''),
     (0x0c, ''# ?/?''),
     (0x0d, ''# ??/??''),
     (0x0e, ''m/d/yy''),
     (0x0f, ''d-mmm-yy''),
     (0x10, ''d-mmm''),
     (0x11, ''mmm-yy''),
     (0x12, ''h:mm AM/PM''),
     (0x13, ''h:mm:ss AM/PM''),
     (0x14, ''h:mm''),
     (0x15, ''h:mm:ss''),
     (0x16, ''m/d/yy h:mm''),
     (0x25, ''#,##0_);(#,##0)''),
     (0x26, ''#,##0_);[Red](#,##0)''),
     (0x27, ''#,##0.00_);(#,##0.00)''),
     (0x28, ''#,##0.00_);[Red](#,##0.00)''),
     (0x29, (''_('' @ ''* #,##0_);_('' @ ''* (#,##0);_('' @ ''* \"-\"_);_(@_)'')),
     (0x2a, ''_($* #,##0_);_($* (#,##0);_($* \"-\"_);_(@_)''),
     (0x2b, (''_('' @ ''* #,##0.00_);_('' @ ''* (#,##0.00);_('' @ ''* \"-\"??_);_(@_)'')),
     (0x2c, ''_($* #,##0.00_);_($* (#,##0.00);_($* \"-\"??_);_(@_)''),
     (0x2d, ''mm:ss''),
     (0x2e, ''[h]:mm:ss''),
     (0x2f, ''mm:ss.0''),
     (0x30, ''##0.0E+0''),
     (0x31, ''@'')]"

definition fmt_code_ranges :: "(int \<times> int \<times> nat) list" where
  "fmt_code_ranges =
    [(0, 0, FGE), (1, 13, FNU), (14, 22, FDT), (27, 36, FDT),
     (37, 44, FNU), (45, 47, FDT), (48, 48, FNU), (49, 49, FTX),
     (50, 58, FDT), (59, 62, FNU), (67, 70, FNU), (71, 81, FDT)]"

definition std_format_code_types :: "(int \<times> nat) list" where
  "std_format_code_types = fold (\<lambda>(lo, hi, ty) d. fold (\<lambda>x d. aput d x ty) [lo..hi] d) fmt_code_ranges []"

definition date_char_dict :: "(int \<times> nat) list" where
  "date_char_dict = map (\<lambda>c. (c, 5)) (ascii ''ymdhsYMDHS'')"

definition skip_chars :: uname where "skip_chars = ascii ''$-+/(): ''"

definition num_char_dict :: "(int \<times> nat) list" where
  "num_char_dict = map (\<lambda>c. (c, 5)) (ascii ''0#?'')"

definition non_date_formats :: "uname list" where
  "non_date_formats = map ascii [''0.00E+00'', ''##0.0E+0'', ''General'', ''GENERAL'', ''general'', ''@'']"

section \<open>Is a format a date?\<close>

text \<open>The first loop: texts in quotes, escaped characters and decoration are left out.\<close>

definition reduce_step :: "int \<Rightarrow> nat \<times> uname \<Rightarrow> nat \<times> uname" where
  "reduce_step c = (\<lambda>(state, s).
     if state = 0 then
       if c = of_char (CHR 0x22) then (1, s)
       else if c \<in> set (ascii [CHR 0x5C, CHR ''_'', CHR ''*'']) then (2, s)
       else if c \<in> set skip_chars then (0, s)
       else (0, s @ [c])
     else if state = 1 then if c = of_char (CHR 0x22) then (0, s) else (1, s)
     else (0, s))"

definition reduce_format :: "uname \<Rightarrow> uname" where
  "reduce_format fmt = snd (fold reduce_step fmt (0, []))"

text \<open>\<open>re.compile(r'\[[^]]*\]').sub('', s)\<close>.\<close>

function bracketed_sub :: "uname \<Rightarrow> uname" where
  "bracketed_sub s =
     (case s of
        [] \<Rightarrow> []
      | c # cs \<Rightarrow>
          if c = of_char (CHR ''['') \<and> of_char (CHR '']'') \<in> set cs
          then bracketed_sub (tl (dropWhile (\<lambda>d. d \<noteq> of_char (CHR '']'')) cs))
          else c # bracketed_sub cs)"
  by pat_completeness auto
termination
proof (relation "measure length", goal_cases)
  case (2 s c cs)
  have "length (dropWhile (\<lambda>d. d \<noteq> of_char (CHR '']'')) cs) \<le> length cs" by (rule length_dropWhile_le)
  with 2 show ?case by simp
qed simp_all

declare bracketed_sub.simps [simp del]

definition count_step :: "int \<Rightarrow> nat \<times> nat \<Rightarrow> nat \<times> nat" where
  "count_step c = (\<lambda>(date_count, num_count).
     case aget date_char_dict c of
       Some n \<Rightarrow> (date_count + n, num_count)
     | None \<Rightarrow> (case aget num_char_dict c of
           Some n \<Rightarrow> (date_count, num_count + n)
         | None \<Rightarrow> (date_count, num_count)))"

definition is_date_format_string :: "uname \<Rightarrow> bool" where
  "is_date_format_string fmt =
     (let s = bracketed_sub (reduce_format fmt) in
      if s \<in> set non_date_formats then False
      else
        let (date_count, num_count) = fold count_step s (0, 0) in
        if date_count \<noteq> 0 \<and> num_count = 0 then True
        else if num_count \<noteq> 0 \<and> date_count = 0 then False
        else num_count < date_count)"

section \<open>The state of the workbook\<close>

record fmt_obj =
  format_key :: int
  fmt_type :: nat
  format_str :: "uname option"

type_synonym attrs = "(string \<times> int) list"

record xf_obj =
  xf_attrs :: attrs
  protection :: attrs
  alignment :: attrs
  border :: attrs
  background :: attrs

record book =
  biff_version :: int
  book_formatting_info :: bool
  actualfmtcount :: int
  format_map :: "(int \<times> fmt_obj) list"
  format_list :: "fmt_obj list"
  colour_map :: "(int \<times> rgb option) list"
  palette_record :: "rgb list"
  style_name_map :: "(uname \<times> (int \<times> int)) list"
  xfcount :: int
  xf_list :: "xf_obj list"
  xf_index_to_xl_type_map :: "(int \<times> nat) list"

definition getattr :: "attrs \<Rightarrow> string \<Rightarrow> int" where
  "getattr a name = (case aget a name of Some v \<Rightarrow> v | None \<Rightarrow> 0)"

section \<open>Colours\<close>

definition initialise_colour_map :: "book \<Rightarrow> book res" where
  "initialise_colour_map b =
     (if \<not> book_formatting_info b then Inr (b\<lparr>colour_map := []\<rparr>)
      else rbind (of_option KeyError (aget default_palette (biff_version b))) (\<lambda>dpal.
        let ndpal = int (length dpal);
            m = fold (\<lambda>i m. aput m (int i) (Some (excel_default_palette_b8 ! i))) [0..<8] [];
            m = fold (\<lambda>i m. aput m (int i + 8) (Some (dpal ! i))) [0..<length dpal] m;
            m = fold (\<lambda>ci m. aput m ci None) [ndpal + 8, ndpal + 8 + 1, 0x51, 0x7FFF] m
        in Inr (b\<lparr>colour_map := m\<rparr>)))"

text \<open>The order of the dictionary decides between colours at the same distance.\<close>

definition metric :: "rgb \<Rightarrow> rgb \<Rightarrow> int" where
  "metric a b = (case a of (r, g, l) \<Rightarrow> case b of (r', g', l') \<Rightarrow>
     (r - r') * (r - r') + (g - g') * (g - g') + (l - l') * (l - l'))"

fun nearest_loop :: "rgb \<Rightarrow> (int \<times> rgb option) list \<Rightarrow> int \<Rightarrow> int \<Rightarrow> int" where
  "nearest_loop rgb [] best_metric best_colourx = best_colourx"
| "nearest_loop rgb ((colourx, None) # items) best_metric best_colourx =
     nearest_loop rgb items best_metric best_colourx"
| "nearest_loop rgb ((colourx, Some cand_rgb) # items) best_metric best_colourx =
     (let m = metric rgb cand_rgb in
      if m < best_metric then if m = 0 then colourx else nearest_loop rgb items m colourx
      else nearest_loop rgb items best_metric best_colourx)"

definition nearest_colour_index :: "(int \<times> rgb option) list \<Rightarrow> rgb \<Rightarrow> int" where
  "nearest_colour_index m rgb = nearest_loop rgb m (3 * 256 * 256) 0"

fun palette_colours :: "int list \<Rightarrow> int \<Rightarrow> book \<Rightarrow> book res" where
  "palette_colours [] i b = Inr b"
| "palette_colours (c # cs) i b =
     (let new_rgb = (c AND 0xff, drop_bit 8 c AND 0xff, drop_bit 16 c AND 0xff) in
      rbind (of_option KeyError (aget (colour_map b) (8 + i))) (\<lambda>old_rgb.
      palette_colours cs (i + 1)
        (b\<lparr>palette_record := palette_record b @ [new_rgb], colour_map := aput (colour_map b) (8 + i) (Some new_rgb)\<rparr>)))"

definition handle_palette :: "bytes \<Rightarrow> book \<Rightarrow> book res" where
  "handle_palette data b =
     (if \<not> book_formatting_info b then Inr b
      else rbind (unpack_u16 (py_slice data 0 2)) (\<lambda>n_colours.
        let expected_size = 4 * n_colours + 2; actual_size = int (length data); tolerance = 4 in
        if \<not> (expected_size \<le> actual_size \<and> actual_size \<le> expected_size + tolerance) then Inl XLRDError
        else rbind (unpack_ints (nat n_colours) (drop 2 (py_slice data 0 expected_size))) (\<lambda>colours.
          if palette_record b \<noteq> [] then Inl AssertionError
          else palette_colours colours 0 b)))"

section \<open>Formats\<close>

definition XL_FORMAT :: int where "XL_FORMAT = 0x41e"
definition XL_FORMAT2 :: int where "XL_FORMAT2 = 0x1E"

definition handle_format :: "(bytes \<Rightarrow> uname res) \<Rightarrow> bytes \<Rightarrow> int \<Rightarrow> book \<Rightarrow> book res" where
  "handle_format decode data rectype b =
     (let bv = (if rectype = XL_FORMAT2 then min (biff_version b) 30 else biff_version b);
          strpos = (if bv < 50 \<and> bv \<le> 30 then 0 else 2) in
      rbind (if 50 \<le> bv then unpack_u16 (py_slice data 0 2) else Inr (actualfmtcount b)) (\<lambda>fmtkey.
      let b = b\<lparr>actualfmtcount := actualfmtcount b + 1\<rparr> in
      rbind (if 80 \<le> bv then unpack_unicode data 2 2 else unpack_string decode data strpos 1) (\<lambda>unistrg.
      let ty = (if is_date_format_string unistrg then FDT else FGE);
          fmtobj = \<lparr>format_key = fmtkey, fmt_type = ty, format_str = Some unistrg\<rparr>
      in Inr (b\<lparr>format_map := aput (format_map b) fmtkey fmtobj, format_list := format_list b @ [fmtobj]\<rparr>))))"

definition fill_in_standard_formats :: "book \<Rightarrow> book" where
  "fill_in_standard_formats b =
     fold (\<lambda>(x, ty) b.
       if aget (format_map b) x \<noteq> None then b
       else b\<lparr>format_map := aput (format_map b) x
         \<lparr>format_key = x, fmt_type = ty, format_str = map_option ascii (aget std_format_strings x)\<rparr>\<rparr>)
       std_format_code_types b"

section \<open>Styles\<close>

definition handle_style :: "(bytes \<Rightarrow> uname res) \<Rightarrow> bytes \<Rightarrow> book \<Rightarrow> book res" where
  "handle_style decode data b =
     (if \<not> book_formatting_info b then Inr b
      else rbind (unpack_fmt [FH, FB, FB] (py_slice data 0 4)) (\<lambda>vs.
        let flag_and_xfx = vs ! 0; built_in_id = vs ! 1; level = vs ! 2; xf_index = flag_and_xfx AND 0x0fff in
        rbind (if data = [0, 0, 0, 0] \<and> aget (style_name_map b) (ascii ''Normal'') = None
               then Inr (ascii ''Normal'', 1, 0)
               else if flag_and_xfx AND 0x8000 \<noteq> 0 then
                 rbind (py_nth built_in_style_names built_in_id) (\<lambda>name.
                 Inr (ascii (if 1 \<le> built_in_id \<and> built_in_id \<le> 2 then name @ str_of_int (level + 1) else name), 1, xf_index))
               else
                 rbind (if 80 \<le> biff_version b then unpack_unicode data 2 2 else unpack_string decode data 2 1) (\<lambda>name.
                 Inr (name, 0, xf_index))) (\<lambda>(name, built_in, xf_index).
        Inr (b\<lparr>style_name_map := aput (style_name_map b) name (built_in, xf_index)\<rparr>))))"

section \<open>Cell formats\<close>

text \<open>\<open>upkbits\<close>: every entry of a manifest is a shift, a mask and the name of an attribute.\<close>

type_synonym manifest = "(nat \<times> int \<times> string) list"

definition upkbits :: "attrs \<Rightarrow> int \<Rightarrow> manifest \<Rightarrow> attrs" where
  "upkbits tgt_obj src m = fold (\<lambda>(n, mask, attr) t. aput t attr (drop_bit n (src AND mask))) m tgt_obj"

fun set_flags :: "int \<Rightarrow> string list \<Rightarrow> attrs \<Rightarrow> attrs" where
  "set_flags reg [] a = a"
| "set_flags reg (attr_stem # stems) a =
     set_flags (drop_bit 1 reg) stems (aput a (''_'' @ attr_stem @ ''_flag'') (reg AND 1))"

definition flag_stems :: "string list" where
  "flag_stems = [''format'', ''font'', ''alignment'', ''border'', ''background'', ''protection'']"

definition new_xf :: xf_obj where
  "new_xf = \<lparr>xf_attrs = [], protection = [],
     alignment = [(''indent_level'', 0), (''shrink_to_fit'', 0), (''text_direction'', 0)],
     border = [(''diag_up'', 0), (''diag_down'', 0), (''diag_colour_index'', 0), (''diag_line_style'', 0)],
     background = []\<rparr>"

definition man_protection :: manifest where "man_protection = [(0, 0x01, ''cell_locked''), (1, 0x02, ''formula_hidden'')]"
definition man_parent :: manifest where
  "man_parent =
     [(2, 0x0004, ''is_style''), (3, 0x0008, ''lotus_123_prefix''), (4, 0xFFF0, ''parent_style_index'')]"
definition man_align1 :: manifest where
  "man_align1 = [(0, 0x07, ''hor_align''), (3, 0x08, ''text_wrapped''), (4, 0x70, ''vert_align'')]"
definition man_align2 :: manifest where
  "man_align2 = [(0, 0x0f, ''indent_level''), (4, 0x10, ''shrink_to_fit''), (6, 0xC0, ''text_direction'')]"
definition man_border1 :: manifest where
  "man_border1 =
     [(0, 0x0000000f, ''left_line_style''), (4, 0x000000f0, ''right_line_style''), (8, 0x00000f00, ''top_line_style''),
      (12, 0x0000f000, ''bottom_line_style''), (16, 0x007f0000, ''left_colour_index''), (23, 0x3f800000, ''right_colour_index''),
      (30, 0x40000000, ''diag_down''), (31, 0x80000000, ''diag_up'')]"
definition man_border2 :: manifest where
  "man_border2 =
     [(0, 0x0000007F, ''top_colour_index''), (7, 0x00003F80, ''bottom_colour_index''), (14, 0x001FC000, ''diag_colour_index''),
      (21, 0x01E00000, ''diag_line_style'')]"
definition man_fill :: manifest where "man_fill = [(26, 0xFC000000, ''fill_pattern'')]"
definition man_colours :: manifest where
  "man_colours = [(0, 0x007F, ''pattern_colour_index''), (7, 0x3F80, ''background_colour_index'')]"

text \<open>The attributes that every version has: the two indexes at the front of the record.\<close>

definition xf_keys :: "int \<Rightarrow> int \<Rightarrow> attrs \<Rightarrow> attrs" where
  "xf_keys font key a = aput (aput a ''font_index'' font) ''format_key'' key"

definition xf_biff8 :: "bytes \<Rightarrow> xf_obj res" where
  "xf_biff8 data =
     rbind (unpack_fmt [FH, FH, FH, FB, FB, FB, FB, FI, FSI, FH] (py_slice data 0 20)) (\<lambda>vs.
     let pkd_type_par = vs ! 2; pkd_align1 = vs ! 3; pkd_align2 = vs ! 5; pkd_used = vs ! 6;
         pkd_brdbkg1 = vs ! 7; pkd_brdbkg2 = vs ! 8; pkd_brdbkg3 = vs ! 9 in
     Inr \<lparr>xf_attrs = set_flags (drop_bit 2 pkd_used) flag_stems
            (upkbits (xf_keys (vs ! 0) (vs ! 1) (xf_attrs new_xf)) pkd_type_par man_parent),
          protection = upkbits (protection new_xf) pkd_type_par man_protection,
          alignment = upkbits (upkbits (aput (alignment new_xf) ''rotation'' (vs ! 4)) pkd_align1 man_align1)
            pkd_align2 man_align2,
          border = upkbits (upkbits (border new_xf) pkd_brdbkg1 man_border1) pkd_brdbkg2 man_border2,
          background = upkbits (upkbits (background new_xf) pkd_brdbkg2 man_fill) pkd_brdbkg3 man_colours\<rparr>)"

definition rotations :: "int list" where "rotations = [0, 255, 90, 180]"

definition man5_background :: manifest where
  "man5_background =
     [(0, 0x0000007F, ''pattern_colour_index''), (7, 0x00003F80, ''background_colour_index''), (16, 0x003F0000, ''fill_pattern'')]"
definition man5_border1 :: manifest where
  "man5_border1 = [(22, 0x01C00000, ''bottom_line_style''), (25, 0xFE000000, ''bottom_colour_index'')]"
definition man5_border2 :: manifest where
  "man5_border2 =
     [(0, 0x00000007, ''top_line_style''), (3, 0x00000038, ''left_line_style''), (6, 0x000001C0, ''right_line_style''),
      (9, 0x0000FE00, ''top_colour_index''), (16, 0x007F0000, ''left_colour_index''), (23, 0x3F800000, ''right_colour_index'')]"

definition xf_biff5 :: "bytes \<Rightarrow> xf_obj res" where
  "xf_biff5 data =
     rbind (unpack_fmt [FH, FH, FH, FB, FB, FI, FSI] (py_slice data 0 16)) (\<lambda>vs.
     let pkd_type_par = vs ! 2; pkd_align1 = vs ! 3; pkd_orient_used = vs ! 4;
         pkd_brdbkg1 = vs ! 5; pkd_brdbkg2 = vs ! 6; orientation = pkd_orient_used AND 0x03 in
     Inr \<lparr>xf_attrs = set_flags (drop_bit 2 pkd_orient_used) flag_stems
            (upkbits (xf_keys (vs ! 0) (vs ! 1) (xf_attrs new_xf)) pkd_type_par man_parent),
          protection = upkbits (protection new_xf) pkd_type_par man_protection,
          alignment = aput (upkbits (alignment new_xf) pkd_align1 man_align1) ''rotation'' (rotations ! nat orientation),
          border = upkbits (upkbits (border new_xf) pkd_brdbkg1 man5_border1) pkd_brdbkg2 man5_border2,
          background = upkbits (background new_xf) pkd_brdbkg1 man5_background\<rparr>)"

definition man4_align :: manifest where
  "man4_align = [(0, 0x07, ''hor_align''), (3, 0x08, ''text_wrapped''), (4, 0x30, ''vert_align'')]"
definition man4_background :: manifest where
  "man4_background =
     [(0, 0x003F, ''fill_pattern''), (6, 0x07C0, ''pattern_colour_index''), (11, 0xF800, ''background_colour_index'')]"
definition man4_border :: manifest where
  "man4_border =
     [(0, 0x00000007, ''top_line_style''), (3, 0x000000F8, ''top_colour_index''), (8, 0x00000700, ''left_line_style''),
      (11, 0x0000F800, ''left_colour_index''), (16, 0x00070000, ''bottom_line_style''), (19, 0x00F80000, ''bottom_colour_index''),
      (24, 0x07000000, ''right_line_style''), (27, 0xF8000000, ''right_colour_index'')]"

definition xf_biff4 :: "bytes \<Rightarrow> xf_obj res" where
  "xf_biff4 data =
     rbind (unpack_fmt [FB, FB, FH, FB, FB, FH, FI] (py_slice data 0 12)) (\<lambda>vs.
     let pkd_type_par = vs ! 2; pkd_align_orient = vs ! 3; pkd_used = vs ! 4; pkd_bkg_34 = vs ! 5; pkd_brd_34 = vs ! 6;
         orientation = drop_bit 6 (pkd_align_orient AND 0xC0) in
     Inr \<lparr>xf_attrs = set_flags (drop_bit 2 pkd_used) flag_stems
            (upkbits (xf_keys (vs ! 0) (vs ! 1) (xf_attrs new_xf)) pkd_type_par man_parent),
          protection = upkbits (protection new_xf) pkd_type_par man_protection,
          alignment = aput (upkbits (alignment new_xf) pkd_align_orient man4_align) ''rotation'' (rotations ! nat orientation),
          border = upkbits (border new_xf) pkd_brd_34 man4_border,
          background = upkbits (background new_xf) pkd_bkg_34 man4_background\<rparr>)"

definition man3_style :: manifest where
  "man3_style = [(2, 0x0004, ''is_style''), (3, 0x0008, ''lotus_123_prefix'')]"
definition man3_align :: manifest where
  "man3_align = [(0, 0x07, ''hor_align''), (3, 0x08, ''text_wrapped'')]"
definition man3_parent :: manifest where "man3_parent = [(4, 0xFFF0, ''parent_style_index'')]"

definition xf_biff3 :: "bytes \<Rightarrow> xf_obj res" where
  "xf_biff3 data =
     rbind (unpack_fmt [FB, FB, FB, FB, FH, FH, FI] (py_slice data 0 12)) (\<lambda>vs.
     let pkd_type_prot = vs ! 2; pkd_used = vs ! 3; pkd_align_par = vs ! 4; pkd_bkg_34 = vs ! 5; pkd_brd_34 = vs ! 6 in
     Inr \<lparr>xf_attrs = set_flags (drop_bit 2 pkd_used) flag_stems
            (upkbits (upkbits (xf_keys (vs ! 0) (vs ! 1) (xf_attrs new_xf)) pkd_type_prot man3_style) pkd_align_par man3_parent),
          protection = upkbits (protection new_xf) pkd_type_prot man_protection,
          alignment = aput (aput (upkbits (alignment new_xf) pkd_align_par man3_align) ''vert_align'' 2) ''rotation'' 0,
          border = upkbits (border new_xf) pkd_brd_34 man4_border,
          background = upkbits (background new_xf) pkd_bkg_34 man4_background\<rparr>)"

definition man2_protection :: manifest where
  "man2_protection = [(6, 0x40, ''cell_locked''), (7, 0x80, ''formula_hidden'')]"
definition man2_align :: manifest where "man2_align = [(0, 0x07, ''hor_align'')]"

definition side_step :: "int \<Rightarrow> int \<times> string \<Rightarrow> attrs \<Rightarrow> attrs" where
  "side_step halign_etc = (\<lambda>(mask, side) a.
     let (colour_index, line_style) = (if halign_etc AND mask \<noteq> 0 then (8, 1) else (0, 0)) in
     aput (aput a (side @ ''_colour_index'') colour_index) (side @ ''_line_style'') line_style)"

definition xf_biff2 :: "bytes \<Rightarrow> xf_obj res" where
  "xf_biff2 data =
     rbind (unpack_fmt [FB, FX, FB, FB] data) (\<lambda>vs.
     let format_etc = vs ! 1; halign_etc = vs ! 2 in
     Inr \<lparr>xf_attrs = fold (\<lambda>attr_stem a. aput a (''_'' @ attr_stem @ ''_flag'') 1) flag_stems
            (aput (xf_keys (vs ! 0) (format_etc AND 0x3F) (xf_attrs new_xf)) ''parent_style_index'' 0),
          protection = upkbits (protection new_xf) format_etc man2_protection,
          alignment = aput (aput (upkbits (alignment new_xf) halign_etc man2_align) ''vert_align'' 2) ''rotation'' 0,
          border = fold (side_step halign_etc) [(0x08, ''left''), (0x10, ''right''), (0x20, ''top''), (0x40, ''bottom'')]
            (border new_xf),
          background = aput (aput (aput (background new_xf) ''fill_pattern'' (if halign_etc AND 0x80 \<noteq> 0 then 17 else 0))
            ''background_colour_index'' 9) ''pattern_colour_index'' 8\<rparr>)"

text \<open>The type a cell has by the format of its cell format.\<close>

definition cellty_of_key :: "book \<Rightarrow> int \<Rightarrow> nat res" where
  "cellty_of_key b key =
     rbind (of_option KeyError (aget (format_map b) key)) (\<lambda>fmt.
     of_option KeyError (aget cellty_from_fmtty (fmt_type fmt)))"

definition handle_xf :: "bytes \<Rightarrow> book \<Rightarrow> book res" where
  "handle_xf data b =
     (let bv = biff_version b;
          b = (if 50 \<le> bv \<and> xfcount b = 0 then fill_in_standard_formats b else b) in
      rbind (if 80 \<le> bv then xf_biff8 data
             else if 50 \<le> bv then xf_biff5 data
             else if 40 \<le> bv then xf_biff4 data
             else if bv = 30 then xf_biff3 data
             else if bv = 21 then xf_biff2 data
             else Inl XLRDError) (\<lambda>xf.
      let xf_index = int (length (xf_list b));
          key = getattr (xf_attrs xf) ''format_key'';
          cellty = (case cellty_of_key b key of Inl e \<Rightarrow> XL_CELL_NUMBER | Inr t \<Rightarrow> t);
          attrs = aput (xf_attrs xf) ''xf_index'' xf_index;
          attrs = (if aget (format_map b) key = None then aput attrs ''format_key'' 0 else attrs)
      in Inr (b\<lparr>xf_list := xf_list b @ [xf\<lparr>xf_attrs := attrs\<rparr>], xfcount := xfcount b + 1,
           xf_index_to_xl_type_map := aput (xf_index_to_xl_type_map b) xf_index cellty\<rparr>)))"

text \<open>
  \<open>xf_epilogue\<close>: the types once more, when all formats are known; with \<open>formatting_info\<close> an index
  of a parent that does not exist becomes 0.
\<close>

definition epilogue_step :: "nat \<Rightarrow> book \<Rightarrow> book res" where
  "epilogue_step xfx b =
     (let xf = xf_list b ! xfx; num_xfs = int (length (xf_list b));
          attrs = (if aget (format_map b) (getattr (xf_attrs xf) ''format_key'') = None
                   then aput (xf_attrs xf) ''format_key'' 0 else xf_attrs xf) in
      rbind (cellty_of_key b (getattr attrs ''format_key'')) (\<lambda>cellty.
      let parent = getattr attrs ''parent_style_index'';
          attrs = (if book_formatting_info b \<and> getattr attrs ''is_style'' = 0 \<and> \<not> (0 \<le> parent \<and> parent < num_xfs)
                   then aput attrs ''parent_style_index'' 0 else attrs) in
      Inr (b\<lparr>xf_list := (xf_list b)[xfx := xf\<lparr>xf_attrs := attrs\<rparr>],
        xf_index_to_xl_type_map := aput (xf_index_to_xl_type_map b) (getattr attrs ''xf_index'') cellty\<rparr>)))"

definition xf_epilogue :: "book \<Rightarrow> book res" where
  "xf_epilogue b = rfold epilogue_step [0..<length (xf_list b)] b"

end
