(* ===== verification/XlFormatsProps.thy ===== *)
theory XlFormatsProps
  imports XlFormats XlStringsProps
begin

text \<open>
  What \<open>XlFormats\<close> promises: the test for dates counts the characters that a reading of the format
  leaves visible, and agrees with the table of the standard formats; the packed attributes of a
  cell format are read as they were written; and the types of the cells are those of their formats.
\<close>

section \<open>Dates\<close>

text \<open>The visible text of a format, read from the left.\<close>

abbreviation quote_mark :: int where "quote_mark \<equiv> of_char (CHR 0x22)"

function visible_text :: "uname \<Rightarrow> uname" where
  "visible_text fmt =
     (case fmt of
        [] \<Rightarrow> []
      | c # cs \<Rightarrow>
          if c = quote_mark then visible_text (tl (dropWhile (\<lambda>d. d \<noteq> quote_mark) cs))
          else if c \<in> set (ascii [CHR 0x5C, CHR ''_'', CHR ''*'']) then visible_text (tl cs)
          else if c \<in> set skip_chars then visible_text cs
          else c # visible_text cs)"
  by pat_completeness auto
termination
proof (relation "measure length", goal_cases)
  case (2 fmt c cs)
  have "length (dropWhile (\<lambda>d. d \<noteq> quote_mark) cs) \<le> length cs" by (rule length_dropWhile_le)
  with 2 show ?case by simp
qed simp_all

declare visible_text.simps [simp del]

definition escape_chars :: uname where "escape_chars = ascii [CHR 0x5C, CHR ''_'', CHR ''*'']"

lemma visible_text_simps:
  "visible_text [] = []"
  "visible_text (c # cs) =
     (if c = quote_mark then visible_text (tl (dropWhile (\<lambda>d. d \<noteq> quote_mark) cs))
      else if c \<in> set escape_chars then visible_text (tl cs)
      else if c \<in> set skip_chars then visible_text cs
      else c # visible_text cs)"
  by (simp_all add: visible_text.simps [of "[]"] visible_text.simps [of "c # cs"] escape_chars_def)

lemma reduce_step_simps:
  "reduce_step c (0, s) =
     (if c = quote_mark then (1, s) else if c \<in> set escape_chars then (2, s)
      else if c \<in> set skip_chars then (0, s) else (0, s @ [c]))"
  "reduce_step c (1, s) = (if c = quote_mark then 0 else 1, s)"
  "reduce_step c (2, s) = (0, s)"
  by (simp_all add: reduce_step_def escape_chars_def)

lemma fold_quoted: "snd (fold reduce_step cs (1, s)) =
    snd (fold reduce_step (tl (dropWhile (\<lambda>d. d \<noteq> quote_mark) cs)) (0, s))"
  by (induction cs) (auto simp: reduce_step_simps [unfolded One_nat_def])

lemma fold_reduce: "snd (fold reduce_step fmt (0, s)) = s @ visible_text fmt"
proof (induction fmt arbitrary: s rule: visible_text.induct)
  case (1 fmt)
  show ?case
  proof (cases fmt)
    case (Cons c cs)
    note IH = "1.IH" [OF Cons, folded escape_chars_def]
    consider (quote) "c = quote_mark" | (escape) "c \<noteq> quote_mark" "c \<in> set escape_chars"
      | (rest) "c \<noteq> quote_mark" "c \<notin> set escape_chars" by blast
    then show ?thesis
    proof cases
      case quote
      then show ?thesis using IH(1) by (simp only: Cons fold_simps reduce_step_simps fold_quoted visible_text_simps if_True simp_thms)
    next
      case escape
      show ?thesis
      proof (cases cs)
        case Nil
        with escape show ?thesis by (simp only: Cons fold_simps reduce_step_simps visible_text_simps if_True if_False)
            (simp add: visible_text_simps(1))
      next
        case (Cons d ds)
        with escape IH(2) \<open>fmt = c # cs\<close> show ?thesis
          by (simp only: fold_simps reduce_step_simps visible_text_simps(2) [of c] if_True if_False list.sel simp_thms)
      qed
    next
      case rest
      with IH(3,4) Cons show ?thesis
        by (cases "c \<in> set skip_chars")
          (simp_all only: fold_simps reduce_step_simps visible_text_simps(2) [of c] if_True if_False append_assoc append.simps simp_thms)
    qed
  qed (simp add: visible_text_simps)
qed

definition date_chars :: "uname \<Rightarrow> nat" where
  "date_chars s = length (filter (\<lambda>c. c \<in> set (ascii ''ymdhsYMDHS'')) s)"

definition num_chars :: "uname \<Rightarrow> nat" where
  "num_chars s = length (filter (\<lambda>c. c \<in> set (ascii ''0#?'')) s)"

lemma count_step_eq:
  "count_step c (d, n) = (if c \<in> set (ascii ''ymdhsYMDHS'') then (d + 5, n)
     else if c \<in> set (ascii ''0#?'') then (d, n + 5) else (d, n))"
  by (simp add: count_step_def date_char_dict_def num_char_dict_def ascii_def)

lemma fold_count: "fold count_step s (d, n) = (d + 5 * date_chars s, n + 5 * num_chars s)"
  by (induction s arbitrary: d n) (auto simp: count_step_eq date_chars_def num_chars_def ascii_def)

lemma non_date_formats_no_dates: "s \<in> set non_date_formats \<Longrightarrow> date_chars s = 0"
  by (auto simp: non_date_formats_def date_chars_def ascii_def)

text \<open>
  C28: a format is a date exactly if its visible text, without what stands in brackets, has more letters of
  dates (in either case) than places for digits. The visible text is what a reading from the left
  leaves when it drops texts in quotes, a character after a backslash, an underscore or an asterisk,
  and the decoration; the weights, the two early answers and the table of exceptions add nothing.
\<close>
theorem date_format_counts:
  "is_date_format_string fmt \<longleftrightarrow>
     num_chars (bracketed_sub (visible_text fmt)) < date_chars (bracketed_sub (visible_text fmt))"
proof -
  have "reduce_format fmt = visible_text fmt" by (simp add: reduce_format_def fold_reduce)
  then show ?thesis
    using non_date_formats_no_dates [of "bracketed_sub (visible_text fmt)"]
    by (auto simp: is_date_format_string_def Let_def fold_count)
qed

text \<open>The standard formats, evaluated: the test of each text, and the type of each code.\<close>

lemma standard_dates:
  "map (\<lambda>(key, fmt). is_date_format_string (ascii fmt)) std_format_strings =
     replicate 14 False @ replicate 9 True @ replicate 8 False @ replicate 3 True @ [False, False]"
  by code_simp

lemma standard_types:
  "map (\<lambda>(key, fmt). aget std_format_code_types key) std_format_strings =
     Some FGE # replicate 13 (Some FNU) @ replicate 9 (Some FDT) @ replicate 8 (Some FNU) @ replicate 3 (Some FDT)
     @ [Some FNU, Some FTX]"
  by code_simp

lemma list_all_maps:
  "list_all (\<lambda>(a, b). P a b) (zip (map f xs) (map g xs)) \<longleftrightarrow> list_all (\<lambda>x. P (f x) (g x)) xs"
  by (induction xs) simp_all

text \<open>
  For every standard format with a text, the test of the text gives what the table of the codes says,
  so that a standard format of the file never conflicts with its text.
\<close>
theorem standard_formats_agree:
  "list_all (\<lambda>(key, fmt). aget std_format_code_types key \<noteq> None \<and>
     (is_date_format_string (ascii fmt) \<longleftrightarrow> aget std_format_code_types key = Some FDT)) std_format_strings"
proof -
  have "list_all (\<lambda>(d, ty). ty \<noteq> None \<and> (d \<longleftrightarrow> ty = Some FDT))
      (zip (map (\<lambda>(key, fmt). is_date_format_string (ascii fmt)) std_format_strings)
           (map (\<lambda>(key, fmt). aget std_format_code_types key) std_format_strings))"
    unfolding standard_dates standard_types by (simp add: eval_nat_numeral FGE_def FDT_def FNU_def FTX_def)
  then show ?thesis unfolding list_all_maps by (simp add: case_prod_beta')
qed

section \<open>Packed attributes\<close>

text \<open>Bits \<open>n\<close> to \<open>n + w - 1\<close> of a number, as the manifests take them.\<close>

lemma bit_field: "drop_bit n ((src :: int) AND push_bit n (mask w)) = src div 2 ^ n mod 2 ^ w"
proof -
  have "drop_bit n (push_bit n (mask w :: int)) = mask w" by (simp add: drop_bit_eq_div push_bit_eq_mult)
  then have "drop_bit n (src AND push_bit n (mask w)) = drop_bit n src AND mask w" by (simp only: drop_bit_and)
  then show ?thesis by (simp add: take_bit_eq_mask [symmetric] take_bit_eq_mod drop_bit_eq_div)
qed

text \<open>A word put together from fields, given by their widths and names, the lowest bits first.\<close>

type_synonym word_layout = "(nat \<times> string) list"

fun word_of :: "(string \<Rightarrow> int) \<Rightarrow> word_layout \<Rightarrow> int" where
  "word_of val [] = 0"
| "word_of val ((w, a) # lay) = val a + 2 ^ w * word_of val lay"

definition fits :: "(string \<Rightarrow> int) \<Rightarrow> word_layout \<Rightarrow> bool" where
  "fits val lay \<longleftrightarrow> list_all (\<lambda>(w, a). 0 \<le> val a \<and> val a < 2 ^ w) lay"

fun layout_width :: "word_layout \<Rightarrow> nat" where
  "layout_width [] = 0"
| "layout_width ((w, a) # lay) = w + layout_width lay"

lemma word_of_field:
  "fits val (lay @ (w, a) # lay') \<Longrightarrow> word_of val (lay @ (w, a) # lay') div 2 ^ layout_width lay mod 2 ^ w = val a"
proof (induction lay)
  case (Cons f lay)
  obtain v b where f: "f = (v, b)" by (cases f)
  with Cons have "0 \<le> val b" "val b < 2 ^ v" by (simp_all add: fits_def)
  then have "word_of val ((f # lay) @ (w, a) # lay') div 2 ^ v = word_of val (lay @ (w, a) # lay')"
    by (simp add: f div_add1_eq)
  then have "word_of val ((f # lay) @ (w, a) # lay') div 2 ^ layout_width (f # lay)
      = word_of val (lay @ (w, a) # lay') div 2 ^ layout_width lay"
    by (simp add: f power_add zdiv_zmult2_eq)
  with Cons show ?case by (simp add: fits_def f)
qed (simp add: fits_def mod_pos_pos_trivial)

lemma word_of_bounds: "fits val lay \<Longrightarrow> 0 \<le> word_of val lay \<and> word_of val lay < 2 ^ layout_width lay"
proof (induction lay)
  case (Cons f lay)
  obtain w a where f: "f = (w, a)" by (cases f)
  with Cons have v: "0 \<le> val a" "val a < 2 ^ w" "0 \<le> word_of val lay" "word_of val lay + 1 \<le> 2 ^ layout_width lay"
    by (simp_all add: fits_def)
  have "(2::int) ^ w * (word_of val lay + 1) \<le> 2 ^ w * 2 ^ layout_width lay"
    using v(4) by (intro mult_left_mono) simp_all
  with v show ?case by (simp add: f power_add algebra_simps)
qed simp

text \<open>A manifest reads a layout when each of its entries has the place and the width of its field.\<close>

fun field_at :: "word_layout \<Rightarrow> nat \<Rightarrow> nat \<times> int \<times> string \<Rightarrow> bool" where
  "field_at [] k e \<longleftrightarrow> False"
| "field_at ((w, a) # lay) k (n, msk, attr) \<longleftrightarrow>
     (n = k \<and> msk = push_bit k (mask w) \<and> attr = a) \<or> field_at lay (k + w) (n, msk, attr)"

lemma field_at_split:
  "field_at lay k (n, msk, attr) \<Longrightarrow> \<exists>l w l'. lay = l @ (w, attr) # l' \<and> n = k + layout_width l \<and> msk = push_bit n (mask w)"
proof (induction lay k "(n, msk, attr)" rule: field_at.induct)
  case (2 w a lay k)
  show ?case
  proof (cases "n = k \<and> msk = push_bit k (mask w) \<and> attr = a")
    case True
    then show ?thesis by (intro exI [of _ "[]"]) simp
  next
    case False
    then obtain l w' l' where "lay = l @ (w', attr) # l'" "n = k + w + layout_width l" "msk = push_bit n (mask w')"
      using 2 by auto
    then show ?thesis by (intro exI [of _ "(w, a) # l"]) simp
  qed
qed simp

lemma field_read:
  assumes "fits val lay" and "field_at lay 0 (n, msk, attr)"
  shows "drop_bit n (word_of val lay AND msk) = val attr"
proof -
  obtain l w l' where "lay = l @ (w, attr) # l'" "n = layout_width l" "msk = push_bit n (mask w)"
    using field_at_split [OF assms(2)] by auto
  then show ?thesis using word_of_field assms(1) by (simp only: bit_field)
qed

text \<open>What \<open>upkbits\<close> leaves in the attributes: those of the manifest have their values, the others stay.\<close>

definition man_reads :: "manifest \<Rightarrow> word_layout \<Rightarrow> bool" where
  "man_reads m lay \<longleftrightarrow> list_all (field_at lay 0) m"

lemma upkbits_reads:
  assumes "fits val lay" and "man_reads m lay"
  shows "aget (upkbits t (word_of val lay) m) attr = (if attr \<in> snd ` snd ` set m then Some (val attr) else aget t attr)"
  using assms(2)
proof (induction m arbitrary: t)
  case Nil
  then show ?case by (simp add: upkbits_def)
next
  case (Cons e m)
  obtain n msk a where e: "e = (n, msk, a)" by (cases e)
  have "upkbits t (word_of val lay) (e # m) = upkbits (aput t a (val a)) (word_of val lay) m"
    using field_read [OF assms(1), of n msk a] Cons.prems
    by (simp only: upkbits_def e man_reads_def fold_simps prod.case list.pred_inject simp_thms)
  then show ?case using Cons by (auto simp: e man_reads_def)
qed

lemma upkbits_mod:
  assumes "list_all (\<lambda>(n, msk, attr). 0 \<le> msk \<and> msk < 2 ^ 32) m"
  shows "upkbits t (src mod 2 ^ 32) m = upkbits t src m"
proof -
  have "(src mod 2 ^ 32) AND msk = src AND msk" if "0 \<le> msk" "msk < 2 ^ 32" for msk :: int
  proof -
    have "msk = take_bit 32 msk" using that by (simp add: take_bit_int_eq_self)
    then have "take_bit 32 src AND msk = src AND take_bit 32 msk"
      by (metis take_bit_and and.commute and.left_commute take_bit_eq_mask and.assoc)
    with \<open>msk = take_bit 32 msk\<close> show ?thesis by (simp only: take_bit_eq_mod)
  qed
  with assms show ?thesis by (induction m arbitrary: t) (auto simp: upkbits_def simp del: drop_bit_and)
qed

text \<open>The flags are the manifest of single bits.\<close>

fun flag_manifest :: "nat \<Rightarrow> string list \<Rightarrow> manifest" where
  "flag_manifest k [] = []"
| "flag_manifest k (a # as) = (k, push_bit k (mask 1), ''_'' @ a @ ''_flag'') # flag_manifest (Suc k) as"

lemma set_flags_upkbits: "set_flags (drop_bit k src) as t = upkbits t src (flag_manifest k as)"
proof (induction "as" arbitrary: k t)
  case (Cons a "as")
  have "drop_bit k (src AND push_bit k (mask 1)) = drop_bit k src AND 1"
    unfolding bit_field by (simp add: drop_bit_eq_div and_one_eq)
  moreover have "drop_bit 1 (drop_bit k src) = drop_bit (Suc k) src" by (simp add: drop_bit_drop_bit)
  ultimately show ?case using Cons [of "Suc k"] by (simp only: set_flags.simps flag_manifest.simps upkbits_def fold_simps prod.case)
qed (simp add: upkbits_def)

definition man_flags :: manifest where "man_flags = flag_manifest 2 flag_stems"

lemma set_flags_man: "set_flags (drop_bit 2 src) flag_stems t = upkbits t src man_flags"
  by (simp add: man_flags_def set_flags_upkbits)

text \<open>The words of a BIFF8 record; a field without a name is not used.\<close>

definition lay_par :: word_layout where
  "lay_par = [(1, ''cell_locked''), (1, ''formula_hidden''), (1, ''is_style''), (1, ''lotus_123_prefix''),
     (12, ''parent_style_index'')]"
definition lay_align1 :: word_layout where
  "lay_align1 = [(3, ''hor_align''), (1, ''text_wrapped''), (3, ''vert_align''), (1, '''')]"
definition lay_align2 :: word_layout where
  "lay_align2 = [(4, ''indent_level''), (1, ''shrink_to_fit''), (1, ''''), (2, ''text_direction'')]"
definition lay_used :: word_layout where
  "lay_used = (2, '''') # map (\<lambda>a. (1, ''_'' @ a @ ''_flag'')) flag_stems"
definition lay_brd1 :: word_layout where
  "lay_brd1 = [(4, ''left_line_style''), (4, ''right_line_style''), (4, ''top_line_style''), (4, ''bottom_line_style''),
     (7, ''left_colour_index''), (7, ''right_colour_index''), (1, ''diag_down''), (1, ''diag_up'')]"
definition lay_brd2 :: word_layout where
  "lay_brd2 = [(7, ''top_colour_index''), (7, ''bottom_colour_index''), (7, ''diag_colour_index''),
     (4, ''diag_line_style''), (1, ''''), (6, ''fill_pattern'')]"
definition lay_brd3 :: word_layout where
  "lay_brd3 = [(7, ''pattern_colour_index''), (7, ''background_colour_index''), (2, '''')]"

lemmas lay_defs = lay_par_def lay_align1_def lay_align2_def lay_used_def lay_brd1_def lay_brd2_def lay_brd3_def

definition lay_keys :: word_layout where
  "lay_keys = [(16, ''font_index''), (16, ''format_key''), (8, ''rotation'')]"

definition xf8_words :: "word_layout list" where
  "xf8_words = [lay_keys, lay_par, lay_align1, lay_align2, lay_used, lay_brd1, lay_brd2, lay_brd3]"

definition xf8_bytes :: "(string \<Rightarrow> int) \<Rightarrow> bytes" where
  "xf8_bytes val = le_bytes 2 (val ''font_index'') @ le_bytes 2 (val ''format_key'') @ le_bytes 2 (word_of val lay_par)
     @ le_bytes 1 (word_of val lay_align1) @ le_bytes 1 (val ''rotation'') @ le_bytes 1 (word_of val lay_align2)
     @ le_bytes 1 (word_of val lay_used) @ le_bytes 4 (word_of val lay_brd1) @ le_bytes 4 (word_of val lay_brd2)
     @ le_bytes 2 (word_of val lay_brd3)"

lemma manifests_read:
  "man_reads man_protection lay_par" "man_reads man_parent lay_par" "man_reads man_align1 lay_align1"
  "man_reads man_align2 lay_align2" "man_reads man_flags lay_used" "man_reads man_border1 lay_brd1"
  "man_reads man_border2 lay_brd2" "man_reads man_fill lay_brd2" "man_reads man_colours lay_brd3"
  by code_simp+

lemma le_nat_word:
  assumes "fits val lay" and "layout_width lay = 8 * k"
  shows "le_nat (le_bytes k (word_of val lay)) = word_of val lay"
proof -
  have "(2::int) ^ layout_width lay = 256 ^ k" by (simp add: assms(2) power_mult)
  with word_of_bounds [OF assms(1)] show ?thesis by (simp add: le_nat_le_bytes)
qed

lemma layout_widths:
  "layout_width lay_par = 8 * 2" "layout_width lay_align1 = 8 * 1" "layout_width lay_align2 = 8 * 1"
  "layout_width lay_used = 8 * 1" "layout_width lay_brd1 = 8 * 4" "layout_width lay_brd2 = 8 * 4"
  "layout_width lay_brd3 = 8 * 2"
  by (simp_all add: lay_defs flag_stems_def)

text \<open>The second border word is read with its sign, which the masks do not see.\<close>

lemma i32_mod: "i32 bs mod 2 ^ 32 = le_nat bs mod 2 ^ 32"
proof -
  have "(le_nat bs - 2 ^ 32) mod 2 ^ 32 = le_nat bs mod 2 ^ 32" by (rule minus_mod_self2)
  then show ?thesis by (simp only: i32_def Let_def if_distrib [of "\<lambda>x. x mod 2 ^ 32"] if_cancel)
qed

lemma upkbits_i32:
  assumes "list_all (\<lambda>(n, msk, attr). 0 \<le> msk \<and> msk < 2 ^ 32) m"
  shows "upkbits t (i32 (le_bytes 4 (word_of val lay))) m = upkbits t (word_of val lay) m"
proof -
  have "i32 (le_bytes 4 (word_of val lay)) mod 2 ^ 32 = word_of val lay mod 2 ^ 32"
    by (simp only: i32_mod le_nat_le_bytes) simp
  then show ?thesis using upkbits_mod [OF assms] by metis
qed

lemma masks_brd2:
  "list_all (\<lambda>(n, msk, attr). 0 \<le> msk \<and> msk < 2 ^ 32) man_border2"
  "list_all (\<lambda>(n, msk, attr). 0 \<le> msk \<and> msk < 2 ^ 32) man_fill"
  by (simp_all add: man_border2_def man_fill_def)

lemma length_xf8_bytes: "length (xf8_bytes val) = 20"
  by (simp add: xf8_bytes_def)

lemma xf8_words_read:
  assumes "list_all (fits val) xf8_words"
  shows "unpack_fmt [FH, FH, FH, FB, FB, FB, FB, FI, FSI, FH] (xf8_bytes val) =
    Inr [val ''font_index'', val ''format_key'', word_of val lay_par, word_of val lay_align1, val ''rotation'',
      word_of val lay_align2, word_of val lay_used, word_of val lay_brd1, i32 (le_bytes 4 (word_of val lay_brd2)),
      word_of val lay_brd3]"
proof -
  note w = assms [unfolded xf8_words_def list.pred_inject, THEN conjunct2]
  have k: "le_nat (le_bytes 2 (val ''font_index'')) = val ''font_index''"
    "le_nat (le_bytes 2 (val ''format_key'')) = val ''format_key''"
    "le_nat (le_bytes 1 (val ''rotation'')) = val ''rotation''"
    using assms by (simp_all only: xf8_words_def list.pred_inject fits_def lay_keys_def prod.case)
      (simp_all only: le_nat_le_bytes, simp_all)
  show ?thesis
    unfolding unpack_fmt_def length_xf8_bytes
    unfolding xf8_bytes_def
    using w k le_nat_word [OF _ layout_widths(1)] le_nat_word [OF _ layout_widths(2)] le_nat_word [OF _ layout_widths(3)]
      le_nat_word [OF _ layout_widths(4)] le_nat_word [OF _ layout_widths(5)] le_nat_word [OF _ layout_widths(7)]
    by (simp del: le_bytes.simps One_nat_def)
qed

definition man_names :: "manifest \<Rightarrow> string list" where "man_names m = map (\<lambda>(n, msk, attr). attr) m"

lemma getattr_aput: "getattr (aput t a v) b = (if b = a then v else getattr t b)"
  by (simp add: getattr_def)

lemma getattr_Cons: "getattr ((a, v) # t) b = (if b = a then v else getattr t b)"
  by (simp add: getattr_def)

lemma getattr_upkbits:
  assumes "fits val lay" and "man_reads m lay"
  shows "getattr (upkbits t (word_of val lay) m) attr = (if attr \<in> set (man_names m) then val attr else getattr t attr)"
proof -
  have "set (man_names m) = snd ` snd ` set m" by (force simp: man_names_def)
  then show ?thesis by (simp add: getattr_def upkbits_reads [OF assms])
qed

lemma names_read:
  "man_names man_protection = [''cell_locked'', ''formula_hidden'']"
  "man_names man_parent = [''is_style'', ''lotus_123_prefix'', ''parent_style_index'']"
  "man_names man_align1 = [''hor_align'', ''text_wrapped'', ''vert_align'']"
  "man_names man_align2 = [''indent_level'', ''shrink_to_fit'', ''text_direction'']"
  "man_names man_flags = map (\<lambda>a. ''_'' @ a @ ''_flag'') flag_stems"
  "man_names man_border1 = [''left_line_style'', ''right_line_style'', ''top_line_style'', ''bottom_line_style'',
     ''left_colour_index'', ''right_colour_index'', ''diag_down'', ''diag_up'']"
  "man_names man_border2 = [''top_colour_index'', ''bottom_colour_index'', ''diag_colour_index'', ''diag_line_style'']"
  "man_names man_fill = [''fill_pattern'']"
  "man_names man_colours = [''pattern_colour_index'', ''background_colour_index'']"
  by code_simp+

text \<open>The objects of a record, with the words they are unpacked from.\<close>

definition xf8_object :: "(string \<Rightarrow> int) \<Rightarrow> xf_obj" where
  "xf8_object val = \<lparr>
     xf_attrs = upkbits (upkbits (xf_keys (val ''font_index'') (val ''format_key'') []) (word_of val lay_par) man_parent)
       (word_of val lay_used) man_flags,
     protection = upkbits [] (word_of val lay_par) man_protection,
     alignment = upkbits (upkbits (aput (alignment new_xf) ''rotation'' (val ''rotation''))
       (word_of val lay_align1) man_align1) (word_of val lay_align2) man_align2,
     border = upkbits (upkbits (border new_xf) (word_of val lay_brd1) man_border1) (word_of val lay_brd2) man_border2,
     background = upkbits (upkbits [] (word_of val lay_brd2) man_fill) (word_of val lay_brd3) man_colours\<rparr>"

lemma xf_biff8_object:
  assumes "list_all (fits val) xf8_words"
  shows "xf_biff8 (xf8_bytes val @ r) = Inr (xf8_object val)"
proof -
  have "py_slice (xf8_bytes val @ r) 0 20 = xf8_bytes val" by (simp add: py_slice_nonneg length_xf8_bytes)
  then show ?thesis
    by (simp add: xf_biff8_def xf8_object_def xf8_words_read [OF assms] Let_def set_flags_man upkbits_i32 [OF masks_brd2(1)] upkbits_i32 [OF masks_brd2(2)]
        new_xf_def)
qed

text \<open>
  C27: an \<open>XF\<close> record of BIFF8 is read as it was written: with every attribute in the bits its field has
  in the record (and anything in the bits without a name), the attributes of the cell format, its
  protection, alignment, border and background all have the values written, the ones in the border
  word that is read as a signed number included.
\<close>
theorem xf_biff8_attributes:
  assumes "list_all (fits val) xf8_words"
  shows "\<exists>xf. xf_biff8 (xf8_bytes val @ r) = Inr xf
    \<and> list_all (\<lambda>a. getattr (xf_attrs xf) a = val a)
        ([''font_index'', ''format_key''] @ man_names man_parent @ man_names man_flags)
    \<and> list_all (\<lambda>a. getattr (protection xf) a = val a) (man_names man_protection)
    \<and> list_all (\<lambda>a. getattr (alignment xf) a = val a) (''rotation'' # man_names man_align1 @ man_names man_align2)
    \<and> list_all (\<lambda>a. getattr (border xf) a = val a) (man_names man_border1 @ man_names man_border2)
    \<and> list_all (\<lambda>a. getattr (background xf) a = val a) (man_names man_fill @ man_names man_colours)"
proof (intro exI conjI)
  show "xf_biff8 (xf8_bytes val @ r) = Inr (xf8_object val)" by (rule xf_biff8_object [OF assms])
  have f: "fits val lay_par" "fits val lay_align1" "fits val lay_align2" "fits val lay_used" "fits val lay_brd1"
    "fits val lay_brd2" "fits val lay_brd3"
    using assms by (simp_all add: xf8_words_def)
  note get = getattr_upkbits [OF f(1) manifests_read(1)] getattr_upkbits [OF f(1) manifests_read(2)]
    getattr_upkbits [OF f(2) manifests_read(3)] getattr_upkbits [OF f(3) manifests_read(4)]
    getattr_upkbits [OF f(4) manifests_read(5)] getattr_upkbits [OF f(5) manifests_read(6)]
    getattr_upkbits [OF f(6) manifests_read(7)] getattr_upkbits [OF f(6) manifests_read(8)]
    getattr_upkbits [OF f(7) manifests_read(9)]
  note read = xf8_object_def get names_read flag_stems_def xf_keys_def getattr_aput getattr_Cons
  show "list_all (\<lambda>a. getattr (xf_attrs (xf8_object val)) a = val a)
      ([''font_index'', ''format_key''] @ man_names man_parent @ man_names man_flags)"
    by (simp add: read)
  show "list_all (\<lambda>a. getattr (protection (xf8_object val)) a = val a) (man_names man_protection)"
    by (simp add: read)
  show "list_all (\<lambda>a. getattr (alignment (xf8_object val)) a = val a)
      (''rotation'' # man_names man_align1 @ man_names man_align2)"
    by (simp add: read)
  show "list_all (\<lambda>a. getattr (border (xf8_object val)) a = val a) (man_names man_border1 @ man_names man_border2)"
    by (simp add: read)
  show "list_all (\<lambda>a. getattr (background (xf8_object val)) a = val a) (man_names man_fill @ man_names man_colours)"
    by (simp add: read)
qed

definition some_values :: "string \<Rightarrow> int" where
  "some_values a = (if a = ''format_key'' then 14 else if a = ''fill_pattern'' then 33
     else if a = ''parent_style_index'' then 4095 else if a = ''_border_flag'' then 1 else 0)"

lemma xf_biff8_attributes_witness:
  "\<exists>xf. xf_biff8 [0, 0, 14, 0, 0xF0, 0xFF, 0, 0, 0, 0x20, 0, 0, 0, 0, 0, 0, 0, 0x84, 0, 0] = Inr xf
    \<and> getattr (xf_attrs xf) ''format_key'' = 14 \<and> getattr (xf_attrs xf) ''parent_style_index'' = 4095
    \<and> getattr (xf_attrs xf) ''_border_flag'' = 1 \<and> getattr (background xf) ''fill_pattern'' = 33"
proof -
  have f: "list_all (fits some_values) xf8_words" by code_simp
  have "xf8_bytes some_values = [0, 0, 14, 0, 0xF0, 0xFF, 0, 0, 0, 0x20, 0, 0, 0, 0, 0, 0, 0, 0x84, 0, 0]"
    by code_simp
  with xf_biff8_attributes [OF f, of "[]"] show ?thesis
    by (auto simp: names_read flag_stems_def some_values_def)
qed

section \<open>The types of the cells\<close>

definition types_known :: "book \<Rightarrow> bool" where
  "types_known b \<longleftrightarrow> (\<forall>k fmt. aget (format_map b) k = Some fmt \<longrightarrow> fmt_type fmt \<le> 4)"

definition cell_type_for :: "fmt_obj \<Rightarrow> nat" where
  "cell_type_for fmt = (if fmt_type fmt = FDT then XL_CELL_DATE else XL_CELL_NUMBER)"

lemma cellty_of_key_known:
  assumes "types_known b" and "aget (format_map b) key = Some fmt"
  shows "cellty_of_key b key = Inr (cell_type_for fmt)"
proof -
  have "fmt_type fmt \<le> 4" using assms by (auto simp: types_known_def)
  then have "fmt_type fmt \<in> {0, 1, 2, 3, 4}" by auto
  then show ?thesis using assms(2)
    by (auto simp: cellty_of_key_def cellty_from_fmtty_def cell_type_for_def FUN_def FDT_def FNU_def FGE_def FTX_def)
qed

text \<open>
  The format of a key, as the file names it or, where it names none, the standard format of that key. The
  attribute \<open>format_key\<close> of a cell format is the number in the bytes 2 and 3 of its record, and 0 when no
  format has that key.
\<close>

definition any_format :: "book \<Rightarrow> int \<Rightarrow> fmt_obj option" where
  "any_format b k =
     (case aget (format_map b) k of
        Some fmt \<Rightarrow> Some fmt
      | None \<Rightarrow> map_option (\<lambda>ty. \<lparr>format_key = k, fmt_type = ty, format_str = map_option ascii (aget std_format_strings k)\<rparr>)
          (aget std_format_code_types k))"

definition raw_format_key :: "bytes \<Rightarrow> int" where
  "raw_format_key data = uint (data ! 2) + 256 * uint (data ! 3)"

definition xf_format_key :: "book \<Rightarrow> bytes \<Rightarrow> int" where
  "xf_format_key b data = (if any_format b (raw_format_key data) = None then 0 else raw_format_key data)"

lemma fill_step_fold:
  fixes xs :: "(int \<times> nat) list"
  defines "std \<equiv> (\<lambda>k ty. \<lparr>format_key = k, fmt_type = ty, format_str = map_option ascii (aget std_format_strings k)\<rparr>)"
  defines "step \<equiv> (\<lambda>(x, ty) b. if aget (format_map b) x \<noteq> None then b
       else b\<lparr>format_map := aput (format_map b) x (std x ty)\<rparr>)"
  shows "\<exists>m. fold step xs b = b\<lparr>format_map := m\<rparr>
    \<and> (\<forall>k. aget m k = (case aget (format_map b) k of Some fmt \<Rightarrow> Some fmt | None \<Rightarrow> map_option (std k) (aget xs k)))"
proof (induction xs arbitrary: b)
  case Nil
  show ?case by (intro exI [of _ "format_map b"]) (simp split: option.splits)
next
  case (Cons e xs)
  obtain x ty where e: "e = (x, ty)" by (cases e)
  define m0 where "m0 = (if aget (format_map b) x \<noteq> None then format_map b else aput (format_map b) x (std x ty))"
  have "step e b = b\<lparr>format_map := m0\<rparr>" by (simp add: step_def e m0_def)
  with Cons [of "b\<lparr>format_map := m0\<rparr>"] obtain m where "fold step (e # xs) b = b\<lparr>format_map := m\<rparr>"
    "\<And>k. aget m k = (case aget m0 k of Some fmt \<Rightarrow> Some fmt | None \<Rightarrow> map_option (std k) (aget xs k))" by auto
  then show ?case by (intro exI [of _ m]) (auto simp: e m0_def split: option.splits)
qed

lemma fill_standard:
  obtains m where "fill_in_standard_formats b = b\<lparr>format_map := m\<rparr>" and "\<And>k. aget m k = any_format b k"
  using fill_step_fold [of std_format_code_types b] that
  unfolding fill_in_standard_formats_def any_format_def by blast

lemma std_types: "snd ` set std_format_code_types = {1, 2, 3, 4}" "aget std_format_code_types 0 \<noteq> None"
  by code_simp+

lemma any_format_0: "any_format b 0 \<noteq> None"
  using std_types(2) by (auto simp: any_format_def split: option.splits)

lemma xf_format_key_known: "any_format b (xf_format_key b data) \<noteq> None"
  using any_format_0 [of b] by (simp only: xf_format_key_def split: if_splits) simp

lemma aget_snd: "aget xs k = Some v \<Longrightarrow> v \<in> snd ` set xs"
  by (induction xs) (auto split: if_splits)

lemma any_format_types:
  assumes "types_known b" and "any_format b k = Some fmt"
  shows "fmt_type fmt \<le> 4"
proof (cases "aget (format_map b) k")
  case None
  with assms(2) obtain ty where "aget std_format_code_types k = Some ty" "fmt_type fmt = ty"
    by (auto simp: any_format_def)
  with aget_snd [OF this(1)] show ?thesis unfolding std_types(1) by auto
next
  case (Some f)
  with assms show ?thesis by (simp add: any_format_def types_known_def)
qed

text \<open>The attribute \<open>format_key\<close> of a record, before its key is looked up.\<close>

lemma getattr_upkbits_other: "a \<notin> set (man_names m) \<Longrightarrow> getattr (upkbits t v m) a = getattr t a"
  unfolding upkbits_def man_names_def
  by (induction m arbitrary: t) (auto simp: getattr_aput)

lemma getattr_set_flags_other:
  "(\<forall>stem \<in> set stems. a \<noteq> ''_'' @ stem @ ''_flag'') \<Longrightarrow> getattr (set_flags r stems t) a = getattr t a"
  by (induction r stems t rule: set_flags.induct) (auto simp: getattr_aput)

lemma format_key_kept:
  "getattr (set_flags r flag_stems (upkbits (xf_keys f k t) v man_parent)) ''format_key'' = k"
  by (simp add: getattr_set_flags_other flag_stems_def getattr_upkbits_other names_read xf_keys_def getattr_aput)

lemma unpack_second:
  assumes "unpack_fmt (FH # FH # cs) (py_slice data 0 (int n)) = Inr vs" and "4 \<le> n"
  shows "vs ! 1 = raw_format_key data"
proof -
  from assms(1) have l: "length (py_slice data 0 (int n)) = 4 + sum_list (map field_width cs)"
    and vs: "vs = unpack_codes (FH # FH # cs) (py_slice data 0 (int n))" by (auto simp: unpack_fmt_def split: if_splits)
  have t: "py_slice data 0 (int n) = take n data" by (simp add: py_slice_nonneg)
  with l have "4 \<le> length data" by simp
  then obtain a0 a1 a2 a3 r where "data = a0 # a1 # a2 # a3 # r"
    by (auto simp: Suc_le_length_iff eval_nat_numeral)
  with assms(2) show ?thesis unfolding vs t raw_format_key_def
    by (cases n rule: nat.exhaust) (simp_all add: take_Cons' numeral_eq_Suc)
qed

lemma xf_key_read:
  "xf_biff8 data = Inr xf \<Longrightarrow> getattr (xf_attrs xf) ''format_key'' = raw_format_key data"
  "xf_biff5 data = Inr xf \<Longrightarrow> getattr (xf_attrs xf) ''format_key'' = raw_format_key data"
  using unpack_second [of _ data 20] unpack_second [of _ data 16]
  by (auto simp: xf_biff8_def xf_biff5_def Let_def format_key_kept)

text \<open>
  What holds after the records \<open>recs\<close>, for the workbook \<open>b0\<close> the first of them found: the cell formats are
  numbered, and have the keys their records name.
\<close>

definition xfs_ok :: "book \<Rightarrow> bytes list \<Rightarrow> book \<Rightarrow> bool" where
  "xfs_ok b0 recs b \<longleftrightarrow> 50 \<le> biff_version b \<and> xfcount b = int (length recs) \<and> length (xf_list b) = length recs
     \<and> (\<forall>k. aget (format_map b) k = (if recs = [] then aget (format_map b0) k else any_format b0 k))
     \<and> (\<forall>i<length recs. getattr (xf_attrs (xf_list b ! i)) ''xf_index'' = int i
          \<and> getattr (xf_attrs (xf_list b ! i)) ''format_key'' = xf_format_key b0 (recs ! i))"

lemma xfs_ok_filled:
  assumes "xfs_ok b0 recs b"
  obtains m where "(if 50 \<le> biff_version b \<and> xfcount b = 0 then fill_in_standard_formats b else b) = b\<lparr>format_map := m\<rparr>"
    and "\<And>k. aget m k = any_format b0 k"
proof (cases "recs = []")
  case True
  then have "any_format b k = any_format b0 k" for k using assms by (simp add: xfs_ok_def any_format_def)
  with fill_standard [of b] that True assms show thesis by (auto simp: xfs_ok_def)
next
  case False
  then show thesis using assms that [of "format_map b"] by (auto simp: xfs_ok_def)
qed

lemma handle_xf_ok:
  assumes "handle_xf data b = Inr b'" and ok: "xfs_ok b0 recs b"
  shows "xfs_ok b0 (recs @ [data]) b'"
proof -
  obtain m where m: "(if 50 \<le> biff_version b \<and> xfcount b = 0 then fill_in_standard_formats b else b) = b\<lparr>format_map := m\<rparr>"
    "\<And>k. aget m k = any_format b0 k" using xfs_ok_filled [OF ok] by blast
  have v: "50 \<le> biff_version b" using ok by (simp add: xfs_ok_def)
  let ?K = "\<lambda>xf. getattr (xf_attrs xf) ''format_key''"
  let ?A = "\<lambda>xf. aput (xf_attrs xf) ''xf_index'' (int (length (xf_list b)))"
  from assms(1) v obtain xf where read: "(if 80 \<le> biff_version b then xf_biff8 data else xf_biff5 data) = Inr xf"
    and b': "b' = b\<lparr>format_map := m, xf_list := xf_list b @ [xf\<lparr>xf_attrs :=
        (if aget m (?K xf) = None then aput (?A xf) ''format_key'' 0 else ?A xf)\<rparr>], xfcount := xfcount b + 1,
      xf_index_to_xl_type_map := aput (xf_index_to_xl_type_map b) (int (length (xf_list b)))
        (case cellty_of_key (b\<lparr>format_map := m\<rparr>) (?K xf) of Inl e \<Rightarrow> XL_CELL_NUMBER | Inr t \<Rightarrow> t)\<rparr>"
    unfolding handle_xf_def Let_def m(1) by (elim rbind_InrE) (auto split del: if_split cong del: if_weak_cong)
  define attrs where "attrs = (if aget m (?K xf) = None then aput (?A xf) ''format_key'' 0 else ?A xf)"
  have new: "xf_list b' = xf_list b @ [xf\<lparr>xf_attrs := attrs\<rparr>]"
    "format_map b' = m" "biff_version b' = biff_version b" "xfcount b' = xfcount b + 1"
    by (simp_all add: b' attrs_def)
  from read xf_key_read have "getattr (xf_attrs xf) ''format_key'' = raw_format_key data"
    by (simp split: if_splits)
  then have "getattr attrs ''format_key'' = xf_format_key b0 data" "getattr attrs ''xf_index'' = int (length (xf_list b))"
    by (auto simp: attrs_def m(2) getattr_aput xf_format_key_def)
  then have "getattr (xf_attrs (xf_list b' ! i)) ''xf_index'' = int i
      \<and> getattr (xf_attrs (xf_list b' ! i)) ''format_key'' = xf_format_key b0 ((recs @ [data]) ! i)"
    if "i < Suc (length recs)" for i
    using that ok by (cases "i = length recs") (simp_all add: new(1) xfs_ok_def nth_append)
  then show ?thesis using ok by (simp add: xfs_ok_def new m(2))
qed

lemma handle_xfs_ok:
  assumes "rfold handle_xf records b = Inr b'" and "xfs_ok b0 recs b"
  shows "xfs_ok b0 (recs @ records) b'"
  using assms
proof (induction records arbitrary: b recs)
  case (Cons data records)
  then obtain b1 where "handle_xf data b = Inr b1" "rfold handle_xf records b1 = Inr b'" by auto
  with Cons.IH [of b1 "recs @ [data]"] handle_xf_ok [OF _ Cons.prems(2)] show ?case by simp
qed simp

text \<open>The cell type noted at a place is that of the format its record names.\<close>

definition type_noted :: "book \<Rightarrow> bytes list \<Rightarrow> book \<Rightarrow> nat \<Rightarrow> bool" where
  "type_noted b0 recs b i \<longleftrightarrow>
     aget (xf_index_to_xl_type_map b) (int i) = map_option cell_type_for (any_format b0 (xf_format_key b0 (recs ! i)))"

lemma epilogue_step_ok:
  assumes ok: "xfs_ok b0 recs b" and types: "types_known b0" and k: "k < length recs"
  shows "\<exists>b'. epilogue_step k b = Inr b' \<and> xfs_ok b0 recs b' \<and> type_noted b0 recs b' k
    \<and> (\<forall>i<k. type_noted b0 recs b i \<longrightarrow> type_noted b0 recs b' i)"
proof -
  let ?xf = "xf_list b ! k"
  let ?key = "xf_format_key b0 (recs ! k)"
  have map_b: "aget (format_map b) j = any_format b0 j" for j using ok k by (cases recs) (simp_all add: xfs_ok_def)
  have key: "getattr (xf_attrs ?xf) ''format_key'' = ?key" "getattr (xf_attrs ?xf) ''xf_index'' = int k"
    "length (xf_list b) = length recs" using ok k by (simp_all add: xfs_ok_def)
  obtain fmt where fmt: "any_format b0 ?key = Some fmt" using xf_format_key_known [of b0] by blast
  define parent where "parent = getattr (xf_attrs ?xf) ''parent_style_index''"
  define attrs' where "attrs' = (if book_formatting_info b \<and> getattr (xf_attrs ?xf) ''is_style'' = 0
    \<and> \<not> (0 \<le> parent \<and> parent < int (length (xf_list b))) then aput (xf_attrs ?xf) ''parent_style_index'' 0 else xf_attrs ?xf)"
  have same: "getattr attrs' ''format_key'' = ?key" "getattr attrs' ''xf_index'' = int k"
    by (auto simp: attrs'_def getattr_aput key)
  have attrs: "(if aget (format_map b) (getattr (xf_attrs ?xf) ''format_key'') = None
    then aput (xf_attrs ?xf) ''format_key'' 0 else xf_attrs ?xf) = xf_attrs ?xf"
    by (simp only: key map_b fmt option.distinct if_False)
  let ?b' = "b\<lparr>xf_list := (xf_list b)[k := ?xf\<lparr>xf_attrs := attrs'\<rparr>],
    xf_index_to_xl_type_map := aput (xf_index_to_xl_type_map b) (int k) (cell_type_for fmt)\<rparr>"
  have "types_known b" using any_format_types [OF types] by (simp add: types_known_def map_b)
  then have cell: "cellty_of_key b ?key = Inr (cell_type_for fmt)" by (rule cellty_of_key_known) (simp add: map_b fmt)
  have "epilogue_step k b = Inr ?b'"
    unfolding epilogue_step_def Let_def attrs parent_def [symmetric] attrs'_def [symmetric]
    by (simp only: key(1) cell same(2) rbind_Inr)
  moreover have "xfs_ok b0 recs ?b'" using ok k same by (auto simp: xfs_ok_def nth_list_update)
  moreover have "type_noted b0 recs ?b' k" by (simp add: type_noted_def fmt)
  moreover have "type_noted b0 recs ?b' i" if "i < k" "type_noted b0 recs b i" for i
    using that by (simp add: type_noted_def)
  ultimately show ?thesis by (intro exI [of _ ?b']) simp
qed

lemma epilogue_ok:
  assumes "xfs_ok b0 recs b" and "types_known b0" and "n \<le> length recs"
  shows "\<exists>b'. rfold epilogue_step [0..<n] b = Inr b' \<and> xfs_ok b0 recs b' \<and> (\<forall>i<n. type_noted b0 recs b' i)"
  using assms(3)
proof (induction n)
  case (Suc n)
  then obtain b1 where b1: "rfold epilogue_step [0..<n] b = Inr b1" "xfs_ok b0 recs b1"
    "\<And>i. i < n \<Longrightarrow> type_noted b0 recs b1 i" by auto
  then obtain b2 where "epilogue_step n b1 = Inr b2" "xfs_ok b0 recs b2"
    "type_noted b0 recs b2 n" "\<And>i. i < n \<Longrightarrow> type_noted b0 recs b2 i"
    using epilogue_step_ok [OF b1(2) assms(2), of n] Suc.prems by auto
  with b1 show ?case by (auto simp: rfold_append less_Suc_eq)
qed (use assms(1) in simp)

text \<open>
  C29: after the \<open>XF\<close> records of a workbook of version 5 or later, \<open>xf_epilogue\<close> succeeds whatever formats
  the records name. The formats are then those of the file and, for the keys the file does not name, the
  standard ones. Each cell format has the key in the bytes 2 and 3 of its record when a format has that
  key, and the key 0 otherwise; and the type noted for its cells is the date exactly if the format of that key is one of
  dates.
\<close>
theorem xf_types:
  assumes "rfold handle_xf records b = Inr b1" and "xf_list b = []" and "xfcount b = 0" and "50 \<le> biff_version b"
    and "types_known b"
  shows "\<exists>b2. xf_epilogue b1 = Inr b2 \<and> length (xf_list b2) = length records
    \<and> (\<forall>k. aget (format_map b2) k = (if records = [] then aget (format_map b) k else any_format b k))
    \<and> (\<forall>i<length records. \<exists>fmt. any_format b (xf_format_key b (records ! i)) = Some fmt
        \<and> getattr (xf_attrs (xf_list b2 ! i)) ''format_key'' = xf_format_key b (records ! i)
        \<and> aget (xf_index_to_xl_type_map b2) (int i) =
            Some (if fmt_type fmt = FDT then XL_CELL_DATE else XL_CELL_NUMBER))"
proof -
  have "xfs_ok b [] b" using assms(2-4) by (simp add: xfs_ok_def)
  from handle_xfs_ok [OF assms(1) this] have b1: "xfs_ok b records b1" by simp
  from epilogue_ok [OF b1 assms(5), of "length records"] obtain b2 where
    b2: "rfold epilogue_step [0..<length records] b1 = Inr b2" "xfs_ok b records b2"
    "\<And>i. i < length records \<Longrightarrow> type_noted b records b2 i" by auto
  have "\<exists>fmt. any_format b (xf_format_key b (records ! i)) = Some fmt
      \<and> getattr (xf_attrs (xf_list b2 ! i)) ''format_key'' = xf_format_key b (records ! i)
      \<and> aget (xf_index_to_xl_type_map b2) (int i) = Some (if fmt_type fmt = FDT then XL_CELL_DATE else XL_CELL_NUMBER)"
    if "i < length records" for i
    using xf_format_key_known [of b "records ! i"] b2(2) b2(3) [OF that] that
    by (auto simp: type_noted_def xfs_ok_def cell_type_for_def)
  then show ?thesis using b1 b2(1,2) by (intro exI [of _ b2]) (simp add: xf_epilogue_def xfs_ok_def)
qed

lemma handle_format_known:
  assumes "handle_format decode data rectype b = Inr b'" and "types_known b"
  shows "types_known b' \<and> xf_list b' = xf_list b \<and> xfcount b' = xfcount b \<and> biff_version b' = biff_version b"
  using assms
  by (auto simp: handle_format_def Let_def types_known_def FDT_def FGE_def split: if_splits)

text \<open>
  A workbook with one format of dates of its own, and three cell formats: one for it, one with a key that has no
  format, and one with the key 14 of a standard format of dates.
\<close>

definition one_format :: book where
  "one_format = \<lparr>biff_version = 80, book_formatting_info = False, actualfmtcount = 1,
     format_map = [(164, \<lparr>format_key = 164, fmt_type = 1, format_str = Some (ascii ''yyyy-mm'')\<rparr>)],
     format_list = [], colour_map = [], palette_record = [], style_name_map = [], xfcount = 0, xf_list = [],
     xf_index_to_xl_type_map = [(0, 2)]\<rparr>"

definition three_xfs :: "bytes list" where
  "three_xfs = map (\<lambda>k. [0, 0, k, 0] @ replicate 16 0) [164, 200, 14]"

lemma three_xfs_keys:
  "xf_format_key one_format (three_xfs ! 0) = 164" "xf_format_key one_format (three_xfs ! 1) = 0"
  "xf_format_key one_format (three_xfs ! 2) = 14"
  "map_option fmt_type (any_format one_format 164) = Some FDT" "map_option fmt_type (any_format one_format 0) = Some FGE"
  "map_option fmt_type (any_format one_format 14) = Some FDT"
  by code_simp+

lemma xf_types_witness:
  "\<exists>b1 b2. rfold handle_xf three_xfs one_format = Inr b1 \<and> xf_epilogue b1 = Inr b2
    \<and> map (\<lambda>xf. getattr (xf_attrs xf) ''format_key'') (xf_list b2) = [164, 0, 14]
    \<and> map (aget (xf_index_to_xl_type_map b2)) [0, 1, 2] = [Some XL_CELL_DATE, Some XL_CELL_NUMBER, Some XL_CELL_DATE]"
proof -
  have "\<not> isl (rfold handle_xf three_xfs one_format)" by code_simp
  then obtain b1 where b1: "rfold handle_xf three_xfs one_format = Inr b1" by (metis isl_def sum.exhaust)
  have "types_known one_format" by (simp add: types_known_def one_format_def)
  with b1 have "rfold handle_xf three_xfs one_format = Inr b1" "xf_list one_format = []" "xfcount one_format = 0"
    "50 \<le> biff_version one_format" "types_known one_format" by (simp_all add: one_format_def)
  from xf_types [OF this] obtain b2 where b2: "xf_epilogue b1 = Inr b2" "length (xf_list b2) = length three_xfs"
    and t: "\<And>i. i < length three_xfs \<Longrightarrow> \<exists>fmt. any_format one_format (xf_format_key one_format (three_xfs ! i)) = Some fmt
        \<and> getattr (xf_attrs (xf_list b2 ! i)) ''format_key'' = xf_format_key one_format (three_xfs ! i)
        \<and> aget (xf_index_to_xl_type_map b2) (int i) = Some (if fmt_type fmt = FDT then XL_CELL_DATE else XL_CELL_NUMBER)"
    by blast
  have l: "length three_xfs = 3" by (simp add: three_xfs_def)
  obtain x0 x1 x2 where x: "xf_list b2 = [x0, x1, x2]" using b2(2) l
    by (auto simp: numeral_3_eq_3 length_Suc_conv)
  from t [of 0] t [of 1] t [of 2] l three_xfs_keys show ?thesis
    by (intro exI [of _ b1] exI [of _ b2]) (auto simp: b1 b2 x FDT_def FGE_def)
qed

end
