(* ===== verification/XlSheet.thy ===== *)
theory XlSheet
  imports XlFormats XlGrid XlsValue
begin

text \<open>
  \<open>Sheet.read\<close> of \<open>xlrd/sheet.py\<close>: the records of a sheet, from its position in the workbook stream to
  its \<open>EOF\<close> record, and what each leaves in the sheet. One definition per record; \<open>sheet_record\<close> chooses
  among them as the long \<open>if\<close> of the source does. Positions and records come from \<open>XlStrings\<close>, cells go into
  the tables of \<open>XlGrid\<close>. The length of a text is its number of UTF-16 code units, as in the narrow build of
  Python that the repository carries. Records of drawings, notes and hyperlinks, and the records that
  only the versions before BIFF5 have, end the reading with \<open>Unsupported\<close>; so does a number that is infinite
  or not a number.
\<close>

section \<open>Record codes\<close>

named_theorems record_codes \<open>the numbers of the records\<close>

definition XL_ARRAY :: int where [record_codes]: "XL_ARRAY = 0x0221"
definition XL_ARRAY2 :: int where [record_codes]: "XL_ARRAY2 = 0x0021"
definition XL_BLANK :: int where [record_codes]: "XL_BLANK = 0x0201"
definition XL_BOOLERR :: int where [record_codes]: "XL_BOOLERR = 0x205"
definition XL_CF :: int where [record_codes]: "XL_CF = 0x01B1"
definition XL_COLINFO :: int where [record_codes]: "XL_COLINFO = 0x7D"
definition XL_CONDFMT :: int where [record_codes]: "XL_CONDFMT = 0x01B0"
definition XL_COUNTRY :: int where [record_codes]: "XL_COUNTRY = 0x8C"
definition XL_DEFAULTROWHEIGHT :: int where [record_codes]: "XL_DEFAULTROWHEIGHT = 0x0225"
definition XL_DEFCOLWIDTH :: int where [record_codes]: "XL_DEFCOLWIDTH = 0x55"
definition XL_DIMENSION :: int where [record_codes]: "XL_DIMENSION = 0x200"
definition XL_DIMENSION2 :: int where [record_codes]: "XL_DIMENSION2 = 0x0"
definition XL_EOF :: int where [record_codes]: "XL_EOF = 0x0a"
definition XL_FEAT11 :: int where [record_codes]: "XL_FEAT11 = 0x872"
definition XL_GCW :: int where [record_codes]: "XL_GCW = 0xab"
definition XL_HLINK :: int where [record_codes]: "XL_HLINK = 0x01B8"
definition XL_QUICKTIP :: int where [record_codes]: "XL_QUICKTIP = 0x0800"
definition XL_HORIZONTALPAGEBREAKS :: int where [record_codes]: "XL_HORIZONTALPAGEBREAKS = 0x1b"
definition XL_LABEL :: int where [record_codes]: "XL_LABEL = 0x204"
definition XL_LABELRANGES :: int where [record_codes]: "XL_LABELRANGES = 0x15f"
definition XL_LABELSST :: int where [record_codes]: "XL_LABELSST = 0xfd"
definition XL_MERGEDCELLS :: int where [record_codes]: "XL_MERGEDCELLS = 0xE5"
definition XL_MSO_DRAWING :: int where [record_codes]: "XL_MSO_DRAWING = 0x00EC"
definition XL_MULRK :: int where [record_codes]: "XL_MULRK = 0xbd"
definition XL_MULBLANK :: int where [record_codes]: "XL_MULBLANK = 0xbe"
definition XL_NOTE :: int where [record_codes]: "XL_NOTE = 0x1c"
definition XL_NUMBER :: int where [record_codes]: "XL_NUMBER = 0x203"
definition XL_OBJ :: int where [record_codes]: "XL_OBJ = 0x5D"
definition XL_PANE :: int where [record_codes]: "XL_PANE = 0x41"
definition XL_RK :: int where [record_codes]: "XL_RK = 0x27e"
definition XL_ROW :: int where [record_codes]: "XL_ROW = 0x208"
definition XL_RSTRING :: int where [record_codes]: "XL_RSTRING = 0xd6"
definition XL_SCL :: int where [record_codes]: "XL_SCL = 0x00A0"
definition XL_SHRFMLA :: int where [record_codes]: "XL_SHRFMLA = 0x04bc"
definition XL_STANDARDWIDTH :: int where [record_codes]: "XL_STANDARDWIDTH = 0x99"
definition XL_STRING :: int where [record_codes]: "XL_STRING = 0x207"
definition XL_STRING_B2 :: int where [record_codes]: "XL_STRING_B2 = 0x7"
definition XL_TABLEOP :: int where [record_codes]: "XL_TABLEOP = 0x236"
definition XL_TABLEOP2 :: int where [record_codes]: "XL_TABLEOP2 = 0x37"
definition XL_TABLEOP_B2 :: int where [record_codes]: "XL_TABLEOP_B2 = 0x36"
definition XL_TXO :: int where [record_codes]: "XL_TXO = 0x1b6"
definition XL_VERTICALPAGEBREAKS :: int where [record_codes]: "XL_VERTICALPAGEBREAKS = 0x1a"
definition XL_WINDOW2 :: int where [record_codes]: "XL_WINDOW2 = 0x023E"

definition bofcodes :: "int list" where [record_codes]: "bofcodes = [0x0809, 0x0409, 0x0209, 0x0009]"
definition XL_FORMULA_OPCODES :: "int list" where [record_codes]: "XL_FORMULA_OPCODES = [0x0006, 0x0406, 0x0206]"
definition XL_SHRFMLA_ETC_ETC :: "int list" where
  [record_codes]: "XL_SHRFMLA_ETC_ETC = [XL_SHRFMLA, XL_ARRAY, XL_TABLEOP, XL_TABLEOP2, XL_ARRAY2, XL_TABLEOP_B2]"

definition BIFF_FIRST_UNICODE :: int where "BIFF_FIRST_UNICODE = 80"

definition XL_CELL_TEXT :: nat where "XL_CELL_TEXT = 1"
definition XL_CELL_BOOLEAN :: nat where "XL_CELL_BOOLEAN = 4"
definition XL_CELL_ERROR :: nat where "XL_CELL_ERROR = 5"
definition XL_CELL_BLANK :: nat where "XL_CELL_BLANK = 6"

section \<open>Numbers\<close>

text \<open>\<open>unpack('<d', ...)\<close>: sign, exponent and fraction of a double, and the number they stand for.\<close>

definition double_value :: "int \<Rightarrow> rat res" where
  "double_value n =
     (let fraction = take_bit 52 n; ex = take_bit 11 (drop_bit 52 n);
          m = (if ex = 0 then fraction else fraction + 2 ^ 52);
          a = of_int m * pow2 ((if ex = 0 then 1 else ex) - 1075)
      in if ex = 2047 then Inl Unsupported else Inr (if bit n 63 then - a else a))"

definition unpack_d :: "bytes \<Rightarrow> rat res" where
  "unpack_d bs = (if length bs = 8 then double_value (le_nat bs) else Inl StructError)"

definition unpack_RK :: "bytes \<Rightarrow> rat res" where
  "unpack_RK rk_str =
     rbind (py_nth rk_str 0) (\<lambda>flags.
     if flags AND 2 \<noteq> 0 then
       rbind (unpack_i32 rk_str) (\<lambda>i.
       let i = drop_bit 2 i in Inr (if flags AND 1 \<noteq> 0 then to_double (of_int i / 100) else of_int i))
     else
       rbind (unpack_d ([0, 0, 0, 0, flags AND 252] @ py_slice rk_str 1 4)) (\<lambda>d.
       Inr (if flags AND 1 \<noteq> 0 then to_double (d / 100) else d)))"

section \<open>Texts\<close>

text \<open>A text of the model is bytes in UTF-8; a surrogate without its other half is encoded as it is.\<close>

definition utf8_char :: "int \<Rightarrow> string" where
  "utf8_char n = map char_of
     (if n < 0x80 then [n]
      else if n < 0x800 then [0xC0 + n div 64, 0x80 + n mod 64]
      else if n < 0x10000 then [0xE0 + n div 4096, 0x80 + n div 64 mod 64, 0x80 + n mod 64]
      else [0xF0 + n div 262144, 0x80 + n div 4096 mod 64, 0x80 + n div 64 mod 64, 0x80 + n mod 64])"

fun utf_8 :: "uname \<Rightarrow> string" where
  "utf_8 [] = []"
| "utf_8 [u] = utf8_char u"
| "utf_8 (u # v # us) =
     (if 0xD800 \<le> u \<and> u < 0xDC00 \<and> 0xDC00 \<le> v \<and> v < 0xE000
      then utf8_char (0x10000 + (u - 0xD800) * 0x400 + (v - 0xDC00)) @ utf_8 us
      else utf8_char u @ utf_8 (v # us))"

definition text_value :: "uname \<Rightarrow> pyval" where
  "text_value s = PUni (utf_8 s)"

section \<open>The sheet\<close>

type_synonym int_range = "int \<times> int \<times> int \<times> int"

record sheet =
  cells :: grid
  rich_text_runlist_map :: "((int \<times> int) \<times> (int \<times> int) list) list"
  rowinfo_map :: "(int \<times> attrs) list"
  colinfo_map :: "(int \<times> attrs) list"
  merged_cells :: "int_range list"
  row_label_ranges :: "int_range list"
  col_label_ranges :: "int_range list"
  horizontal_page_breaks :: "(int \<times> int \<times> int) list"
  vertical_page_breaks :: "(int \<times> int \<times> int) list"
  gcw :: "int list"
  dimensions :: "int \<times> int"
  defcolwidth :: "int option"
  standardwidth :: "int option"
  default_row_height :: "int option"
  scl_mag_factor :: "int option"
  cached_page_break_preview_mag_factor :: "int option"
  cached_normal_view_mag_factor :: "int option"
  gridline_colour_rgb :: "rgb option"
  sheet_attrs :: attrs
  countries :: "int \<times> int"

text \<open>
  What the sheet takes from the workbook. \<open>decode\<close> is the codec of the code page; \<open>sharedstrings\<close> and \<open>runlists\<close>
  are the tables \<open>handle_sst\<close> returns.
\<close>

record sheet_env =
  mem :: bytes
  bv :: int
  conf :: sheet_conf
  ragged :: bool
  sharedstrings :: "uname list"
  runlists :: "(nat \<times> (int \<times> int) list) list"
  decode :: "bytes \<Rightarrow> uname res"
  env_colour_map :: "(int \<times> rgb option) list"

definition WINDOW2_options :: attrs where
  "WINDOW2_options =
     [(''show_formulas'', 0), (''show_grid_lines'', 1), (''show_sheet_headers'', 1), (''panes_are_frozen'', 0),
      (''show_zero_values'', 1), (''automatic_grid_line_colour'', 1), (''columns_from_right_to_left'', 0),
      (''show_outline_symbols'', 1), (''remove_splits_if_pane_freeze_is_removed'', 0), (''sheet_selected'', 0),
      (''sheet_visible'', 0), (''show_in_page_break_preview'', 0)]"

definition new_sheet :: "int \<times> int \<Rightarrow> sheet" where
  "new_sheet book_countries = \<lparr>cells = empty_grid, rich_text_runlist_map = [], rowinfo_map = [], colinfo_map = [],
     merged_cells = [], row_label_ranges = [], col_label_ranges = [], horizontal_page_breaks = [],
     vertical_page_breaks = [], gcw = replicate 256 0, dimensions = (0, 0), defcolwidth = None, standardwidth = None,
     default_row_height = None, scl_mag_factor = None, cached_page_break_preview_mag_factor = None,
     cached_normal_view_mag_factor = None, gridline_colour_rgb = None,
     sheet_attrs = [(''default_row_height_mismatch'', 0), (''default_row_hidden'', 0),
         (''default_additional_space_above'', 0), (''default_additional_space_below'', 0)] @ WINDOW2_options @
       [(''first_visible_rowx'', 0), (''first_visible_colx'', 0), (''gridline_colour_index'', 0x40),
        (''cooked_page_break_preview_mag_factor'', 60), (''cooked_normal_view_mag_factor'', 100)],
     countries = book_countries\<rparr>"

definition set_attrs :: "(string \<times> int) list \<Rightarrow> sheet \<Rightarrow> sheet" where
  "set_attrs vs st = st\<lparr>sheet_attrs := fold (\<lambda>(name, v) a. aput a name v) vs (sheet_attrs st)\<rparr>"

text \<open>\<open>self.put_cell\<close>: one of the two functions, chosen when the sheet is made.\<close>

definition put_in :: "sheet_env \<Rightarrow> int \<Rightarrow> int \<Rightarrow> nat option \<Rightarrow> pyval \<Rightarrow> int \<Rightarrow> sheet \<Rightarrow> sheet res" where
  "put_in env rowx colx ctype val xf_index st =
     rbind ((if ragged env then put_cell_ragged (conf env) else put_cell_unragged (conf env))
       (nat rowx) (nat colx) ctype val xf_index (cells st)) (\<lambda>g. Inr (st\<lparr>cells := g\<rparr>))"

section \<open>Cells\<close>

definition number_record :: "sheet_env \<Rightarrow> bytes \<Rightarrow> sheet \<Rightarrow> sheet res" where
  "number_record env data st =
     (let d14 = py_slice data 0 14 in
      rbind (unpack_fmt ([FH, FH, FH] @ replicate 8 FX) d14) (\<lambda>vs.
      rbind (unpack_d (drop 6 d14)) (\<lambda>d.
      put_in env (vs ! 0) (vs ! 1) None (PFloat d) (vs ! 2) st)))"

definition labelsst_record :: "sheet_env \<Rightarrow> bytes \<Rightarrow> sheet \<Rightarrow> sheet res" where
  "labelsst_record env data st =
     rbind (unpack_fmt [FH, FH, FH, FSI] data) (\<lambda>vs.
     let rowx = vs ! 0; colx = vs ! 1; sstindex = vs ! 3 in
     rbind (py_nth (sharedstrings env) sstindex) (\<lambda>s.
     rbind (put_in env rowx colx (Some XL_CELL_TEXT) (text_value s) (vs ! 2) st) (\<lambda>st.
     case (if formatting_info (conf env) \<and> 0 \<le> sstindex then aget (runlists env) (nat sstindex) else None) of
       Some (run # runs) \<Rightarrow>
         Inr (st\<lparr>rich_text_runlist_map := aput (rich_text_runlist_map st) (rowx, colx) (run # runs)\<rparr>)
     | _ \<Rightarrow> Inr st)))"

definition label_record :: "sheet_env \<Rightarrow> bytes \<Rightarrow> sheet \<Rightarrow> sheet res" where
  "label_record env data st =
     rbind (unpack_fmt [FH, FH, FH] (py_slice data 0 6)) (\<lambda>vs.
     rbind (if bv env < BIFF_FIRST_UNICODE then unpack_string (decode env) data 6 2 else unpack_unicode data 6 2) (\<lambda>strg.
     put_in env (vs ! 0) (vs ! 1) (Some XL_CELL_TEXT) (text_value strg) (vs ! 2) st))"

text \<open>\<open>nrt\<close> pairs of numbers, each of \<open>w\<close> bytes, and the position after them.\<close>

fun unpack_runs :: "field_code \<Rightarrow> bytes \<Rightarrow> nat \<Rightarrow> int \<Rightarrow> ((int \<times> int) list \<times> int) res" where
  "unpack_runs c data 0 pos = Inr ([], pos)"
| "unpack_runs c data (Suc nrt) pos =
     (let w = 2 * int (field_width c) in
      rbind (unpack_fmt [c, c] (py_slice data pos (pos + w))) (\<lambda>vs.
      rbind (unpack_runs c data nrt (pos + w)) (\<lambda>(runs, pos). Inr ((vs ! 0, vs ! 1) # runs, pos))))"

definition rstring_record :: "sheet_env \<Rightarrow> bytes \<Rightarrow> sheet \<Rightarrow> sheet res" where
  "rstring_record env data st =
     rbind (unpack_fmt [FH, FH, FH] (py_slice data 0 6)) (\<lambda>vs.
     rbind (if bv env < BIFF_FIRST_UNICODE
            then rbind (unpack_string_update_pos (decode env) data 6 2 None) (\<lambda>(strg, pos).
                 rbind (py_nth data pos) (\<lambda>nrt.
                 rbind (unpack_runs FB data (unat nrt) (pos + 1)) (\<lambda>(runlist, pos). Inr (strg, runlist, pos))))
            else rbind (unpack_unicode_update_pos data 6 2 None) (\<lambda>(strg, pos).
                 rbind (unpack_u16 (py_slice data pos (pos + 2))) (\<lambda>nrt.
                 rbind (unpack_runs FH data (nat nrt) (pos + 2)) (\<lambda>(runlist, pos). Inr (strg, runlist, pos))))) (\<lambda>(strg, runlist, pos).
     if pos \<noteq> int (length data) then Inl AssertionError
     else rbind (put_in env (vs ! 0) (vs ! 1) (Some XL_CELL_TEXT) (text_value strg) (vs ! 2) st) (\<lambda>st.
       Inr (st\<lparr>rich_text_runlist_map := aput (rich_text_runlist_map st) (vs ! 0, vs ! 1) runlist\<rparr>))))"

definition rk_record :: "sheet_env \<Rightarrow> bytes \<Rightarrow> sheet \<Rightarrow> sheet res" where
  "rk_record env data st =
     rbind (unpack_fmt [FH, FH, FH] (py_slice data 0 6)) (\<lambda>vs.
     rbind (unpack_RK (py_slice data 6 10)) (\<lambda>d.
     put_in env (vs ! 0) (vs ! 1) None (PFloat d) (vs ! 2) st))"

definition mulrk_record :: "sheet_env \<Rightarrow> bytes \<Rightarrow> sheet \<Rightarrow> sheet res" where
  "mulrk_record env data st =
     rbind (unpack_HH (py_slice data 0 4)) (\<lambda>(mulrk_row, mulrk_first).
     rbind (unpack_u16 (slice_opt data (- 2) None)) (\<lambda>mulrk_last.
     rfold (\<lambda>colx st.
       let pos = 4 + 6 * (colx - mulrk_first) in
       rbind (unpack_u16 (py_slice data pos (pos + 2))) (\<lambda>xf_index.
       rbind (unpack_RK (py_slice data (pos + 2) (pos + 6))) (\<lambda>d.
       put_in env mulrk_row colx None (PFloat d) xf_index st))) [mulrk_first..mulrk_last] st))"

definition boolerr_record :: "sheet_env \<Rightarrow> bytes \<Rightarrow> sheet \<Rightarrow> sheet res" where
  "boolerr_record env data st =
     rbind (unpack_fmt [FH, FH, FH, FB, FB] (py_slice data 0 8)) (\<lambda>vs.
     rbind (py_nth [XL_CELL_BOOLEAN, XL_CELL_ERROR] (vs ! 4)) (\<lambda>cellty.
     put_in env (vs ! 0) (vs ! 1) (Some cellty) (PInt (vs ! 3)) (vs ! 2) st))"

definition blank_record :: "sheet_env \<Rightarrow> bytes \<Rightarrow> sheet \<Rightarrow> sheet res" where
  "blank_record env data st =
     (if \<not> formatting_info (conf env) then Inr st
      else rbind (unpack_fmt [FH, FH, FH] (py_slice data 0 6)) (\<lambda>vs.
        put_in env (vs ! 0) (vs ! 1) (Some XL_CELL_BLANK) no_value (vs ! 2) st))"

definition mulblank_record :: "sheet_env \<Rightarrow> int \<Rightarrow> bytes \<Rightarrow> sheet \<Rightarrow> sheet res" where
  "mulblank_record env data_len data st =
     (if \<not> formatting_info (conf env) then Inr st
      else
        let nitems = drop_bit 1 data_len in
        rbind (unpack_H (nat nitems) data) (\<lambda>result.
        if nitems < 2 then Inl ValueError
        else
          let rowx = result ! 0; mul_first = result ! 1; mul_last = last result in
          if nitems \<noteq> mul_last + 4 - mul_first then Inl AssertionError
          else rfold (\<lambda>colx st.
            rbind (py_nth result (2 + (colx - mul_first))) (\<lambda>xf_index.
            put_in env rowx colx (Some XL_CELL_BLANK) no_value xf_index st)) [mul_first..mul_last] st))"

section \<open>Results of formulas\<close>

text \<open>Every record lies before the end of the stream, so that reading one makes progress.\<close>

lemma record_moves:
  assumes "get_record_parts m pos = Inr ((code, len, data), pos')"
  shows "pos < int (length m) \<and> pos < pos'"
proof -
  from assms have h: "unpack_HH (py_slice m pos (pos + 4)) = Inr (code, len)" "pos' = pos + 4 + len"
    by (auto simp: get_record_parts_def Let_def)
  from unpack_HH_InrD [OF h(1)] have l: "length (py_slice m pos (pos + 4)) = 4" "0 \<le> len" by auto
  have "pos < int (length m)"
  proof (rule ccontr)
    assume "\<not> pos < int (length m)"
    then have "py_slice m pos (pos + 4) = []" by (intro slice_too_far) simp
    with l(1) show False by simp
  qed
  with h(2) l(2) show ?thesis by simp
qed

lemma record_measure:
  "get_record_parts m pos = Inr ((code, len, data), pos') \<Longrightarrow> nat (int (length m) - pos') < nat (int (length m) - pos)"
  by (frule record_moves) auto

text \<open>The loop of \<open>string_record_contents\<close>: a text may go on in \<open>CONTINUE\<close> records.\<close>

function string_chunks :: "sheet_env \<Rightarrow> int \<Rightarrow> bytes \<Rightarrow> int \<Rightarrow> int \<Rightarrow> uname \<Rightarrow> (uname \<times> int) res" where
  "string_chunks env nchars_expected data offset pos result =
     rbind (if 80 \<le> bv env
            then rbind (py_nth data offset) (\<lambda>flag.
              let rest = slice_opt data (offset + 1) None in
              if flag AND 1 \<noteq> 0 then utf16_name rest else Inr (latin_1 rest))
            else decode env (slice_opt data offset None)) (\<lambda>chunk.
     let result = result @ chunk; nchars_found = int (length result) in
     if nchars_found = nchars_expected then Inr (result, pos)
     else if nchars_expected < nchars_found then Inl XLRDError
     else rbind (get_record_parts (mem env) pos) (\<lambda>(parts, pos).
       case parts of (rc, _, data) \<Rightarrow>
         if rc \<noteq> XL_CONTINUE then Inl XLRDError
         else string_chunks env nchars_expected data 0 pos result))"
  by pat_completeness auto
termination
  by (relation "measure (\<lambda>(env, nchars_expected, data, offset, pos, result). nat (int (length (mem env)) - pos))")
    (auto dest: record_measure)

declare string_chunks.simps [simp del]

definition string_record_contents :: "sheet_env \<Rightarrow> bytes \<Rightarrow> int \<Rightarrow> (uname \<times> int) res" where
  "string_record_contents env data pos =
     (let lenlen = (if 30 \<le> bv env then 2 else 1) in
      rbind (unpack_len lenlen (py_slice data 0 (int lenlen))) (\<lambda>nchars_expected.
      string_chunks env nchars_expected data (int lenlen) pos []))"

text \<open>
  The \<open>STRING\<close> record of a formula whose result is a text, possibly after one record about a shared or
  array formula.
\<close>

definition formula_string :: "sheet_env \<Rightarrow> int \<Rightarrow> (bytes \<times> int) res" where
  "formula_string env pos =
     rbind (get_record_parts (mem env) pos) (\<lambda>((rc2, _, data2), pos).
     if rc2 = XL_STRING \<or> rc2 = XL_STRING_B2 then Inr (data2, pos)
     else
       rbind (if rc2 = XL_ARRAY then unpack_fmt ([FH, FH, FB, FB, FB] @ replicate 5 FX @ [FH]) (py_slice data2 0 14)
              else if rc2 = XL_SHRFMLA then unpack_fmt [FH, FH, FB, FB, FX, FB, FH] (py_slice data2 0 10)
              else if rc2 \<notin> set XL_SHRFMLA_ETC_ETC then Inl XLRDError
              else Inr []) (\<lambda>_.
       rbind (get_record_parts (mem env) pos) (\<lambda>((rc2, _, data2), pos).
       if rc2 \<noteq> XL_STRING \<and> rc2 \<noteq> XL_STRING_B2 then Inl XLRDError else Inr (data2, pos))))"

definition formula_text :: "sheet_env \<Rightarrow> int \<Rightarrow> int \<Rightarrow> int \<Rightarrow> int \<Rightarrow> sheet \<Rightarrow> (sheet \<times> int) res" where
  "formula_text env rowx colx xf_index pos st =
     rbind (formula_string env pos) (\<lambda>(data2, pos).
     rbind (string_record_contents env data2 pos) (\<lambda>(strg, pos).
     rbind (put_in env rowx colx (Some XL_CELL_TEXT) (text_value strg) xf_index st) (\<lambda>st. Inr (st, pos))))"

text \<open>A result that is not a number: a truth value, an error or the empty text.\<close>

definition formula_special :: "sheet_env \<Rightarrow> int \<Rightarrow> int \<Rightarrow> int \<Rightarrow> bytes \<Rightarrow> sheet \<Rightarrow> sheet res" where
  "formula_special env rowx colx xf_index result_str st =
     (let first_byte = result_str ! 0; value = PInt (uint (result_str ! 2)) in
      if first_byte = 1 then put_in env rowx colx (Some XL_CELL_BOOLEAN) value xf_index st
      else if first_byte = 2 then put_in env rowx colx (Some XL_CELL_ERROR) value xf_index st
      else if first_byte = 3 then put_in env rowx colx (Some XL_CELL_TEXT) (PStr []) xf_index st
      else Inl XLRDError)"

definition formula_number :: "sheet_env \<Rightarrow> int \<Rightarrow> int \<Rightarrow> int \<Rightarrow> bytes \<Rightarrow> sheet \<Rightarrow> sheet res" where
  "formula_number env rowx colx xf_index result_str st =
     rbind (unpack_d result_str) (\<lambda>d. put_in env rowx colx None (PFloat d) xf_index st)"

definition formula_record :: "sheet_env \<Rightarrow> bytes \<Rightarrow> int \<Rightarrow> sheet \<Rightarrow> (sheet \<times> int) res" where
  "formula_record env data pos st =
     (if bv env < 30 then Inl Unsupported
      else
        let d16 = py_slice data 0 16; result_str = take 8 (drop 6 d16) in
        rbind (unpack_fmt ([FH, FH, FH] @ replicate 8 FX @ [FH]) d16) (\<lambda>vs.
        if drop 6 result_str = [0xFF, 0xFF] \<and> result_str ! 0 = 0 then formula_text env (vs ! 0) (vs ! 1) (vs ! 2) pos st
        else
          rbind (if drop 6 result_str = [0xFF, 0xFF] then formula_special env (vs ! 0) (vs ! 1) (vs ! 2) result_str st
                 else formula_number env (vs ! 0) (vs ! 1) (vs ! 2) result_str st) (\<lambda>st. Inr (st, pos))))"

section \<open>Rows and columns\<close>

text \<open>The rows with the same bits share one \<open>Rowinfo\<close>, which is not changed later.\<close>

definition rowinfo_of :: "int \<Rightarrow> int \<Rightarrow> attrs" where
  "rowinfo_of bits1 bits2 =
     (let has_default_xf_index = drop_bit 7 bits2 AND 1 in
      [(''height'', bits1 AND 0x7fff), (''has_default_height'', drop_bit 15 bits1 AND 1),
       (''outline_level'', bits2 AND 7), (''outline_group_starts_ends'', drop_bit 4 bits2 AND 1),
       (''hidden'', drop_bit 5 bits2 AND 1), (''height_mismatch'', drop_bit 6 bits2 AND 1),
       (''has_default_xf_index'', has_default_xf_index),
       (''xf_index'', if has_default_xf_index = 0 then - 1 else drop_bit 16 bits2 AND 0xfff),
       (''additional_space_above'', drop_bit 28 bits2 AND 1), (''additional_space_below'', drop_bit 29 bits2 AND 1)])"

definition row_record :: "sheet_env \<Rightarrow> bytes \<Rightarrow> sheet \<Rightarrow> sheet res" where
  "row_record env data st =
     (if \<not> formatting_info (conf env) then Inr st
      else rbind (unpack_fmt ([FH] @ replicate 4 FX @ [FH] @ replicate 4 FX @ [FSI]) (py_slice data 0 16)) (\<lambda>vs.
        let rowx = vs ! 0 in
        if \<not> rowx < int (utter_max_rows (conf env)) then Inr st
        else Inr (st\<lparr>rowinfo_map := aput (rowinfo_map st) rowx (rowinfo_of (vs ! 1) (vs ! 2))\<rparr>)))"

definition colinfo_bits :: manifest where
  "colinfo_bits = [(0, 0x0001, ''hidden''), (1, 0x0002, ''bit1_flag''), (8, 0x0700, ''outline_level''), (12, 0x1000, ''collapsed'')]"

definition colinfo_record :: "sheet_env \<Rightarrow> bytes \<Rightarrow> sheet \<Rightarrow> sheet res" where
  "colinfo_record env data st =
     (if \<not> formatting_info (conf env) then Inr st
      else rbind (unpack_fmt [FH, FH, FH, FH, FH] (py_slice data 0 10)) (\<lambda>vs.
        let first_colx = vs ! 0; last_colx = vs ! 1 in
        if \<not> (first_colx \<le> last_colx \<and> last_colx \<le> 256) then Inr st
        else
          let c = upkbits [(''width'', vs ! 2), (''xf_index'', vs ! 3)] (vs ! 4) colinfo_bits in
          Inr (st\<lparr>colinfo_map := fold (\<lambda>colx m. aput m colx c) [first_colx..min last_colx 255] (colinfo_map st)\<rparr>)))"

definition gcw_record :: "sheet_env \<Rightarrow> int \<Rightarrow> bytes \<Rightarrow> sheet \<Rightarrow> sheet res" where
  "gcw_record env data_len data st =
     (if \<not> formatting_info (conf env) then Inr st
      else if data_len \<noteq> 34 \<or> py_slice data 0 2 \<noteq> [0x20, 0x00] then Inl AssertionError
      else rbind (unpack_ints 8 (py_slice data 2 34)) (\<lambda>iguff.
        Inr (st\<lparr>gcw := concat (map (\<lambda>bits. map (\<lambda>j. drop_bit j bits AND 1) [0..<32]) iguff)\<rparr>)))"

definition default_row_record :: "int \<Rightarrow> bytes \<Rightarrow> sheet \<Rightarrow> sheet res" where
  "default_row_record data_len data st =
     rbind (if data_len = 4 then rbind (unpack_HH (py_slice data 0 4)) (\<lambda>(bits, h). Inr (bits, Some h))
            else if data_len = 2 then rbind (unpack_u16 data) (\<lambda>h. Inr (0, Some h))
            else Inr (0, default_row_height st)) (\<lambda>(bits, height).
     Inr (set_attrs [(''default_row_height_mismatch'', bits AND 1), (''default_row_hidden'', drop_bit 1 bits AND 1),
         (''default_additional_space_above'', drop_bit 2 bits AND 1),
         (''default_additional_space_below'', drop_bit 3 bits AND 1)] (st\<lparr>default_row_height := height\<rparr>)))"

definition dimension_record :: "sheet_env \<Rightarrow> int \<Rightarrow> bytes \<Rightarrow> sheet \<Rightarrow> sheet res" where
  "dimension_record env data_len data st =
     (if data_len = 0 then Inr st
      else rbind (if bv env < 80 then unpack_fmt [FH, FX, FX, FH] (py_slice data 2 8)
                  else unpack_fmt [FSI, FX, FX, FH] (py_slice data 4 12)) (\<lambda>vs.
        let st = st\<lparr>cells := (cells st)\<lparr>nrows := 0, ncols := 0\<rparr>, dimensions := (vs ! 0, vs ! 1)\<rparr> in
        if bv env \<in> {21, 30, 40} then Inl Unsupported else Inr st))"

section \<open>Ranges and page breaks\<close>

definition label_ranges_record :: "int \<Rightarrow> bytes \<Rightarrow> sheet \<Rightarrow> sheet res" where
  "label_ranges_record data_len data st =
     rbind (unpack_cell_range_address_list_update_pos (row_label_ranges st) data 0 8) (\<lambda>(rows, pos).
     rbind (unpack_cell_range_address_list_update_pos (col_label_ranges st) data pos 8) (\<lambda>(cols, pos).
     if pos \<noteq> data_len then Inl AssertionError
     else Inr (st\<lparr>row_label_ranges := rows, col_label_ranges := cols\<rparr>)))"

definition merged_record :: "sheet_env \<Rightarrow> int \<Rightarrow> bytes \<Rightarrow> sheet \<Rightarrow> sheet res" where
  "merged_record env data_len data st =
     (if \<not> formatting_info (conf env) then Inr st
      else rbind (unpack_cell_range_address_list_update_pos (merged_cells st) data 0 8) (\<lambda>(ranges, pos).
        if pos \<noteq> data_len then Inl AssertionError else Inr (st\<lparr>merged_cells := ranges\<rparr>)))"

text \<open>Both kinds of page breaks; before BIFF8 a break has no first and last cell, and runs to \<open>end\<close>.\<close>

definition unpack_breaks :: "sheet_env \<Rightarrow> int \<Rightarrow> int \<Rightarrow> bytes \<Rightarrow> (int \<times> int \<times> int) list res" where
  "unpack_breaks env end data_len data =
     rbind (unpack_u16 (py_slice data 0 2)) (\<lambda>num_breaks.
     let size = (if 80 \<le> bv env then 6 else 2) in
     if num_breaks * size + 2 \<noteq> data_len then Inl AssertionError
     else rmap (\<lambda>i. let pos = 2 + size * i in
         if bv env < 80 then rbind (unpack_u16 (py_slice data pos (pos + 2))) (\<lambda>n. Inr (n, 0, end))
         else rbind (unpack_H 3 (py_slice data pos (pos + 6))) (\<lambda>vs. Inr (vs ! 0, vs ! 1, vs ! 2)))
       [0..num_breaks - 1])"

definition hbreaks_record :: "sheet_env \<Rightarrow> int \<Rightarrow> bytes \<Rightarrow> sheet \<Rightarrow> sheet res" where
  "hbreaks_record env data_len data st =
     (if \<not> formatting_info (conf env) then Inr st
      else rbind (unpack_breaks env 255 data_len data) (\<lambda>bs.
        Inr (st\<lparr>horizontal_page_breaks := horizontal_page_breaks st @ bs\<rparr>)))"

definition vbreaks_record :: "sheet_env \<Rightarrow> int \<Rightarrow> bytes \<Rightarrow> sheet \<Rightarrow> sheet res" where
  "vbreaks_record env data_len data st =
     (if \<not> formatting_info (conf env) then Inr st
      else rbind (unpack_breaks env 65535 data_len data) (\<lambda>bs.
        Inr (st\<lparr>vertical_page_breaks := vertical_page_breaks st @ bs\<rparr>)))"

section \<open>Views\<close>

fun option_bits :: "int \<Rightarrow> (string \<times> int) list \<Rightarrow> (string \<times> int) list" where
  "option_bits options [] = []"
| "option_bits options ((attr, d) # as) = (attr, options AND 1) # option_bits (drop_bit 1 options) as"

definition window2_record :: "sheet_env \<Rightarrow> int \<Rightarrow> bytes \<Rightarrow> sheet \<Rightarrow> sheet res" where
  "window2_record env data_len data st =
     rbind (if 80 \<le> bv env \<and> 14 \<le> data_len
            then rbind (unpack_fmt [FH, FH, FH, FH, FX, FX, FH, FH] (py_slice data 0 14)) (\<lambda>vs.
              Inr (vs ! 0, vs ! 1, vs ! 2, vs ! 3, st\<lparr>cached_page_break_preview_mag_factor := Some (vs ! 4),
                cached_normal_view_mag_factor := Some (vs ! 5)\<rparr>))
            else if bv env < 30 then Inl AssertionError
            else rbind (unpack_fmt [FH, FH, FH] (py_slice data 0 6)) (\<lambda>vs.
              rbind (unpack_fmt [FB, FB, FB] (py_slice data 6 9)) (\<lambda>bs.
              let rgb = (bs ! 0, bs ! 1, bs ! 2) in
              Inr (vs ! 0, vs ! 1, vs ! 2, nearest_colour_index (env_colour_map env) rgb,
                st\<lparr>gridline_colour_rgb := Some rgb, cached_page_break_preview_mag_factor := Some 0,
                  cached_normal_view_mag_factor := Some 0\<rparr>)))) (\<lambda>(options, rowx, colx, colour, st).
     Inr (set_attrs ([(''first_visible_rowx'', rowx), (''first_visible_colx'', colx), (''gridline_colour_index'', colour)]
       @ option_bits options WINDOW2_options) st))"

definition scl_record :: "bytes \<Rightarrow> sheet \<Rightarrow> sheet res" where
  "scl_record data st =
     rbind (unpack_HH data) (\<lambda>(num, den).
     let result = (if den \<noteq> 0 then num * 100 div den else 0);
         result = (if 10 \<le> result \<and> result \<le> 400 then result else 100)
     in Inr (st\<lparr>scl_mag_factor := Some result\<rparr>))"

definition pane_record :: "bytes \<Rightarrow> sheet \<Rightarrow> sheet res" where
  "pane_record data st =
     rbind (unpack_fmt [FH, FH, FH, FH, FB] (py_slice data 0 9)) (\<lambda>vs.
     Inr (set_attrs (zip [''vert_split_pos'', ''horz_split_pos'', ''horz_split_first_visible'',
       ''vert_split_first_visible'', ''split_active_pane'', ''has_pane_record''] (vs @ [1])) st))"

definition in_zoom :: "int option \<Rightarrow> bool" where
  "in_zoom z = (case z of None \<Rightarrow> False | Some z \<Rightarrow> 10 \<le> z \<and> z \<le> 400)"

definition update_cooked_mag_factors :: "sheet \<Rightarrow> sheet" where
  "update_cooked_mag_factors st =
     (let cooked = (case scl_mag_factor st of None \<Rightarrow> 100 | Some m \<Rightarrow> m) in
      if getattr (sheet_attrs st) ''show_in_page_break_preview'' \<noteq> 0 then
        let zoom = cached_normal_view_mag_factor st;
            zoom = (if in_zoom zoom then the zoom else cooked)
        in set_attrs [(''cooked_page_break_preview_mag_factor'', cooked), (''cooked_normal_view_mag_factor'', zoom)] st
      else
        let zoom = cached_page_break_preview_mag_factor st;
            zoom = (if zoom = Some 0 then 60 else if in_zoom zoom then the zoom else cooked)
        in set_attrs [(''cooked_normal_view_mag_factor'', cooked), (''cooked_page_break_preview_mag_factor'', zoom)] st)"

section \<open>Records that leave the sheet as it is\<close>

definition condfmt_record :: "sheet_env \<Rightarrow> bytes \<Rightarrow> sheet \<Rightarrow> sheet res" where
  "condfmt_record env data st =
     (if \<not> formatting_info (conf env) then Inr st
      else if bv env < 80 then Inl AssertionError
      else rbind (unpack_H 6 (py_slice data 0 12)) (\<lambda>_.
        rbind (unpack_cell_range_address_list_update_pos [] data 12 8) (\<lambda>_. Inr st)))"

definition cf_font :: "field_code list" where
  "cf_font = replicate 64 FX @ [FSI, FSI, FH, FH, FB] @ replicate 3 FX @ [FSI] @ replicate 4 FX @ [FSI, FSI, FSI] @ replicate 18 FX"

definition cf_record :: "sheet_env \<Rightarrow> int \<Rightarrow> bytes \<Rightarrow> sheet \<Rightarrow> sheet res" where
  "cf_record env data_len data st =
     (if \<not> formatting_info (conf env) then Inr st
      else rbind (unpack_fmt [FB, FB, FH, FH, FSI] (py_slice data 0 10)) (\<lambda>vs.
        let sz1 = vs ! 2; sz2 = vs ! 3; flags = vs ! 4; font = bit flags 26 in
        rbind (if font then unpack_fmt cf_font (py_slice data 12 130) else Inr []) (\<lambda>_.
        let pos = 12 + (if font then 118 else 0) + (if bit flags 28 then 8 else 0) + (if bit flags 29 then 4 else 0)
        in if pos + sz1 + sz2 \<noteq> data_len then Inl AssertionError else Inr st)))"

definition country_record :: "bytes \<Rightarrow> sheet \<Rightarrow> sheet res" where
  "country_record data st =
     rbind (unpack_HH (py_slice data 0 4)) (\<lambda>c.
     if countries st \<noteq> (0, 0) \<and> countries st \<noteq> c then Inl AssertionError
     else Inr (st\<lparr>countries := c\<rparr>))"

text \<open>An embedded chart: everything up to its own \<open>EOF\<close>.\<close>

function skip_chart :: "bytes \<Rightarrow> int \<Rightarrow> int res" where
  "skip_chart m pos =
     rbind (get_record_parts m pos) (\<lambda>(parts, pos).
     case parts of (code, _, _) \<Rightarrow> if code = XL_EOF then Inr pos else skip_chart m pos)"
  by pat_completeness auto
termination
  by (relation "measure (\<lambda>(m, pos). nat (int (length m) - pos))") (auto dest: record_measure)

declare skip_chart.simps [simp del]

section \<open>One record\<close>

definition plain_record :: "sheet_env \<Rightarrow> int \<Rightarrow> int \<Rightarrow> bytes \<Rightarrow> sheet \<Rightarrow> sheet res" where
  "plain_record env rc data_len data st =
     (if rc = XL_NUMBER then number_record env data st
      else if rc = XL_LABELSST then labelsst_record env data st
      else if rc = XL_LABEL then label_record env data st
      else if rc = XL_RSTRING then rstring_record env data st
      else if rc = XL_RK then rk_record env data st
      else if rc = XL_MULRK then mulrk_record env data st
      else if rc = XL_ROW then row_record env data st
      else if rc = XL_BOOLERR then boolerr_record env data st
      else if rc = XL_COLINFO then colinfo_record env data st
      else if rc = XL_DEFCOLWIDTH then
        rbind (unpack_u16 (py_slice data 0 2)) (\<lambda>w. Inr (st\<lparr>defcolwidth := Some w\<rparr>))
      else if rc = XL_STANDARDWIDTH then
        rbind (unpack_u16 (py_slice data 0 2)) (\<lambda>w. Inr (st\<lparr>standardwidth := Some w\<rparr>))
      else if rc = XL_GCW then gcw_record env data_len data st
      else if rc = XL_BLANK then blank_record env data st
      else if rc = XL_MULBLANK then mulblank_record env data_len data st
      else if rc = XL_DIMENSION \<or> rc = XL_DIMENSION2 then dimension_record env data_len data st
      else if rc = XL_HLINK \<or> rc = XL_QUICKTIP \<or> rc = XL_OBJ \<or> rc = XL_TXO \<or> rc = XL_NOTE then Inl Unsupported
      else if rc = XL_MSO_DRAWING \<or> rc = XL_FEAT11 then Inr st
      else if rc = XL_COUNTRY then country_record data st
      else if rc = XL_LABELRANGES then label_ranges_record data_len data st
      else if rc = XL_ARRAY then
        rbind (unpack_fmt ([FH, FH, FB, FB, FB] @ replicate 5 FX @ [FH]) (py_slice data 0 14)) (\<lambda>_. Inr st)
      else if rc = XL_SHRFMLA then
        rbind (unpack_fmt [FH, FH, FB, FB, FX, FB, FH] (py_slice data 0 10)) (\<lambda>_. Inr st)
      else if rc = XL_CONDFMT then condfmt_record env data st
      else if rc = XL_CF then cf_record env data_len data st
      else if rc = XL_DEFAULTROWHEIGHT then default_row_record data_len data st
      else if rc = XL_MERGEDCELLS then merged_record env data_len data st
      else if rc = XL_WINDOW2 then window2_record env data_len data st
      else if rc = XL_SCL then scl_record data st
      else if rc = XL_PANE then pane_record data st
      else if rc = XL_HORIZONTALPAGEBREAKS then hbreaks_record env data_len data st
      else if rc = XL_VERTICALPAGEBREAKS then vbreaks_record env data_len data st
      else if bv env \<le> 45 then Inl Unsupported
      else Inr st)"

text \<open>A record at its place: the result formula and the embedded chart read on from \<open>pos\<close>.\<close>

definition sheet_record :: "sheet_env \<Rightarrow> int \<Rightarrow> int \<Rightarrow> bytes \<Rightarrow> int \<Rightarrow> sheet \<Rightarrow> (sheet \<times> int) res" where
  "sheet_record env rc data_len data pos st =
     (if rc \<in> set XL_FORMULA_OPCODES then formula_record env data pos st
      else if rc \<in> set bofcodes then
        rbind (unpack_HH (py_slice data 0 4)) (\<lambda>_. rbind (skip_chart (mem env) pos) (\<lambda>pos. Inr (st, pos)))
      else rbind (plain_record env rc data_len data st) (\<lambda>st. Inr (st, pos)))"

text \<open>No record moves the position back.\<close>

lemma skip_chart_moves: "skip_chart m pos = Inr pos' \<Longrightarrow> pos \<le> pos'"
proof (induction m pos rule: skip_chart.induct)
  case (1 m pos)
  from 1(2) obtain code len data p where
    g: "get_record_parts m pos = Inr ((code, len, data), p)" and
    s: "(if code = XL_EOF then Inr p else skip_chart m p) = Inr pos'"
    by (subst (asm) skip_chart.simps) auto
  from s 1(1) [OF g refl] have "p \<le> pos'" by (auto split: if_splits)
  with record_moves [OF g] show ?case by simp
qed

lemma string_chunks_moves: "string_chunks env n data offset pos result = Inr (s, pos') \<Longrightarrow> pos \<le> pos'"
proof (induction env n data offset pos result rule: string_chunks.induct)
  case (1 env n data offset pos result)
  let ?chunk = "if 80 \<le> bv env
    then rbind (py_nth data offset) (\<lambda>flag. let rest = slice_opt data (offset + 1) None in
      if flag AND 1 \<noteq> 0 then utf16_name rest else Inr (latin_1 rest))
    else decode env (slice_opt data offset None)"
  obtain chunk where c: "?chunk = Inr chunk" and
    r: "pos' = pos \<or> (\<exists>len d p. int (length (result @ chunk)) \<noteq> n \<and> \<not> n < int (length (result @ chunk)) \<and>
      get_record_parts (mem env) pos = Inr ((XL_CONTINUE, len, d), p) \<and>
      string_chunks env n d 0 p (result @ chunk) = Inr (s, pos'))"
    using 1(2) by (subst (asm) string_chunks.simps, elim rbind_InrE) (rule that, assumption, auto simp: Let_def split: if_splits)
  from r show ?case
  proof (elim disjE exE conjE)
    fix len d p assume g: "get_record_parts (mem env) pos = Inr ((XL_CONTINUE, len, d), p)"
      and "int (length (result @ chunk)) \<noteq> n" "\<not> n < int (length (result @ chunk))"
      and s: "string_chunks env n d 0 p (result @ chunk) = Inr (s, pos')"
    then have "p \<le> pos'" using 1(1) [OF c refl refl _ _ g refl refl refl] by simp
    with record_moves [OF g] show ?thesis by simp
  qed simp
qed

lemma formula_string_moves:
  assumes "formula_string env pos = Inr (data, pos')"
  shows "pos \<le> pos'"
proof -
  from assms obtain rc2 len data2 p where g: "get_record_parts (mem env) pos = Inr ((rc2, len, data2), p)"
    unfolding formula_string_def by (elim rbind_InrE) auto
  have "p \<le> pos'"
  proof (cases "rc2 = XL_STRING \<or> rc2 = XL_STRING_B2")
    case True
    with assms g show ?thesis by (simp add: formula_string_def)
  next
    case False
    with assms g obtain rc3 len3 data3 where "get_record_parts (mem env) p = Inr ((rc3, len3, data3), pos')"
      unfolding formula_string_def g rbind_Inr prod.case by (simp only: if_False) (elim rbind_InrE, auto split: if_splits)
    then show ?thesis using record_moves by fastforce
  qed
  with record_moves [OF g] show ?thesis by simp
qed

lemma string_contents_moves: "string_record_contents env data pos = Inr (s, pos') \<Longrightarrow> pos \<le> pos'"
  unfolding string_record_contents_def Let_def by (elim rbind_InrE) (rule string_chunks_moves)

lemma formula_text_moves:
  assumes "formula_text env r c xf pos st = Inr (st', pos')"
  shows "pos \<le> pos'"
proof -
  from assms obtain d p s where "formula_string env pos = Inr (d, p)" "string_record_contents env d p = Inr (s, pos')"
    by (auto simp: formula_text_def)
  then show ?thesis using formula_string_moves string_contents_moves by fastforce
qed

lemma record_stays: "rbind m (\<lambda>st. Inr (st, pos)) = Inr (st', pos') \<Longrightarrow> pos' = pos"
  by (elim rbind_InrE) simp

lemma formula_record_moves:
  assumes "formula_record env data pos st = Inr (st', pos')"
  shows "pos \<le> pos'"
proof -
  let ?res = "take 8 (drop 6 (py_slice data 0 16))"
  have "\<not> bv env < 30" by (rule notI) (use assms in \<open>simp add: formula_record_def\<close>)
  then obtain vs where
    "(if drop 6 ?res = [0xFF, 0xFF] \<and> ?res ! 0 = 0 then formula_text env (vs ! 0) (vs ! 1) (vs ! 2) pos st
      else rbind (if drop 6 ?res = [0xFF, 0xFF] then formula_special env (vs ! 0) (vs ! 1) (vs ! 2) ?res st
        else formula_number env (vs ! 0) (vs ! 1) (vs ! 2) ?res st) (\<lambda>st. Inr (st, pos))) = Inr (st', pos')"
    using assms unfolding formula_record_def Let_def by (simp only: if_False) (erule rbind_InrE)
  then show ?thesis by (split if_split_asm) (auto simp only: dest: formula_text_moves record_stays)
qed

lemma sheet_record_moves: "sheet_record env rc data_len data pos st = Inr (st', pos') \<Longrightarrow> pos \<le> pos'"
  by (auto simp: sheet_record_def split: if_splits dest: formula_record_moves skip_chart_moves)

section \<open>The whole sheet\<close>

function read_records :: "sheet_env \<Rightarrow> int \<Rightarrow> sheet \<Rightarrow> sheet res" where
  "read_records env pos st =
     rbind (get_record_parts (mem env) pos) (\<lambda>(parts, pos).
     case parts of (rc, data_len, data) \<Rightarrow>
       if rc = XL_EOF then Inr st
       else rbind (sheet_record env rc data_len data pos st) (\<lambda>(st, pos). read_records env pos st))"
  by pat_completeness auto
termination
proof (relation "measure (\<lambda>(env, pos, st). nat (int (length (mem env)) - pos))", goal_cases)
  case 1
  then show ?case by simp
next
  case 2
  then show ?case by (auto dest!: record_moves sheet_record_moves)
qed

declare read_records.simps [simp del]

definition ranges_nat :: "int_range list \<Rightarrow> crange list" where
  "ranges_nat = map (\<lambda>(rlo, rhi, clo, chi). (nat rlo, nat rhi, nat clo, nat chi))"

definition sheet_read :: "sheet_env \<Rightarrow> int \<Rightarrow> sheet \<Rightarrow> sheet res" where
  "sheet_read env position st =
     rbind (read_records env position st) (\<lambda>st.
     rbind (tidy_dimensions (conf env) (ragged env) (ranges_nat (merged_cells st)) (cells st)) (\<lambda>g.
     Inr (update_cooked_mag_factors (st\<lparr>cells := g\<rparr>))))"

end
