(* ===== verification/XlSheetProps.thy ===== *)
theory XlSheetProps
  imports XlSheet XlStringsProps
begin

text \<open>
  What \<open>Sheet.read\<close> promises: the cells a writer has put into the records of a sheet are the cells of the
  sheet, at their places and with their values, for every kind of cell record of BIFF8.
\<close>

section \<open>Fields of a format\<close>

text \<open>The bytes of a list of fields; a pad byte is 0.\<close>

definition code_ok :: "field_code \<Rightarrow> int \<Rightarrow> bool" where
  "code_ok c n \<longleftrightarrow> (case c of FSI \<Rightarrow> i32_ok n | _ \<Rightarrow> 0 \<le> n \<and> n < 256 ^ field_width c)"

fun fmt_bytes :: "(field_code \<times> int) list \<Rightarrow> bytes" where
  "fmt_bytes [] = []"
| "fmt_bytes ((c, n) # fs) = le_bytes (field_width c) n @ fmt_bytes fs"

definition fmt_ok :: "(field_code \<times> int) list \<Rightarrow> bool" where
  "fmt_ok = list_all (\<lambda>(c, n). c \<noteq> FX \<and> code_ok c n)"

lemma length_fmt_bytes: "length (fmt_bytes fs) = sum_list (map (field_width \<circ> fst) fs)"
  by (induction fs rule: fmt_bytes.induct) simp_all

lemma unpack_codes_append:
  "length a = sum_list (map field_width cs) \<Longrightarrow> unpack_codes (cs @ cs') (a @ b) = unpack_codes cs a @ unpack_codes cs' b"
proof (induction cs arbitrary: a)
  case (Cons c cs)
  have "length (drop (field_width c) a) = sum_list (map field_width cs)" using Cons.prems by simp
  then show ?case using Cons by (simp add: Let_def)
qed simp

lemma unpack_codes_bytes: "fmt_ok fs \<Longrightarrow> unpack_codes (map fst fs) (fmt_bytes fs) = map snd fs"
proof (induction fs rule: fmt_bytes.induct)
  case (2 c n fs)
  then show ?case
    by (cases c) (simp_all add: fmt_ok_def code_ok_def i32_le_bytes le_nat_le_bytes uint_word_of_int)
qed simp

lemma unpack_fmt_bytes: "fmt_ok fs \<Longrightarrow> unpack_fmt (map fst fs) (fmt_bytes fs) = Inr (map snd fs)"
  by (simp add: unpack_fmt_def unpack_codes_bytes length_fmt_bytes)

lemma unpack_pad: "unpack_codes (replicate k FX @ cs) bs = unpack_codes cs (drop k bs)"
  by (induction k arbitrary: bs) (simp_all add: Let_def)

lemma unpack_fmt_padded:
  assumes "fmt_ok fs" and "fmt_ok gs" and "length pad = k"
  shows "unpack_fmt (map fst fs @ replicate k FX @ map fst gs) (fmt_bytes fs @ pad @ fmt_bytes gs) = Inr (map snd fs @ map snd gs)"
proof -
  have "sum_list (map field_width (replicate k FX)) = k" by (induction k) simp_all
  moreover have "length (fmt_bytes fs) = sum_list (map field_width (map fst fs))" by (simp add: length_fmt_bytes)
  from unpack_codes_append [OF this] have
    "unpack_codes (map fst fs @ replicate k FX @ map fst gs) (fmt_bytes fs @ pad @ fmt_bytes gs) = map snd fs @ map snd gs"
    using assms by (simp add: unpack_pad unpack_codes_bytes)
  ultimately show ?thesis using assms(3) by (simp add: unpack_fmt_def length_fmt_bytes)
qed

section \<open>Cells\<close>

abbreviation u16_fields :: "int list \<Rightarrow> (field_code \<times> int) list" where
  "u16_fields vs \<equiv> map (Pair FH) vs"

lemma u16_fields_ok: "list_all u16_ok vs \<Longrightarrow> fmt_ok (u16_fields vs)"
  by (induction vs) (simp_all add: fmt_ok_def code_ok_def u16_ok_def)

text \<open>The place of a cell and its format index, which begin the record of one cell.\<close>

type_synonym place = "nat \<times> nat \<times> int"

definition place_bytes :: "place \<Rightarrow> bytes" where
  "place_bytes = (\<lambda>(r, c, xf). fmt_bytes [(FH, int r), (FH, int c), (FH, xf)])"

definition place_ok :: "place \<Rightarrow> bool" where
  "place_ok = (\<lambda>(r, c, xf). u16_ok (int r) \<and> u16_ok (int c) \<and> u16_ok xf)"

lemma length_place_bytes [simp]: "length (place_bytes p) = 6"
  by (cases p) (simp add: place_bytes_def length_fmt_bytes)

lemma place_fields: "place_bytes (r, c, xf) = fmt_bytes (u16_fields [int r, int c, xf])"
  by (simp add: place_bytes_def)

lemma place_read:
  assumes "place_ok (r, c, xf)"
  shows "unpack_fmt [FH, FH, FH] (place_bytes (r, c, xf)) = Inr [int r, int c, xf]"
  using unpack_fmt_bytes [OF u16_fields_ok, of "[int r, int c, xf]"] assms
  by (simp add: place_fields place_ok_def o_def)

lemma place_slice: "py_slice (place_bytes p @ bs) 0 6 = place_bytes p"
  by (simp add: py_slice_nonneg)

lemma place_rest:
  "6 \<le> a \<Longrightarrow> a \<le> b \<Longrightarrow> py_slice (place_bytes p @ bs) a b = take (nat (b - a)) (drop (nat a - 6) bs)"
  by (simp add: py_slice_nonneg)

lemma rfold_done: "rfold f [] = Inr"
  by (simp add: fun_eq_iff)

text \<open>Putting one cell of a sheet whose rows are not ragged.\<close>

lemma put_in_run:
  assumes "\<not> ragged env"
  shows "put_in env (int r) (int c) t v xf st =
    rbind (put_all (conf env) [(r, c, t, v, xf)] (cells st)) (\<lambda>g. Inr (st\<lparr>cells := g\<rparr>))"
  using assms by (simp add: put_in_def put_all_def rfold_done)

lemma put_all_append: "put_all cf (ps @ qs) g = rbind (put_all cf ps g) (put_all cf qs)"
  by (simp add: put_all_def rfold_append fun_eq_iff cong: rbind_cong)

text \<open>A row of cells, as the records of several cells put it.\<close>

fun row_puts :: "nat \<Rightarrow> nat \<Rightarrow> (nat option \<times> pyval \<times> int) list \<Rightarrow> put list" where
  "row_puts r c [] = []"
| "row_puts r c ((t, v, xf) # xs) = (r, c, t, v, xf) # row_puts r (Suc c) xs"

lemma int_upto: "[int c..int c + int n - 1] = map int [c..<c + n]"
proof (induction n)
  case (Suc n)
  have "[int c..int c + int (Suc n) - 1] = [int c..int c + int n - 1] @ [int c + int n]"
    using upto_rec2 [of "int c" "int c + int n"] by simp
  then show ?case by (simp add: Suc)
qed simp

lemma row_loop:
  assumes "\<not> ragged env"
    and "\<And>i st. i < length xs \<Longrightarrow> f (int (c + i)) st =
      (case xs ! i of (t, v, xf) \<Rightarrow> put_in env (int r) (int (c + i)) t v xf st)"
  shows "rfold f (map int [c..<c + length xs]) st =
    rbind (put_all (conf env) (row_puts r c xs) (cells st)) (\<lambda>g. Inr (st\<lparr>cells := g\<rparr>))"
  using assms(2)
proof (induction xs arbitrary: c st)
  case Nil
  then show ?case by (simp add: put_all_def)
next
  case (Cons x xs)
  obtain t v xf where x: "x = (t, v, xf)" by (cases x)
  have h: "f (int c) st = put_in env (int r) (int c) t v xf st" for st using Cons.prems [of 0] x by simp
  have tl: "rfold f (map int [Suc c..<Suc c + length xs]) st =
      rbind (put_all (conf env) (row_puts r (Suc c) xs) (cells st)) (\<lambda>g. Inr (st\<lparr>cells := g\<rparr>))" for st
  proof (rule Cons.IH)
    fix i st assume "i < length xs"
    then show "f (int (Suc c + i)) st = (case xs ! i of (t, v, xf) \<Rightarrow> put_in env (int r) (int (Suc c + i)) t v xf st)"
      using Cons.prems [of "Suc i" st] by simp
  qed
  have "[c..<c + length (x # xs)] = c # [Suc c..<Suc c + length xs]" 
    using upt_conv_Cons [of c "c + Suc (length xs)"] by (simp del: upt_Suc)
  then show ?case
    by (simp add: h tl [unfolded add_Suc] put_in_run [OF assms(1)] x put_all_def rbind_assoc del: rbind_eq_Inr upt_Suc)
qed

section \<open>Numbers\<close>

text \<open>A finite double: its sign, exponent field and fraction.\<close>

type_synonym dbl = "bool \<times> int \<times> int"

definition dbl_ok :: "dbl \<Rightarrow> bool" where
  "dbl_ok = (\<lambda>(neg, ex, fr). 0 \<le> ex \<and> ex < 2047 \<and> 0 \<le> fr \<and> fr < 2 ^ 52)"

definition dbl_bits :: "dbl \<Rightarrow> int" where
  "dbl_bits = (\<lambda>(neg, ex, fr). fr + 2 ^ 52 * (ex + 2 ^ 11 * of_bool neg))"

definition dbl_value :: "dbl \<Rightarrow> rat" where
  "dbl_value = (\<lambda>(neg, ex, fr).
     (if neg then - 1 else 1) * (if ex = 0 then of_int fr * pow2 (- 1074) else of_int (2 ^ 52 + fr) * pow2 (ex - 1075)))"

lemma dbl_bits_range: "dbl_ok x \<Longrightarrow> 0 \<le> dbl_bits x \<and> dbl_bits x < 2 ^ 64"
  by (cases x) (auto simp: dbl_ok_def dbl_bits_def)

lemma dbl_fields:
  assumes "dbl_ok (neg, ex, fr)"
  shows "take_bit 52 (dbl_bits (neg, ex, fr)) = fr" and "drop_bit 52 (dbl_bits (neg, ex, fr)) = ex + 2 ^ 11 * of_bool neg"
proof -
  from assms have fr: "0 \<le> fr" "fr < 2 ^ 52" by (simp_all add: dbl_ok_def)
  then have "(fr + 2 ^ 52 * k) mod 2 ^ 52 = fr" for k by (simp add: mod_pos_pos_trivial)
  then show "take_bit 52 (dbl_bits (neg, ex, fr)) = fr" by (simp only: dbl_bits_def prod.case take_bit_eq_mod)
  have "(fr + 2 ^ 52 * (ex + 2 ^ 11 * of_bool neg)) div 2 ^ 52 = ex + 2 ^ 11 * of_bool neg"
    using fr by (subst div_mult_self2) (simp_all add: div_pos_pos_trivial)
  then show "drop_bit 52 (dbl_bits (neg, ex, fr)) = ex + 2 ^ 11 * of_bool neg"
    by (simp add: dbl_bits_def drop_bit_eq_div)
qed

lemma double_value_bits:
  assumes "dbl_ok x"
  shows "double_value (dbl_bits x) = Inr (dbl_value x)"
proof -
  obtain neg ex fr where x: "x = (neg, ex, fr)" by (cases x)
  note f = dbl_fields [OF assms [unfolded x], folded x]
  from assms have ex: "0 \<le> ex" "ex < 2047" by (simp_all add: x dbl_ok_def)
  have e: "take_bit 11 (drop_bit 52 (dbl_bits x)) = ex"
    using ex by (simp add: f take_bit_eq_mod mod_pos_pos_trivial)
  have "bit (dbl_bits x) 63 \<longleftrightarrow> bit (drop_bit 52 (dbl_bits x)) 11" by (simp add: bit_drop_bit_eq)
  also have "\<dots> \<longleftrightarrow> neg" using ex by (simp add: f bit_iff_odd)
  finally show ?thesis
    using ex unfolding double_value_def Let_def e f(1) by (simp add: x dbl_value_def add.commute)
qed

lemma unpack_d_bits:
  assumes "dbl_ok x"
  shows "unpack_d (le_bytes 8 (dbl_bits x)) = Inr (dbl_value x)"
proof -
  have "dbl_bits x mod 256 ^ 8 = dbl_bits x" using dbl_bits_range [OF assms] by simp
  then show ?thesis using double_value_bits [OF assms] by (simp only: unpack_d_def length_le_bytes le_nat_le_bytes simp_thms if_True)
qed

text \<open>The short form of a number: an integer of 30 bits, or a double whose lower 34 bits are 0; either over 100.\<close>

datatype rk = RkInt int | RkDbl dbl

primrec rk_word :: "rk \<Rightarrow> int" where
  "rk_word (RkInt i) = 4 * i + 2"
| "rk_word (RkDbl x) = dbl_bits x div 2 ^ 32"

primrec rk_number :: "rk \<Rightarrow> rat" where
  "rk_number (RkInt i) = of_int i"
| "rk_number (RkDbl x) = dbl_value x"

primrec rk_ok :: "rk \<Rightarrow> bool" where
  "rk_ok (RkInt i) \<longleftrightarrow> - (2 ^ 29) \<le> i \<and> i < 2 ^ 29"
| "rk_ok (RkDbl x) \<longleftrightarrow> dbl_ok x \<and> dbl_bits x mod 2 ^ 34 = 0"

definition rk_bytes :: "rk \<Rightarrow> bool \<Rightarrow> bytes" where
  "rk_bytes x hundredth = le_bytes 4 (rk_word x + of_bool hundredth)"

definition rk_value :: "rk \<Rightarrow> bool \<Rightarrow> rat" where
  "rk_value x hundredth = (if hundredth then to_double (rk_number x / 100) else rk_number x)"

lemma length_rk_bytes [simp]: "length (rk_bytes x h) = 4"
  by (simp add: rk_bytes_def)

lemma rk_flags:
  assumes "n mod 4 = of_bool h + 2 * of_bool k"
  shows "(word_of_int n :: 8 word) AND 1 \<noteq> 0 \<longleftrightarrow> h" and "(word_of_int n :: 8 word) AND 2 \<noteq> 0 \<longleftrightarrow> k"
proof -
  have "odd n = h" "odd (n div 2) = k" using assms by (cases h; cases k; simp; presburger)+
  then have "bit n 0 = h" "bit n 1 = k" by (simp_all add: bit_iff_odd)
  then show "(word_of_int n :: 8 word) AND 1 \<noteq> 0 \<longleftrightarrow> h" "(word_of_int n :: 8 word) AND 2 \<noteq> 0 \<longleftrightarrow> k"
    using and_exp_eq_0_iff_not_bit [of "word_of_int n :: 8 word" 0] and_exp_eq_0_iff_not_bit [of "word_of_int n :: 8 word" 1]
    by (simp_all add: bit_word_of_int_iff)
qed

lemma le_bytes_append: "le_bytes (j + k) n = le_bytes j n @ le_bytes k (n div 256 ^ j)"
  by (induction j arbitrary: n) (simp_all add: zdiv_zmult2_eq)

lemma le_bytes_zero: "n mod 256 ^ k = 0 \<Longrightarrow> le_bytes k n = replicate k 0"
proof (induction k arbitrary: n)
  case (Suc k)
  have "n mod (256 * 256 ^ k) = 256 * (n div 256 mod 256 ^ k) + n mod 256" by (rule zmod_zmult2_eq) simp
  moreover have "0 \<le> n div 256 mod 256 ^ k" "0 \<le> n mod 256" by simp_all
  ultimately have "n div 256 mod 256 ^ k = 0" "n mod 256 = 0" using Suc.prems by auto
  moreover from this(2) have "(word_of_int n :: 8 word) = 0" by (simp add: word_of_int_eq_0_iff dvd_eq_mod_eq_0)
  ultimately show ?case using Suc.IH by simp
qed simp

lemma drop_low_bits:
  assumes "a div 4 = b div 4" and "b mod 4 = 0"
  shows "(word_of_int a :: 8 word) AND 252 = word_of_int b"
proof (rule bit_word_eqI)
  fix n assume "n < LENGTH(8)"
  then consider "n = 0" | "n = 1" | "2 \<le> n" "n < 8" by fastforce
  then show "bit ((word_of_int a :: 8 word) AND 252) n = bit (word_of_int b :: 8 word) n"
  proof cases
    case 1
    have "even b" using assms(2) by presburger
    then have "\<not> bit b n" "\<not> bit (252 :: 8 word) n" using 1 by (simp_all add: bit_0)
    then show ?thesis by (simp only: bit_and_iff bit_word_of_int_iff simp_thms)
  next
    case 2
    have "even (b div 2)" using assms(2) by presburger
    then have "\<not> bit b n" "\<not> bit (252 :: 8 word) n" using 2 by (simp_all add: bit_iff_odd)
    then show ?thesis by (simp only: bit_and_iff bit_word_of_int_iff simp_thms)
  next
    case 3
    then obtain k where k: "n = k + 2" by (metis le_add_diff_inverse2)
    have "m div (4 * 2 ^ k) = m div 4 div 2 ^ k" for m :: int by (rule zdiv_zmult2_eq) simp
    then have "bit a n = bit b n" using assms(1) by (simp add: k bit_iff_odd)
    moreover have "bit (252 :: 8 word) n" using 3 by (auto simp: less_Suc_eq numeral_eq_Suc)
    ultimately show ?thesis using 3 by (simp add: bit_and_iff bit_word_of_int_iff)
  qed
qed

lemma unpack_RK_bytes:
  assumes "rk_ok x"
  shows "unpack_RK (rk_bytes x h) = Inr (rk_value x h)"
proof (cases x)
  case (RkInt i)
  define n where "n = 4 * i + 2 + of_bool h"
  then have b: "rk_bytes (RkInt i) h = le_bytes 4 n" by (simp add: rk_bytes_def)
  have "n mod 4 = of_bool h + 2 * of_bool True" by (cases h; simp add: n_def; presburger)
  note f = rk_flags [OF this]
  have "i32_ok n" using assms RkInt by (simp add: n_def i32_ok_def)
  then have "unpack_i32 (le_bytes 4 n) = Inr n" by (rule i32.dec_enc)
  moreover have "py_nth (le_bytes 4 n) 0 = Inr (word_of_int n)" by (simp add: py_nth_def eval_nat_numeral)
  moreover have "drop_bit 2 n = i" by (cases h) (simp_all add: n_def drop_bit_eq_div)
  ultimately show ?thesis using f by (simp add: RkInt unpack_RK_def b rk_value_def Let_def)
next
  case (RkDbl x)
  with assms have x: "dbl_ok x" "dbl_bits x mod 2 ^ 34 = 0" by simp_all
  define q where "q = dbl_bits x div 2 ^ 34"
  have b: "dbl_bits x = 2 ^ 34 * q" using x(2) mult_div_mod_eq [of "2 ^ 34" "dbl_bits x"] by (simp add: q_def)
  then have w: "rk_word (RkDbl x) = 4 * q" by simp
  let ?n = "4 * q + of_bool h"
  have "?n mod 4 = of_bool h + 2 * of_bool False" by (cases h) simp_all
  note f = rk_flags [OF this]
  have bytes: "le_bytes 4 n = word_of_int n # le_bytes 3 (n div 256)" for n by (simp add: eval_nat_numeral)
  have "m div (4 * 64) = m div 4 div 64" for m :: int by (rule zdiv_zmult2_eq) simp
  then have hi: "?n div 256 = 4 * q div 256" by (cases h) simp_all
  have "dbl_bits x mod 256 ^ 4 = 0" "dbl_bits x div 256 ^ 4 = 4 * q" using b by simp_all
  then have "le_bytes 8 (dbl_bits x) = replicate 4 0 @ le_bytes 4 (4 * q)"
    using le_bytes_append [of 4 4 "dbl_bits x"] le_bytes_zero [of "dbl_bits x" 4] by simp
  also have "\<dots> = [0, 0, 0, 0, word_of_int ?n AND 252] @ py_slice (le_bytes 4 ?n) 1 4"
    using drop_low_bits [of ?n "4 * q"] by (simp add: bytes hi py_slice_nonneg eval_nat_numeral)
  finally have "unpack_d ([0, 0, 0, 0, word_of_int ?n AND 252] @ py_slice (le_bytes 4 ?n) 1 4) = Inr (dbl_value x)"
    using unpack_d_bits [OF x(1)] by simp
  moreover have "py_nth (le_bytes 4 ?n) 0 = Inr (word_of_int ?n)" by (simp add: py_nth_def bytes)
  ultimately show ?thesis using f w by (simp add: RkDbl unpack_RK_def rk_bytes_def rk_value_def)
qed

section \<open>Texts\<close>

definition text_bytes :: "bool \<times> uname \<Rightarrow> bytes" where
  "text_bytes p = le_bytes 2 (int (length (snd p))) @ [width_flag p] @ piece_bytes p"

lemma piece_length: "length (piece_bytes p) = (if fst p then 2 * length (snd p) else length (snd p))"
  by (simp add: piece_bytes_def)

lemma unpack_len_2: "u16_ok n \<Longrightarrow> unpack_len 2 (le_bytes 2 n) = Inr n"
  by (simp add: unpack_len_def le_nat_u16)

definition counted_text :: "nat \<Rightarrow> bool \<times> uname \<Rightarrow> bytes" where
  "counted_text n p = le_bytes n (int (length (snd p))) @ [width_flag p] @ piece_bytes p"

lemma text_bytes_counted: "text_bytes = counted_text 2"
  by (simp add: fun_eq_iff text_bytes_def counted_text_def)

lemma unpack_unicode_counted:
  assumes "text_piece_ok p" and "length (snd p) < 256 ^ n" and "length pre = k"
  shows "unpack_unicode (pre @ counted_text n p @ post) (int k) n = Inr (snd p)"
proof -
  let ?data = "pre @ counted_text n p @ post" and ?n = "int (length (snd p))"
  have "py_slice ?data (int k) (int k + int n) = le_bytes n ?n"
    using assms(3) by (simp add: py_slice_nonneg counted_text_def nat_add_distrib)
  moreover have "?n < 256 ^ n" using assms(2) by (metis of_nat_less_iff of_nat_numeral of_nat_power)
  ultimately have len: "unpack_len n (py_slice ?data (int k) (int k + int n)) = Inr ?n"
    by (simp add: unpack_len_def le_nat_le_bytes)
  have flag: "py_nth ?data (int k + int n) = Inr (width_flag p)"
    using assms(3) by (simp add: py_nth_def counted_text_def nat_add_distrib nth_append)
  have off: "width_flag p AND 8 = 0" "width_flag p AND 4 = 0" by (simp_all add: width_flag_def)
  have rest: "py_slice ?data (int k + int n + 1) (int k + int n + 1 + int (length (piece_bytes p))) = piece_bytes p"
    using assms(3) by (simp add: py_slice_nonneg counted_text_def nat_add_distrib)
  have "unpack_unicode ?data (int k) n =
    (if ?n = 0 then Inr [] else if fst p then utf16_name (piece_bytes p) else Inr (latin_1 (piece_bytes p)))"
    using rest by (simp add: unpack_unicode_def len flag off Let_def length_piece_bytes split: if_splits)
  then show ?thesis using piece_read [OF assms(1)] by (cases "fst p") auto
qed

lemma unpack_unicode_at:
  assumes "text_piece_ok p" and "length (snd p) < 65536" and "length pre = k"
  shows "unpack_unicode (pre @ text_bytes p) (int k) 2 = Inr (snd p)"
  using unpack_unicode_counted [OF assms(1) _ assms(3), of 2 "[]"] assms(2) by (simp add: text_bytes_counted)

section \<open>Records of one cell\<close>

lemma place_fields_read:
  assumes "place_ok (r, c, xf)"
  shows "unpack_fmt [FH, FH, FH] (py_slice (place_bytes (r, c, xf) @ bs) 0 6) = Inr [int r, int c, xf]"
  using place_read [OF assms] by (simp add: place_slice)

lemma place_more:
  assumes "place_ok (r, c, xf)" and "length pad = k" and "fmt_ok gs"
  shows "unpack_fmt ([FH, FH, FH] @ replicate k FX @ map fst gs) (place_bytes (r, c, xf) @ pad @ fmt_bytes gs)
    = Inr ([int r, int c, xf] @ map snd gs)"
  using unpack_fmt_padded [OF u16_fields_ok assms(3,2), of "[int r, int c, xf]"] assms(1)
  by (simp add: place_fields place_ok_def o_def)

lemma number_record_reads:
  assumes "place_ok (r, c, xf)" and "dbl_ok x"
  shows "number_record env (place_bytes (r, c, xf) @ le_bytes 8 (dbl_bits x) @ rubbish) st
    = put_in env (int r) (int c) None (PFloat (dbl_value x)) xf st"
proof -
  let ?d = "place_bytes (r, c, xf) @ le_bytes 8 (dbl_bits x)"
  have d: "py_slice (place_bytes (r, c, xf) @ le_bytes 8 (dbl_bits x) @ rubbish) 0 14 = ?d"
    by (simp add: py_slice_nonneg)
  have "unpack_fmt ([FH, FH, FH] @ replicate 8 FX) ?d = Inr [int r, int c, xf]"
    using place_more [OF assms(1), of "le_bytes 8 (dbl_bits x)" 8 "[]"] by (simp add: fmt_ok_def)
  moreover have "unpack_d (drop 6 ?d) = Inr (dbl_value x)" using unpack_d_bits [OF assms(2)] by simp
  ultimately show ?thesis by (simp add: number_record_def d Let_def)
qed

lemma labelsst_record_reads:
  assumes "place_ok (r, c, xf)" and "i < length (sharedstrings env)" and "int i < 2 ^ 31"
    and "put_in env (int r) (int c) (Some XL_CELL_TEXT) (text_value (sharedstrings env ! i)) xf st = Inr st'"
  shows "\<exists>st''. labelsst_record env (place_bytes (r, c, xf) @ le_bytes 4 (int i)) st = Inr st'' \<and>
    cells st'' = cells st' \<and> merged_cells st'' = merged_cells st'"
proof -
  have "fmt_ok [(FSI, int i)]" using assms(3) by (simp add: fmt_ok_def code_ok_def i32_ok_def)
  from place_more [OF assms(1) _ this, of "[]" 0]
  have u: "unpack_fmt [FH, FH, FH, FSI] (place_bytes (r, c, xf) @ le_bytes 4 (int i)) = Inr [int r, int c, xf, int i]" by simp
  have "py_nth (sharedstrings env) (int i) = Inr (sharedstrings env ! i)" using assms(2) by (simp add: py_nth_def)
  then show ?thesis using assms(4) by (auto simp: labelsst_record_def u Let_def split: option.split list.split)
qed

lemma label_record_reads:
  assumes "place_ok (r, c, xf)" and "text_piece_ok p" and "length (snd p) < 65536" and "80 \<le> bv env"
  shows "label_record env (place_bytes (r, c, xf) @ text_bytes p) st
    = put_in env (int r) (int c) (Some XL_CELL_TEXT) (text_value (snd p)) xf st"
  using unpack_unicode_at [OF assms(2,3), of "place_bytes (r, c, xf)" 6] assms(4) place_fields_read [OF assms(1)]
  by (simp add: label_record_def BIFF_FIRST_UNICODE_def)

lemma rk_record_reads:
  assumes "place_ok (r, c, xf)" and "rk_ok x"
  shows "rk_record env (place_bytes (r, c, xf) @ rk_bytes x h) st = put_in env (int r) (int c) None (PFloat (rk_value x h)) xf st"
  using unpack_RK_bytes [OF assms(2)] place_fields_read [OF assms(1)] by (simp add: rk_record_def place_rest)

definition err_type :: "bool \<Rightarrow> nat" where
  "err_type e = (if e then XL_CELL_ERROR else XL_CELL_BOOLEAN)"

lemma boolerr_record_reads:
  assumes "place_ok (r, c, xf)" and "byte_ok v"
  shows "boolerr_record env (place_bytes (r, c, xf) @ fmt_bytes [(FB, v), (FB, of_bool e)]) st
    = put_in env (int r) (int c) (Some (err_type e)) (PInt v) xf st"
proof -
  have "fmt_ok [(FB, v), (FB, of_bool e)]" using assms(2) by (cases e) (simp_all add: fmt_ok_def code_ok_def byte_ok_def)
  from place_more [OF assms(1) _ this, of "[]" 0]
  have u: "unpack_fmt [FH, FH, FH, FB, FB] (place_bytes (r, c, xf) @ fmt_bytes [(FB, v), (FB, of_bool e)])
      = Inr [int r, int c, xf, v, of_bool e]" by simp
  have s: "py_slice (place_bytes (r, c, xf) @ fmt_bytes [(FB, v), (FB, of_bool e)]) 0 8
      = place_bytes (r, c, xf) @ fmt_bytes [(FB, v), (FB, of_bool e)]"
    by (simp add: py_slice_nonneg)
  show ?thesis using s u by (cases e) (simp_all add: boolerr_record_def py_nth_def err_type_def del: fmt_bytes.simps)
qed

lemma blank_record_reads:
  assumes "place_ok (r, c, xf)"
  shows "blank_record env (place_bytes (r, c, xf)) st =
    (if formatting_info (conf env) then put_in env (int r) (int c) (Some XL_CELL_BLANK) no_value xf st else Inr st)"
  using place_fields_read [OF assms, of "[]"] by (simp add: blank_record_def)

section \<open>Records of several cells\<close>

lemma drop_entries:
  assumes "\<And>x. x \<in> set xs \<Longrightarrow> length (f x) = k" and "i < length xs"
  shows "drop (k * i) (concat (map f xs) @ r) = f (xs ! i) @ concat (map f (drop (Suc i) xs)) @ r"
  using assms
proof (induction xs arbitrary: i)
  case (Cons x xs)
  then show ?case by (cases i) simp_all
qed simp

definition rk_entry :: "int \<times> rk \<times> bool \<Rightarrow> bytes" where
  "rk_entry = (\<lambda>(xf, x, h). le_bytes 2 xf @ rk_bytes x h)"

definition mulrk_bytes :: "nat \<Rightarrow> nat \<Rightarrow> (int \<times> rk \<times> bool) list \<Rightarrow> bytes" where
  "mulrk_bytes r c xs =
     HH_bytes (int r, int c) @ concat (map rk_entry xs) @ le_bytes 2 (int c + int (length xs) - 1)"

definition rk_cells :: "(int \<times> rk \<times> bool) list \<Rightarrow> (nat option \<times> pyval \<times> int) list" where
  "rk_cells = map (\<lambda>(xf, x, h). (None, PFloat (rk_value x h), xf))"

lemma last_bytes: "slice_opt (bs @ le_bytes 2 n) (- 2) None = le_bytes 2 n"
proof -
  have "slice_bound (length (bs @ le_bytes 2 n)) (- 2) = length bs" by (simp add: slice_bound_def)
  then show ?thesis by (simp add: slice_opt_def)
qed

lemma mulrk_record_reads:
  assumes "\<not> ragged env" and "HH_ok (int r, int c)" and "u16_ok (int c + int (length xs) - 1)"
    and "list_all (\<lambda>(xf, x, h). u16_ok xf \<and> rk_ok x) xs"
  shows "mulrk_record env (mulrk_bytes r c xs) st =
    rbind (put_all (conf env) (row_puts r c (rk_cells xs)) (cells st)) (\<lambda>g. Inr (st\<lparr>cells := g\<rparr>))"
proof -
  let ?data = "mulrk_bytes r c xs"
  let ?tail = "le_bytes 2 (int c + int (length xs) - 1)"
  have w: "length (HH_bytes p) = 4" for p by (simp add: HH_bytes_def)
  have "py_slice ?data 0 4 = HH_bytes (int r, int c)" by (simp add: py_slice_nonneg mulrk_bytes_def w)
  then have hh: "unpack_HH (py_slice ?data 0 4) = Inr (int r, int c)" using HH.dec_enc [OF assms(2)] by simp
  have "slice_opt ?data (- 2) None = ?tail"
    using last_bytes [of "HH_bytes (int r, int c) @ concat (map rk_entry xs)"] by (simp add: mulrk_bytes_def)
  then have la: "unpack_u16 (slice_opt ?data (- 2) None) = Inr (int c + int (length xs) - 1)"
    using u16.dec_enc [OF assms(3)] by simp
  define f where "f = (\<lambda>colx st. let pos = 4 + 6 * (colx - int c) in
    rbind (unpack_u16 (py_slice ?data pos (pos + 2))) (\<lambda>xf_index.
    rbind (unpack_RK (py_slice ?data (pos + 2) (pos + 6))) (\<lambda>d. put_in env (int r) colx None (PFloat d) xf_index st)))"
  have f: "f (int (c + i)) st = (case rk_cells xs ! i of (t, v, xf) \<Rightarrow> put_in env (int r) (int (c + i)) t v xf st)"
    if i: "i < length xs" for i st
  proof -
    obtain xf x h where x: "xs ! i = (xf, x, h)" by (cases "xs ! i") auto
    with assms(4) i have ok: "u16_ok xf" "rk_ok x" by (auto simp: list_all_length)
    have "length (rk_entry y) = 6" for y by (cases y) (simp add: rk_entry_def)
    then have d: "drop (6 * i) (concat (map rk_entry xs) @ ?tail) = le_bytes 2 xf @ rk_bytes x h @ concat (map rk_entry (drop (Suc i) xs)) @ ?tail"
      using drop_entries [of xs rk_entry 6 i ?tail] i x by (simp add: rk_entry_def)
    let ?rest = "concat (map rk_entry (drop (Suc i) xs)) @ ?tail"
    have "drop (4 + 6 * i) ?data = drop (6 * i) (concat (map rk_entry xs) @ ?tail)"
      by (simp add: mulrk_bytes_def w)
    then have at: "drop (4 + 6 * i) ?data = le_bytes 2 xf @ rk_bytes x h @ ?rest" by (simp only: d)
    have "drop (6 + 6 * i) ?data = drop 2 (drop (4 + 6 * i) ?data)" by (simp add: add.commute)
    then have at2: "drop (6 + 6 * i) ?data = rk_bytes x h @ ?rest" by (simp add: at)
    have n: "nat (4 + 6 * int i) = 4 + 6 * i" "nat (6 + 6 * int i) = 6 + 6 * i" by (simp_all add: nat_add_distrib nat_mult_distrib)
    have "py_slice ?data (4 + 6 * int i) (4 + 6 * int i + 2) = le_bytes 2 xf"
      by (simp add: py_slice_nonneg n at)
    moreover have "py_slice ?data (4 + 6 * int i + 2) (4 + 6 * int i + 6) = rk_bytes x h"
      by (simp add: py_slice_nonneg n at2)
    ultimately show ?thesis
      using u16.dec_enc [OF ok(1)] unpack_RK_bytes [OF ok(2)] i x by (simp add: f_def rk_cells_def Let_def)
  qed
  have "mulrk_record env ?data st = rfold f [int c..int c + int (length xs) - 1] st"
    by (simp add: mulrk_record_def hh la f_def)
  also have "\<dots> = rfold f (map int [c..<c + length (rk_cells xs)]) st" by (simp only: int_upto rk_cells_def length_map)
  also have "\<dots> = rbind (put_all (conf env) (row_puts r c (rk_cells xs)) (cells st)) (\<lambda>g. Inr (st\<lparr>cells := g\<rparr>))"
    by (rule row_loop [OF assms(1)]) (rule f, simp only: rk_cells_def length_map)
  finally show ?thesis .
qed

definition mulblank_items :: "nat \<Rightarrow> nat \<Rightarrow> int list \<Rightarrow> int list" where
  "mulblank_items r c xfs = [int r, int c] @ xfs @ [int c + int (length xfs) - 1]"

definition mulblank_bytes :: "nat \<Rightarrow> nat \<Rightarrow> int list \<Rightarrow> bytes" where
  "mulblank_bytes r c xfs = concat (map (le_bytes 2) (mulblank_items r c xfs))"

definition blank_cells :: "int list \<Rightarrow> (nat option \<times> pyval \<times> int) list" where
  "blank_cells = map (\<lambda>xf. (Some XL_CELL_BLANK, no_value, xf))"

lemma length_u16_bytes: "length (concat (map (le_bytes 2) ns)) = 2 * length ns"
  by (induction ns) simp_all

lemma unpack_H_bytes: "list_all u16_ok ns \<Longrightarrow> unpack_H (length ns) (concat (map (le_bytes 2) ns)) = Inr ns"
proof -
  assume "list_all u16_ok ns"
  then have "map (le_nat \<circ> le_bytes 2) ns = ns" by (induction ns) (simp_all add: le_nat_u16)
  then show ?thesis by (simp add: unpack_H_def chunks_concat length_u16_bytes)
qed

lemma mulblank_record_reads:
  assumes "\<not> ragged env" and "list_all u16_ok (mulblank_items r c xfs)"
  shows "mulblank_record env (int (length (mulblank_bytes r c xfs))) (mulblank_bytes r c xfs) st =
    (if formatting_info (conf env)
     then rbind (put_all (conf env) (row_puts r c (blank_cells xfs)) (cells st)) (\<lambda>g. Inr (st\<lparr>cells := g\<rparr>))
     else Inr st)"
proof (cases "formatting_info (conf env)")
  case True
  let ?items = "mulblank_items r c xfs"
  have len: "length (mulblank_bytes r c xfs) = 2 * length ?items"
    unfolding mulblank_bytes_def by (rule length_u16_bytes)
  have n: "drop_bit 1 (int (length (mulblank_bytes r c xfs))) = int (length ?items)" by (simp add: len drop_bit_eq_div)
  have u: "unpack_H (length ?items) (mulblank_bytes r c xfs) = Inr ?items"
    unfolding mulblank_bytes_def by (rule unpack_H_bytes [OF assms(2)])
  define f where "f = (\<lambda>colx st. rbind (py_nth ?items (2 + (colx - int c))) (\<lambda>xf_index.
    put_in env (int r) colx (Some XL_CELL_BLANK) no_value xf_index st))"
  have f: "f (int (c + i)) st = (case blank_cells xfs ! i of (t, v, xf) \<Rightarrow> put_in env (int r) (int (c + i)) t v xf st)"
    if "i < length xfs" for i st
  proof -
    have "nat (2 + int i) = i + 2" by simp
    then have "py_nth ?items (2 + int i) = Inr (xfs ! i)"
      using that by (simp add: py_nth_def mulblank_items_def nth_append)
    then show ?thesis using that by (simp add: f_def blank_cells_def)
  qed
  have "mulblank_record env (int (length (mulblank_bytes r c xfs))) (mulblank_bytes r c xfs) st
      = rfold f [int c..int c + int (length xfs) - 1] st"
    using True unfolding mulblank_record_def Let_def n nat_int u rbind_Inr by (simp add: f_def mulblank_items_def)
  also have "\<dots> = rfold f (map int [c..<c + length (blank_cells xfs)]) st" by (simp only: int_upto blank_cells_def length_map)
  also have "\<dots> = rbind (put_all (conf env) (row_puts r c (blank_cells xfs)) (cells st)) (\<lambda>g. Inr (st\<lparr>cells := g\<rparr>))"
    by (rule row_loop [OF assms(1)]) (rule f, simp only: blank_cells_def length_map)
  finally show ?thesis using True by simp
qed (simp add: mulblank_record_def)

section \<open>Results of formulas\<close>

lemma record_at:
  assumes "0 \<le> pos" and "drop (nat pos) m = record_bytes code data @ r" and "u16_ok code" and "length data < 65536"
  shows "get_record_parts m pos = Inr ((code, int (length data), data), pos + int (length (record_bytes code data)))"
    and "drop (nat (pos + int (length (record_bytes code data)))) m = r"
proof -
  have ok: "HH_ok (code, int (length data))" using assms(3,4) by (simp add: HH_ok_def u16_ok_def)
  have h: "drop (nat pos) m = HH_bytes (code, int (length data)) @ (data @ r)"
    using assms(2) by (simp add: record_bytes_def)
  have "drop (nat (pos + 4)) m = data @ r" using HH.rest_at [OF ok assms(1) h] by simp
  then have "py_slice m (pos + 4) (pos + 4 + int (length data)) = data"
    using assms(1) by (simp add: py_slice_nonneg)
  with HH.read_at [OF ok assms(1) h]
  show "get_record_parts m pos = Inr ((code, int (length data), data), pos + int (length (record_bytes code data)))"
    by (simp add: get_record_parts_def Let_def)
  have "nat (pos + int (length (record_bytes code data))) = nat pos + length (record_bytes code data)" using assms(1) by simp
  then have "drop (nat (pos + int (length (record_bytes code data)))) m = drop (length (record_bytes code data)) (drop (nat pos) m)"
    by (simp only: drop_drop add.commute)
  then show "drop (nat (pos + int (length (record_bytes code data)))) m = r" by (simp only: assms(2) append_eq_conv_conj) simp
qed

definition formula_bytes :: "place \<Rightarrow> bytes \<Rightarrow> int \<Rightarrow> bytes \<Rightarrow> bytes" where
  "formula_bytes p result flags tokens = place_bytes p @ result @ le_bytes 2 flags @ tokens"

lemma formula_fields:
  assumes "place_ok (r, c, xf)" and "length result = 8" and "u16_ok flags"
  shows "unpack_fmt ([FH, FH, FH] @ replicate 8 FX @ [FH]) (py_slice (formula_bytes (r, c, xf) result flags tokens) 0 16)
      = Inr [int r, int c, xf, flags]"
    and "take 8 (drop 6 (py_slice (formula_bytes (r, c, xf) result flags tokens) 0 16)) = result"
proof -
  have s: "py_slice (formula_bytes (r, c, xf) result flags tokens) 0 16 = place_bytes (r, c, xf) @ result @ le_bytes 2 flags"
    using assms(2) by (simp add: py_slice_nonneg formula_bytes_def)
  have "fmt_ok [(FH, flags)]" using u16_fields_ok [of "[flags]"] assms(3) by simp
  from place_more [OF assms(1,2) this]
  show "unpack_fmt ([FH, FH, FH] @ replicate 8 FX @ [FH]) (py_slice (formula_bytes (r, c, xf) result flags tokens) 0 16)
      = Inr [int r, int c, xf, flags]" by (simp add: s)
  show "take 8 (drop 6 (py_slice (formula_bytes (r, c, xf) result flags tokens) 0 16)) = result"
    using assms(2) by (simp add: s)
qed

lemma formula_record_run:
  assumes "30 \<le> bv env" and "place_ok (r, c, xf)" and "length result = 8" and "u16_ok flags"
  shows "formula_record env (formula_bytes (r, c, xf) result flags tokens) pos st =
    (if drop 6 result = [0xFF, 0xFF] \<and> result ! 0 = 0 then formula_text env (int r) (int c) xf pos st
     else rbind (if drop 6 result = [0xFF, 0xFF] then formula_special env (int r) (int c) xf result st
       else formula_number env (int r) (int c) xf result st) (\<lambda>st. Inr (st, pos)))"
proof -
  have "\<not> bv env < 30" using assms(1) by simp
  then show ?thesis
    unfolding formula_record_def Let_def formula_fields [OF assms(2-4)] by simp
qed

lemma finite_not_special:
  assumes "dbl_ok x"
  shows "drop 6 (le_bytes 8 (dbl_bits x)) \<noteq> [0xFF, 0xFF]"
proof
  obtain neg ex fr where x: "x = (neg, ex, fr)" by (cases x)
  assume "drop 6 (le_bytes 8 (dbl_bits x)) = [0xFF, 0xFF]"
  moreover have "le_bytes 8 (dbl_bits x) = le_bytes 6 (dbl_bits x) @ le_bytes 2 (dbl_bits x div 256 ^ 6)"
    using le_bytes_append [of 6 2 "dbl_bits x"] by simp
  ultimately have "le_nat (le_bytes 2 (dbl_bits x div 256 ^ 6)) = 65535" by simp
  then have m: "dbl_bits x div 2 ^ 48 mod 65536 = 65535" by (simp add: le_nat_le_bytes)
  have "dbl_bits x div 2 ^ 48 < 65536"
    using zdiv_mono1 [of "dbl_bits x" "2 ^ 64 - 1" "2 ^ 48"] dbl_bits_range [OF assms] by simp
  moreover have "0 \<le> dbl_bits x div 2 ^ 48" using dbl_bits_range [OF assms] by (simp add: pos_imp_zdiv_nonneg_iff)
  ultimately have "dbl_bits x div 2 ^ 48 = 65535" using m by simp
  moreover have "dbl_bits x div (2 ^ 48 * 16) = dbl_bits x div 2 ^ 48 div 16" by (rule zdiv_zmult2_eq) simp
  ultimately have "dbl_bits x div 2 ^ 52 = 4095" by simp
  moreover have "dbl_bits x div 2 ^ 52 = ex + 2 ^ 11 * of_bool neg"
    using dbl_fields(2) [OF assms [unfolded x]] by (simp add: x drop_bit_eq_div)
  ultimately show False using assms by (cases neg) (simp_all add: x dbl_ok_def)
qed

text \<open>A text in pieces, each in the width of its own flag.\<close>

definition chunk_bytes :: "bool \<times> uname \<Rightarrow> bytes" where
  "chunk_bytes p = [width_flag p] @ piece_bytes p"

lemma chunk_read:
  assumes "text_piece_ok p" and "80 \<le> bv env"
  shows "(if 80 \<le> bv env
      then rbind (py_nth (pre @ chunk_bytes p) (int (length pre))) (\<lambda>flag.
        let rest = slice_opt (pre @ chunk_bytes p) (int (length pre) + 1) None in
        if flag AND 1 \<noteq> 0 then utf16_name rest else Inr (latin_1 rest))
      else decode env (slice_opt (pre @ chunk_bytes p) (int (length pre)) None)) = Inr (snd p)"
proof -
  have "slice_bound (length (pre @ chunk_bytes p)) (int (length pre) + 1) = length pre + 1"
    by (simp add: slice_bound_def chunk_bytes_def nat_add_distrib)
  then have "slice_opt (pre @ chunk_bytes p) (int (length pre) + 1) None = piece_bytes p"
    by (simp add: slice_opt_def chunk_bytes_def)
  moreover have "py_nth (pre @ chunk_bytes p) (int (length pre)) = Inr (width_flag p)"
    by (simp add: py_nth_def chunk_bytes_def)
  ultimately show ?thesis using piece_read [OF assms(1)] assms(2) by (simp split: if_splits)
qed

lemma string_chunk_step:
  assumes "text_piece_ok p" and "80 \<le> bv env"
  shows "string_chunks env n (pre @ chunk_bytes p) (int (length pre)) pos result =
    (if int (length (result @ snd p)) = n then Inr (result @ snd p, pos)
     else if n < int (length (result @ snd p)) then Inl XLRDError
     else rbind (get_record_parts (mem env) pos) (\<lambda>(parts, pos).
       case parts of (rc, _, data) \<Rightarrow>
         if rc \<noteq> XL_CONTINUE then Inl XLRDError else string_chunks env n data 0 pos (result @ snd p)))"
  by (subst string_chunks.simps) (simp only: chunk_read [OF assms, unfolded Let_def] rbind_Inr Let_def)

definition text_of :: "(bool \<times> uname) list \<Rightarrow> uname" where
  "text_of ps = concat (map snd ps)"

definition chunk_records :: "(bool \<times> uname) list \<Rightarrow> bytes" where
  "chunk_records ps = continued (map chunk_bytes ps)"

lemma string_chunks_reads:
  assumes "80 \<le> bv env" and "ps \<noteq> []" and "list_all text_piece_ok ps" and "tl ps = [] \<or> snd (last ps) \<noteq> []"
    and "list_all (\<lambda>p. length (chunk_bytes p) < 65536) ps"
    and "0 \<le> pos" and "drop (nat pos) (mem env) = chunk_records (tl ps) @ r"
  shows "string_chunks env (int (length (result @ text_of ps))) (pre @ chunk_bytes (hd ps)) (int (length pre)) pos result
    = Inr (result @ text_of ps, pos + int (length (chunk_records (tl ps))))"
  using assms(2-7)
proof (induction ps arbitrary: pre pos result rule: list_nonempty_induct)
  case (single p)
  show ?case
    using string_chunk_step [OF _ assms(1), of p "int (length (result @ text_of [p]))" pre pos result] single.prems(1)
    by (simp add: text_of_def chunk_records_def continued_def)
next
  case (cons p ps)
  then obtain q qs where ps: "ps = q # qs" by (cases ps) auto
  let ?n = "int (length (result @ text_of (p # ps)))" and ?rec = "record_bytes XL_CONTINUE (chunk_bytes q)"
  have "snd (last ps) \<noteq> []" using cons.prems(2) ps by simp
  moreover have "last ps \<in> set ps" by (rule last_in_set) (simp add: ps)
  ultimately have ne: "text_of ps \<noteq> []" by (auto simp: text_of_def)
  have code: "u16_ok XL_CONTINUE" by (simp add: u16_ok_def XL_CONTINUE_def)
  have h: "drop (nat pos) (mem env) = ?rec @ (chunk_records qs @ r)"
    using cons.prems(5) by (simp add: ps chunk_records_def continued_def)
  have len: "length (chunk_bytes q) < 65536" using cons.prems(3) by (simp add: ps)
  note g = record_at [OF cons.prems(4) h code len]
  have IH: "string_chunks env (int (length ((result @ snd p) @ text_of ps))) ([] @ chunk_bytes q) (int (length [])) (pos + int (length ?rec)) (result @ snd p)
      = Inr ((result @ snd p) @ text_of ps, pos + int (length ?rec) + int (length (chunk_records qs)))"
    using cons.IH [of "pos + int (length ?rec)" "result @ snd p" "[]"] cons.prems g(2) by (simp add: ps)
  have c: "int (length (result @ snd p)) \<noteq> ?n" "\<not> ?n < int (length (result @ snd p))" using ne by (simp_all add: text_of_def)
  have t: "result @ text_of (p # ps) = (result @ snd p) @ text_of ps" by (simp add: text_of_def)
  have e: "pos + int (length ?rec) + int (length (chunk_records qs)) = pos + int (length (chunk_records (tl (p # ps))))"
    by (simp add: ps chunk_records_def continued_def)
  have p: "text_piece_ok p" using cons.prems(1) by simp
  show ?case
    using IH unfolding list.sel(1) string_chunk_step [OF p assms(1)] g(1) rbind_Inr prod.case
    by (simp only: c [unfolded t] if_False simp_thms list.size list.sel append_Nil semiring_1_class.of_nat_0 t e)
qed

section \<open>Records in the stream\<close>

text \<open>
  What it means that some bytes of the stream put some cells: read at their place, they are one step of the
  reader, which moves behind them, changes the cells as putting these cells does, and no merged range.
\<close>

definition reads_as :: "sheet_env \<Rightarrow> bytes \<Rightarrow> put list \<Rightarrow> bool" where
  "reads_as env bs puts \<longleftrightarrow> (\<forall>pos r (st :: sheet) g. 0 \<le> pos \<longrightarrow> drop (nat pos) (mem env) = bs @ r \<longrightarrow>
     put_all (conf env) puts (cells st) = Inr g \<longrightarrow>
     (\<exists>rc data_len data p st'. get_record_parts (mem env) pos = Inr ((rc, data_len, data), p) \<and> rc \<noteq> XL_EOF \<and>
       sheet_record env rc data_len data p st = Inr (st', pos + int (length bs)) \<and>
       cells st' = g \<and> merged_cells st' = merged_cells st))"

text \<open>The state after a record that only puts cells.\<close>

definition enters :: "(sheet \<Rightarrow> sheet res) \<Rightarrow> sheet_env \<Rightarrow> put list \<Rightarrow> bool" where
  "enters step env puts \<longleftrightarrow> (\<forall>(st :: sheet) g. put_all (conf env) puts (cells st) = Inr g \<longrightarrow>
     (\<exists>st'. step st = Inr st' \<and> cells st' = g \<and> merged_cells st' = merged_cells st))"

lemma entersI:
  "(\<And>st. step st = rbind (put_all (conf env) puts (cells st)) (\<lambda>g. Inr (st\<lparr>cells := g\<rparr>))) \<Longrightarrow> enters step env puts"
  by (auto simp: enters_def)

lemma enters_put:
  assumes "\<not> ragged env" and "\<And>st. step st = put_in env (int r) (int c) t v xf st"
  shows "enters step env [(r, c, t, v, xf)]"
  by (rule entersI) (simp add: assms put_in_run)

lemma enters_nothing: "(\<And>st. step st = Inr st) \<Longrightarrow> enters step env []"
  by (simp add: enters_def put_all_def)

text \<open>A record that \<open>plain_record\<close> handles.\<close>

definition plain_code :: "int \<Rightarrow> bool" where
  "plain_code rc \<longleftrightarrow> u16_ok rc \<and> rc \<noteq> XL_EOF \<and> rc \<notin> set XL_FORMULA_OPCODES \<and> rc \<notin> set bofcodes"

lemma plain_reads_as:
  assumes "plain_code rc" and "length data < 65536" and "enters (plain_record env rc (int (length data)) data) env puts"
  shows "reads_as env (record_bytes rc data) puts"
  unfolding reads_as_def
proof (intro allI impI)
  fix pos r and st :: sheet and g
  assume "0 \<le> pos" and h: "drop (nat pos) (mem env) = record_bytes rc data @ r" and g: "put_all (conf env) puts (cells st) = Inr g"
  note at = record_at(1) [OF this(1,2) _ assms(2)]
  obtain st' where "plain_record env rc (int (length data)) data st = Inr st'" "cells st' = g" "merged_cells st' = merged_cells st"
    using assms(3) g unfolding enters_def by blast
  then show "\<exists>rc' data_len data' p st'. get_record_parts (mem env) pos = Inr ((rc', data_len, data'), p) \<and> rc' \<noteq> XL_EOF \<and>
       sheet_record env rc' data_len data' p st = Inr (st', pos + int (length (record_bytes rc data))) \<and>
       cells st' = g \<and> merged_cells st' = merged_cells st"
    using assms(1) at by (auto simp: plain_code_def sheet_record_def)
qed

text \<open>A formula whose result is in its own record.\<close>

lemma formula_code: "u16_ok 6" "6 \<noteq> XL_EOF" "6 \<in> set XL_FORMULA_OPCODES"
  by (simp_all add: u16_ok_def record_codes)

lemma formula_number_reads_as:
  assumes "80 \<le> bv env" and "\<not> ragged env" and "place_ok (r, c, xf)" and "dbl_ok x" and "u16_ok flags"
    and "length tokens < 60000"
  shows "reads_as env (record_bytes 6 (formula_bytes (r, c, xf) (le_bytes 8 (dbl_bits x)) flags tokens))
    [(r, c, None, PFloat (dbl_value x), xf)]"
  unfolding reads_as_def
proof (intro allI impI)
  let ?data = "formula_bytes (r, c, xf) (le_bytes 8 (dbl_bits x)) flags tokens"
  fix pos rest and st :: sheet and g
  assume "0 \<le> pos" and h: "drop (nat pos) (mem env) = record_bytes 6 ?data @ rest"
    and g: "put_all (conf env) [(r, c, None, PFloat (dbl_value x), xf)] (cells st) = Inr g"
  have "length ?data < 65536" using assms(6) by (simp add: formula_bytes_def)
  from record_at(1) [OF \<open>0 \<le> pos\<close> h formula_code(1) this]
  have at: "get_record_parts (mem env) pos = Inr ((6, int (length ?data), ?data), pos + int (length (record_bytes 6 ?data)))" .
  have "formula_record env ?data p st = Inr (st\<lparr>cells := g\<rparr>, p)" for p
    using formula_record_run [OF _ assms(3) _ assms(5), of env "le_bytes 8 (dbl_bits x)" tokens p st] assms(1)
      finite_not_special [OF assms(4)] unpack_d_bits [OF assms(4)] g
    by (simp add: formula_number_def put_in_run [OF assms(2)])
  then show "\<exists>rc data_len data p st'. get_record_parts (mem env) pos = Inr ((rc, data_len, data), p) \<and> rc \<noteq> XL_EOF \<and>
       sheet_record env rc data_len data p st = Inr (st', pos + int (length (record_bytes 6 ?data))) \<and>
       cells st' = g \<and> merged_cells st' = merged_cells st"
    using at formula_code by (auto simp: sheet_record_def)
qed

text \<open>A formula whose result is a text: the text is in the next record but perhaps one.\<close>

definition text_result :: bytes where
  "text_result = [0, 0, 0, 0, 0, 0, 0xFF, 0xFF]"

definition extra_ok :: "(int \<times> bytes) option \<Rightarrow> bool" where
  "extra_ok e \<longleftrightarrow> (case e of None \<Rightarrow> True
     | Some (code, d) \<Rightarrow> code \<in> {XL_TABLEOP, XL_TABLEOP2, XL_ARRAY2, XL_TABLEOP_B2} \<and> length d < 65536)"

definition extra_bytes :: "(int \<times> bytes) option \<Rightarrow> bytes" where
  "extra_bytes e = (case e of None \<Rightarrow> [] | Some (code, d) \<Rightarrow> record_bytes code d)"

definition string_data :: "(bool \<times> uname) list \<Rightarrow> bytes" where
  "string_data ps = le_bytes 2 (int (length (text_of ps))) @ chunk_bytes (hd ps)"

lemma formula_string_reads:
  assumes "extra_ok e" and "0 \<le> pos" and "drop (nat pos) (mem env) = extra_bytes e @ record_bytes XL_STRING d @ r"
    and "length d < 65536"
  shows "formula_string env pos = Inr (d, pos + int (length (extra_bytes e @ record_bytes XL_STRING d)))"
    and "drop (nat (pos + int (length (extra_bytes e @ record_bytes XL_STRING d)))) (mem env) = r"
proof -
  have code: "u16_ok XL_STRING" by (simp add: u16_ok_def record_codes)
  have "formula_string env pos = Inr (d, pos + int (length (extra_bytes e @ record_bytes XL_STRING d)))
      \<and> drop (nat (pos + int (length (extra_bytes e @ record_bytes XL_STRING d)))) (mem env) = r"
  proof (cases e)
    case None
    then have "drop (nat pos) (mem env) = record_bytes XL_STRING d @ r" using assms(3) by (simp add: extra_bytes_def)
    from record_at [OF assms(2) this code assms(4)] show ?thesis
      by (simp add: None extra_bytes_def formula_string_def)
  next
    case (Some x)
    then obtain c b where e: "e = Some (c, b)" by (cases x) auto
    let ?p = "pos + int (length (record_bytes c b))"
    have c: "c \<in> {XL_TABLEOP, XL_TABLEOP2, XL_ARRAY2, XL_TABLEOP_B2}" "length b < 65536" using assms(1) by (simp_all add: extra_ok_def e)
    then have "u16_ok c" by (auto simp: u16_ok_def record_codes)
    moreover have "drop (nat pos) (mem env) = record_bytes c b @ (record_bytes XL_STRING d @ r)"
      using assms(3) by (simp add: extra_bytes_def e)
    ultimately have at: "get_record_parts (mem env) pos = Inr ((c, int (length b), b), ?p)"
      "drop (nat ?p) (mem env) = record_bytes XL_STRING d @ r"
      using record_at [OF assms(2) _ _ c(2)] by auto
    have "0 \<le> ?p" using assms(2) by simp
    note at2 = record_at [OF this at(2) code assms(4)]
    have "(c = XL_STRING \<or> c = XL_STRING_B2) = False" "(c = XL_ARRAY) = False" "(c = XL_SHRFMLA) = False" "(c \<notin> set XL_SHRFMLA_ETC_ETC) = False"
      using c(1) by (auto simp: record_codes)
    then have "formula_string env pos = Inr (d, ?p + int (length (record_bytes XL_STRING d)))"
      unfolding formula_string_def at(1) rbind_Inr prod.case by (simp only: if_False rbind_Inr at2(1) prod.case simp_thms)
    then show ?thesis using at2(2) by (simp add: e extra_bytes_def add.assoc)
  qed
  then show "formula_string env pos = Inr (d, pos + int (length (extra_bytes e @ record_bytes XL_STRING d)))"
    and "drop (nat (pos + int (length (extra_bytes e @ record_bytes XL_STRING d)))) (mem env) = r" by auto
qed

definition pieces_ok :: "(bool \<times> uname) list \<Rightarrow> bool" where
  "pieces_ok ps \<longleftrightarrow> ps \<noteq> [] \<and> list_all text_piece_ok ps \<and> (tl ps = [] \<or> snd (last ps) \<noteq> []) \<and> length (text_of ps) < 65536
     \<and> list_all (\<lambda>p. length (chunk_bytes p) < 65534) ps"

lemma string_contents_reads:
  assumes "80 \<le> bv env" and "pieces_ok ps" and "0 \<le> pos" and "drop (nat pos) (mem env) = chunk_records (tl ps) @ r"
  shows "string_record_contents env (string_data ps) pos = Inr (text_of ps, pos + int (length (chunk_records (tl ps))))"
proof -
  have "u16_ok (int (length (text_of ps)))" using assms(2) by (simp add: pieces_ok_def u16_ok_def)
  then have n: "unpack_len 2 (py_slice (string_data ps) 0 2) = Inr (int (length (text_of ps)))"
    by (simp add: py_slice_nonneg string_data_def unpack_len_2)
  have "list_all (\<lambda>p. length (chunk_bytes p) < 65536) ps"
    using assms(2) by (auto simp: pieces_ok_def elim: list.pred_mono_strong)
  then have "string_chunks env (int (length ([] @ text_of ps))) (string_data ps) 2 pos []
      = Inr ([] @ text_of ps, pos + int (length (chunk_records (tl ps))))"
    using string_chunks_reads [OF assms(1) _ _ _ _ assms(3,4), of "[]" "le_bytes 2 (int (length (text_of ps)))"] assms(2)
    by (simp add: pieces_ok_def string_data_def)
  then show ?thesis using assms(1) n by (simp add: string_record_contents_def)
qed

definition text_formula_bytes :: "place \<Rightarrow> int \<Rightarrow> bytes \<Rightarrow> (int \<times> bytes) option \<Rightarrow> (bool \<times> uname) list \<Rightarrow> bytes" where
  "text_formula_bytes p flags tokens e ps =
     record_bytes 6 (formula_bytes p text_result flags tokens) @ extra_bytes e
       @ record_bytes XL_STRING (string_data ps) @ chunk_records (tl ps)"

lemma formula_text_reads_as:
  assumes "80 \<le> bv env" and "\<not> ragged env" and "place_ok (r, c, xf)" and "u16_ok flags" and "length tokens < 60000"
    and "extra_ok e" and "pieces_ok ps"
  shows "reads_as env (text_formula_bytes (r, c, xf) flags tokens e ps)
    [(r, c, Some XL_CELL_TEXT, text_value (text_of ps), xf)]"
  unfolding reads_as_def
proof (intro allI impI)
  let ?data = "formula_bytes (r, c, xf) text_result flags tokens"
  let ?s = "extra_bytes e @ record_bytes XL_STRING (string_data ps)"
  let ?all = "text_formula_bytes (r, c, xf) flags tokens e ps"
  fix pos rest and st :: sheet and g
  assume "0 \<le> pos" and "drop (nat pos) (mem env) = ?all @ rest"
    and g: "put_all (conf env) [(r, c, Some XL_CELL_TEXT, text_value (text_of ps), xf)] (cells st) = Inr g"
  then have h: "drop (nat pos) (mem env) = record_bytes 6 ?data @ (?s @ chunk_records (tl ps) @ rest)"
    by (simp add: text_formula_bytes_def)
  have "length ?data < 65536" using assms(5) by (simp add: formula_bytes_def text_result_def)
  note at = record_at [OF \<open>0 \<le> pos\<close> h formula_code(1) this]
  let ?p = "pos + int (length (record_bytes 6 ?data))"
  have p: "0 \<le> ?p" using \<open>0 \<le> pos\<close> by simp
  have "length (string_data ps) < 65536" using assms(7) by (cases ps) (auto simp: pieces_ok_def string_data_def)
  note fs = formula_string_reads [OF assms(6) p _ this, of env "chunk_records (tl ps) @ rest"]
  have q: "0 \<le> ?p + int (length ?s)" using \<open>0 \<le> pos\<close> by simp
  have "formula_string env ?p = Inr (string_data ps, ?p + int (length ?s))" using fs(1) at(2) by simp
  moreover have "string_record_contents env (string_data ps) (?p + int (length ?s))
      = Inr (text_of ps, ?p + int (length ?s) + int (length (chunk_records (tl ps))))"
    using string_contents_reads [OF assms(1,7) q] fs(2) at(2) by simp
  moreover have "?p + int (length ?s) + int (length (chunk_records (tl ps))) = pos + int (length ?all)"
    by (simp add: text_formula_bytes_def)
  ultimately have "formula_text env (int r) (int c) xf ?p st = Inr (st\<lparr>cells := g\<rparr>, pos + int (length ?all))"
    using g by (simp add: formula_text_def put_in_run [OF assms(2)])
  then have "formula_record env ?data ?p st = Inr (st\<lparr>cells := g\<rparr>, pos + int (length ?all))"
    using formula_record_run [OF _ assms(3) _ assms(4), of env text_result tokens ?p st] assms(1) by (simp add: text_result_def)
  then show "\<exists>rc data_len data p st'. get_record_parts (mem env) pos = Inr ((rc, data_len, data), p) \<and> rc \<noteq> XL_EOF \<and>
       sheet_record env rc data_len data p st = Inr (st', pos + int (length ?all)) \<and>
       cells st' = g \<and> merged_cells st' = merged_cells st"
    using at(1) formula_code by (auto simp: sheet_record_def)
qed

text \<open>An embedded chart puts nothing, whatever its records.\<close>

definition chart_ok :: "(int \<times> bytes) list \<Rightarrow> bool" where
  "chart_ok = list_all (\<lambda>(code, d). u16_ok code \<and> code \<noteq> XL_EOF \<and> length d < 65536)"

definition records_bytes :: "(int \<times> bytes) list \<Rightarrow> bytes" where
  "records_bytes rs = concat (map (\<lambda>(code, d). record_bytes code d) rs)"

lemma eof_code: "u16_ok XL_EOF"
  by (simp add: u16_ok_def record_codes)

lemma skip_chart_reads:
  "chart_ok rs \<Longrightarrow> 0 \<le> pos \<Longrightarrow> drop (nat pos) m = records_bytes rs @ record_bytes XL_EOF [] @ r \<Longrightarrow>
   skip_chart m pos = Inr (pos + int (length (records_bytes rs)) + 4)"
proof (induction rs arbitrary: pos)
  case Nil
  then have "drop (nat pos) m = record_bytes XL_EOF [] @ r" by (simp add: records_bytes_def)
  from record_at(1) [OF Nil(2) this eof_code] show ?case
    by (subst skip_chart.simps) (simp add: records_bytes_def)
next
  case (Cons x rs)
  obtain code d where x: "x = (code, d)" by (cases x)
  with Cons.prems have "drop (nat pos) m = record_bytes code d @ (records_bytes rs @ record_bytes XL_EOF [] @ r)"
    and ok: "u16_ok code" "length d < 65536" "code \<noteq> XL_EOF"
    by (simp_all add: records_bytes_def chart_ok_def)
  note at = record_at [OF Cons.prems(2) this(1-3)]
  have "skip_chart m (pos + int (length (record_bytes code d)))
      = Inr (pos + int (length (record_bytes code d)) + int (length (records_bytes rs)) + 4)"
    using Cons.prems at(2) by (intro Cons.IH) (simp_all add: chart_ok_def)
  then show ?case using ok(3) by (subst skip_chart.simps) (simp add: at(1) records_bytes_def x)
qed

definition chart_bytes :: "int \<times> int \<Rightarrow> bytes \<Rightarrow> (int \<times> bytes) list \<Rightarrow> bytes" where
  "chart_bytes v extra rs = record_bytes 0x809 (HH_bytes v @ extra) @ records_bytes rs @ record_bytes XL_EOF []"

lemma chart_reads_as:
  assumes "HH_ok v" and "length extra < 60000" and "chart_ok rs"
  shows "reads_as env (chart_bytes v extra rs) []"
  unfolding reads_as_def
proof (intro allI impI)
  let ?data = "HH_bytes v @ extra"
  fix pos r and st :: sheet and g
  assume "0 \<le> pos" and "drop (nat pos) (mem env) = chart_bytes v extra rs @ r" and g: "put_all (conf env) [] (cells st) = Inr g"
  then have h: "drop (nat pos) (mem env) = record_bytes 0x809 ?data @ (records_bytes rs @ record_bytes XL_EOF [] @ r)"
    by (simp add: chart_bytes_def)
  have w: "length (HH_bytes v) = 4" by (simp add: HH_bytes_def)
  have "u16_ok 0x809" "length ?data < 65536" using assms(2) w by (simp_all add: u16_ok_def)
  note at = record_at [OF \<open>0 \<le> pos\<close> h this]
  have "unpack_HH (py_slice ?data 0 4) = Inr v" using HH.dec_enc [OF assms(1)] w by (simp add: py_slice_nonneg)
  moreover have "skip_chart (mem env) (pos + int (length (record_bytes 0x809 ?data))) = Inr (pos + int (length (chart_bytes v extra rs)))"
    using skip_chart_reads [OF assms(3) _ at(2)] \<open>0 \<le> pos\<close> by (simp add: chart_bytes_def w)
  moreover have "(0x809 :: int) \<notin> set XL_FORMULA_OPCODES" "(0x809 :: int) \<in> set bofcodes" "0x809 \<noteq> XL_EOF"
    by (simp_all add: record_codes)
  ultimately show "\<exists>rc data_len data p st'. get_record_parts (mem env) pos = Inr ((rc, data_len, data), p) \<and> rc \<noteq> XL_EOF \<and>
       sheet_record env rc data_len data p st = Inr (st', pos + int (length (chart_bytes v extra rs))) \<and>
       cells st' = g \<and> merged_cells st' = merged_cells st"
    using at(1) g by (intro exI [of _ "0x809"] exI [of _ "int (length ?data)"] exI [of _ ?data] exI
        [of _ "pos + int (length (record_bytes 0x809 ?data))"] exI [of _ st]) (simp add: sheet_record_def put_all_def)
qed

section \<open>A writer of sheets\<close>

text \<open>The cell records of BIFF8, a chart inside the sheet, and the records the reader passes over.\<close>

datatype srec =
    SNumber place dbl bytes
  | SShared place nat
  | SLabel place "bool \<times> uname"
  | SRk place rk bool
  | SMulRk nat nat "(int \<times> rk \<times> bool) list"
  | SBoolErr place int bool
  | SBlank place
  | SMulBlank nat nat "int list"
  | SFormulaNumber place dbl int bytes
  | SFormulaText place int bytes "(int \<times> bytes) option" "(bool \<times> uname) list"
  | SChart "int \<times> int" bytes "(int \<times> bytes) list"
  | SView int bytes
  | SSkip int bytes

primrec srec_bytes :: "srec \<Rightarrow> bytes" where
  "srec_bytes (SNumber p x rubbish) = record_bytes XL_NUMBER (place_bytes p @ le_bytes 8 (dbl_bits x) @ rubbish)"
| "srec_bytes (SShared p i) = record_bytes XL_LABELSST (place_bytes p @ le_bytes 4 (int i))"
| "srec_bytes (SLabel p t) = record_bytes XL_LABEL (place_bytes p @ text_bytes t)"
| "srec_bytes (SRk p x h) = record_bytes XL_RK (place_bytes p @ rk_bytes x h)"
| "srec_bytes (SMulRk r c xs) = record_bytes XL_MULRK (mulrk_bytes r c xs)"
| "srec_bytes (SBoolErr p v e) = record_bytes XL_BOOLERR (place_bytes p @ fmt_bytes [(FB, v), (FB, of_bool e)])"
| "srec_bytes (SBlank p) = record_bytes XL_BLANK (place_bytes p)"
| "srec_bytes (SMulBlank r c xfs) = record_bytes XL_MULBLANK (mulblank_bytes r c xfs)"
| "srec_bytes (SFormulaNumber p x flags tokens) = record_bytes 6 (formula_bytes p (le_bytes 8 (dbl_bits x)) flags tokens)"
| "srec_bytes (SFormulaText p flags tokens e ps) = text_formula_bytes p flags tokens e ps"
| "srec_bytes (SChart v extra rs) = chart_bytes v extra rs"
| "srec_bytes (SView rc d) = record_bytes rc d"
| "srec_bytes (SSkip rc d) = record_bytes rc d"

text \<open>The least length of a record about the view of the sheet, and the records the reader acts on.\<close>

definition view_width :: "(int \<times> nat) list" where
  "view_width = [(XL_DEFCOLWIDTH, 2), (XL_STANDARDWIDTH, 2), (XL_DEFAULTROWHEIGHT, 0), (XL_WINDOW2, 14), (XL_SCL, 4), (XL_PANE, 9)]"

definition view_ok :: "int \<Rightarrow> bytes \<Rightarrow> bool" where
  "view_ok rc d \<longleftrightarrow> (case map_of view_width rc of None \<Rightarrow> False | Some n \<Rightarrow> n \<le> length d) \<and> (rc = XL_SCL \<longrightarrow> length d = 4)"

definition read_codes :: "bool \<Rightarrow> int list" where
  "read_codes formatting =
     map fst view_width @ [XL_NUMBER, XL_LABELSST, XL_LABEL, XL_RSTRING, XL_RK, XL_MULRK, XL_BOOLERR, XL_DIMENSION, XL_DIMENSION2,
       XL_HLINK, XL_QUICKTIP, XL_OBJ, XL_TXO, XL_NOTE, XL_COUNTRY, XL_LABELRANGES, XL_ARRAY, XL_SHRFMLA]
     @ (if formatting then [XL_ROW, XL_COLINFO, XL_GCW, XL_BLANK, XL_MULBLANK, XL_CONDFMT, XL_CF, XL_MERGEDCELLS,
          XL_HORIZONTALPAGEBREAKS, XL_VERTICALPAGEBREAKS] else [])"

text \<open>What fits the fields of the records.\<close>

primrec srec_ok :: "sheet_env \<Rightarrow> srec \<Rightarrow> bool" where
  "srec_ok env (SNumber p x rubbish) \<longleftrightarrow> place_ok p \<and> dbl_ok x \<and> length rubbish < 60000"
| "srec_ok env (SShared p i) \<longleftrightarrow> place_ok p \<and> i < length (sharedstrings env) \<and> int i < 2 ^ 31"
| "srec_ok env (SLabel p t) \<longleftrightarrow> place_ok p \<and> text_piece_ok t \<and> length (snd t) < 30000"
| "srec_ok env (SRk p x h) \<longleftrightarrow> place_ok p \<and> rk_ok x"
| "srec_ok env (SMulRk r c xs) \<longleftrightarrow> HH_ok (int r, int c) \<and> u16_ok (int c + int (length xs) - 1) \<and> length xs \<le> 256
     \<and> list_all (\<lambda>(xf, x, h). u16_ok xf \<and> rk_ok x) xs"
| "srec_ok env (SBoolErr p v e) \<longleftrightarrow> place_ok p \<and> byte_ok v"
| "srec_ok env (SBlank p) \<longleftrightarrow> place_ok p"
| "srec_ok env (SMulBlank r c xfs) \<longleftrightarrow> length xfs \<le> 256 \<and> list_all u16_ok (mulblank_items r c xfs)"
| "srec_ok env (SFormulaNumber p x flags tokens) \<longleftrightarrow> place_ok p \<and> dbl_ok x \<and> u16_ok flags \<and> length tokens < 60000"
| "srec_ok env (SFormulaText p flags tokens e ps) \<longleftrightarrow> place_ok p \<and> u16_ok flags \<and> length tokens < 60000 \<and> extra_ok e \<and> pieces_ok ps"
| "srec_ok env (SChart v extra rs) \<longleftrightarrow> HH_ok v \<and> length extra < 60000 \<and> chart_ok rs"
| "srec_ok env (SView rc d) \<longleftrightarrow> view_ok rc d \<and> length d < 65536"
| "srec_ok env (SSkip rc d) \<longleftrightarrow> plain_code rc \<and> rc \<notin> set (read_codes (formatting_info (conf env))) \<and> length d < 65536"

text \<open>The cells a record stands for; a blank cell is one only when the formats are kept.\<close>

definition at_place :: "place \<Rightarrow> nat option \<Rightarrow> pyval \<Rightarrow> put list" where
  "at_place = (\<lambda>(r, c, xf) t v. [(r, c, t, v, xf)])"

primrec srec_puts :: "sheet_env \<Rightarrow> srec \<Rightarrow> put list" where
  "srec_puts env (SNumber p x rubbish) = at_place p None (PFloat (dbl_value x))"
| "srec_puts env (SShared p i) = at_place p (Some XL_CELL_TEXT) (text_value (sharedstrings env ! i))"
| "srec_puts env (SLabel p t) = at_place p (Some XL_CELL_TEXT) (text_value (snd t))"
| "srec_puts env (SRk p x h) = at_place p None (PFloat (rk_value x h))"
| "srec_puts env (SMulRk r c xs) = row_puts r c (rk_cells xs)"
| "srec_puts env (SBoolErr p v e) = at_place p (Some (err_type e)) (PInt v)"
| "srec_puts env (SBlank p) = (if formatting_info (conf env) then at_place p (Some XL_CELL_BLANK) no_value else [])"
| "srec_puts env (SMulBlank r c xfs) = (if formatting_info (conf env) then row_puts r c (blank_cells xfs) else [])"
| "srec_puts env (SFormulaNumber p x flags tokens) = at_place p None (PFloat (dbl_value x))"
| "srec_puts env (SFormulaText p flags tokens e ps) = at_place p (Some XL_CELL_TEXT) (text_value (text_of ps))"
| "srec_puts env (SChart v extra rs) = []"
| "srec_puts env (SView rc d) = []"
| "srec_puts env (SSkip rc d) = []"

lemma plain_codes [simp]:
  "plain_code XL_NUMBER" "plain_code XL_LABELSST" "plain_code XL_LABEL" "plain_code XL_RK" "plain_code XL_MULRK"
  "plain_code XL_BOOLERR" "plain_code XL_BLANK" "plain_code XL_MULBLANK"
  by (simp_all add: plain_code_def u16_ok_def record_codes)

text \<open>\<open>plain_record\<close> at the records of cells.\<close>

lemma plain_record_cells:
  "plain_record env XL_NUMBER n d = number_record env d"
  "plain_record env XL_LABELSST n d = labelsst_record env d"
  "plain_record env XL_LABEL n d = label_record env d"
  "plain_record env XL_RK n d = rk_record env d"
  "plain_record env XL_MULRK n d = mulrk_record env d"
  "plain_record env XL_BOOLERR n d = boolerr_record env d"
  "plain_record env XL_BLANK n d = blank_record env d"
  "plain_record env XL_MULBLANK n d = mulblank_record env n d"
  by (simp_all add: plain_record_def record_codes fun_eq_iff)

lemma enters_shared:
  assumes "\<not> ragged env" and "place_ok (r, c, xf)" and "i < length (sharedstrings env)" and "int i < 2 ^ 31"
  shows "enters (labelsst_record env (place_bytes (r, c, xf) @ le_bytes 4 (int i))) env
    [(r, c, Some XL_CELL_TEXT, text_value (sharedstrings env ! i), xf)]"
  unfolding enters_def
proof (intro allI impI)
  fix st :: sheet and g
  assume "put_all (conf env) [(r, c, Some XL_CELL_TEXT, text_value (sharedstrings env ! i), xf)] (cells st) = Inr g"
  then have "put_in env (int r) (int c) (Some XL_CELL_TEXT) (text_value (sharedstrings env ! i)) xf st = Inr (st\<lparr>cells := g\<rparr>)"
    by (simp add: put_in_run [OF assms(1)])
  from labelsst_record_reads [OF assms(2-4) this]
  show "\<exists>st'. labelsst_record env (place_bytes (r, c, xf) @ le_bytes 4 (int i)) st = Inr st' \<and>
      cells st' = g \<and> merged_cells st' = merged_cells st" by simp
qed

lemma length_text_bytes: "length (text_bytes t) \<le> 3 + 2 * length (snd t)"
  by (simp add: text_bytes_def piece_length)

lemma length_mulrk_bytes: "length (mulrk_bytes r c xs) = 6 + 6 * length xs"
proof -
  have "length (concat (map rk_entry xs)) = 6 * length xs"
    by (induction xs) (auto simp: rk_entry_def)
  then show ?thesis by (simp add: mulrk_bytes_def HH_bytes_def)
qed

lemma length_mulblank_bytes: "length (mulblank_bytes r c xfs) = 6 + 2 * length xfs"
  by (simp add: mulblank_bytes_def length_u16_bytes) (simp add: mulblank_items_def)

text \<open>Records that put nothing.\<close>

lemma enters_same:
  "(\<And>st. \<exists>st'. step st = Inr st' \<and> cells st' = cells st \<and> merged_cells st' = merged_cells st) \<Longrightarrow> enters step env []"
  by (auto simp: enters_def put_all_def)

lemma unpack_fmt_total: "length bs = sum_list (map field_width cs) \<Longrightarrow> unpack_fmt cs bs = Inr (unpack_codes cs bs)"
  by (simp add: unpack_fmt_def)

lemma unpack_slice: "n \<le> length d \<Longrightarrow> n = sum_list (map field_width cs) \<Longrightarrow>
  unpack_fmt cs (py_slice d 0 (int n)) = Inr (unpack_codes cs (take n d))"
  by (simp add: py_slice_nonneg unpack_fmt_total)

lemma set_attrs_cells [simp]: "cells (set_attrs vs st) = cells st" "merged_cells (set_attrs vs st) = merged_cells st"
  by (simp_all add: set_attrs_def)

lemma view_enters:
  assumes "80 \<le> bv env" and "view_ok rc d"
  shows "enters (plain_record env rc (int (length d)) d) env []"
proof (rule enters_same)
  fix st :: sheet
  have u16: "\<exists>w. unpack_u16 (py_slice d 0 2) = Inr w" if "2 \<le> length d"
    using that by (simp add: py_slice_nonneg unpack_u16_def unpack_H_def)
  consider "rc = XL_DEFCOLWIDTH" "2 \<le> length d" | "rc = XL_STANDARDWIDTH" "2 \<le> length d" | "rc = XL_DEFAULTROWHEIGHT"
    | "rc = XL_WINDOW2" "14 \<le> length d" | "rc = XL_SCL" "length d = 4" | "rc = XL_PANE" "9 \<le> length d"
    using assms(2) by (auto simp: view_ok_def view_width_def split: if_splits)
  then show "\<exists>st'. plain_record env rc (int (length d)) d st = Inr st' \<and> cells st' = cells st \<and> merged_cells st' = merged_cells st"
  proof cases
    case 1
    with u16 show ?thesis by (auto simp: plain_record_def record_codes)
  next
    case 2
    with u16 show ?thesis by (auto simp: plain_record_def record_codes)
  next
    case 3
    have "\<exists>st'. default_row_record (int (length d)) d st = Inr st' \<and> cells st' = cells st \<and> merged_cells st' = merged_cells st"
      by (cases "length d = 4"; cases "length d = 2") (simp_all add: default_row_record_def py_slice_nonneg unpack_HH_def
          unpack_u16_def unpack_H_def chunks_2)
    then show ?thesis using 3 by (simp add: plain_record_def record_codes)
  next
    case 4
    have "14 = sum_list (map field_width [FH, FH, FH, FH, FX, FX, FH, FH])" by simp
    from unpack_slice [OF 4(2) this] obtain vs where "unpack_fmt [FH, FH, FH, FH, FX, FX, FH, FH] (py_slice d 0 14) = Inr vs" by simp
    then have "\<exists>st'. window2_record env (int (length d)) d st = Inr st' \<and> cells st' = cells st \<and> merged_cells st' = merged_cells st"
      using assms(1) 4(2) by (simp add: window2_record_def)
    then show ?thesis by (simp add: 4(1) plain_record_def record_codes)
  next
    case 5
    then show ?thesis by (simp add: plain_record_def record_codes scl_record_def unpack_HH_def unpack_H_def chunks_2 Let_def)
  next
    case 6
    have "9 = sum_list (map field_width [FH, FH, FH, FH, FB])" by simp
    from unpack_slice [OF 6(2) this] obtain vs where "unpack_fmt [FH, FH, FH, FH, FB] (py_slice d 0 9) = Inr vs" by simp
    then show ?thesis by (simp add: 6(1) plain_record_def record_codes pane_record_def)
  qed
qed

lemma skip_enters:
  assumes "80 \<le> bv env" and "rc \<notin> set (read_codes (formatting_info (conf env)))"
  shows "enters (plain_record env rc n d) env []"
proof (rule enters_nothing)
  fix st
  have bv: "\<not> bv env \<le> 45" using assms(1) by simp
  show "plain_record env rc n d st = Inr st"
  proof (cases "formatting_info (conf env)")
    case True
    then show ?thesis using assms(2) by (simp add: read_codes_def view_width_def plain_record_def bv)
  next
    case False
    note off = row_record_def colinfo_record_def gcw_record_def blank_record_def mulblank_record_def condfmt_record_def
      cf_record_def merged_record_def hbreaks_record_def vbreaks_record_def
    have "row_record env d st = Inr st" "colinfo_record env d st = Inr st" "gcw_record env n d st = Inr st"
      "blank_record env d st = Inr st" "mulblank_record env n d st = Inr st" "condfmt_record env d st = Inr st"
      "cf_record env n d st = Inr st" "merged_record env n d st = Inr st" "hbreaks_record env n d st = Inr st"
      "vbreaks_record env n d st = Inr st"
      using False by (simp_all add: off)
    then show ?thesis using False assms(2) by (simp add: read_codes_def view_width_def plain_record_def bv)
  qed
qed

lemma view_code: "view_ok rc d \<Longrightarrow> plain_code rc"
  by (auto simp: view_ok_def view_width_def plain_code_def u16_ok_def record_codes split: if_splits)

lemma srec_reads_as:
  assumes "80 \<le> bv env" and "\<not> ragged env" and "srec_ok env x"
  shows "reads_as env (srec_bytes x) (srec_puts env x)"
proof (cases x)
  case (SNumber p d rubbish)
  obtain r c xf where p: "p = (r, c, xf)" by (cases p)
  show ?thesis using assms(3) unfolding SNumber p
    by (auto simp: plain_record_cells at_place_def number_record_reads intro!: plain_reads_as enters_put assms(2))
next
  case (SShared p i)
  obtain r c xf where p: "p = (r, c, xf)" by (cases p)
  show ?thesis using assms(3) unfolding SShared p
    by (auto simp: plain_record_cells at_place_def intro!: plain_reads_as enters_shared assms(2))
next
  case (SLabel p t)
  obtain r c xf where p: "p = (r, c, xf)" by (cases p)
  have "length (text_bytes t) < 65530" using length_text_bytes [of t] assms(3) SLabel by simp
  then show ?thesis using assms(3) unfolding SLabel p
    by (auto simp: plain_record_cells at_place_def label_record_reads assms(1) intro!: plain_reads_as enters_put assms(2))
next
  case (SRk p y h)
  obtain r c xf where p: "p = (r, c, xf)" by (cases p)
  show ?thesis using assms(3) unfolding SRk p
    by (auto simp: plain_record_cells at_place_def rk_record_reads intro!: plain_reads_as enters_put assms(2))
next
  case (SMulRk r c xs)
  then show ?thesis using assms(3) mulrk_record_reads [OF assms(2), of r c xs]
    by (auto simp: plain_record_cells length_mulrk_bytes intro!: plain_reads_as entersI)
next
  case (SBoolErr p v e)
  obtain r c xf where p: "p = (r, c, xf)" by (cases p)
  let ?d = "place_bytes (r, c, xf) @ fmt_bytes [(FB, v), (FB, of_bool e)]"
  have ok: "place_ok (r, c, xf)" "byte_ok v" using assms(3) unfolding SBoolErr p by simp_all
  have "enters (plain_record env XL_BOOLERR (int (length ?d)) ?d) env [(r, c, Some (err_type e), PInt v, xf)]"
    unfolding plain_record_cells by (intro enters_put assms(2) boolerr_record_reads [OF ok])
  then show ?thesis unfolding SBoolErr p srec_bytes.simps srec_puts.simps at_place_def prod.case
    by (rule plain_reads_as [rotated 2]) simp_all
next
  case (SBlank p)
  obtain r c xf where p: "p = (r, c, xf)" by (cases p)
  show ?thesis using assms(3) unfolding SBlank p
    by (auto simp: plain_record_cells at_place_def blank_record_reads intro!: plain_reads_as enters_put enters_nothing assms(2))
next
  case (SMulBlank r c xfs)
  then show ?thesis using assms(3) mulblank_record_reads [OF assms(2), of r c xfs]
    by (auto simp: plain_record_cells length_mulblank_bytes intro!: plain_reads_as entersI enters_nothing)
next
  case (SFormulaNumber p d flags tokens)
  obtain r c xf where p: "p = (r, c, xf)" by (cases p)
  show ?thesis using assms(3) formula_number_reads_as [OF assms(1,2)] unfolding SFormulaNumber p by (simp add: at_place_def)
next
  case (SFormulaText p flags tokens e ps)
  obtain r c xf where p: "p = (r, c, xf)" by (cases p)
  show ?thesis using assms(3) formula_text_reads_as [OF assms(1,2)] unfolding SFormulaText p by (simp add: at_place_def)
next
  case (SChart v extra rs)
  then show ?thesis using assms(3) chart_reads_as by simp
next
  case (SView rc d)
  then show ?thesis using assms(3) by (auto intro!: plain_reads_as view_enters assms(1) view_code)
next
  case (SSkip rc d)
  then show ?thesis using assms(3) by (auto intro!: plain_reads_as skip_enters assms(1))
qed

section \<open>The sheet is what was written\<close>

lemma drop_further: "0 \<le> pos \<Longrightarrow> drop (nat pos) m = a @ b \<Longrightarrow> drop (nat (pos + int (length a))) m = b"
  by (metis append_eq_conv_conj drop_drop add.commute nat_add_distrib nat_int of_nat_0_le_iff)

lemma read_records_front:
  assumes "80 \<le> bv env" and "\<not> ragged env" and "list_all (srec_ok env) xs"
    and "0 \<le> pos" and "drop (nat pos) (mem env) = concat (map srec_bytes xs) @ r"
    and "put_all (conf env) (concat (map (srec_puts env) xs)) (cells st) = Inr g"
  shows "\<exists>st'. read_records env pos st = read_records env (pos + int (length (concat (map srec_bytes xs)))) st' \<and>
    cells st' = g \<and> merged_cells st' = merged_cells st"
  using assms(3-6)
proof (induction xs arbitrary: pos st)
  case Nil
  then show ?case by (auto simp: put_all_def)
next
  case (Cons x xs)
  let ?rest = "concat (map srec_bytes xs) @ r" and ?pos' = "pos + int (length (srec_bytes x))"
  have h: "drop (nat pos) (mem env) = srec_bytes x @ ?rest" using Cons.prems(3) by simp
  obtain g1 where g1: "put_all (conf env) (srec_puts env x) (cells st) = Inr g1"
    and g: "put_all (conf env) (concat (map (srec_puts env) xs)) g1 = Inr g"
    using Cons.prems(4) by (auto simp: put_all_append)
  have "srec_ok env x" using Cons.prems(1) by simp
  note x = srec_reads_as [OF assms(1,2) this, unfolded reads_as_def, rule_format, OF Cons.prems(2) h g1]
  then obtain rc n d p st1 where s: "get_record_parts (mem env) pos = Inr ((rc, n, d), p)" "rc \<noteq> XL_EOF"
    "sheet_record env rc n d p st = Inr (st1, ?pos')" "cells st1 = g1" "merged_cells st1 = merged_cells st"
    by blast
  obtain st' where "read_records env ?pos' st1 = read_records env (?pos' + int (length (concat (map srec_bytes xs)))) st'"
    "cells st' = g" "merged_cells st' = merged_cells st1"
    using Cons.IH [of ?pos' st1] Cons.prems(1,2) drop_further [OF Cons.prems(2) h] g s(4) by auto
  then show ?case using s by (subst read_records.simps) (auto simp: add.assoc)
qed

text \<open>The record of the dimensions, if there is one: it says how large the sheet is, which the reader finds out itself.\<close>

definition dims_bytes :: "bytes option \<Rightarrow> bytes" where
  "dims_bytes dims = (case dims of None \<Rightarrow> [] | Some d \<Rightarrow> record_bytes XL_DIMENSION d)"

definition dims_ok :: "bytes option \<Rightarrow> bool" where
  "dims_ok dims \<longleftrightarrow> (case dims of None \<Rightarrow> True | Some d \<Rightarrow> 12 \<le> length d \<and> length d < 65536)"

lemma dims_read:
  assumes "80 \<le> bv env" and "dims_ok dims" and "0 \<le> pos" and "drop (nat pos) (mem env) = dims_bytes dims @ r"
    and "cells st = empty_grid"
  shows "\<exists>st'. read_records env pos st = read_records env (pos + int (length (dims_bytes dims))) st' \<and>
    cells st' = empty_grid \<and> merged_cells st' = merged_cells st"
proof (cases dims)
  case None
  then show ?thesis using assms(5) by (auto simp: dims_bytes_def)
next
  case (Some d)
  with assms(2,4) have d: "12 \<le> length d" "length d < 65536" "drop (nat pos) (mem env) = record_bytes XL_DIMENSION d @ r"
    by (simp_all add: dims_ok_def dims_bytes_def)
  have "u16_ok XL_DIMENSION" by (simp add: u16_ok_def record_codes)
  note at = record_at(1) [OF assms(3) d(3) this d(2)]
  have "length (py_slice d 4 12) = sum_list (map field_width [FSI, FX, FX, FH])" using d(1) by (simp add: py_slice_nonneg)
  from unpack_fmt_total [OF this] obtain vs where vs: "unpack_fmt [FSI, FX, FX, FH] (py_slice d 4 12) = Inr vs" by simp
  have e: "empty_grid\<lparr>nrows := 0, ncols := 0\<rparr> = empty_grid" by (simp add: empty_grid_def)
  let ?st = "st\<lparr>cells := empty_grid, dimensions := (vs ! 0, vs ! 1)\<rparr>"
  have "dimension_record env (int (length d)) d st = Inr ?st"
    using assms(1,5) d(1) vs e by (auto simp: dimension_record_def Let_def)
  then have "sheet_record env XL_DIMENSION (int (length d)) d p st = Inr (?st, p)" for p
    by (simp add: sheet_record_def plain_record_def record_codes)
  moreover have "XL_DIMENSION \<noteq> XL_EOF" by (simp add: record_codes)
  ultimately show ?thesis
    by (intro exI [of _ ?st], subst read_records.simps) (simp add: at Some dims_bytes_def)
qed

text \<open>The bytes of a sheet behind its \<open>BOF\<close> record; the records before the dimensions put no cells.\<close>

record sheet_text =
  front :: "srec list"
  dims :: "bytes option"
  body :: "srec list"

definition sheet_bytes :: "sheet_text \<Rightarrow> bytes" where
  "sheet_bytes t = concat (map srec_bytes (front t)) @ dims_bytes (dims t) @ concat (map srec_bytes (body t)) @ record_bytes XL_EOF []"

definition sheet_puts :: "sheet_env \<Rightarrow> sheet_text \<Rightarrow> put list" where
  "sheet_puts env t = concat (map (srec_puts env) (body t))"

definition sheet_text_ok :: "sheet_env \<Rightarrow> sheet_text \<Rightarrow> bool" where
  "sheet_text_ok env t \<longleftrightarrow> list_all (srec_ok env) (front t @ body t) \<and> list_all (\<lambda>x. srec_puts env x = []) (front t) \<and> dims_ok (dims t)
     \<and> list_all (put_ok (conf env)) (sheet_puts env t)"

definition table_of :: "put list \<Rightarrow> pyval list list" where
  "table_of puts = map (\<lambda>r. map (last_value puts r) [0..<cols_of puts]) [0..<rows_of puts]"

lemma read_records_reads:
  assumes "80 \<le> bv env" and "\<not> ragged env" and "sheet_text_ok env t" and "0 \<le> pos" and "drop (nat pos) (mem env) = sheet_bytes t @ r"
    and "cells st = empty_grid" and "put_all (conf env) (sheet_puts env t) empty_grid = Inr g"
  shows "\<exists>st'. read_records env pos st = Inr st' \<and> cells st' = g \<and> merged_cells st' = merged_cells st"
proof -
  let ?f = "concat (map srec_bytes (front t))" and ?b = "concat (map srec_bytes (body t))"
  let ?pos1 = "pos + int (length ?f)" let ?pos2 = "?pos1 + int (length (dims_bytes (dims t)))" let ?pos3 = "?pos2 + int (length ?b)"
  have ok: "list_all (srec_ok env) (front t)" "list_all (srec_ok env) (body t)" "dims_ok (dims t)"
    using assms(3) by (simp_all add: sheet_text_ok_def)
  have none: "concat (map (srec_puts env) (front t)) = []" using assms(3) by (auto simp: sheet_text_ok_def list_all_iff)
  have nil: "put_all (conf env) (concat (map (srec_puts env) (front t))) (cells st) = Inr empty_grid"
    unfolding none assms(6) by (simp add: put_all_def)
  have h1: "drop (nat pos) (mem env) = ?f @ dims_bytes (dims t) @ ?b @ record_bytes XL_EOF [] @ r"
    using assms(5) by (simp add: sheet_bytes_def)
  note h2 = drop_further [OF assms(4) h1]
  have p1: "0 \<le> ?pos1" and p2: "0 \<le> ?pos2" and p3: "0 \<le> ?pos3" using assms(4) by simp_all
  note h3 = drop_further [OF p1 h2] and h4 = drop_further [OF p2 drop_further [OF p1 h2]]
  from read_records_front [OF assms(1,2) ok(1) assms(4) h1 nil] obtain st1 where
    st1: "read_records env pos st = read_records env ?pos1 st1" "cells st1 = empty_grid" "merged_cells st1 = merged_cells st" by blast
  from dims_read [OF assms(1) ok(3) p1 h2 st1(2)] obtain st2 where
    st2: "read_records env ?pos1 st1 = read_records env ?pos2 st2" "cells st2 = empty_grid" "merged_cells st2 = merged_cells st1" by blast
  have "put_all (conf env) (concat (map (srec_puts env) (body t))) (cells st2) = Inr g" using assms(7) st2(2) by (simp add: sheet_puts_def)
  from read_records_front [OF assms(1,2) ok(2) p2 h3 this] obtain st3 where
    st3: "read_records env ?pos2 st2 = read_records env ?pos3 st3" "cells st3 = g" "merged_cells st3 = merged_cells st2" by blast
  from record_at(1) [OF p3 h4 eof_code] have "read_records env ?pos3 st3 = Inr st3" by (subst read_records.simps) simp
  with st1 st2 st3 show ?thesis by simp
qed

lemma sheet_read_table:
  assumes "80 \<le> bv env" and "\<not> ragged env" and "sheet_text_ok env t" and "0 \<le> pos" and "drop (nat pos) (mem env) = sheet_bytes t @ r"
  shows "\<exists>st. sheet_read env pos (new_sheet countries0) = Inr st \<and> nrows (cells st) = rows_of (sheet_puts env t) \<and>
    ncols (cells st) = cols_of (sheet_puts env t) \<and> cell_values (cells st) = table_of (sheet_puts env t)"
proof -
  have "list_all (put_ok (conf env)) (sheet_puts env t)" using assms(3) by (simp add: sheet_text_ok_def)
  then obtain g g' where g: "put_all (conf env) (sheet_puts env t) empty_grid = Inr g" and
    t: "tidy_dimensions (conf env) False [] g = Inr g'" "nrows g' = rows_of (sheet_puts env t)"
      "ncols g' = cols_of (sheet_puts env t)" "cell_values g' = table_of (sheet_puts env t)"
    using table_of_puts unfolding table_of_def by blast
  obtain st where st: "read_records env pos (new_sheet countries0) = Inr st" "cells st = g" "merged_cells st = []"
    using read_records_reads [OF assms(1-5) _ g, of "new_sheet countries0"] by (auto simp: new_sheet_def)
  have c: "cells (update_cooked_mag_factors s) = cells s" for s by (simp add: update_cooked_mag_factors_def Let_def)
  show ?thesis using st t assms(2) by (simp add: sheet_read_def ranges_nat_def c)
qed

text \<open>
  C7: reading a sheet of BIFF8 gives the cells that were written into it, for every kind of cell record and
  in any order: doubles and short numbers, shared and own texts, truth values and errors, blanks, runs of numbers
  and blanks, formulas with a number or with a text that is cut over several records, and in between charts,
  records about the view and records the reader passes over. The table is rectangular, whatever the record of the
  dimensions says; at each place is the value of the last record for it, or nothing.
\<close>
theorem sheet_reads_cells:
  assumes "80 \<le> bv env" and "\<not> ragged env" and "sheet_text_ok env t" and "0 \<le> pos" and "drop (nat pos) (mem env) = sheet_bytes t @ r"
  shows "\<exists>st. sheet_read env pos (new_sheet countries0) = Inr st \<and>
    cell_values (cells st) =
      map (\<lambda>r. map (last_value (sheet_puts env t) r) [0..<cols_of (sheet_puts env t)]) [0..<rows_of (sheet_puts env t)]"
  using sheet_read_table [OF assms, of countries0] by (auto simp: table_of_def)

text \<open>A sheet of two rows: its second row first, then a shared text and a formula whose text is cut in two.\<close>

definition small_sheet :: sheet_text where
  "small_sheet = \<lparr>
     front = [SView XL_DEFCOLWIDTH [8, 0]], dims = Some [0, 0, 0, 0, 0, 0, 0, 0, 0, 0, 0, 0, 0, 0],
     body = [SMulRk 1 0 [(15, RkInt 7, False), (15, RkInt (- 2), False)], SShared (0, 0, 15) 0,
      SFormulaText (0, 1, 15) 0 [] None [(False, [0x61]), (True, [0x4E2D])], SSkip 0xd7 []]\<rparr>"

definition small_bytes :: bytes where
  "small_bytes =
     [85, 0, 2, 0, 8, 0,
      0, 2, 14, 0, 0, 0, 0, 0, 0, 0, 0, 0, 0, 0, 0, 0, 0, 0,
      189, 0, 18, 0, 1, 0, 0, 0, 15, 0, 30, 0, 0, 0, 15, 0, 250, 255, 255, 255, 1, 0,
      253, 0, 10, 0, 0, 0, 0, 0, 15, 0, 0, 0, 0, 0,
      6, 0, 16, 0, 0, 0, 1, 0, 15, 0, 0, 0, 0, 0, 0, 0, 255, 255, 0, 0,
      7, 2, 4, 0, 2, 0, 0, 97,
      60, 0, 3, 0, 1, 45, 78,
      215, 0, 0, 0,
      10, 0, 0, 0]"

definition small_env :: sheet_env where
  "small_env = \<lparr>mem = small_bytes, bv = 80, conf = any_conf, ragged = False, sharedstrings = [[0x74]], runlists = [],
     decode = (\<lambda>b. Inl ValueError), env_colour_map = []\<rparr>"

lemma sheet_reads_cells_witness:
  "\<exists>st. sheet_read small_env 0 (new_sheet (0, 0)) = Inr st \<and>
    cell_values (cells st) = [[PUni ''t'', PUni [CHR ''a'', CHR 0xE4, CHR 0xB8, CHR 0xAD]], [PFloat 7, PFloat (- 2)]]"
proof -
  have le: "le_bytes 2 n = [word_of_int n, word_of_int (n div 256)]"
    "le_bytes 4 n = [word_of_int n, word_of_int (n div 256), word_of_int (n div 256 div 256), word_of_int (n div 256 div 256 div 256)]" for n
    by (simp_all add: eval_nat_numeral)
  have b: "drop (nat 0) (mem small_env) = sheet_bytes small_sheet @ []"
    by (simp add: small_env_def small_sheet_def small_bytes_def sheet_bytes_def record_bytes_def HH_bytes_def place_bytes_def rk_bytes_def
        mulrk_bytes_def rk_entry_def record_codes le text_formula_bytes_def formula_bytes_def text_result_def
        extra_bytes_def string_data_def chunk_bytes_def chunk_records_def continued_def text_of_def width_flag_def piece_bytes_def
        units_bytes_def XL_CONTINUE_def dims_bytes_def)
  have utf: "utf_8 [0x74] = ''t''" "utf_8 [0x61, 0x4E2D] = [CHR ''a'', CHR 0xE4, CHR 0xB8, CHR 0xAD]" by code_simp+
  have puts: "sheet_puts small_env small_sheet =
      [(1, 0, None, PFloat 7, 15), (1, 1, None, PFloat (- 2), 15), (0, 0, Some 1, PUni ''t'', 15),
       (0, 1, Some 1, PUni [CHR ''a'', CHR 0xE4, CHR 0xB8, CHR 0xAD], 15)]"
    using utf by (simp add: sheet_puts_def small_sheet_def small_env_def at_place_def rk_cells_def rk_value_def text_value_def text_of_def
        XL_CELL_TEXT_def)
  have bv: "80 \<le> bv small_env" "\<not> ragged small_env" by (simp_all add: small_env_def)
  have codes: "view_ok XL_DEFCOLWIDTH [8, 0]" "plain_code 0xd7" "0xd7 \<notin> set (read_codes True)"
    by (simp_all add: view_ok_def view_width_def plain_code_def read_codes_def u16_ok_def record_codes)
  have "list_all (srec_ok small_env) (front small_sheet @ body small_sheet)"
    by (simp add: codes small_sheet_def small_env_def any_conf_def HH_ok_def u16_ok_def place_ok_def extra_ok_def pieces_ok_def text_piece_ok_def
        byte_ok_def text_of_def chunk_bytes_def piece_bytes_def)
  moreover have "list_all (put_ok (conf small_env)) (sheet_puts small_env small_sheet)"
    unfolding puts by (simp add: put_ok_def small_env_def any_conf_def)
  ultimately have ok: "sheet_text_ok small_env small_sheet"
    by (simp add: sheet_text_ok_def) (simp add: small_sheet_def dims_ok_def)
  from sheet_reads_cells [OF bv ok _ b, of "(0, 0)"] show ?thesis
    unfolding puts by (auto simp: rows_of_def cols_of_def last_value_def upt_rec)
qed

end
