(* ===== verification/XlBook.thy ===== *)
theory XlBook
  imports XlSheet CompDoc
begin

text \<open>
  A workbook of xlrd (\<open>xlrd/book.py\<close>): from the bytes of a file to its sheets. The stream of the workbook is
  found in the compound document (\<open>CompDoc\<close>), its \<open>BOF\<close> record gives the version, the records of the
  globals fill the tables of the book (\<open>XlFormats\<close>, \<open>XlStrings\<close>), and every worksheet is read from the position its
  \<open>BOUNDSHEET\<close> record gives (\<open>XlSheet\<close>). The versions before BIFF5 and defined names (whose formulas the reader
  evaluates) end the reading with \<open>Unsupported\<close>; messages are not modelled. The codecs of the code
  pages are the argument \<open>codec\<close>, which fails on a name it does not know.
\<close>

section \<open>Record codes\<close>

definition XL_SST :: int where [record_codes]: "XL_SST = 0xfc"
definition XL_FONT :: int where [record_codes]: "XL_FONT = 0x31"
definition XL_FONT_B3B4 :: int where [record_codes]: "XL_FONT_B3B4 = 0x231"
definition XL_XF :: int where [record_codes]: "XL_XF = 0xe0"
definition XL_BOUNDSHEET :: int where [record_codes]: "XL_BOUNDSHEET = 0x85"
definition XL_DATEMODE :: int where [record_codes]: "XL_DATEMODE = 0x22"
definition XL_CODEPAGE :: int where [record_codes]: "XL_CODEPAGE = 0x42"
definition XL_EXTERNNAME :: int where [record_codes]: "XL_EXTERNNAME = 0x23"
definition XL_EXTERNSHEET :: int where [record_codes]: "XL_EXTERNSHEET = 0x17"
definition XL_FILEPASS :: int where [record_codes]: "XL_FILEPASS = 0x2f"
definition XL_WRITEACCESS :: int where [record_codes]: "XL_WRITEACCESS = 0x5C"
definition XL_SHEETSOFFSET :: int where [record_codes]: "XL_SHEETSOFFSET = 0x8E"
definition XL_SHEETHDR :: int where [record_codes]: "XL_SHEETHDR = 0x8F"
definition XL_SUPBOOK :: int where [record_codes]: "XL_SUPBOOK = 0x1AE"
definition XL_NAME :: int where [record_codes]: "XL_NAME = 0x18"
definition XL_PALETTE :: int where [record_codes]: "XL_PALETTE = 0x92"
definition XL_STYLE :: int where [record_codes]: "XL_STYLE = 0x293"

definition XL_WORKBOOK_GLOBALS :: int where "XL_WORKBOOK_GLOBALS = 0x5"
definition XL_WORKBOOK_GLOBALS_4W :: int where "XL_WORKBOOK_GLOBALS_4W = 0x100"
definition XL_WORKSHEET :: int where "XL_WORKSHEET = 0x10"
definition XL_BOUNDSHEET_WORKSHEET :: int where "XL_BOUNDSHEET_WORKSHEET = 0x00"

definition boflen :: "(int \<times> int) list" where "boflen = [(0x0809, 8), (0x0409, 6), (0x0209, 6), (0x0009, 4)]"

definition SUPPORTED_VERSIONS :: "int list" where "SUPPORTED_VERSIONS = [80, 70, 50, 45, 40, 30, 21, 20]"

definition SUPBOOK_INTERNAL :: int where "SUPBOOK_INTERNAL = 1"
definition SUPBOOK_EXTERNAL :: int where "SUPBOOK_EXTERNAL = 2"
definition SUPBOOK_ADDIN :: int where "SUPBOOK_ADDIN = 3"
definition SUPBOOK_DDEOLE :: int where "SUPBOOK_DDEOLE = 4"

section \<open>The workbook\<close>

record font =
  font_name :: uname
  font_attrs :: attrs

text \<open>What \<open>biff2_8_load\<close> sets once: the stream, where the globals start in it, and the options.\<close>

record load_env =
  wmem :: bytes
  wbase :: int
  encoding_override :: "string option"
  opt_formatting_info :: bool
  opt_ragged_rows :: bool
  codec :: "string \<Rightarrow> bytes \<Rightarrow> uname res"

record wbook =
  fmts :: book
  font_list :: "font list"
  encoding :: "string option"
  codepage :: "int option"
  user_name :: "uname option"
  raw_user_name :: "bytes option"
  wb_countries :: "int \<times> int"
  datemode :: int
  wb_strings :: "uname list"
  wb_runlists :: "(nat \<times> (int \<times> int) list) list"
  sheet_names :: "uname list"
  sh_abs_posn :: "int list"
  sheet_visibility :: "int list"
  all_sheets_map :: "int list"
  sheet_num_from_name :: "(uname \<times> int) list"
  sheetsoffset :: "int option"
  extnsht_count :: int
  externsheet_info :: "(int \<times> int \<times> int) list"
  externsheet_type_b57 :: "int list"
  extnsht_name_from_num :: "(int \<times> uname) list"
  supbook_types :: "int option list"
  supbook_locals_inx :: "int option"
  supbook_addins_inx :: "int option"
  addin_func_names :: "uname list"
  sheet_list :: "sheet list"

definition new_book :: "load_env \<Rightarrow> int \<Rightarrow> wbook" where
  "new_book env version = \<lparr>
     fmts = \<lparr>biff_version = version, book_formatting_info = opt_formatting_info env, actualfmtcount = 0, format_map = [],
       format_list = [], colour_map = [], palette_record = [], style_name_map = [], xfcount = 0, xf_list = [],
       xf_index_to_xl_type_map = [(0, XL_CELL_NUMBER)]\<rparr>,
     font_list = [], encoding = None, codepage = None, user_name = None, raw_user_name = None, wb_countries = (0, 0),
     datemode = 0, wb_strings = [], wb_runlists = [], sheet_names = [], sh_abs_posn = [], sheet_visibility = [],
     all_sheets_map = [], sheet_num_from_name = [], sheetsoffset = None, extnsht_count = 0, externsheet_info = [],
     externsheet_type_b57 = [], extnsht_name_from_num = [], supbook_types = [], supbook_locals_inx = None,
     supbook_addins_inx = None, addin_func_names = [], sheet_list = []\<rparr>"

section \<open>Encodings\<close>

definition encoding_from_codepage :: "(int \<times> string) list" where
  "encoding_from_codepage =
     [(1200, ''utf_16_le''), (10000, ''mac_roman''), (10006, ''mac_greek''), (10007, ''mac_cyrillic''),
      (10029, ''mac_latin2''), (10079, ''mac_iceland''), (10081, ''mac_turkish''), (32768, ''mac_roman''),
      (32769, ''cp1252'')]"

definition codepage_name :: "int \<Rightarrow> string" where
  "codepage_name cp =
     (case aget encoding_from_codepage cp of
        Some e \<Rightarrow> e
      | None \<Rightarrow> if 300 \<le> cp \<and> cp \<le> 1999 then ''cp'' @ str_of_int cp else ''unknown_codepage_'' @ str_of_int cp)"

text \<open>\<open>rstrip()\<close> of a text.\<close>

definition space_units :: "int list" where
  "space_units = [9, 10, 11, 12, 13, 28, 29, 30, 31, 32, 0x85, 0xA0, 0x1680, 0x180E] @ [0x2000..0x200A]
     @ [0x2028, 0x2029, 0x202F, 0x205F, 0x3000]"

definition rstrip :: "uname \<Rightarrow> uname" where
  "rstrip s = rev (dropWhile (\<lambda>u. u \<in> set space_units) (rev s))"

definition codec_of :: "load_env \<Rightarrow> wbook \<Rightarrow> bytes \<Rightarrow> uname res" where
  "codec_of env b = (case encoding b of None \<Rightarrow> (\<lambda>_. Inl TypeError) | Some e \<Rightarrow> codec env e)"

definition derive_encoding :: "load_env \<Rightarrow> wbook \<Rightarrow> wbook res" where
  "derive_encoding env b =
     (let b = (case encoding_override env of
            Some (c # e) \<Rightarrow> b\<lparr>encoding := Some (c # e)\<rparr>
          | _ \<Rightarrow> (case codepage b of
                None \<Rightarrow> if biff_version (fmts b) < 80 then b\<lparr>encoding := Some ''ascii''\<rparr> else b\<lparr>codepage := Some 1200\<rparr>
              | Some cp \<Rightarrow> b\<lparr>encoding := Some (codepage_name cp)\<rparr>)) in
      rbind (if codepage b \<noteq> Some 1200 then codec_of env b (map (\<lambda>c. of_char c) ''trial'') else Inr []) (\<lambda>_.
      case raw_user_name b of
        None \<Rightarrow> Inr b
      | Some raw \<Rightarrow> rbind (unpack_string (codec_of env b) raw 0 1) (\<lambda>strg.
          Inr (b\<lparr>user_name := Some (rstrip strg), raw_user_name := None\<rparr>))))"

text \<open>\<open>if not book.encoding: book.derive_encoding()\<close>.\<close>

definition need_encoding :: "load_env \<Rightarrow> wbook \<Rightarrow> wbook res" where
  "need_encoding env b = (if encoding b = None \<or> encoding b = Some [] then derive_encoding env b else Inr b)"

section \<open>Records of the globals\<close>

text \<open>Fonts; the fifth font does not exist, and gets an entry of its own.\<close>

definition font_options :: "int \<Rightarrow> attrs" where
  "font_options flags =
     [(''bold'', flags AND 1), (''italic'', drop_bit 1 (flags AND 2)), (''underlined'', drop_bit 2 (flags AND 4)),
      (''struck_out'', drop_bit 3 (flags AND 8)), (''outline'', drop_bit 4 (flags AND 16)), (''shadow'', drop_bit 5 (flags AND 32))]"

definition cooked_font :: "int \<Rightarrow> attrs" where
  "cooked_font flags =
     [(''weight'', if flags AND 1 = 0 then 400 else 700), (''escapement'', 0), (''underline_type'', drop_bit 2 (flags AND 4)),
      (''family'', 0), (''character_set'', 1)]"

definition read_font :: "(bytes \<Rightarrow> uname res) \<Rightarrow> int \<Rightarrow> int \<Rightarrow> bytes \<Rightarrow> font res" where
  "read_font dec ver k data =
     (if 50 \<le> ver then
        rbind (unpack_fmt [FH, FH, FH, FH, FH, FB, FB, FB] (py_slice data 0 13)) (\<lambda>vs.
        rbind (if 80 \<le> ver then unpack_unicode data 14 1 else unpack_string dec data 14 1) (\<lambda>name.
        Inr \<lparr>font_name = name, font_attrs = [(''font_index'', k), (''height'', vs ! 0), (''colour_index'', vs ! 2),
          (''weight'', vs ! 3), (''escapement'', vs ! 4), (''underline_type'', vs ! 5), (''family'', vs ! 6),
          (''character_set'', vs ! 7)] @ font_options (vs ! 1)\<rparr>))
      else if 30 \<le> ver then
        rbind (unpack_fmt [FH, FH, FH] (py_slice data 0 6)) (\<lambda>vs.
        rbind (unpack_string dec data 6 1) (\<lambda>name.
        Inr \<lparr>font_name = name, font_attrs = [(''font_index'', k), (''height'', vs ! 0), (''colour_index'', vs ! 2)]
          @ font_options (vs ! 1) @ cooked_font (vs ! 1)\<rparr>))
      else
        rbind (unpack_HH (py_slice data 0 4)) (\<lambda>(height, option_flags).
        rbind (unpack_string dec data 4 1) (\<lambda>name.
        Inr \<lparr>font_name = name, font_attrs = [(''font_index'', k), (''height'', height), (''colour_index'', 0x7FFF)]
          @ font_options (option_flags AND 15) @ cooked_font option_flags\<rparr>)))"

definition handle_font :: "load_env \<Rightarrow> bytes \<Rightarrow> wbook \<Rightarrow> wbook res" where
  "handle_font env data b =
     (if \<not> book_formatting_info (fmts b) then Inr b
      else rbind (need_encoding env b) (\<lambda>b.
        let dummy = \<lparr>font_name = ascii ''Dummy Font'', font_attrs = [(''font_index'', 4)]\<rparr>;
            fonts = (if length (font_list b) = 4 then font_list b @ [dummy] else font_list b) in
        rbind (read_font (codec_of env b) (biff_version (fmts b)) (int (length fonts)) data) (\<lambda>f.
        Inr (b\<lparr>font_list := fonts @ [f]\<rparr>))))"

text \<open>A record that the functions of \<open>XlFormats\<close> handle.\<close>

definition on_formats :: "(book \<Rightarrow> book res) \<Rightarrow> wbook \<Rightarrow> wbook res" where
  "on_formats f b = rbind (f (fmts b)) (\<lambda>x. Inr (b\<lparr>fmts := x\<rparr>))"

definition handle_boundsheet :: "load_env \<Rightarrow> bytes \<Rightarrow> wbook \<Rightarrow> wbook res" where
  "handle_boundsheet env data b =
     rbind (derive_encoding env b) (\<lambda>b.
     if biff_version (fmts b) = 45 then Inl Unsupported
     else
       rbind (unpack_fmt [FSI, FB, FB] (py_slice data 0 6)) (\<lambda>vs.
       let abs_posn = vs ! 0 + wbase env; visibility = vs ! 1; sheet_type = vs ! 2 in
       rbind (if biff_version (fmts b) < BIFF_FIRST_UNICODE then unpack_string (codec_of env b) data 6 1
              else unpack_unicode data 6 1) (\<lambda>sheet_name.
       if sheet_type \<noteq> XL_BOUNDSHEET_WORKSHEET then Inr (b\<lparr>all_sheets_map := all_sheets_map b @ [- 1]\<rparr>)
       else
         let snum = int (length (sheet_names b)) in
         Inr (b\<lparr>all_sheets_map := all_sheets_map b @ [snum], sheet_names := sheet_names b @ [sheet_name],
           sh_abs_posn := sh_abs_posn b @ [abs_posn], sheet_visibility := sheet_visibility b @ [visibility],
           sheet_num_from_name := aput (sheet_num_from_name b) sheet_name snum\<rparr>))))"

definition handle_codepage :: "load_env \<Rightarrow> bytes \<Rightarrow> wbook \<Rightarrow> wbook res" where
  "handle_codepage env data b =
     rbind (unpack_u16 (py_slice data 0 2)) (\<lambda>cp. derive_encoding env (b\<lparr>codepage := Some cp\<rparr>))"

definition handle_country :: "bytes \<Rightarrow> wbook \<Rightarrow> wbook res" where
  "handle_country data b =
     rbind (unpack_HH (py_slice data 0 4)) (\<lambda>c.
     if wb_countries b \<noteq> (0, 0) \<and> wb_countries b \<noteq> c then Inl AssertionError else Inr (b\<lparr>wb_countries := c\<rparr>))"

definition handle_datemode :: "bytes \<Rightarrow> wbook \<Rightarrow> wbook res" where
  "handle_datemode data b =
     rbind (unpack_u16 (py_slice data 0 2)) (\<lambda>mode.
     if mode \<notin> {0, 1} then Inl AssertionError else Inr (b\<lparr>datemode := mode\<rparr>))"

definition handle_writeaccess :: "load_env \<Rightarrow> bytes \<Rightarrow> wbook \<Rightarrow> wbook res" where
  "handle_writeaccess env data b =
     (if biff_version (fmts b) < 80 \<and> (encoding b = None \<or> encoding b = Some []) then Inr (b\<lparr>raw_user_name := Some data\<rparr>)
      else
        rbind (if biff_version (fmts b) < 80 then unpack_string (codec_of env b) data 0 1 else unpack_unicode data 0 2) (\<lambda>strg.
        Inr (b\<lparr>user_name := Some (rstrip strg)\<rparr>)))"

definition handle_sheetsoffset :: "bytes \<Rightarrow> wbook \<Rightarrow> wbook res" where
  "handle_sheetsoffset data b = rbind (unpack_i32 data) (\<lambda>posn. Inr (b\<lparr>sheetsoffset := Some posn\<rparr>))"

section \<open>References to other workbooks\<close>

definition handle_externname :: "bytes \<Rightarrow> wbook \<Rightarrow> wbook res" where
  "handle_externname data b =
     (if biff_version (fmts b) < 80 then Inr b
      else
        rbind (unpack_fmt [FH, FI] (py_slice data 0 6)) (\<lambda>_.
        rbind (unpack_unicode_update_pos data 6 1 None) (\<lambda>(name, _).
        rbind (py_nth (supbook_types b) (- 1)) (\<lambda>ty.
        Inr (if ty = Some SUPBOOK_ADDIN then b\<lparr>addin_func_names := addin_func_names b @ [name]\<rparr> else b)))))"

text \<open>The record may go on in \<open>CONTINUE\<close> records.\<close>

function extern_data :: "bytes \<Rightarrow> int \<Rightarrow> bytes \<Rightarrow> int \<Rightarrow> (bytes \<times> int) res" where
  "extern_data m bytes_reqd data pos =
     (if bytes_reqd \<le> int (length data) then Inr (data, pos)
      else rbind (get_record_parts m pos) (\<lambda>(parts, pos).
        case parts of (code2, _, data2) \<Rightarrow>
          if code2 \<noteq> XL_CONTINUE then Inl XLRDError else extern_data m bytes_reqd (data @ data2) pos))"
  by pat_completeness auto
termination
  by (relation "measure (\<lambda>(m, bytes_reqd, data, pos). nat (int (length m) - pos))") (auto dest: record_measure)

declare extern_data.simps [simp del]

definition handle_externsheet :: "load_env \<Rightarrow> bytes \<Rightarrow> int \<Rightarrow> wbook \<Rightarrow> (wbook \<times> int) res" where
  "handle_externsheet env data pos b =
     rbind (derive_encoding env b) (\<lambda>b.
     let b = b\<lparr>extnsht_count := extnsht_count b + 1\<rparr> in
     if 80 \<le> biff_version (fmts b) then
       rbind (unpack_u16 (py_slice data 0 2)) (\<lambda>num_refs.
       rbind (extern_data (wmem env) (num_refs * 6 + 2) data pos) (\<lambda>(data, pos).
       rbind (rmap (\<lambda>k. rbind (unpack_H 3 (py_slice data (2 + 6 * k) (2 + 6 * k + 6))) (\<lambda>vs. Inr (vs ! 0, vs ! 1, vs ! 2)))
         [0..num_refs - 1]) (\<lambda>infos.
       Inr (b\<lparr>externsheet_info := externsheet_info b @ infos\<rparr>, pos))))
     else
       rbind (unpack_fmt [FB, FB] (py_slice data 0 2)) (\<lambda>vs.
       let nc = vs ! 0; ty = vs ! 1 in
       rbind (if ty = 3 then
                rbind (codec_of env b (py_slice data 2 (nc + 2))) (\<lambda>sheet_name.
                Inr (b\<lparr>extnsht_name_from_num := aput (extnsht_name_from_num b) (extnsht_count b) sheet_name\<rparr>))
              else Inr b) (\<lambda>b.
       Inr (b\<lparr>externsheet_type_b57 := externsheet_type_b57 b @ [if 1 \<le> ty \<and> ty \<le> 4 then ty else 0]\<rparr>, pos))))"

text \<open>The names of the sheets of another workbook are read and dropped; a record that is too short ends the loop.\<close>

fun supbook_names :: "nat \<Rightarrow> bytes \<Rightarrow> int \<Rightarrow> unit res" where
  "supbook_names 0 data pos = Inr ()"
| "supbook_names (Suc n) data pos =
     (case unpack_unicode_update_pos data pos 2 None of
        Inl StructError \<Rightarrow> Inr ()
      | Inl e \<Rightarrow> Inl e
      | Inr (_, pos) \<Rightarrow> supbook_names n data pos)"

definition handle_supbook :: "bytes \<Rightarrow> wbook \<Rightarrow> wbook res" where
  "handle_supbook data b =
     rbind (unpack_u16 (py_slice data 0 2)) (\<lambda>num_sheets.
     let n = int (length (supbook_types b));
         typed = (\<lambda>ty. b\<lparr>supbook_types := supbook_types b @ [Some ty]\<rparr>) in
     if py_slice data 2 4 = [0x01, 0x04] then Inr ((typed SUPBOOK_INTERNAL)\<lparr>supbook_locals_inx := Some n\<rparr>)
     else if py_slice data 0 4 = [0x01, 0x00, 0x01, 0x3A] then Inr ((typed SUPBOOK_ADDIN)\<lparr>supbook_addins_inx := Some n\<rparr>)
     else
       rbind (unpack_unicode_update_pos data 2 2 None) (\<lambda>(url, pos).
       if num_sheets = 0 then Inr (typed SUPBOOK_DDEOLE)
       else rbind (supbook_names (nat num_sheets) data pos) (\<lambda>_. Inr (typed SUPBOOK_EXTERNAL))))"

section \<open>The globals\<close>

definition global_sst :: "load_env \<Rightarrow> bytes \<Rightarrow> int \<Rightarrow> wbook \<Rightarrow> (wbook \<times> int) res" where
  "global_sst env data pos b =
     rbind (handle_sst (wmem env) pos data) (\<lambda>((strings, rt_runlist), pos).
     Inr (b\<lparr>wb_strings := strings,
       wb_runlists := (if book_formatting_info (fmts b) then rt_runlist else wb_runlists b)\<rparr>, pos))"

text \<open>A record of the globals that stays in its place.\<close>

definition global_plain :: "load_env \<Rightarrow> int \<Rightarrow> bytes \<Rightarrow> wbook \<Rightarrow> wbook res" where
  "global_plain env rc data b =
     (if rc = XL_FONT \<or> rc = XL_FONT_B3B4 then handle_font env data b
      else if rc = XL_FORMAT then
        rbind (need_encoding env b) (\<lambda>b. on_formats (handle_format (codec_of env b) data rc) b)
      else if rc = XL_XF then on_formats (handle_xf data) b
      else if rc = XL_BOUNDSHEET then handle_boundsheet env data b
      else if rc = XL_DATEMODE then handle_datemode data b
      else if rc = XL_CODEPAGE then handle_codepage env data b
      else if rc = XL_COUNTRY then handle_country data b
      else if rc = XL_EXTERNNAME then handle_externname data b
      else if rc = XL_FILEPASS then Inl XLRDError
      else if rc = XL_WRITEACCESS then handle_writeaccess env data b
      else if rc = XL_SHEETSOFFSET then handle_sheetsoffset data b
      else if rc = XL_SHEETHDR \<or> rc = XL_NAME then Inl Unsupported
      else if rc = XL_SUPBOOK then handle_supbook data b
      else if rc = XL_PALETTE then on_formats (handle_palette data) b
      else if rc = XL_STYLE then on_formats (handle_style (codec_of env b) data) b
      else Inr b)"

definition global_record :: "load_env \<Rightarrow> int \<Rightarrow> bytes \<Rightarrow> int \<Rightarrow> wbook \<Rightarrow> (wbook \<times> int) res" where
  "global_record env rc data pos b =
     (if rc = XL_SST then global_sst env data pos b
      else if rc = XL_EXTERNSHEET then handle_externsheet env data pos b
      else rbind (global_plain env rc data b) (\<lambda>b. Inr (b, pos)))"

text \<open>No record moves the position back.\<close>

lemma sst_continued_moves: "sst_continued m pos = Inr (ds, pos') \<Longrightarrow> pos \<le> pos'"
proof (induction m pos arbitrary: ds rule: sst_continued.induct)
  case (1 m pos)
  show ?case
  proof (cases "get_record_parts_conditional XL_CONTINUE m pos")
    case (Inr x)
    obtain code nb data p where x: "x = ((code, nb, data), p)" by (cases x) auto
    note g = Inr [unfolded x]
    show ?thesis
    proof (cases code)
      case None
      then have "p = pos" using g by (auto simp: get_record_parts_conditional_def Let_def split: if_splits)
      then show ?thesis using 1(2) g None by (subst (asm) sst_continued.simps) simp
    next
      case (Some c)
      then obtain ds' where "sst_continued m p = Inr (ds', pos')" using 1(2) g by (subst (asm) sst_continued.simps) auto
      from 1(1) [OF g refl refl Some refl this] conditional_moves [OF g [unfolded Some]] show ?thesis by simp
    qed
  qed (use 1(2) in \<open>subst (asm) sst_continued.simps, simp\<close>)
qed

lemma extern_data_moves: "extern_data m n data pos = Inr (d, pos') \<Longrightarrow> pos \<le> pos'"
proof (induction m n data pos rule: extern_data.induct)
  case (1 m n data pos)
  show ?case
  proof (cases "n \<le> int (length data)")
    case True
    with 1(2) show ?thesis by (subst (asm) extern_data.simps) simp
  next
    case False
    with 1(2) obtain len data2 p where g: "get_record_parts m pos = Inr ((XL_CONTINUE, len, data2), p)"
      and s: "extern_data m n (data @ data2) p = Inr (d, pos')"
      by (subst (asm) extern_data.simps) (auto split: if_splits)
    have "p \<le> pos'" using 1(1) [OF False g refl refl refl] s by simp
    with record_moves [OF g] show ?thesis by simp
  qed
qed

lemma global_sst_moves: "global_sst env data pos b = Inr (b', pos') \<Longrightarrow> pos \<le> pos'"
  by (auto simp: global_sst_def handle_sst_def dest: sst_continued_moves)

lemma handle_externsheet_moves:
  assumes "handle_externsheet env data pos b = Inr (b', pos')"
  shows "pos \<le> pos'"
proof -
  from assms obtain b1 where d: "derive_encoding env b = Inr b1" by (auto simp: handle_externsheet_def)
  show ?thesis
  proof (cases "80 \<le> biff_version (fmts b1)")
    case True
    then show ?thesis using assms d by (auto simp: handle_externsheet_def Let_def dest: extern_data_moves)
  next
    case False
    then show ?thesis using assms d by (auto simp: handle_externsheet_def Let_def)
  qed
qed

lemma global_record_moves: "global_record env rc data pos b = Inr (b', pos') \<Longrightarrow> pos \<le> pos'"
  by (auto simp: global_record_def split: if_splits dest: global_sst_moves handle_externsheet_moves)

function global_records :: "load_env \<Rightarrow> int \<Rightarrow> wbook \<Rightarrow> (wbook \<times> int) res" where
  "global_records env pos b =
     rbind (get_record_parts (wmem env) pos) (\<lambda>(parts, pos).
     case parts of (rc, _, data) \<Rightarrow>
       if rc = XL_EOF then Inr (b, pos)
       else rbind (global_record env rc data pos b) (\<lambda>(b, pos). global_records env pos b))"
  by pat_completeness auto
termination
proof (relation "measure (\<lambda>(env, pos, b). nat (int (length (wmem env)) - pos))", goal_cases)
  case 1
  then show ?case by simp
next
  case 2
  then show ?case by (auto dest!: record_moves global_record_moves)
qed

declare global_records.simps [simp del]

text \<open>
  At the end of the globals the cell formats are completed; the epilogues of the names, of which there are
  none, and of the palette change nothing that is modelled.
\<close>

definition parse_globals :: "load_env \<Rightarrow> int \<Rightarrow> wbook \<Rightarrow> wbook res" where
  "parse_globals env pos b =
     rbind (on_formats initialise_colour_map b) (\<lambda>b.
     rbind (global_records env pos b) (\<lambda>(b, _).
     rbind (on_formats xf_epilogue b) (\<lambda>b. need_encoding env b)))"

section \<open>The beginning of a stream\<close>

text \<open>The version of a \<open>BOF\<close> record: its number, and the fields at its front.\<close>

definition bof_version :: "int \<Rightarrow> int \<Rightarrow> int \<Rightarrow> int \<Rightarrow> int \<Rightarrow> int" where
  "bof_version opcode version2 streamtype build year =
     (let version1 = drop_bit 8 opcode;
          version =
            (if version1 = 0x08 then
               (if version2 = 0x0600 then 80
                else if version2 = 0x0500 then (if year < 1994 \<or> build \<in> {2412, 3218, 3321} then 50 else 70)
                else (case aget [(0x0000, 21), (0x0007, 21), (0x0200, 21), (0x0300, 30), (0x0400, 40)] version2 of
                    None \<Rightarrow> 0 | Some v \<Rightarrow> v))
             else (case aget [(0x04, 40), (0x02, 30), (0x00, 21)] version1 of None \<Rightarrow> 0 | Some v \<Rightarrow> v))
      in if version = 40 \<and> streamtype = XL_WORKBOOK_GLOBALS_4W then 45 else version)"

definition getbof :: "bytes \<Rightarrow> int \<Rightarrow> int \<Rightarrow> (int \<times> int) res" where
  "getbof m pos rqd_stream =
     (let (opcode, pos) = get2bytes m pos in
      if opcode = MY_EOF \<or> opcode \<notin> set bofcodes then Inl XLRDError
      else
        let (len, pos) = get2bytes m pos in
        if len = MY_EOF \<or> \<not> (4 \<le> len \<and> len \<le> 20) then Inl XLRDError
        else
          let padding = replicate (nat ((case aget boflen opcode of None \<Rightarrow> 0 | Some n \<Rightarrow> n) - len)) 0;
              (data, pos) = read_bytes m pos len in
          if int (length data) < len then Inl XLRDError
          else
            let data = data @ padding in
            rbind (unpack_HH (py_slice data 0 4)) (\<lambda>(version2, streamtype).
            rbind (if drop_bit 8 opcode = 0x08 then unpack_HH (py_slice data 4 8) else Inr (0, 0)) (\<lambda>(build, year).
            let version = bof_version opcode version2 streamtype build year;
                got_globals = (streamtype = XL_WORKBOOK_GLOBALS \<or> version = 45 \<and> streamtype = XL_WORKBOOK_GLOBALS_4W) in
            if rqd_stream = XL_WORKBOOK_GLOBALS \<and> got_globals \<or> streamtype = rqd_stream then Inr (version, pos)
            else if version < 50 \<and> streamtype = XL_WORKSHEET then Inr (version, pos)
            else Inl XLRDError)))"

section \<open>The sheets\<close>

definition sheet_env_of :: "load_env \<Rightarrow> wbook \<Rightarrow> sheet_env" where
  "sheet_env_of env b =
     (let ver = biff_version (fmts b) in
      \<lparr>mem = wmem env, bv = ver,
       conf = \<lparr>formatting_info = book_formatting_info (fmts b), utter_max_rows = (if 80 \<le> ver then 65536 else 16384),
               utter_max_cols = 256, xf_index_to_type = aget (xf_index_to_xl_type_map (fmts b))\<rparr>,
       ragged = opt_ragged_rows env, sharedstrings = wb_strings b, runlists = wb_runlists b, decode = codec_of env b,
       env_colour_map = colour_map (fmts b)\<rparr>)"

definition get_sheet :: "load_env \<Rightarrow> nat \<Rightarrow> wbook \<Rightarrow> wbook res" where
  "get_sheet env sh_number b =
     rbind (getbof (wmem env) (sh_abs_posn b ! sh_number) XL_WORKSHEET) (\<lambda>(_, pos).
     rbind (sheet_read (sheet_env_of env b) pos (new_sheet (wb_countries b))) (\<lambda>sh.
     Inr (b\<lparr>wb_countries := countries sh, sheet_list := sheet_list b @ [sh]\<rparr>)))"

definition get_sheets :: "load_env \<Rightarrow> wbook \<Rightarrow> wbook res" where
  "get_sheets env b = rfold (get_sheet env) [0..<length (sheet_names b)] b"

section \<open>Opening a workbook\<close>

text \<open>
  The stream of the workbook and the position of its globals: the file itself when it is not a compound document.
  \<open>lower\<close> and \<open>depth\<close> are the arguments of \<open>CompDoc\<close>; no value when the reading of a chain does not end.
\<close>

fun find_workbook :: "(uname \<Rightarrow> uname) \<Rightarrow> uname list \<Rightarrow> compdoc \<Rightarrow> (bytes \<times> int) res option" where
  "find_workbook lower [] cd = Some (Inl XLRDError)"
| "find_workbook lower (qname # qnames) cd =
     stream_res (locate_named_stream lower cd qname) (\<lambda>((m, start, len), cd).
     case m of
       Some (x # xs) \<Rightarrow> Some (Inr (x # xs, start))
     | _ \<Rightarrow> find_workbook lower qnames cd)"

definition biff2_8_load :: "(uname \<Rightarrow> uname) \<Rightarrow> nat \<Rightarrow> bytes \<Rightarrow> (bytes \<times> int) res option" where
  "biff2_8_load lower depth filestr =
     (if filestr = [] then Some (Inl XLRDError)
      else if py_slice filestr 0 8 \<noteq> SIGNATURE then Some (Inr (filestr, 0))
      else stream_res (open_compdoc depth filestr) (find_workbook lower [ascii ''Workbook'', ascii ''Book'']))"

record options =
  o_encoding :: "string option"
  o_formatting_info :: bool
  o_ragged_rows :: bool
  o_codec :: "string \<Rightarrow> bytes \<Rightarrow> uname res"

definition env_of :: "options \<Rightarrow> bytes \<Rightarrow> int \<Rightarrow> load_env" where
  "env_of opts m start =
     \<lparr>wmem = m, wbase = start, encoding_override = o_encoding opts, opt_formatting_info = o_formatting_info opts,
      opt_ragged_rows = o_ragged_rows opts, codec = o_codec opts\<rparr>"

text \<open>The book before its sheets are read: what \<open>on_demand\<close> asks for.\<close>

definition load_globals :: "options \<Rightarrow> bytes \<times> int \<Rightarrow> (load_env \<times> wbook) res" where
  "load_globals opts = (\<lambda>(m, start).
     let env = env_of opts m start in
     rbind (getbof m start XL_WORKBOOK_GLOBALS) (\<lambda>(version, pos).
     if version = 0 \<or> version \<notin> set SUPPORTED_VERSIONS then Inl XLRDError
     else if version \<le> 45 then Inl Unsupported
     else rbind (parse_globals env pos (new_book env version)) (\<lambda>b. Inr (env, b))))"

definition load_book :: "options \<Rightarrow> bytes \<times> int \<Rightarrow> wbook res" where
  "load_book opts x = rbind (load_globals opts x) (\<lambda>(env, b). get_sheets env b)"

text \<open>Sheets read one by one, each when the caller asks for it, up to the first exception.\<close>

fun demand_sheets :: "load_env \<Rightarrow> nat list \<Rightarrow> wbook \<Rightarrow> sheet list \<times> pyerr option" where
  "demand_sheets env [] b = ([], None)"
| "demand_sheets env (sheetx # sheetxs) b =
     (case get_sheet env sheetx b of
        Inl e \<Rightarrow> ([], Some e)
      | Inr b \<Rightarrow> (let (shs, e) = demand_sheets env sheetxs b in (last (sheet_list b) # shs, e)))"

definition open_workbook_xls :: "(uname \<Rightarrow> uname) \<Rightarrow> nat \<Rightarrow> options \<Rightarrow> bytes \<Rightarrow> wbook res option" where
  "open_workbook_xls lower depth opts filestr =
     stream_res (biff2_8_load lower depth filestr) (\<lambda>x. Some (load_book opts x))"

text \<open>The choice by the first bytes of the file; a ZIP file holds another format.\<close>

definition open_workbook :: "(uname \<Rightarrow> uname) \<Rightarrow> nat \<Rightarrow> options \<Rightarrow> bytes \<Rightarrow> wbook res option" where
  "open_workbook lower depth opts filestr =
     (if py_slice filestr 0 4 = [0x50, 0x4B, 3, 4] then Some (Inl Unsupported)
      else open_workbook_xls lower depth opts filestr)"

definition open_on_demand :: "(uname \<Rightarrow> uname) \<Rightarrow> nat \<Rightarrow> options \<Rightarrow> bytes \<Rightarrow> (load_env \<times> wbook) res option" where
  "open_on_demand lower depth opts filestr =
     (if py_slice filestr 0 4 = [0x50, 0x4B, 3, 4] then Some (Inl Unsupported)
      else stream_res (biff2_8_load lower depth filestr) (\<lambda>x. Some (load_globals opts x)))"

end
