(* ===== verification/XlBookProps.thy ===== *)
theory XlBookProps
  imports XlBook XlSheetProps
begin

text \<open>
  What opening a workbook promises: the sheets a writer has laid out in a stream, with the records of the
  globals that name them, the table of shared strings and the cell formats, are the sheets of the workbook.
\<close>

section \<open>The beginning of a stream\<close>

definition bof_bytes :: "int \<Rightarrow> int \<times> int \<Rightarrow> bytes \<Rightarrow> bytes" where
  "bof_bytes streamtype made extra = record_bytes 0x809 (HH_bytes (0x600, streamtype) @ HH_bytes made @ extra)"

lemma length_HH_bytes [simp]: "length (HH_bytes p) = 4"
  by (simp add: HH_bytes_def)

lemma two_bytes: "u16_ok n \<Longrightarrow> push_bit 8 (n div 256) OR (n mod 256) = n"
proof -
  have "concat_bit 8 (n mod 256) (n div 256) = take_bit 8 (n mod 256) + push_bit 8 (n div 256)" by (rule concat_bit_eq)
  then show ?thesis by (simp add: concat_bit_def take_bit_eq_mod push_bit_eq_mult or.commute)
qed

lemma get2bytes_at:
  assumes "0 \<le> pos" and "u16_ok n" and "drop (nat pos) m = le_bytes 2 n @ r"
  shows "get2bytes m pos = (n, pos + 2)"
proof -
  have "py_slice m pos (pos + 2) = le_bytes 2 n" using u16.slice_at [OF assms(2), of "nat pos" m r] assms(1,3) by simp
  also have "\<dots> = [word_of_int n, word_of_int (n div 256)]" by (simp add: eval_nat_numeral)
  moreover have "0 \<le> n div 256" "n div 256 < 256"
    using assms(2) zdiv_mono1 [of n 65535 256] by (simp_all add: u16_ok_def pos_imp_zdiv_nonneg_iff)
  note high = this
  moreover have "uint (word_of_int n :: 8 word) = n mod 256" "uint (word_of_int (n div 256) :: 8 word) = n div 256"
    using high by (simp_all add: uint_word_of_int mod_pos_pos_trivial)
  ultimately show ?thesis using two_bytes [OF assms(2)] by (simp add: get2bytes_def)
qed

lemma getbof_reads:
  assumes "0 \<le> pos" and "drop (nat pos) m = bof_bytes ty made extra @ r" and "HH_ok made" and "length extra \<le> 12"
    and "ty \<in> {XL_WORKBOOK_GLOBALS, XL_WORKSHEET}"
  shows "getbof m pos ty = Inr (80, pos + int (length (bof_bytes ty made extra)))"
proof -
  let ?d = "HH_bytes (0x600, ty) @ HH_bytes made @ extra"
  have ok: "HH_ok (0x600, ty)" using assms(5) by (auto simp: HH_ok_def u16_ok_def XL_WORKBOOK_GLOBALS_def XL_WORKSHEET_def)
  have h: "drop (nat pos) m = le_bytes 2 0x809 @ le_bytes 2 (int (length ?d)) @ ?d @ r"
    using assms(2) by (simp add: bof_bytes_def record_bytes_def HH_bytes_def)
  have op: "get2bytes m pos = (0x809, pos + 2)" using get2bytes_at [OF assms(1) _ h] by (simp add: u16_ok_def)
  have h2: "drop (nat (pos + 2)) m = le_bytes 2 (int (length ?d)) @ ?d @ r" using drop_further [OF assms(1) h] by simp
  have len: "get2bytes m (pos + 2) = (int (length ?d), pos + 4)" using get2bytes_at [OF _ _ h2] assms(1,4) by (simp add: u16_ok_def)
  have "0 \<le> pos + 2" using assms(1) by simp
  from drop_further [OF this h2] have h4: "drop (nat (pos + 4)) m = ?d @ r" by (simp add: add.commute)
  have "py_slice m (pos + 4) (pos + 4 + int (length ?d)) = ?d" using assms(1) h4 by (simp add: py_slice_nonneg)
  then have rd: "read_bytes m (pos + 4) (int (length ?d)) = (?d, pos + 4 + int (length ?d))" by (simp add: read_bytes_def)
  have s: "unpack_HH (py_slice (?d @ x) 0 4) = Inr (0x600, ty)" "unpack_HH (py_slice (?d @ x) 4 8) = Inr made" for x
    using HH.dec_enc [OF ok] HH.dec_enc [OF assms(3)] by (simp_all add: py_slice_nonneg)
  have v: "bof_version 0x809 0x600 ty build year = 80" for build year by (simp add: bof_version_def)
  have p: "pos + int (length (bof_bytes ty made extra)) = pos + 4 + int (length ?d)" by (simp add: bof_bytes_def)
  have l: "4 \<le> int (length ?d) \<and> int (length ?d) \<le> 20" using assms(4) by simp
  have b: "(0x809 :: int) \<noteq> MY_EOF" "(0x809 :: int) \<in> set bofcodes" "int (length ?d) \<noteq> MY_EOF"
    using assms(4) by (simp_all add: MY_EOF_def bofcodes_def)
  have "drop_bit 8 (0x809 :: int) = 8" by simp
  then show ?thesis
    unfolding getbof_def op len rd Let_def prod.case s p
    by (cases made, simp only: b l v rbind_Inr prod.case simp_thms if_True if_False less_irrefl)
      (use assms(4) in \<open>simp add: MY_EOF_def\<close>)
qed

section \<open>A writer of globals\<close>

text \<open>
  The records of the globals of a workbook of BIFF8 whose formats are not kept: a sheet with its name,
  visibility, type and offset, the shared strings, date mode, code page, countries, user, formats, cell
  formats, and any record the reader passes over.
\<close>

datatype grec =
    GSheet "bool \<times> uname" int int int
  | GStrings bytes "sst_entry list"
  | GDateMode int
  | GCodepage
  | GCountry "int \<times> int"
  | GUser "bool \<times> uname" bytes
  | GFormat bytes
  | GXf bytes
  | GSkip int bytes

primrec grec_code :: "grec \<Rightarrow> int" where
  "grec_code (GSheet name vis ty off) = XL_BOUNDSHEET"
| "grec_code (GStrings used es) = XL_SST"
| "grec_code (GDateMode mode) = XL_DATEMODE"
| "grec_code GCodepage = XL_CODEPAGE"
| "grec_code (GCountry c) = XL_COUNTRY"
| "grec_code (GUser name pad) = XL_WRITEACCESS"
| "grec_code (GFormat d) = XL_FORMAT"
| "grec_code (GXf d) = XL_XF"
| "grec_code (GSkip rc d) = rc"

primrec grec_data :: "grec \<Rightarrow> bytes" where
  "grec_data (GSheet name vis ty off) = fmt_bytes [(FSI, off), (FB, vis), (FB, ty)] @ counted_text 1 name"
| "grec_data (GStrings used es) = fst (sst_layout used es)"
| "grec_data (GDateMode mode) = le_bytes 2 mode"
| "grec_data GCodepage = le_bytes 2 1200"
| "grec_data (GCountry c) = HH_bytes c"
| "grec_data (GUser name pad) = text_bytes name @ pad"
| "grec_data (GFormat d) = d"
| "grec_data (GXf d) = d"
| "grec_data (GSkip rc d) = d"

text \<open>Only the shared strings go on in further records.\<close>

definition grec_tail :: "grec \<Rightarrow> bytes list" where
  "grec_tail x = (case x of GStrings used es \<Rightarrow> snd (sst_layout used es) | _ \<Rightarrow> [])"

definition grec_bytes :: "grec \<Rightarrow> bytes" where
  "grec_bytes x = record_bytes (grec_code x) (grec_data x) @ continued (grec_tail x)"

text \<open>The records the reader of the globals acts on when formats are not kept.\<close>

definition global_codes :: "int list" where
  "global_codes = [XL_SST, XL_EXTERNSHEET, XL_FORMAT, XL_XF, XL_BOUNDSHEET, XL_DATEMODE, XL_CODEPAGE, XL_COUNTRY, XL_EXTERNNAME,
     XL_FILEPASS, XL_WRITEACCESS, XL_SHEETSOFFSET, XL_SHEETHDR, XL_NAME, XL_SUPBOOK, XL_EOF, XL_CONTINUE]"

definition grec_fits :: "int \<times> int \<Rightarrow> grec \<Rightarrow> bool" where
  "grec_fits cc x \<longleftrightarrow> (case x of
     GSheet name vis ty off \<Rightarrow> text_piece_ok name \<and> length (snd name) < 256 \<and> byte_ok vis \<and> byte_ok ty \<and> 0 \<le> off \<and> off < 2 ^ 31
   | GStrings used es \<Rightarrow> length used = 4 \<and> list_all entry_ok es \<and> length es < 2 ^ 31
   | GDateMode mode \<Rightarrow> mode \<in> {0, 1}
   | GCodepage \<Rightarrow> True
   | GCountry c \<Rightarrow> c = cc \<and> HH_ok c
   | GUser name pad \<Rightarrow> text_piece_ok name \<and> length (snd name) < 65536
   | GFormat d \<Rightarrow> True
   | GXf d \<Rightarrow> True
   | GSkip rc d \<Rightarrow> u16_ok rc \<and> rc \<notin> set global_codes)"

definition grec_ok :: "int \<times> int \<Rightarrow> grec \<Rightarrow> bool" where
  "grec_ok cc x \<longleftrightarrow> grec_fits cc x \<and> length (grec_data x) < 65536 \<and> list_all (\<lambda>d. length d < 65536) (grec_tail x)"

text \<open>What a record stands for.\<close>

definition grec_sheets :: "grec \<Rightarrow> (uname \<times> int) list" where
  "grec_sheets x = (case x of GSheet name vis ty off \<Rightarrow> if ty = 0 then [(snd name, off)] else [] | _ \<Rightarrow> [])"

definition grec_strings :: "grec \<Rightarrow> uname list \<Rightarrow> uname list" where
  "grec_strings x ss = (case x of GStrings used es \<Rightarrow> map entry_text es | _ \<Rightarrow> ss)"

definition grec_mode :: "grec \<Rightarrow> int \<Rightarrow> int" where
  "grec_mode x m = (case x of GDateMode mode \<Rightarrow> mode | _ \<Rightarrow> m)"

definition grec_formats :: "grec \<Rightarrow> book \<Rightarrow> book res" where
  "grec_formats x = (case x of GFormat d \<Rightarrow> handle_format (\<lambda>_. Inl TypeError) d XL_FORMAT | GXf d \<Rightarrow> handle_xf d | _ \<Rightarrow> Inr)"

section \<open>One record of the globals\<close>

text \<open>A workbook whose encoding is not asked for: BIFF8, no codec, no formats.\<close>

definition plain_book :: "int \<times> int \<Rightarrow> wbook \<Rightarrow> bool" where
  "plain_book cc b \<longleftrightarrow> biff_version (fmts b) = 80 \<and> \<not> book_formatting_info (fmts b) \<and> codepage b \<in> {None, Some 1200}
     \<and> raw_user_name b = None \<and> wb_countries b \<in> {(0, 0), cc}"

definition sees :: "load_env \<Rightarrow> int \<times> int \<Rightarrow> grec \<Rightarrow> wbook \<Rightarrow> wbook \<Rightarrow> bool" where
  "sees env cc x b b' \<longleftrightarrow> plain_book cc b' \<and> sheet_names b' = sheet_names b @ map fst (grec_sheets x) \<and>
     sh_abs_posn b' = sh_abs_posn b @ map (\<lambda>(name, off). off + wbase env) (grec_sheets x) \<and>
     wb_strings b' = grec_strings x (wb_strings b) \<and> datemode b' = grec_mode x (datemode b) \<and> sheet_list b' = sheet_list b"

lemma derive_plain:
  assumes "encoding_override env = None" and "plain_book cc b"
  shows "\<exists>c e. derive_encoding env b = Inr (b\<lparr>codepage := c, encoding := e\<rparr>) \<and> c \<in> {None, Some 1200}"
proof (cases "codepage b")
  case None
  then have "derive_encoding env b = Inr (b\<lparr>codepage := Some 1200, encoding := encoding b\<rparr>)"
    using assms by (simp add: derive_encoding_def plain_book_def)
  then show ?thesis by blast
next
  case (Some n)
  then have "derive_encoding env b = Inr (b\<lparr>codepage := codepage b, encoding := Some (codepage_name n)\<rparr>)" and "n = 1200"
    using assms by (auto simp: derive_encoding_def plain_book_def)
  then show ?thesis using Some by blast
qed

lemma need_plain:
  assumes "encoding_override env = None" and "plain_book cc b"
  shows "\<exists>c e. need_encoding env b = Inr (b\<lparr>codepage := c, encoding := e\<rparr>) \<and> c \<in> {None, Some 1200}"
proof (cases "encoding b = None \<or> encoding b = Some []")
  case True
  then show ?thesis using derive_plain [OF assms] by (simp add: need_encoding_def)
next
  case False
  moreover have "codepage b \<in> {None, Some 1200}" using assms(2) by (simp add: plain_book_def)
  moreover have "b = b\<lparr>codepage := codepage b, encoding := encoding b\<rparr>" by simp
  ultimately show ?thesis unfolding need_encoding_def by (intro exI [of _ "codepage b"] exI [of _ "encoding b"]) auto
qed

lemma fold_keeps: "(\<And>x y. Q (g x y) = Q y) \<Longrightarrow> Q (fold g l y) = Q y"
  by (induction l arbitrary: y) simp_all

lemma fill_in_keeps:
  "biff_version (fill_in_standard_formats f) = biff_version f \<and> book_formatting_info (fill_in_standard_formats f) = book_formatting_info f"
  unfolding fill_in_standard_formats_def by (intro conjI fold_keeps) (simp_all split: prod.split)

lemma handle_xf_keeps:
  assumes "handle_xf d f = Inr f'"
  shows "biff_version f' = biff_version f \<and> book_formatting_info f' = book_formatting_info f"
proof -
  define f0 where "f0 = (if 50 \<le> biff_version f \<and> xfcount f = 0 then fill_in_standard_formats f else f)"
  have "biff_version f0 = biff_version f \<and> book_formatting_info f0 = book_formatting_info f"
    using fill_in_keeps by (simp add: f0_def)
  moreover have "biff_version f' = biff_version f0 \<and> book_formatting_info f' = book_formatting_info f0"
    using assms unfolding handle_xf_def Let_def f0_def [symmetric] by (elim rbind_InrE) auto
  ultimately show ?thesis by simp
qed

lemma grec_formats_keep:
  assumes "grec_formats x f = Inr f'"
  shows "biff_version f' = biff_version f \<and> book_formatting_info f' = book_formatting_info f"
  using assms by (cases x) (auto simp: grec_formats_def handle_format_def Let_def dest: handle_xf_keeps split: if_splits)

lemma handle_format_codec:
  "80 \<le> biff_version f \<Longrightarrow> handle_format dec d XL_FORMAT f = handle_format dec' d XL_FORMAT f"
  by (simp add: handle_format_def XL_FORMAT_def XL_FORMAT2_def Let_def)

text \<open>\<open>global_record\<close> at the records of a writer.\<close>

lemma global_record_codes:
  "global_record env XL_SST d p b = global_sst env d p b"
  "global_record env XL_BOUNDSHEET d p b = rbind (handle_boundsheet env d b) (\<lambda>b. Inr (b, p))"
  "global_record env XL_DATEMODE d p b = rbind (handle_datemode d b) (\<lambda>b. Inr (b, p))"
  "global_record env XL_CODEPAGE d p b = rbind (handle_codepage env d b) (\<lambda>b. Inr (b, p))"
  "global_record env XL_COUNTRY d p b = rbind (handle_country d b) (\<lambda>b. Inr (b, p))"
  "global_record env XL_WRITEACCESS d p b = rbind (handle_writeaccess env d b) (\<lambda>b. Inr (b, p))"
  "global_record env XL_FORMAT d p b =
     rbind (rbind (need_encoding env b) (\<lambda>b. on_formats (handle_format (codec_of env b) d XL_FORMAT) b)) (\<lambda>b. Inr (b, p))"
  "global_record env XL_XF d p b = rbind (on_formats (handle_xf d) b) (\<lambda>b. Inr (b, p))"
  by (simp_all add: global_record_def global_plain_def record_codes XL_FORMAT_def)

lemma boundsheet_reads:
  assumes "encoding_override env = None" and "plain_book cc b" and "text_piece_ok name" and "length (snd name) < 256"
    and "byte_ok vis" and "byte_ok ty" and "0 \<le> off" and "off < 2 ^ 31"
  shows "\<exists>b'. handle_boundsheet env (grec_data (GSheet name vis ty off)) b = Inr b' \<and>
    sees env cc (GSheet name vis ty off) b b' \<and> fmts b' = fmts b"
proof -
  let ?head = "fmt_bytes [(FSI, off), (FB, vis), (FB, ty)]"
  obtain c e where d: "derive_encoding env b = Inr (b\<lparr>codepage := c, encoding := e\<rparr>)" "c \<in> {None, Some 1200}"
    using derive_plain [OF assms(1,2)] by blast
  have "fmt_ok [(FSI, off), (FB, vis), (FB, ty)]"
    using assms(5-8) by (simp add: fmt_ok_def code_ok_def i32_ok_def byte_ok_def)
  from unpack_fmt_bytes [OF this] have h: "unpack_fmt [FSI, FB, FB] (py_slice (?head @ x) 0 6) = Inr [off, vis, ty]" for x
    by (simp add: py_slice_nonneg)
  have n: "unpack_unicode (?head @ counted_text 1 name) 6 1 = Inr (snd name)"
    using unpack_unicode_counted [OF assms(3), of 1 ?head 6 "[]"] assms(4) by simp
  have v: "biff_version (fmts b) = 80" using assms(2) by (simp add: plain_book_def)
  show ?thesis
    using assms(2) d(2) by (auto simp: handle_boundsheet_def d(1) h n [unfolded One_nat_def] v Let_def BIFF_FIRST_UNICODE_def XL_BOUNDSHEET_WORKSHEET_def
        sees_def plain_book_def grec_sheets_def grec_strings_def grec_mode_def simp del: fmt_bytes.simps)
qed

lemma sst_record_reads:
  assumes "plain_book cc b" and "grec_fits cc (GStrings used es)" and "list_all (\<lambda>d. length d < 65536) (grec_tail (GStrings used es))"
    and "0 \<le> p" and "drop (nat p) (wmem env) = continued (grec_tail (GStrings used es)) @ record_bytes code data @ r"
    and "code \<noteq> XL_CONTINUE" and "u16_ok code" and "length data < 65536"
  shows "\<exists>b'. global_sst env (grec_data (GStrings used es)) p b = Inr (b', p + int (length (continued (grec_tail (GStrings used es))))) \<and>
    sees env cc (GStrings used es) b b' \<and> fmts b' = fmts b"
  using handle_sst_reads [of p used es code data "wmem env" r] assms
  by (auto simp: grec_tail_def grec_fits_def global_sst_def sees_def plain_book_def grec_sheets_def grec_strings_def grec_mode_def)

lemma small_record_reads:
  assumes "encoding_override env = None" and "plain_book cc b" and "grec_fits cc x" and "grec_formats x (fmts b) = Inr f'"
    and "case x of GSheet _ _ _ _ \<Rightarrow> False | GStrings _ _ \<Rightarrow> False | _ \<Rightarrow> True"
  shows "\<exists>b'. global_record env (grec_code x) (grec_data x) p b = Inr (b', p) \<and> sees env cc x b b' \<and> fmts b' = f'"
proof -
  note sees = sees_def plain_book_def grec_sheets_def grec_strings_def grec_mode_def
  have keep: "biff_version f' = biff_version (fmts b)" "book_formatting_info f' = book_formatting_info (fmts b)"
    using grec_formats_keep [OF assms(4)] by auto
  have v: "biff_version (fmts b) = 80" using assms(2) by (simp add: plain_book_def)
  show ?thesis
  proof (cases x)
    case (GDateMode mode)
    then have "unpack_u16 (py_slice (le_bytes 2 mode) 0 2) = Inr mode"
      using assms(3) u16.dec_enc [of mode] by (auto simp: grec_fits_def py_slice_nonneg u16_ok_def)
    then show ?thesis using assms(2-4) GDateMode
      by (auto simp: global_record_codes handle_datemode_def grec_fits_def grec_formats_def sees)
  next
    case GCodepage
    have "unpack_u16 (py_slice (le_bytes 2 1200) 0 2) = Inr 1200" using u16.dec_enc [of 1200] by (simp add: py_slice_nonneg u16_ok_def)
    moreover have "plain_book cc (b\<lparr>codepage := Some 1200\<rparr>)" using assms(2) by (simp add: plain_book_def)
    from derive_plain [OF assms(1) this] obtain c e where
      "derive_encoding env (b\<lparr>codepage := Some 1200\<rparr>) = Inr (b\<lparr>codepage := c, encoding := e\<rparr>)" "c \<in> {None, Some 1200}" by auto
    ultimately show ?thesis using assms(2,4) GCodepage
      by (auto simp: global_record_codes handle_codepage_def grec_formats_def sees)
  next
    case (GCountry c)
    then have "unpack_HH (py_slice (HH_bytes c) 0 4) = Inr c" "c = cc" using assms(3) HH.dec_enc [of c] by (auto simp: grec_fits_def py_slice_nonneg)
    then show ?thesis using assms(2,4) GCountry
      by (auto simp: global_record_codes handle_country_def grec_formats_def sees)
  next
    case (GUser name pad)
    then have "unpack_unicode (text_bytes name @ pad) 0 2 = Inr (snd name)"
      using assms(3) unpack_unicode_counted [of name 2 "[]" 0 pad] by (simp add: grec_fits_def text_bytes_counted)
    then show ?thesis using assms(2,4) GUser v
      by (auto simp: global_record_codes handle_writeaccess_def grec_formats_def sees)
  next
    case (GFormat d)
    obtain c e where "need_encoding env b = Inr (b\<lparr>codepage := c, encoding := e\<rparr>)" "c \<in> {None, Some 1200}"
      using need_plain [OF assms(1,2)] by blast
    moreover have "handle_format dec d XL_FORMAT (fmts b) = Inr f'" for dec
      using assms(4) GFormat handle_format_codec [of "fmts b" dec d "\<lambda>_. Inl TypeError"] v by (simp add: grec_formats_def)
    ultimately show ?thesis using assms(2) GFormat keep
      by (auto simp: global_record_codes on_formats_def sees)
  next
    case (GXf d)
    then show ?thesis using assms(2,4) keep
      by (auto simp: global_record_codes on_formats_def grec_formats_def sees)
  next
    case (GSkip rc d)
    then have "global_record env rc d p b = Inr (b, p)"
      using assms(2,3) by (auto simp: global_record_def global_plain_def grec_fits_def global_codes_def plain_book_def
          handle_font_def on_formats_def handle_palette_def handle_style_def)
    then show ?thesis using assms(2,4) GSkip by (auto simp: grec_formats_def sees)
  qed (use assms(5) in simp_all)
qed

lemma grec_code_ok:
  assumes "grec_fits cc x"
  shows "u16_ok (grec_code x)" and "grec_code x \<noteq> XL_EOF" and "grec_code x \<noteq> XL_CONTINUE"
  using assms by (cases x; simp add: grec_fits_def u16_ok_def record_codes XL_FORMAT_def XL_CONTINUE_def global_codes_def)+

lemma grec_reads:
  assumes "encoding_override env = None" and "plain_book cc b" and "grec_ok cc x" and "grec_formats x (fmts b) = Inr f'"
    and "0 \<le> pos" and "drop (nat pos) (wmem env) = grec_bytes x @ record_bytes code data @ r"
    and "code \<noteq> XL_CONTINUE" and "u16_ok code" and "length data < 65536"
  shows "\<exists>b' p. get_record_parts (wmem env) pos = Inr ((grec_code x, int (length (grec_data x)), grec_data x), p) \<and>
    global_record env (grec_code x) (grec_data x) p b = Inr (b', pos + int (length (grec_bytes x))) \<and> sees env cc x b b' \<and> fmts b' = f'"
proof -
  let ?p = "pos + int (length (record_bytes (grec_code x) (grec_data x)))"
  have fits: "grec_fits cc x" and len: "length (grec_data x) < 65536" and tail: "list_all (\<lambda>d. length d < 65536) (grec_tail x)"
    using assms(3) by (simp_all add: grec_ok_def)
  have h: "drop (nat pos) (wmem env) = record_bytes (grec_code x) (grec_data x) @ (continued (grec_tail x) @ record_bytes code data @ r)"
    using assms(6) by (simp add: grec_bytes_def)
  note at = record_at [OF assms(5) h grec_code_ok(1) [OF fits] len]
  have p: "0 \<le> ?p" using assms(5) by simp
  have e: "?p + int (length (continued (grec_tail x))) = pos + int (length (grec_bytes x))" by (simp add: grec_bytes_def)
  have "\<exists>b'. global_record env (grec_code x) (grec_data x) ?p b = Inr (b', ?p + int (length (continued (grec_tail x)))) \<and>
      sees env cc x b b' \<and> fmts b' = f'"
  proof (cases "case x of GSheet _ _ _ _ \<Rightarrow> False | GStrings _ _ \<Rightarrow> False | _ \<Rightarrow> True")
    case True
    then have "continued (grec_tail x) = []" by (cases x) (simp_all add: grec_tail_def continued_def)
    then show ?thesis using small_record_reads [OF assms(1,2) fits assms(4) True, of ?p] by simp
  next
    case False
    then consider name vis ty off where "x = GSheet name vis ty off" | used es where "x = GStrings used es" by (cases x) auto
    then show ?thesis
    proof cases
      case 1
      have "continued (grec_tail x) = []" by (simp add: 1 grec_tail_def continued_def)
      moreover have "f' = fmts b" using assms(4) by (simp add: 1 grec_formats_def)
      ultimately show ?thesis using boundsheet_reads [OF assms(1,2), of name vis ty off] fits
        by (auto simp: 1 grec_fits_def global_record_codes simp del: grec_data.simps)
    next
      case 2
      have "f' = fmts b" using assms(4) by (simp add: 2 grec_formats_def)
      then show ?thesis using sst_record_reads [OF assms(2) fits [unfolded 2] tail [unfolded 2] p [unfolded 2] at(2) [unfolded 2] assms(7-9)]
        by (simp add: 2 global_record_codes del: grec_data.simps)
    qed
  qed
  then show ?thesis using at(1) e by auto
qed

lemma next_record_bytes:
  assumes "list_all (grec_ok cc) gs"
  shows "\<exists>code data r'. concat (map grec_bytes gs) @ record_bytes XL_EOF [] @ r = record_bytes code data @ r' \<and>
    code \<noteq> XL_CONTINUE \<and> u16_ok code \<and> length data < 65536"
proof (cases gs)
  case Nil
  then show ?thesis using eof_code by (intro exI [of _ XL_EOF] exI [of _ "[]"] exI [of _ r]) (simp add: record_codes XL_CONTINUE_def)
next
  case (Cons x xs)
  with assms have "grec_fits cc x" "length (grec_data x) < 65536" by (simp_all add: grec_ok_def)
  then show ?thesis using grec_code_ok Cons
    by (intro exI [of _ "grec_code x"] exI [of _ "grec_data x"]
        exI [of _ "continued (grec_tail x) @ concat (map grec_bytes xs) @ record_bytes XL_EOF [] @ r"]) (auto simp: grec_bytes_def)
qed

section \<open>All records of the globals\<close>

definition sees_all :: "load_env \<Rightarrow> int \<times> int \<Rightarrow> grec list \<Rightarrow> wbook \<Rightarrow> wbook \<Rightarrow> bool" where
  "sees_all env cc gs b b' \<longleftrightarrow> plain_book cc b' \<and> sheet_names b' = sheet_names b @ map fst (concat (map grec_sheets gs)) \<and>
     sh_abs_posn b' = sh_abs_posn b @ map (\<lambda>(name, off). off + wbase env) (concat (map grec_sheets gs)) \<and>
     wb_strings b' = fold grec_strings gs (wb_strings b) \<and> datemode b' = fold grec_mode gs (datemode b) \<and> sheet_list b' = sheet_list b"

lemma global_records_read:
  assumes "encoding_override env = None" and "list_all (grec_ok cc) gs" and "plain_book cc b" and "rfold grec_formats gs (fmts b) = Inr f'"
    and "0 \<le> pos" and "drop (nat pos) (wmem env) = concat (map grec_bytes gs) @ record_bytes XL_EOF [] @ r"
  shows "\<exists>b' p. global_records env pos b = Inr (b', p) \<and> sees_all env cc gs b b' \<and> fmts b' = f'"
  using assms(2-6)
proof (induction gs arbitrary: pos b)
  case Nil
  then have "drop (nat pos) (wmem env) = record_bytes XL_EOF [] @ r" by simp
  from record_at(1) [OF Nil.prems(4) this eof_code] show ?case
    using Nil.prems(2,3) by (subst global_records.simps) (simp add: sees_all_def)
next
  case (Cons x gs)
  let ?rest = "concat (map grec_bytes gs) @ record_bytes XL_EOF [] @ r" and ?pos' = "pos + int (length (grec_bytes x))"
  obtain f1 where f: "grec_formats x (fmts b) = Inr f1" "rfold grec_formats gs f1 = Inr f'" using Cons.prems(3) by auto
  have ok: "grec_ok cc x" "list_all (grec_ok cc) gs" using Cons.prems(1) by simp_all
  have h: "drop (nat pos) (wmem env) = grec_bytes x @ ?rest" using Cons.prems(5) by simp
  obtain code data r' where nx: "?rest = record_bytes code data @ r'" "code \<noteq> XL_CONTINUE" "u16_ok code" "length data < 65536"
    using next_record_bytes [OF ok(2)] by blast
  obtain b1 p where g: "get_record_parts (wmem env) pos = Inr ((grec_code x, int (length (grec_data x)), grec_data x), p)"
    "global_record env (grec_code x) (grec_data x) p b = Inr (b1, ?pos')" "sees env cc x b b1" "fmts b1 = f1"
    using grec_reads [OF assms(1) Cons.prems(2) ok(1) f(1) Cons.prems(4) _ nx(2-4), of r'] h nx(1) by auto
  have "plain_book cc b1" "rfold grec_formats gs (fmts b1) = Inr f'" using g(3,4) f(2) by (simp_all add: sees_def)
  from Cons.IH [OF ok(2) this _ drop_further [OF Cons.prems(4) h]] Cons.prems(4)
  obtain b' q where r: "global_records env ?pos' b1 = Inr (b', q)" "sees_all env cc gs b1 b'" "fmts b' = f'" by auto
  have "grec_code x \<noteq> XL_EOF" using grec_code_ok(2) [of cc x] ok(1) by (simp add: grec_ok_def)
  then have "global_records env pos b = Inr (b', q)" using g(1,2) r(1) by (subst global_records.simps) simp
  moreover have "sees_all env cc (x # gs) b b'" using g(3) r(2) by (simp add: sees_all_def sees_def)
  ultimately show ?case using r(3) by blast
qed

text \<open>The tables of formats before the first record.\<close>

definition start_formats :: book where
  "start_formats = \<lparr>biff_version = 80, book_formatting_info = False, actualfmtcount = 0, format_map = [], format_list = [],
     colour_map = [], palette_record = [], style_name_map = [], xfcount = 0, xf_list = [],
     xf_index_to_xl_type_map = [(0, XL_CELL_NUMBER)]\<rparr>"

lemma new_book_plain:
  assumes "\<not> opt_formatting_info env"
  shows "fmts (new_book env 80) = start_formats" and "plain_book cc (new_book env 80)" and "initialise_colour_map start_formats = Inr start_formats"
  using assms by (simp_all add: new_book_def start_formats_def plain_book_def initialise_colour_map_def)

lemma xf_epilogue_keeps:
  assumes "xf_epilogue f = Inr f'"
  shows "biff_version f' = biff_version f \<and> book_formatting_info f' = book_formatting_info f"
  using assms unfolding xf_epilogue_def
  by (rule rfold_invariant) (auto simp: epilogue_step_def Let_def)

lemma parse_globals_reads:
  assumes "encoding_override env = None" and "\<not> opt_formatting_info env" and "list_all (grec_ok cc) gs"
    and "rbind (rfold grec_formats gs start_formats) xf_epilogue = Inr f" and "0 \<le> pos"
    and "drop (nat pos) (wmem env) = concat (map grec_bytes gs) @ record_bytes XL_EOF [] @ r"
  shows "\<exists>b. parse_globals env pos (new_book env 80) = Inr b \<and> sees_all env cc gs (new_book env 80) b \<and> fmts b = f"
proof -
  note new = new_book_plain [OF assms(2)]
  obtain f1 where f1: "rfold grec_formats gs start_formats = Inr f1" "xf_epilogue f1 = Inr f" using assms(4) by auto
  obtain b1 p where b1: "global_records env pos (new_book env 80) = Inr (b1, p)" "sees_all env cc gs (new_book env 80) b1" "fmts b1 = f1"
    using global_records_read [OF assms(1,3) new(2) _ assms(5,6)] f1(1) new(1) by auto
  let ?b2 = "b1\<lparr>fmts := f\<rparr>"
  have "plain_book cc ?b2" using b1(2,3) xf_epilogue_keeps [OF f1(2)] by (simp add: sees_all_def plain_book_def)
  from need_plain [OF assms(1) this] obtain c e where
    n: "need_encoding env ?b2 = Inr (?b2\<lparr>codepage := c, encoding := e\<rparr>)" "c \<in> {None, Some 1200}" by blast
  have "on_formats initialise_colour_map (new_book env 80) = Inr (new_book env 80)"
    using assms(2) by (simp add: on_formats_def initialise_colour_map_def new_book_def)
  then have "parse_globals env pos (new_book env 80) = Inr (?b2\<lparr>codepage := c, encoding := e\<rparr>)"
    using b1 f1 n by (simp add: parse_globals_def) (simp add: on_formats_def)
  moreover have "sees_all env cc gs (new_book env 80) (?b2\<lparr>codepage := c, encoding := e\<rparr>)"
    using b1(2) n(2) \<open>plain_book cc ?b2\<close> by (simp add: sees_all_def plain_book_def)
  ultimately show ?thesis by simp
qed

section \<open>The sheets\<close>

text \<open>The bytes \<open>bs\<close> stand at a position of the stream.\<close>

definition stands :: "bytes \<Rightarrow> int \<Rightarrow> bytes \<Rightarrow> bool" where
  "stands m pos bs \<longleftrightarrow> 0 \<le> pos \<and> take (length bs) (drop (nat pos) m) = bs"

lemma stands_drop: "stands m pos bs \<Longrightarrow> \<exists>r. drop (nat pos) m = bs @ r"
  by (metis append_take_drop_id stands_def)

text \<open>A sheet of the stream: its \<open>BOF\<close> record and what follows.\<close>

record sheet_part =
  made :: "int \<times> int"
  bof_rest :: bytes
  part_text :: sheet_text

definition part_bytes :: "sheet_part \<Rightarrow> bytes" where
  "part_bytes s = bof_bytes XL_WORKSHEET (made s) (bof_rest s) @ sheet_bytes (part_text s)"

definition part_ok :: "sheet_env \<Rightarrow> sheet_part \<Rightarrow> bool" where
  "part_ok env s \<longleftrightarrow> HH_ok (made s) \<and> length (bof_rest s) \<le> 12 \<and> sheet_text_ok env (part_text s)"

text \<open>What the cells of a sheet depend on: the shared strings and the types of the cell formats.\<close>

definition cell_env :: "uname list \<Rightarrow> (int \<times> nat) list \<Rightarrow> sheet_env" where
  "cell_env strings types = \<lparr>mem = [], bv = 80, conf = \<lparr>formatting_info = False, utter_max_rows = 65536, utter_max_cols = 256,
     xf_index_to_type = aget types\<rparr>, ragged = False, sharedstrings = strings, runlists = [], decode = \<lambda>_. Inl TypeError,
     env_colour_map = []\<rparr>"

lemma srec_env_cong:
  assumes "sharedstrings env = sharedstrings env'" and "conf env = conf env'"
  shows "srec_ok env x = srec_ok env' x" and "srec_puts env x = srec_puts env' x"
  using assms by (cases x; simp)+

lemma sheet_text_cong:
  assumes "sharedstrings env = sharedstrings env'" and "conf env = conf env'"
  shows "sheet_text_ok env t = sheet_text_ok env' t" and "sheet_puts env t = sheet_puts env' t"
proof -
  have "srec_ok env = srec_ok env'" "srec_puts env = srec_puts env'" using srec_env_cong [OF assms] by (simp_all add: fun_eq_iff)
  then show "sheet_text_ok env t = sheet_text_ok env' t" and "sheet_puts env t = sheet_puts env' t"
    using assms(2) by (simp_all add: sheet_text_ok_def sheet_puts_def)
qed

text \<open>The sheet is the table of its cells.\<close>

definition shows_table :: "sheet \<Rightarrow> put list \<Rightarrow> bool" where
  "shows_table sh puts \<longleftrightarrow> nrows (cells sh) = rows_of puts \<and> ncols (cells sh) = cols_of puts \<and> cell_values (cells sh) = table_of puts"

lemma get_sheet_reads:
  assumes "plain_book cc b" and "\<not> opt_ragged_rows env" and "n < length (sh_abs_posn b)"
    and "stands (wmem env) (sh_abs_posn b ! n) (part_bytes s)"
    and "part_ok (cell_env (wb_strings b) (xf_index_to_xl_type_map (fmts b))) s"
  shows "\<exists>c sh. get_sheet env n b = Inr (b\<lparr>wb_countries := c, sheet_list := sheet_list b @ [sh]\<rparr>) \<and>
    shows_table sh (sheet_puts (cell_env (wb_strings b) (xf_index_to_xl_type_map (fmts b))) (part_text s))"
proof -
  let ?pos = "sh_abs_posn b ! n" and ?bof = "bof_bytes XL_WORKSHEET (made s) (bof_rest s)" and ?senv = "sheet_env_of env b"
  have env: "sharedstrings ?senv = sharedstrings (cell_env (wb_strings b) (xf_index_to_xl_type_map (fmts b)))"
    "conf ?senv = conf (cell_env (wb_strings b) (xf_index_to_xl_type_map (fmts b)))" "80 \<le> bv ?senv" "\<not> ragged ?senv" "mem ?senv = wmem env"
    using assms(1,2) by (simp_all add: sheet_env_of_def cell_env_def plain_book_def Let_def)
  obtain r where h: "0 \<le> ?pos" "drop (nat ?pos) (wmem env) = ?bof @ sheet_bytes (part_text s) @ r"
    using stands_drop [OF assms(4)] assms(4) by (auto simp: part_bytes_def stands_def)
  have ok: "HH_ok (made s)" "length (bof_rest s) \<le> 12" "sheet_text_ok ?senv (part_text s)"
    using assms(5) sheet_text_cong(1) [OF env(1,2)] by (simp_all add: part_ok_def)
  have bof: "getbof (wmem env) ?pos XL_WORKSHEET = Inr (80, ?pos + int (length ?bof))"
    using getbof_reads [OF h(1,2) ok(1,2)] by simp
  have "0 \<le> ?pos + int (length ?bof)" using h(1) by simp
  from sheet_read_table [OF env(3,4) ok(3) this, unfolded env(5), OF drop_further [OF h], of "wb_countries b"]
  obtain sh where "sheet_read ?senv (?pos + int (length ?bof)) (new_sheet (wb_countries b)) = Inr sh"
    "shows_table sh (sheet_puts ?senv (part_text s))" unfolding shows_table_def by blast
  then show ?thesis using bof sheet_text_cong(2) [OF env(1,2)]
    by (intro exI [of _ "countries sh"] exI [of _ sh]) (simp add: get_sheet_def)
qed

lemma get_sheets_from:
  assumes "plain_book cc b" and "\<not> opt_ragged_rows env" and "length (sh_abs_posn b) = k + length ss"
    and "list_all2 (\<lambda>pos s. stands (wmem env) pos (part_bytes s)) (drop k (sh_abs_posn b)) ss"
    and "list_all (part_ok (cell_env (wb_strings b) (xf_index_to_xl_type_map (fmts b)))) ss"
  shows "\<exists>c shs. rfold (get_sheet env) [k..<k + length ss] b = Inr (b\<lparr>wb_countries := c, sheet_list := sheet_list b @ shs\<rparr>) \<and>
    list_all2 (\<lambda>sh s. shows_table sh (sheet_puts (cell_env (wb_strings b) (xf_index_to_xl_type_map (fmts b))) (part_text s))) shs ss"
  using assms
proof (induction ss arbitrary: k b cc)
  case Nil
  show ?case by (intro exI [of _ "wb_countries b"] exI [of _ "[]"]) simp
next
  case (Cons s ss)
  let ?shows = "\<lambda>sh s. shows_table sh (sheet_puts (cell_env (wb_strings b) (xf_index_to_xl_type_map (fmts b))) (part_text s))"
  have k: "k < length (sh_abs_posn b)" using Cons.prems(3) by simp
  then have d: "drop k (sh_abs_posn b) = sh_abs_posn b ! k # drop (Suc k) (sh_abs_posn b)" by (simp add: Cons_nth_drop_Suc)
  obtain c sh where s: "get_sheet env k b = Inr (b\<lparr>wb_countries := c, sheet_list := sheet_list b @ [sh]\<rparr>)" "?shows sh s"
    using get_sheet_reads [OF Cons.prems(1,2) k, of s] Cons.prems(4,5) d by auto
  let ?b = "b\<lparr>wb_countries := c, sheet_list := sheet_list b @ [sh]\<rparr>"
  have "plain_book c ?b" using Cons.prems(1) by (simp add: plain_book_def)
  from Cons.IH [OF this Cons.prems(2), of "Suc k"] Cons.prems(3-5) d
  obtain c' shs where r: "rfold (get_sheet env) [Suc k..<Suc k + length ss] ?b = Inr (?b\<lparr>wb_countries := c', sheet_list := sheet_list ?b @ shs\<rparr>)"
    "list_all2 ?shows shs ss" by auto
  have "[k..<k + length (s # ss)] = k # [Suc k..<Suc k + length ss]" by (simp add: upt_conv_Cons del: upt_Suc)
  then show ?case using s r by (intro exI [of _ c'] exI [of _ "sh # shs"]) (simp del: upt_Suc)
qed

section \<open>The whole workbook\<close>

text \<open>The way the converter of the designers' tables opens its files.\<close>

definition default_options :: "options \<Rightarrow> bool" where
  "default_options opts \<longleftrightarrow> o_encoding opts = None \<and> \<not> o_formatting_info opts \<and> \<not> o_ragged_rows opts"

text \<open>A workbook in a stream that starts at \<open>start\<close>: its globals, and every sheet where its record says.\<close>

record book_text =
  book_made :: "int \<times> int"
  book_rest :: bytes
  globals :: "grec list"
  parts :: "sheet_part list"

definition text_sheets :: "book_text \<Rightarrow> (uname \<times> int) list" where
  "text_sheets t = concat (map grec_sheets (globals t))"

definition text_env :: "book_text \<Rightarrow> book \<Rightarrow> sheet_env" where
  "text_env t f = cell_env (fold grec_strings (globals t) []) (xf_index_to_xl_type_map f)"

definition globals_bytes :: "book_text \<Rightarrow> bytes" where
  "globals_bytes t = bof_bytes XL_WORKBOOK_GLOBALS (book_made t) (book_rest t) @ concat (map grec_bytes (globals t)) @ record_bytes XL_EOF []"

definition holds_book :: "bytes \<Rightarrow> int \<Rightarrow> book_text \<Rightarrow> bool" where
  "holds_book m start t \<longleftrightarrow> stands m start (globals_bytes t) \<and>
     list_all2 (\<lambda>(name, off) s. stands m (start + off) (part_bytes s)) (text_sheets t) (parts t)"

definition book_ok :: "int \<times> int \<Rightarrow> book \<Rightarrow> book_text \<Rightarrow> bool" where
  "book_ok cc f t \<longleftrightarrow> HH_ok (book_made t) \<and> length (book_rest t) \<le> 12 \<and> list_all (grec_ok cc) (globals t) \<and>
     rbind (rfold grec_formats (globals t) start_formats) xf_epilogue = Inr f \<and> list_all (part_ok (text_env t f)) (parts t)"

lemma load_book_reads:
  assumes "default_options opts" and "book_ok cc f t" and "holds_book m start t"
  shows "\<exists>b. load_book opts (m, start) = Inr b \<and> sheet_names b = map fst (text_sheets t) \<and>
    datemode b = fold grec_mode (globals t) 0 \<and> fmts b = f \<and>
    list_all2 (\<lambda>sh s. shows_table sh (sheet_puts (text_env t f) (part_text s))) (sheet_list b) (parts t)"
proof -
  let ?env = "env_of opts m start"
  let ?bof = "bof_bytes XL_WORKBOOK_GLOBALS (book_made t) (book_rest t)" let ?pos = "start + int (length ?bof)"
  have opt: "encoding_override ?env = None" "\<not> opt_formatting_info ?env" "\<not> opt_ragged_rows ?env"
    using assms(1) by (simp_all add: default_options_def env_of_def)
  have env: "wmem ?env = m" "wbase ?env = start" by (simp_all add: env_of_def)
  have ok: "HH_ok (book_made t)" "length (book_rest t) \<le> 12" "list_all (grec_ok cc) (globals t)"
    "rbind (rfold grec_formats (globals t) start_formats) xf_epilogue = Inr f" "list_all (part_ok (text_env t f)) (parts t)"
    using assms(2) unfolding book_ok_def by blast+
  have st: "stands m start (globals_bytes t)" using assms(3) by (simp add: holds_book_def)
  then obtain r where h: "0 \<le> start" "drop (nat start) m = ?bof @ concat (map grec_bytes (globals t)) @ record_bytes XL_EOF [] @ r"
    using stands_drop [OF st] by (auto simp: globals_bytes_def stands_def)
  have bof: "getbof m start XL_WORKBOOK_GLOBALS = Inr (80, ?pos)" using getbof_reads [OF h ok(1,2)] by simp
  have "0 \<le> ?pos" using h(1) by simp
  from parse_globals_reads [OF opt(1,2) ok(3,4) this, of r] drop_further [OF h] env(1)
  obtain b where b: "parse_globals ?env ?pos (new_book ?env 80) = Inr b" "sees_all ?env cc (globals t) (new_book ?env 80) b" "fmts b = f"
    by auto
  from b(2) have p: "plain_book cc b" "sheet_names b = map fst (text_sheets t)" "sh_abs_posn b = map (\<lambda>(name, off). off + start) (text_sheets t)"
    "wb_strings b = fold grec_strings (globals t) []" "datemode b = fold grec_mode (globals t) 0" "sheet_list b = []"
    by (simp_all add: sees_all_def text_sheets_def new_book_def env_of_def)
  have l: "list_all2 (\<lambda>(name, off) s. stands m (start + off) (part_bytes s)) (text_sheets t) (parts t)"
    using assms(3) by (simp add: holds_book_def)
  have len: "length (sheet_names b) = length (parts t)" using list_all2_lengthD [OF l] p(2) by simp
  have "list_all2 (\<lambda>pos s. stands (wmem ?env) pos (part_bytes s)) (drop 0 (sh_abs_posn b)) (parts t)"
    using l by (simp add: p(3) env list_all2_map1 case_prod_unfold add.commute)
  moreover have "cell_env (wb_strings b) (xf_index_to_xl_type_map (fmts b)) = text_env t f" by (simp add: text_env_def p(4) b(3))
  ultimately obtain c shs where g: "rfold (get_sheet ?env) [0..<0 + length (parts t)] b = Inr (b\<lparr>wb_countries := c, sheet_list := shs\<rparr>)"
    "list_all2 (\<lambda>sh s. shows_table sh (sheet_puts (text_env t f) (part_text s))) shs (parts t)"
    using get_sheets_from [OF p(1) opt(3), of 0 "parts t"] ok(5) len p(2,3,6) by auto
  have "get_sheets ?env b = Inr (b\<lparr>wb_countries := c, sheet_list := shs\<rparr>)" using g(1) len by (simp add: get_sheets_def)
  then have "load_book opts (m, start) = Inr (b\<lparr>wb_countries := c, sheet_list := shs\<rparr>)"
    using bof b(1) by (simp add: load_book_def load_globals_def SUPPORTED_VERSIONS_def Let_def)
  then show ?thesis using g(2) p(2,5) b(3) by (intro exI [of _ "b\<lparr>wb_countries := c, sheet_list := shs\<rparr>"]) simp
qed

text \<open>Reading the sheets on demand gives those that reading them at once gives.\<close>

lemma demand_sheets_all:
  "rfold (get_sheet env) ks b = Inr b' \<Longrightarrow> demand_sheets env ks b = (drop (length (sheet_list b)) (sheet_list b'), None) \<and>
   length (sheet_list b') = length (sheet_list b) + length ks \<and> take (length (sheet_list b)) (sheet_list b') = sheet_list b"
proof (induction ks arbitrary: b)
  case (Cons k ks)
  then obtain b1 where g: "get_sheet env k b = Inr b1" "rfold (get_sheet env) ks b1 = Inr b'" by auto
  then obtain sh where l: "sheet_list b1 = sheet_list b @ [sh]" by (auto simp: get_sheet_def)
  note IH = Cons.IH [OF g(2), unfolded l]
  let ?n = "length (sheet_list b)"
  have t: "take (Suc ?n) (sheet_list b') = sheet_list b @ [sh]" and len: "?n < length (sheet_list b')" using IH by auto
  from t len have "take ?n (sheet_list b') = sheet_list b" "sheet_list b' ! ?n = sh"
    by (simp_all add: take_Suc_conv_app_nth)
  moreover from len have "drop ?n (sheet_list b') = sheet_list b' ! ?n # drop (Suc ?n) (sheet_list b')" by (rule Cons_nth_drop_Suc [symmetric])
  ultimately show ?case using IH g(1) l by simp
qed simp

text \<open>A file that holds a workbook is no ZIP file.\<close>

lemma book_not_zip:
  assumes "biff2_8_load lower depth file = Some (Inr (m, start))" and "holds_book m start t"
  shows "py_slice file 0 4 \<noteq> [0x50, 0x4B, 3, 4]"
proof
  assume z: "py_slice file 0 4 = [0x50, 0x4B, 3, 4]"
  have "py_slice file 0 4 = take 4 (py_slice file 0 8)" by (simp add: py_slice_nonneg min_def)
  then have "py_slice file 0 8 \<noteq> SIGNATURE" using z by (auto simp: SIGNATURE_def)
  then have m: "m = file" "start = 0" using assms(1) by (auto simp: biff2_8_load_def split: if_splits)
  obtain r where "file = globals_bytes t @ r" using assms(2) m stands_drop [of "file" 0 "globals_bytes t"] by (auto simp: holds_book_def)
  moreover have "le_bytes 2 n = [word_of_int n, word_of_int (n div 256)]" for n by (simp add: eval_nat_numeral)
  ultimately have "take 1 file = [9]" by (simp add: globals_bytes_def bof_bytes_def record_bytes_def HH_bytes_def)
  then have "take 1 (py_slice file 0 4) = [9]" by (simp add: py_slice_nonneg min_def)
  then show False using z by simp
qed

lemma open_workbook_reads:
  assumes "biff2_8_load lower depth file = Some (Inr (m, start))" and "default_options opts" and "book_ok cc f t"
    and "holds_book m start t"
  shows "\<exists>b. open_workbook lower depth opts file = Some (Inr b) \<and> sheet_names b = map fst (text_sheets t) \<and>
    datemode b = fold grec_mode (globals t) 0 \<and>
    list_all2 (\<lambda>sh s. shows_table sh (sheet_puts (text_env t f) (part_text s))) (sheet_list b) (parts t)"
  using load_book_reads [OF assms(2-4)] book_not_zip [OF assms(1,4)] assms(1)
  by (auto simp: open_workbook_def open_workbook_xls_def stream_res_def)

text \<open>
  C6: opening the file of a workbook gives the workbook that was written into it. Wherever the stream lies in the
  file and the sheets lie in the stream, whatever records the globals hold besides (formats, date
  mode, country, user, records without meaning to the reader, in any order) and wherever the shared strings
  are cut: the workbook has the named sheets in their order, and every sheet is the table of the cells written into it.
\<close>
theorem workbook_reads:
  assumes "biff2_8_load lower depth file = Some (Inr (m, start))" and "default_options opts" and "book_ok cc f t"
    and "holds_book m start t"
  shows "\<exists>b. open_workbook lower depth opts file = Some (Inr b) \<and> sheet_names b = map fst (text_sheets t) \<and>
    datemode b = fold grec_mode (globals t) 0 \<and>
    map (\<lambda>sh. cell_values (cells sh)) (sheet_list b) = map (\<lambda>s. table_of (sheet_puts (text_env t f) (part_text s))) (parts t)"
proof -
  have table: "list_all2 (\<lambda>sh s. shows_table sh (puts s)) shs ss \<Longrightarrow> map (\<lambda>sh. cell_values (cells sh)) shs = map (\<lambda>s. table_of (puts s)) ss"
    for puts shs and ss :: "sheet_part list"
    by (induction rule: list_all2_induct) (simp_all add: shows_table_def)
  from open_workbook_reads [OF assms] show ?thesis by (elim exE conjE) (intro exI conjI, assumption+, rule table)
qed

text \<open>A file that is the stream itself: one sheet, with a text of two characters that is cut in the table, and a number.\<close>

definition small_globals :: "grec list" where
  "small_globals =
     [GCodepage, GUser (False, [0x41]) [32], GDateMode 1, GSkip 0x3d [1, 2], GSheet (False, [0x53]) 0 0 79,
      GStrings [1, 0, 0, 0] [\<lparr>pieces = [(False, [0x74]), (True, [0x4E2D])], runs = [], phonetic = None, pho_cut = None\<rparr>]]"

definition small_part :: sheet_part where
  "small_part = \<lparr>made = (0, 0), bof_rest = [],
     part_text = \<lparr>front = [], dims = None, body = [SShared (0, 0, 0) 0, SRk (0, 1, 0) (RkInt 7) False]\<rparr>\<rparr>"

definition small_book :: book_text where
  "small_book = \<lparr>book_made = (0, 0), book_rest = [], globals = small_globals, parts = [small_part]\<rparr>"

definition small_file :: bytes where
  "small_file =
     [9, 8, 8, 0, 0, 6, 5, 0, 0, 0, 0, 0,
      66, 0, 2, 0, 176, 4,
      92, 0, 5, 0, 1, 0, 0, 65, 32,
      34, 0, 2, 0, 1, 0,
      61, 0, 2, 0, 1, 2,
      133, 0, 9, 0, 79, 0, 0, 0, 0, 0, 1, 0, 83,
      252, 0, 12, 0, 1, 0, 0, 0, 1, 0, 0, 0, 2, 0, 0, 116,
      60, 0, 3, 0, 1, 45, 78,
      10, 0, 0, 0] @
     [9, 8, 8, 0, 0, 6, 16, 0, 0, 0, 0, 0,
      253, 0, 10, 0, 0, 0, 0, 0, 0, 0, 0, 0, 0, 0,
      126, 2, 10, 0, 0, 0, 1, 0, 0, 0, 30, 0, 0, 0,
      10, 0, 0, 0]"

lemma small_holds: "holds_book small_file 0 small_book"
proof -
  have le: "le_bytes 1 n = [word_of_int n]" "le_bytes 2 n = [word_of_int n, word_of_int (n div 256)]"
    "le_bytes 4 n = [word_of_int n, word_of_int (n div 256), word_of_int (n div 256 div 256), word_of_int (n div 256 div 256 div 256)]" for n
    by (simp_all add: eval_nat_numeral)
  note records = record_bytes_def HH_bytes_def le record_codes continued_def XL_CONTINUE_def bof_bytes_def
  have sst: "sst_layout [1, 0, 0, 0] [\<lparr>pieces = [(False, [0x74]), (True, [0x4E2D])], runs = [], phonetic = None, pho_cut = None\<rparr>]
      = ([1, 0, 0, 0, 1, 0, 0, 0, 2, 0, 0, 116], [[1, 45, 78]])"
    by code_simp
  have "globals_bytes small_book = take 79 small_file"
    by (simp add: globals_bytes_def small_book_def small_globals_def small_file_def grec_bytes_def grec_tail_def sst records
        counted_text_def text_bytes_def width_flag_def piece_bytes_def XL_WORKBOOK_GLOBALS_def)
  then have "stands small_file 0 (globals_bytes small_book)" by (simp add: stands_def small_file_def)
  moreover have "part_bytes small_part = drop 79 small_file"
    by (simp add: part_bytes_def small_part_def small_file_def sheet_bytes_def dims_bytes_def records XL_WORKSHEET_def
        place_bytes_def rk_bytes_def)
  then have "stands small_file 79 (part_bytes small_part)" by (simp add: stands_def small_file_def)
  ultimately show ?thesis
    by (simp add: holds_book_def) (simp add: small_book_def small_globals_def text_sheets_def grec_sheets_def)
qed

lemma small_ok: "book_ok (0, 0) start_formats small_book"
proof -
  have codes: "0x3d \<notin> set global_codes" by (simp add: global_codes_def record_codes XL_FORMAT_def XL_CONTINUE_def)
  have e: "entry_ok \<lparr>pieces = [(False, [0x74]), (True, [0x4E2D])], runs = [], phonetic = None, pho_cut = None\<rparr>"
    by (simp add: entry_ok_def entry_text_def pho_bytes_def text_piece_ok_def byte_ok_def u16_ok_def)
  have sst: "sst_layout [1, 0, 0, 0] [\<lparr>pieces = [(False, [0x74]), (True, [0x4E2D])], runs = [], phonetic = None, pho_cut = None\<rparr>]
      = ([1, 0, 0, 0, 1, 0, 0, 0, 2, 0, 0, 116], [[1, 45, 78]])"
    by code_simp
  have "list_all (grec_ok (0, 0)) small_globals"
    by (simp add: small_globals_def grec_ok_def grec_fits_def grec_tail_def codes e sst text_piece_ok_def byte_ok_def u16_ok_def
        counted_text_def text_bytes_def piece_bytes_def)
  moreover have "rbind (rfold grec_formats small_globals start_formats) xf_epilogue = Inr start_formats"
    by (simp add: small_globals_def grec_formats_def xf_epilogue_def start_formats_def)
  moreover have "part_ok (text_env small_book start_formats) small_part"
    by (simp add: part_ok_def small_part_def text_env_def cell_env_def small_book_def small_globals_def grec_strings_def start_formats_def
        sheet_text_ok_def dims_ok_def sheet_puts_def place_ok_def u16_ok_def HH_ok_def put_ok_def at_place_def)
  ultimately show ?thesis by (simp add: book_ok_def) (simp add: small_book_def HH_ok_def u16_ok_def)
qed

lemma workbook_reads_witness:
  "\<exists>b. open_workbook id 0 \<lparr>o_encoding = None, o_formatting_info = False, o_ragged_rows = False, o_codec = \<lambda>_ _. Inl ValueError\<rparr> small_file
      = Some (Inr b) \<and> sheet_names b = [[0x53]] \<and> datemode b = 1 \<and>
    map (\<lambda>sh. cell_values (cells sh)) (sheet_list b) = [[[PUni [CHR ''t'', CHR 0xE4, CHR 0xB8, CHR 0xAD], PFloat 7]]]"
proof -
  have raw: "biff2_8_load id 0 small_file = Some (Inr (small_file, 0))"
    by (simp add: biff2_8_load_def small_file_def py_slice_nonneg SIGNATURE_def)
  have utf: "utf_8 [0x74, 0x4E2D] = [CHR ''t'', CHR 0xE4, CHR 0xB8, CHR 0xAD]" by code_simp
  have puts: "sheet_puts (text_env small_book start_formats) (part_text small_part) =
      [(0, 0, Some XL_CELL_TEXT, PUni [CHR ''t'', CHR 0xE4, CHR 0xB8, CHR 0xAD], 0), (0, 1, None, PFloat 7, 0)]"
    using utf by (simp add: sheet_puts_def small_part_def at_place_def text_env_def cell_env_def small_book_def small_globals_def
        grec_strings_def entry_text_def text_value_def rk_value_def)
  have t: "table_of (sheet_puts (text_env small_book start_formats) (part_text small_part)) =
      [[PUni [CHR ''t'', CHR 0xE4, CHR 0xB8, CHR 0xAD], PFloat 7]]"
    unfolding puts by (simp add: table_of_def rows_of_def cols_of_def last_value_def upt_rec)
  have n: "map fst (text_sheets small_book) = [[0x53]]" "fold grec_mode (globals small_book) 0 = 1" "parts small_book = [small_part]"
    by (simp_all add: small_book_def small_globals_def text_sheets_def grec_sheets_def grec_mode_def)
  have "default_options \<lparr>o_encoding = None, o_formatting_info = False, o_ragged_rows = False, o_codec = \<lambda>_ _. Inl ValueError\<rparr>"
    by (simp add: default_options_def)
  from workbook_reads [OF raw this small_ok small_holds] show ?thesis by (simp add: n t)
qed

end
