(* ===== verification/ConvertBook.thy ===== *)
theory ConvertBook
  imports XlBookProps Xls2LuaProps
begin

text \<open>
  The converter of the designers' workbooks (\<open>Xls2Lua\<close>) over the reader of \<open>.xls\<close> files (\<open>XlBook\<close>): the parameter
  \<open>open_workbook\<close> of the one is the function of the other, from the bytes of the files on. What comes out is what
  the converter makes of the tables that were written into the files.
\<close>

section \<open>Workbooks as the converter sees them\<close>

text \<open>An empty cell holds the empty text of bytes, which is equal to the empty text of characters.\<close>

definition unicode_cell :: "pyval \<Rightarrow> pyval" where
  "unicode_cell v = (case v of PStr s \<Rightarrow> PUni s | _ \<Rightarrow> v)"

definition sheet_rows :: "XlSheet.sheet \<Rightarrow> pyval list list res" where
  "sheet_rows sh =
     rmap (\<lambda>rownum. rbind (row_values (XlSheet.cells sh) (int rownum) 0 None) (\<lambda>row. Inr (map unicode_cell row)))
       [0..<nrows (XlSheet.cells sh)]"

definition book_sheets :: "wbook \<Rightarrow> workbook res" where
  "book_sheets b =
     rmap (\<lambda>(name, sh). rbind (sheet_rows sh) (\<lambda>rows. Inr (utf_8 name, rows))) (zip (sheet_names b) (sheet_list b))"

text \<open>\<open>files\<close> are the files of the disk; a reading that does not end is no result.\<close>

definition open_xls :: "(uname \<Rightarrow> uname) \<Rightarrow> nat \<Rightarrow> options \<Rightarrow> (string \<Rightarrow> bytes option) \<Rightarrow> open_fun" where
  "open_xls lower depth opts files name =
     (case files name of
        None \<Rightarrow> Inl OSError
      | Some file \<Rightarrow> (case open_workbook lower depth opts file of
          None \<Rightarrow> Inl Unsupported
        | Some r \<Rightarrow> rbind r book_sheets))"

text \<open>\<open>excel_sheets\<close>: the sheets one after the other, with rows as long as their last cells; and the values of a row.\<close>

definition excel_sheets :: "(uname \<Rightarrow> uname) \<Rightarrow> nat \<Rightarrow> options \<Rightarrow> bytes \<Rightarrow> (XlSheet.sheet list \<times> pyerr option) res option" where
  "excel_sheets lower depth opts file =
     stream_res (open_on_demand lower depth (opts\<lparr>o_ragged_rows := True\<rparr>) file) (\<lambda>(env, b).
     Some (Inr (demand_sheets env [0..<length (sheet_names b)] b)))"

definition sheet_row_values :: "XlSheet.sheet \<Rightarrow> int \<Rightarrow> pyval list res" where
  "sheet_row_values sh rowx =
     rbind (row_len (XlSheet.cells sh) rowx) (\<lambda>n. rmap (\<lambda>colx. XlGrid.cell_value (XlSheet.cells sh) rowx (int colx)) [0..<n])"

section \<open>The rows of a table\<close>

text \<open>The values of a row one by one are the row.\<close>

lemma sheet_row_values_row:
  assumes "i < length (cell_values (XlSheet.cells sh))"
  shows "sheet_row_values sh (int i) = Inr (cell_values (XlSheet.cells sh) ! i)"
proof -
  let ?g = "XlSheet.cells sh"
  have "rmap (\<lambda>colx. XlGrid.cell_value ?g (int i) (int colx)) [0..<length (cell_values ?g ! i)]
      = Inr (map (\<lambda>c. cell_values ?g ! i ! c) [0..<length (cell_values ?g ! i)])"
    using assms by (intro rmap_total) (simp add: XlGrid.cell_value_def py_nth_def)
  then show ?thesis using assms by (simp add: sheet_row_values_def row_len_def py_nth_def map_nth)
qed

lemma excel_sheets_all:
  assumes "py_slice file 0 4 \<noteq> [0x50, 0x4B, 3, 4]" and "biff2_8_load lower depth file = Some (Inr x)"
    and "load_book (opts\<lparr>o_ragged_rows := True\<rparr>) x = Inr b"
    and "\<And>env b. load_globals (opts\<lparr>o_ragged_rows := True\<rparr>) x = Inr (env, b) \<Longrightarrow> sheet_list b = []"
  shows "excel_sheets lower depth opts file = Some (Inr (sheet_list b, None))"
proof -
  obtain env b0 where g: "load_globals (opts\<lparr>o_ragged_rows := True\<rparr>) x = Inr (env, b0)" "get_sheets env b0 = Inr b"
    using assms(3) by (auto simp: load_book_def)
  from demand_sheets_all [OF g(2) [unfolded get_sheets_def]] assms(4) [OF g(1)] show ?thesis
    using assms(1,2) g(1) by (simp add: excel_sheets_def open_on_demand_def stream_res_def)
qed

lemma all_row_values:
  assumes "i < length (cell_values g)"
  shows "row_values g (int i) 0 None = Inr (cell_values g ! i)"
  using assms by (simp add: row_values_def py_nth_def slice_opt_def slice_bound_def)

definition table_rows :: "put list \<Rightarrow> pyval list list" where
  "table_rows puts = map (map unicode_cell) (table_of puts)"

lemma sheet_rows_table:
  assumes "shows_table sh puts"
  shows "sheet_rows sh = Inr (table_rows puts)"
proof -
  have n: "nrows (XlSheet.cells sh) = length (table_of puts)" and v: "cell_values (XlSheet.cells sh) = table_of puts"
    using assms by (simp_all add: shows_table_def table_of_def)
  have "sheet_rows sh = Inr (map (\<lambda>i. map unicode_cell (table_of puts ! i)) [0..<length (table_of puts)])"
    unfolding sheet_rows_def n by (rule rmap_total) (simp add: all_row_values v)
  also have "map (\<lambda>i. map unicode_cell (table_of puts ! i)) [0..<length (table_of puts)] = table_rows puts"
    by (rule nth_equalityI) (simp_all add: table_rows_def)
  finally show ?thesis .
qed

lemma book_sheets_tables:
  assumes "list_all2 (\<lambda>sh s. shows_table sh (puts s)) shs ss" and "length names = length ss"
  shows "rmap (\<lambda>(name, sh). rbind (sheet_rows sh) (\<lambda>rows. Inr (utf_8 name, rows))) (zip names shs)
    = Inr (map2 (\<lambda>name s. (utf_8 name, table_rows (puts s))) names ss)"
  using assms
proof (induction arbitrary: names rule: list_all2_induct)
  case (Cons sh shs s ss)
  then obtain name names' where "names = name # names'" by (cases names) auto
  with Cons show ?case by (simp add: sheet_rows_table del: rbind_eq_Inr)
qed simp

section \<open>The converter over files\<close>

text \<open>
  C5: converting a file writes what the converter makes of the tables in it: for every workbook laid out in a
  file, whatever its records and cuts, the converter runs over its sheets in their order, with their names and with
  the rows of cells that were written into them, and nothing else of the file matters.
\<close>
theorem file_converted:
  assumes "files xls_name = Some file" and "biff2_8_load lower depth file = Some (Inr (m, start))"
    and "default_options opts" and "book_ok cc f t" and "holds_book m start t"
  shows "convet (open_xls lower depth opts files) ev enum_tbl xls_name output st =
    run_jobs (convert_sheet ev enum_tbl xls_name output)
      (map2 (\<lambda>(name, off) s. (utf_8 name, table_rows (sheet_puts (text_env t f) (part_text s)))) (text_sheets t) (parts t)) st"
proof -
  obtain b where b: "open_workbook lower depth opts file = Some (Inr b)" "sheet_names b = map fst (text_sheets t)"
    "list_all2 (\<lambda>sh s. shows_table sh (sheet_puts (text_env t f) (part_text s))) (sheet_list b) (parts t)"
    using open_workbook_reads [OF assms(2-5)] by blast
  have "length (text_sheets t) = length (parts t)" using assms(5) by (auto simp: holds_book_def dest: list_all2_lengthD)
  then have "book_sheets b = Inr (map2 (\<lambda>name s. (utf_8 name, table_rows (sheet_puts (text_env t f) (part_text s)))) (map fst (text_sheets t)) (parts t))"
    using book_sheets_tables [OF b(3), of "map fst (text_sheets t)"] by (simp add: book_sheets_def b(2))
  moreover have "map2 (\<lambda>name s. (utf_8 name, table_rows (sheet_puts (text_env t f) (part_text s)))) (map fst (text_sheets t)) (parts t)
      = map2 (\<lambda>(name, off) s. (utf_8 name, table_rows (sheet_puts (text_env t f) (part_text s)))) (text_sheets t) (parts t)"
    by (simp add: zip_map1 case_prod_unfold o_def)
  ultimately show ?thesis using assms(1) b(1) by (simp add: convet_def open_xls_def)
qed

text \<open>A workbook with one sheet of four rows becomes one file of Lua.\<close>

definition hero_label :: "nat \<Rightarrow> nat \<Rightarrow> string \<Rightarrow> srec" where
  "hero_label r c s = SLabel (r, c, 0) (False, map of_char s)"

definition hero_part :: sheet_part where
  "hero_part = \<lparr>made = (0, 0), bof_rest = [],
     part_text = \<lparr>front = [], dims = Some [0, 0, 0, 0, 0, 0, 0, 0, 0, 0, 0, 0, 0, 0],
       body = [hero_label 0 0 ''int@key'', hero_label 0 1 ''string'', hero_label 1 0 ''id'', hero_label 1 1 ''name'',
         hero_label 2 0 ''id'', hero_label 2 1 ''name'', SRk (3, 0, 0) (RkInt 1) False, hero_label 3 1 ''a'']\<rparr>\<rparr>"

definition hero_book :: book_text where
  "hero_book = \<lparr>book_made = (0, 0), book_rest = [], globals = [GCodepage, GSheet (False, map of_char ''hero'') 0 0 38], parts = [hero_part]\<rparr>"

definition hero_file :: bytes where
  "hero_file =
     [9, 8, 8, 0, 0, 6, 5, 0, 0, 0, 0, 0,
      66, 0, 2, 0, 176, 4,
      133, 0, 12, 0, 38, 0, 0, 0, 0, 0, 4, 0, 104, 101, 114, 111,
      10, 0, 0, 0] @
     [9, 8, 8, 0, 0, 6, 16, 0, 0, 0, 0, 0,
      0, 2, 14, 0, 0, 0, 0, 0, 0, 0, 0, 0, 0, 0, 0, 0, 0, 0,
      4, 2, 16, 0, 0, 0, 0, 0, 0, 0, 7, 0, 0, 105, 110, 116, 64, 107, 101, 121,
      4, 2, 15, 0, 0, 0, 1, 0, 0, 0, 6, 0, 0, 115, 116, 114, 105, 110, 103,
      4, 2, 11, 0, 1, 0, 0, 0, 0, 0, 2, 0, 0, 105, 100,
      4, 2, 13, 0, 1, 0, 1, 0, 0, 0, 4, 0, 0, 110, 97, 109, 101,
      4, 2, 11, 0, 2, 0, 0, 0, 0, 0, 2, 0, 0, 105, 100,
      4, 2, 13, 0, 2, 0, 1, 0, 0, 0, 4, 0, 0, 110, 97, 109, 101,
      126, 2, 10, 0, 3, 0, 0, 0, 0, 0, 6, 0, 0, 0,
      4, 2, 10, 0, 3, 0, 1, 0, 0, 0, 1, 0, 0, 97,
      10, 0, 0, 0]"

lemma hero_holds: "holds_book hero_file 0 hero_book"
proof -
  have le: "le_bytes 1 n = [word_of_int n]" "le_bytes 2 n = [word_of_int n, word_of_int (n div 256)]"
    "le_bytes 4 n = [word_of_int n, word_of_int (n div 256), word_of_int (n div 256 div 256), word_of_int (n div 256 div 256 div 256)]" for n
    by (simp_all add: eval_nat_numeral)
  note records = record_bytes_def HH_bytes_def le record_codes continued_def bof_bytes_def
  have "globals_bytes hero_book = take 38 hero_file"
    by (simp add: globals_bytes_def hero_book_def hero_file_def grec_bytes_def grec_tail_def records
        counted_text_def width_flag_def piece_bytes_def XL_WORKBOOK_GLOBALS_def)
  then have "stands hero_file 0 (globals_bytes hero_book)" by (simp add: stands_def hero_file_def)
  moreover have "part_bytes hero_part = drop 38 hero_file"
    by (simp add: part_bytes_def hero_part_def hero_label_def hero_file_def sheet_bytes_def dims_bytes_def records XL_WORKSHEET_def
        place_bytes_def rk_bytes_def text_bytes_def width_flag_def piece_bytes_def)
  then have "stands hero_file 38 (part_bytes hero_part)" by (simp add: stands_def hero_file_def)
  ultimately show ?thesis
    by (simp add: holds_book_def) (simp add: hero_book_def text_sheets_def grec_sheets_def)
qed

lemma hero_ok: "book_ok (0, 0) start_formats hero_book"
proof -
  have "part_ok (text_env hero_book start_formats) hero_part"
    by (simp add: part_ok_def hero_part_def hero_label_def text_env_def cell_env_def hero_book_def grec_strings_def start_formats_def
        sheet_text_ok_def dims_ok_def sheet_puts_def place_ok_def u16_ok_def HH_ok_def put_ok_def at_place_def text_piece_ok_def byte_ok_def)
  moreover have "list_all (grec_ok (0, 0)) (globals hero_book)"
    by (simp add: hero_book_def grec_ok_def grec_fits_def grec_tail_def text_piece_ok_def byte_ok_def counted_text_def piece_bytes_def)
  moreover have "rbind (rfold grec_formats (globals hero_book) start_formats) xf_epilogue = Inr start_formats"
    by (simp add: hero_book_def grec_formats_def xf_epilogue_def start_formats_def)
  ultimately show ?thesis by (simp add: book_ok_def) (simp add: hero_book_def HH_ok_def u16_ok_def)
qed

definition hero_text :: string where
  "hero_text = ''-- ./excel/hero.xls'' @ nl @ ''return {'' @ nl @ nl @ ''    [1] = {'' @ nl @ ''        id = 1,'' @ nl
     @ ''        name = \"a\",'' @ nl @ ''    },'' @ nl @ nl @ ''}'' @ nl"

lemma file_converted_witness:
  "convet (open_xls id 0 \<lparr>o_encoding = None, o_formatting_info = False, o_ragged_rows = False, o_codec = \<lambda>_ _. Inl ValueError\<rparr>
      [''./excel/hero.xls'' \<mapsto> hero_file]) (\<lambda>s. Inl NameError) [] ''./excel/hero.xls'' ''luadata/'' \<lparr>row_keys = [], lua_files = []\<rparr>
    = (\<lparr>row_keys = [(''./excel/hero.xlshero'', ''id'')], lua_files = [(''luadata/hero.lua'', hero_text)]\<rparr>, None)"
proof -
  let ?opts = "\<lparr>o_encoding = None, o_formatting_info = False, o_ragged_rows = False, o_codec = \<lambda>_ _. Inl ValueError\<rparr>"
  let ?rows = "[[PUni ''int@key'', PUni ''string''], [PUni ''id'', PUni ''name''], [PUni ''id'', PUni ''name''], [PFloat 1, PUni ''a'']]"
  have disk: "[''./excel/hero.xls'' \<mapsto> hero_file] ''./excel/hero.xls'' = Some hero_file" by simp
  have raw: "biff2_8_load id 0 hero_file = Some (Inr (hero_file, 0))"
    by (simp add: biff2_8_load_def hero_file_def py_slice_nonneg SIGNATURE_def)
  have opts: "default_options ?opts" by (simp add: default_options_def)
  have ch: "utf8_char n = [char_of n]" if "n < 0x80" for n using that by (simp add: utf8_char_def)
  have utf: "utf_8 (map of_char ''hero'') = ''hero''" by code_simp
  have puts: "sheet_puts (text_env hero_book start_formats) (part_text hero_part) =
      [(0, 0, Some XL_CELL_TEXT, PUni ''int@key'', 0), (0, 1, Some XL_CELL_TEXT, PUni ''string'', 0),
       (1, 0, Some XL_CELL_TEXT, PUni ''id'', 0), (1, 1, Some XL_CELL_TEXT, PUni ''name'', 0),
       (2, 0, Some XL_CELL_TEXT, PUni ''id'', 0), (2, 1, Some XL_CELL_TEXT, PUni ''name'', 0),
       (3, 0, None, PFloat 1, 0), (3, 1, Some XL_CELL_TEXT, PUni ''a'', 0)]"
    by (simp add: sheet_puts_def hero_part_def hero_label_def at_place_def text_value_def ch rk_value_def)
      code_simp
  have rows: "table_rows (sheet_puts (text_env hero_book start_formats) (part_text hero_part)) = ?rows"
    unfolding puts by (simp add: table_rows_def table_of_def rows_of_def cols_of_def last_value_def upt_rec unicode_cell_def)
  have sheets: "map2 (\<lambda>(name, off) s. (utf_8 name, table_rows (sheet_puts (text_env hero_book start_formats) (part_text s))))
      (text_sheets hero_book) (parts hero_book) = [(''hero'', ?rows)]"
    using rows utf by (simp add: hero_book_def text_sheets_def grec_sheets_def)
  have "run_jobs (convert_sheet (\<lambda>s. Inl NameError) [] ''./excel/hero.xls'' ''luadata/'') [(''hero'', ?rows)] \<lparr>row_keys = [], lua_files = []\<rparr>
      = (\<lparr>row_keys = [(''./excel/hero.xlshero'', ''id'')], lua_files = [(''luadata/hero.lua'', hero_text)]\<rparr>, None)"
    by code_simp
  then show ?thesis unfolding file_converted [of "[''./excel/hero.xls'' \<mapsto> hero_file]" "''./excel/hero.xls''", OF disk raw opts hero_ok hero_holds] sheets .
qed

end
