(* ===== verification/Spec2Isabelle.thy ===== *)
theory Spec2Isabelle
  imports HefuCs ShowId FormatNumbers Xls2LuaProps XlDate CompDocProps CalPay ServerTools Packaging Codes Reports
    XlNames XlGrid XlStringsProps XlFormatsProps XlSheet XlSheetProps XlBook XlBookProps ConvertBook
begin

text \<open>
  Verification of the Python tools of a game server (\<open>src/server/\<close>), and of the library code they rest on.

  The program. The game server itself is written in Lua and C. Around it stand Python scripts: those that
  join two servers into one (\<open>shell/db/\<close>), repair or count what is in the database (\<open>shell/\<close>), number
  the network messages, build packages, and convert the designers' workbooks into Lua tables
  (\<open>daobiao/\<close>). They run on a Python 2.7 distribution which the repository carries, with the package
  \<open>xlrd\<close> for \<open>.xls\<close> files; the modules of it that the scripts' results depend on are modelled too.

  Reading and writing of a model. A value of the language is a \<open>pyval\<close>, a dictionary an association list
  in its order of iteration, a number of the language \<open>int\<close> or (for a double) \<open>rat\<close>; a field of a binary
  file is taken from a list of \<open>8 word\<close> with the width and sign of its format. A function that can
  raise an exception returns \<open>pyerr + 'a\<close>; every \<open>raise\<close>, failing lookup and failing assertion is a
  value of it. A loop is a fold over what it runs through (\<open>rfold\<close>, \<open>rmap\<close>) or a recursive function
  with a measure; one that may never end is a \<open>partial_function\<close> or returns an option. A script that talks to the
  database or the shell returns the list of its commands. Code outside the repository is a parameter:
  the BSON coder, MD5, the ZIP writer, the DES cipher, the core of the random generator, \<open>eval\<close>, the database
  cursor and the database's updates, the output of shell commands, the clock. What is relied on of it is a hypothesis with its name.

  Theories and the files they model.
  \<^item> Ground: \<open>Prelude\<close> (results, loops, the interface \<open>dict_ops\<close> of a dictionary with its laws), \<open>PyStr\<close>,
    \<open>PyRe\<close>, \<open>PyValue\<close> (interprets \<open>dict_ops\<close> for dictionaries up to the equality of keys), \<open>PyOps\<close>, \<open>PyStruct\<close>
    (slices and the formats of \<open>struct\<close>), \<open>Mongo\<close>, \<open>Trace\<close>, \<open>FileSys\<close> (the file system as a map).
  \<^item> \<open>DbData\<close>: \<open>shell/pyutils/dbdata.py\<close>. A value written to the database is a document of BSON, and comes back.
  \<^item> \<open>Tables\<close>, \<open>HefuGlobal\<close>, \<open>HefuRank\<close>, \<open>HefuFiles\<close>, \<open>HefuCs\<close>: \<open>shell/db/\<close>. The joining of two servers.
    A handler of the global collection is a loop that updates the entries of a table; \<open>entry_update\<close> and
    \<open>keyed_relation\<close> are the interface of its body, interpreted for every handler, and give the effect of the
    loop on every key. The dump files and the central database are functions over files and commands.
  \<^item> \<open>FixBug\<close>: \<open>shell/fix_bug.py\<close>. Repairs: nothing is lost, a second run changes nothing.
  \<^item> \<open>ShowId\<close>: \<open>shell/gen_show_id.py\<close>. The generated numbers are exactly those of the patterns.
  \<^item> \<open>FormatProto\<close>, \<open>FormatNumbers\<close>: \<open>shell/format_proto.py\<close>. The numbering of the messages is injective and keeps
    the old numbers; \<open>fresh_search\<close> is the interface of the search for a free number.
  \<^item> \<open>CalPay\<close>, \<open>ServerTools\<close>, \<open>Reports\<close>: the scripts on payments, server keys, configuration, distribution, reports.
  \<^item> \<open>OsTree\<close>, \<open>Packaging\<close>: \<open>os.walk\<close> and \<open>os.makedirs\<close>; \<open>daobiao/md5zip.py\<close>, \<open>clientzip.py\<close>, \<open>shell/pack.py\<close>.
  \<^item> \<open>PosixPath\<close>, \<open>UrlQuote\<close>, \<open>RandomSample\<close>: \<open>posixpath.py\<close>, \<open>genericpath.py\<close>, \<open>urllib.py\<close>, \<open>random.py\<close> of the
    distribution. \<open>Codes\<close>: \<open>shell/des_encode.py\<close> and \<open>daobiao/create_invitecode.py\<close> on top of them.
  \<^item> \<open>XlsValue\<close>, \<open>Xls2Lua\<close>, \<open>Xls2LuaProps\<close>: \<open>daobiao/xls2lua.py\<close>, from cells to the text of Lua tables,
    which is read back by the lexer of the repository's Lua (\<open>skynet/3rd/lua/llex.c\<close>).
    \<open>ConvertBook\<close>: the same over the bytes of the files.
  \<^item> \<open>CompDoc\<close>, \<open>CompDocProps\<close>: \<open>xlrd/compdoc.py\<close>, the sectors and streams of an \<open>.xls\<close> file. \<open>XlStrings\<close>,
    \<open>XlStringsProps\<close>: \<open>biffh.py\<close> and the records and shared strings of \<open>book.py\<close>; \<open>byte_field\<close> is the interface of
    a field of fixed width, interpreted for the formats in use. \<open>XlFormats\<close>, \<open>XlFormatsProps\<close>:
    \<open>formatting.py\<close>, number and cell formats. \<open>XlGrid\<close>: the cells of \<open>sheet.py\<close>;
    \<open>XlSheet\<close>, \<open>XlSheetProps\<close>: \<open>Sheet.read\<close>, from the records of a sheet to its cells. \<open>XlBook\<close>, \<open>XlBookProps\<close>:
    \<open>book.py\<close> and \<open>xlrd.open_workbook\<close>, from the bytes of a file to its sheets. \<open>XlNames\<close>: the cell names of
    \<open>formula.py\<close>, \<open>book.py\<close> and \<open>xlsx.py\<close>. \<open>XlDate\<close>: \<open>xldate.py\<close>.

  How the parts meet. An \<open>.xls\<close> file is bytes for \<open>open_workbook\<close> (\<open>XlBook\<close>). It takes the stream of the workbook
  from the compound document (\<open>CompDoc\<close>), the records of its globals with the readers of \<open>XlStrings\<close> (the shared
  strings) and \<open>XlFormats\<close> (which cells are dates), and reads every sheet from the position that its record in the
  globals gives (\<open>XlSheet\<close>), into the table of \<open>XlGrid\<close>; \<open>XlDate\<close> reads the dates. \<open>Xls2Lua\<close> starts from finished cells, with the
  opening of a workbook as its parameter; \<open>ConvertBook\<close> puts the function of \<open>XlBook\<close> there. The promises meet in the
  same order: \<open>sst_layout\<close> and \<open>sheet_bytes\<close> are the writers of the shared strings and of one sheet, \<open>holds_book\<close> says
  where the sheets of a workbook stand in a stream, and \<open>file_converted\<close> follows a file to the converter. The merge of the dump files
  (\<open>HefuFiles\<close>) reads documents with \<open>AfterLoad\<close>, applies the merges of \<open>HefuGlobal\<close> and \<open>HefuRank\<close>, and writes them
  with \<open>BeforeSave\<close>.

  Bounds. The recursion of \<open>build_family_tree\<close> has the interpreter's depth limit as its first argument. All
  other recursions are structural or have a measure: the unread bytes (\<open>sst_continued\<close>, \<open>read_records\<close>,
  \<open>global_records\<close>: no record moves the position back), the sectors not
  yet marked (\<open>stream_loop\<close>), the rest of a text. \<open>redraw\<close>, the search for a new invitation code and the
  reading of short streams can run for ever and are functions into an option; when they end is stated with them.

  Not modelled. Message texts, logging and debug output; the order in which CPython iterates over a
  dictionary with new keys (properties speak of lookups); doubles that are infinite or not numbers;
  text encodings other than ASCII, Latin-1, UTF-8 and UTF-16. Of \<open>xlrd\<close>: formula evaluation and with it defined names, drawings, notes and
  hyperlinks, the versions before BIFF5, the files of \<open>.xlsx\<close>; a record of these ends the reading with \<open>Unsupported\<close>. \<open>file_converted\<close>
  and \<open>workbook_reads\<close> are about workbooks of BIFF8 that are opened the way the converter opens them, without formats.
  The converter opens the enumerations on demand; the model reads all their sheets. \<open>shell/gameserver_op.py\<close> does not compile;
  \<open>shell/db/hefu_testcs.py\<close> inserts fixed documents. The rest of the Python distribution, the packages in it, the Lua
  services and the C libraries are not part of this development.
\<close>

end
